(* ===== verification/Prelude.thy ===== *)
theory Prelude
  imports Main "HOL-Library.Word" "HOL-Library.State_Monad" "HOL-Library.Char_ord"
begin

text \<open>
  Shared types and lemmas of the development: the machine integers of the gateway's C++
  code as words, C arrays of bytes and the C strings stored in them, little-endian
  integers (the byte order of the Linux target that CMakeLists.txt builds), and the
  \<open>atoi\<close> and \<open>sprintf("%08d")\<close> routines of the C library that the persistence layer uses
  for its file numbers.  Nothing in this theory is specific to MQTT.
\<close>

type_synonym byte = "8 word"
type_synonym u16 = "16 word"
type_synonym u32 = "32 word"
type_synonym bytes = "8 word list"

named_theorems enum_defs "the numeric values of the C++ enumerators"
named_theorems op_defs "definitions of the persistence operations"
named_theorems run_simps "results of running one operation of the gateway"

text \<open>Running a computation of the state monad, one step at a time.\<close>

lemma run_bind [simp]:
  "run_state (State_Monad.bind m f) s = (case run_state m s of (a, t) \<Rightarrow> run_state (f a) t)"
  by (simp add: State_Monad.bind_def)

lemma run_get [simp]: "run_state State_Monad.get s = (s, s)"
  by (simp add: State_Monad.get_def)

lemma run_set [simp]: "run_state (State_Monad.set t) s = ((), t)"
  by (simp add: State_Monad.set_def)

lemma run_update [simp]: "run_state (State_Monad.update f) s = ((), f s)"
  by (simp add: State_Monad.update_def)

abbreviation ret :: "'a \<Rightarrow> ('s, 'a) state" where
  "ret \<equiv> State_Monad.return"

abbreviation reads :: "('s \<Rightarrow> 'a) \<Rightarrow> ('s, 'a) state" where
  "reads f \<equiv> State_Monad.State (\<lambda>s. (f s, s))"

abbreviation modify :: "('s \<Rightarrow> 's) \<Rightarrow> ('s, unit) state" where
  "modify f \<equiv> State_Monad.update f"

section \<open>Byte arrays and C strings\<close>

definition str :: "string \<Rightarrow> bytes" where
  "str s = map of_char s"

lemma str_simps [simp]:
  "str [] = []" "str (c # cs) = of_char c # str cs" "str (xs @ ys) = str xs @ str ys"
  "length (str s) = length s"
  by (simp_all add: str_def)

text \<open>\<open>memset(0)\<close> followed by a copy: the bytes, padded with zeros to the array's length.\<close>

definition padz :: "nat \<Rightarrow> bytes \<Rightarrow> bytes" where
  "padz n xs = take n (xs @ replicate n 0)"

text \<open>The C string held in an array: the bytes before the first NUL.\<close>

definition cstr :: "bytes \<Rightarrow> bytes" where
  "cstr xs = takeWhile (\<lambda>b. b \<noteq> 0) xs"

text \<open>
  \<open>strcpy\<close> of the C string \<open>src\<close> into the array \<open>dst\<close>: the string and its NUL overwrite
  the front, the rest of the array keeps its bytes.
\<close>

definition strcpy :: "bytes \<Rightarrow> bytes \<Rightarrow> bytes" where
  "strcpy dst src = take (length dst) (src @ [0] @ drop (length src + 1) dst)"

definition no_nul :: "bytes \<Rightarrow> bool" where
  "no_nul xs \<longleftrightarrow> 0 \<notin> set xs"

lemma length_padz [simp]: "length (padz n xs) = n"
  by (simp add: padz_def)

lemma padz_eq: "length xs \<le> n \<Longrightarrow> padz n xs = xs @ replicate (n - length xs) 0"
  by (simp add: padz_def)

lemma padz_full [simp]: "length xs = n \<Longrightarrow> padz n xs = xs"
  by (simp add: padz_def)

lemma padz_Nil [simp]: "padz n [] = replicate n 0"
  by (simp add: padz_def)

lemma length_strcpy [simp]: "length (strcpy dst src) = length dst"
  by (simp add: strcpy_def)

lemma strcpy_zeros: "length src < n \<Longrightarrow> strcpy (replicate n 0) src = padz n src"
  by (simp add: strcpy_def padz_eq) (metis Suc_diff_Suc replicate_Suc)

lemma cstr_no_nul: "no_nul (cstr xs)"
  by (auto simp: cstr_def no_nul_def dest: set_takeWhileD)

lemma no_nul_simps [simp]: "no_nul []" "no_nul (x # xs) \<longleftrightarrow> x \<noteq> 0 \<and> no_nul xs"
  "no_nul (xs @ ys) \<longleftrightarrow> no_nul xs \<and> no_nul ys"
  by (auto simp: no_nul_def)

lemma cstr_append_zero [simp]: "no_nul xs \<Longrightarrow> cstr (xs @ 0 # ys) = xs"
  by (induction xs) (simp_all add: cstr_def)

lemma cstr_ident [simp]: "no_nul xs \<Longrightarrow> cstr xs = xs"
  by (induction xs) (simp_all add: cstr_def)

lemma cstr_replicate [simp]: "cstr (replicate n 0) = []"
  by (cases n) (simp_all add: cstr_def)

lemma cstr_Nil [simp]: "cstr [] = []"
  by (simp add: cstr_def)

lemma cstr_padz [simp]: "no_nul xs \<Longrightarrow> length xs \<le> n \<Longrightarrow> cstr (padz n xs) = xs"
proof (cases "length xs = n")
  case False
  assume *: "no_nul xs" "length xs \<le> n"
  then obtain k where k: "n - length xs = Suc k"
    using False by (metis Suc_diff_Suc le_neq_implies_less)
  show "cstr (padz n xs) = xs"
    using * k by (simp add: padz_eq)
qed simp

lemma length_cstr_le: "length (cstr xs) \<le> length xs"
  by (simp add: cstr_def length_takeWhile_le)

lemma strcpy_cstr: "no_nul src \<Longrightarrow> length src < length dst \<Longrightarrow> cstr (strcpy dst src) = src"
  by (simp add: strcpy_def)

section \<open>Little-endian integers\<close>

lemma unat_byte_bound [simp]: "unat (b :: byte) < 256"
proof -
  have "unat b < 2 ^ LENGTH(8)" by (rule unsigned_less)
  then show ?thesis by simp
qed

lemma unat_u16_bound [simp]: "unat (w :: u16) < 65536"
proof -
  have "unat w < 2 ^ LENGTH(16)" by (rule unsigned_less)
  then show ?thesis by simp
qed

lemma unat_u32_bound [simp]: "unat (w :: u32) < 4294967296"
proof -
  have "unat w < 2 ^ LENGTH(32)" by (rule unsigned_less)
  then show ?thesis by simp
qed

lemma nat_int_mod32: "x < 2 ^ 32 \<Longrightarrow> nat (int x mod 2 ^ 32) = x"
  by (metis mod_less nat_int of_nat_mod of_nat_numeral of_nat_power)

fun le_bytes :: "nat \<Rightarrow> nat \<Rightarrow> bytes" where
  "le_bytes 0 n = []"
| "le_bytes (Suc k) n = of_nat (n mod 256) # le_bytes k (n div 256)"

fun le_nat :: "bytes \<Rightarrow> nat" where
  "le_nat [] = 0"
| "le_nat (b # bs) = unat b + 256 * le_nat bs"

lemma length_le_bytes [simp]: "length (le_bytes k n) = k"
  by (induction k arbitrary: n) auto

lemma unat_byte_of_nat [simp]: "unat (of_nat (n mod 256) :: byte) = n mod 256"
  by (simp add: unat_of_nat)

lemma le_nat_le_bytes: "n < 256 ^ k \<Longrightarrow> le_nat (le_bytes k n) = n"
proof (induction k arbitrary: n)
  case (Suc k)
  then have "n div 256 < 256 ^ k" by (simp add: div_less_iff_less_mult mult.commute)
  then have "le_nat (le_bytes k (n div 256)) = n div 256" by (rule Suc.IH)
  then show ?case by simp
qed simp

lemma le_nat_bound: "le_nat bs < 256 ^ length bs"
proof (induction bs)
  case (Cons b bs)
  have "unat b < 256" by simp
  then have "le_nat (b # bs) < 256 * (le_nat bs + 1)" by simp
  also have "\<dots> \<le> 256 * 256 ^ length bs" using Cons by (intro mult_le_mono2) simp
  finally show ?case by simp
qed simp

lemma le_bytes_le_nat: "le_bytes (length bs) (le_nat bs) = bs"
proof (induction bs)
  case (Cons b bs)
  have "unat b < 256" by simp
  then have "(unat b + 256 * le_nat bs) mod 256 = unat b"
    and "(unat b + 256 * le_nat bs) div 256 = le_nat bs" by simp_all
  with Cons show ?case by (simp add: of_nat_unat)
qed simp

definition u16_bytes :: "u16 \<Rightarrow> bytes" where "u16_bytes w = le_bytes 2 (unat w)"
definition u16_of :: "bytes \<Rightarrow> u16" where "u16_of bs = of_nat (le_nat bs)"
definition u32_bytes :: "u32 \<Rightarrow> bytes" where "u32_bytes w = le_bytes 4 (unat w)"
definition u32_of :: "bytes \<Rightarrow> u32" where "u32_of bs = of_nat (le_nat bs)"

lemma length_u_bytes [simp]: "length (u16_bytes w) = 2" "length (u32_bytes v) = 4"
  by (simp_all add: u16_bytes_def u32_bytes_def)

lemma u16_of_u16_bytes [simp]: "u16_of (u16_bytes w) = w"
proof -
  have "unat w < 256 ^ 2" by simp
  then show ?thesis by (simp add: u16_of_def u16_bytes_def le_nat_le_bytes)
qed

lemma u32_of_u32_bytes [simp]: "u32_of (u32_bytes w) = w"
proof -
  have "unat w < 256 ^ 4" by simp
  then show ?thesis by (simp add: u32_of_def u32_bytes_def le_nat_le_bytes)
qed

section \<open>Decimal numbers: \<open>sprintf\<close> and \<open>atoi\<close>\<close>

text \<open>\<open>%08d\<close>: at least eight decimal digits, most significant first.\<close>

definition digit :: "nat \<Rightarrow> byte" where
  "digit d = of_nat (48 + d)"

fun digits_fixed :: "nat \<Rightarrow> nat \<Rightarrow> bytes" where
  "digits_fixed 0 n = []"
| "digits_fixed (Suc k) n = digits_fixed k (n div 10) @ [digit (n mod 10)]"

text \<open>
  \<open>atoi\<close> on a C string: leading blanks, an optional sign, then the longest run of digits
  (0 if there is none).
\<close>

definition is_blank :: "byte \<Rightarrow> bool" where
  "is_blank b \<longleftrightarrow> b = 32 \<or> (9 \<le> b \<and> b \<le> 13)"

definition is_digit :: "byte \<Rightarrow> bool" where
  "is_digit b \<longleftrightarrow> 48 \<le> b \<and> b \<le> 57"

definition digits_val :: "bytes \<Rightarrow> nat" where
  "digits_val ds = foldl (\<lambda>a d. 10 * a + (unat d - 48)) 0 ds"

definition atoi :: "bytes \<Rightarrow> int" where
  "atoi s = (case dropWhile is_blank (cstr s) of
     [] \<Rightarrow> 0
   | c # r \<Rightarrow>
       if c = 45 then - int (digits_val (takeWhile is_digit r))
       else if c = 43 then int (digits_val (takeWhile is_digit r))
       else int (digits_val (takeWhile is_digit (c # r))))"

lemma length_digits_fixed [simp]: "length (digits_fixed k n) = k"
  by (induction k arbitrary: n) auto

lemma unat_digit: "d < 10 \<Longrightarrow> unat (digit d) = 48 + d"
proof -
  assume "d < 10"
  then show ?thesis unfolding digit_def by (subst unat_of_nat) simp
qed

lemma is_digit_digit [simp]: "d < 10 \<Longrightarrow> is_digit (digit d)"
  by (simp add: is_digit_def word_le_nat_alt unat_digit)

lemma digits_fixed_all: "b \<in> set (digits_fixed k n) \<Longrightarrow> is_digit b"
  by (induction k arbitrary: n) auto

lemma digits_val_append: "digits_val (xs @ [d]) = 10 * digits_val xs + (unat d - 48)"
  by (simp add: digits_val_def)

lemma digits_val_fixed: "n < 10 ^ k \<Longrightarrow> digits_val (digits_fixed k n) = n"
proof (induction k arbitrary: n)
  case 0
  then show ?case by (simp add: digits_val_def)
next
  case (Suc k)
  then have "n div 10 < 10 ^ k" by (simp add: div_less_iff_less_mult mult.commute)
  then have "digits_val (digits_fixed k (n div 10)) = n div 10" by (rule Suc.IH)
  then show ?case by (simp add: digits_val_append unat_digit)
qed

lemma is_digit_not: "is_digit b \<Longrightarrow> b \<noteq> 0 \<and> \<not> is_blank b \<and> b \<noteq> 45 \<and> b \<noteq> 43"
  by (auto simp: is_digit_def is_blank_def word_le_nat_alt)

lemma no_nul_digits: "(\<And>b. b \<in> set ds \<Longrightarrow> is_digit b) \<Longrightarrow> no_nul ds"
  unfolding no_nul_def using is_digit_not by blast

lemma atoi_digits:
  assumes "\<And>b. b \<in> set ds \<Longrightarrow> is_digit b"
  shows "atoi ds = int (digits_val ds)"
proof (cases ds)
  case (Cons c r)
  have c: "is_digit c" using assms Cons by simp
  have tw: "takeWhile is_digit ds = ds" using assms by (simp add: takeWhile_eq_all_conv)
  have "cstr ds = ds" using assms by (simp add: no_nul_digits)
  then show ?thesis using Cons c tw is_digit_not [OF c]
    by (simp add: atoi_def del: takeWhile_eq_all_conv)
qed (simp add: atoi_def digits_val_def)

lemma atoi_cstr [simp]: "atoi (cstr s) = atoi s"
  by (simp add: atoi_def cstr_no_nul)

text \<open>The array is the value \<open>sprintf\<close> leaves in \<open>file_number[9]\<close>.\<close>

definition fmt08 :: "nat \<Rightarrow> bytes" where
  "fmt08 n = digits_fixed 8 n"

lemma length_fmt08 [simp]: "length (fmt08 n) = 8"
  by (simp add: fmt08_def)

lemma no_nul_fmt08 [simp]: "no_nul (fmt08 n)"
  unfolding fmt08_def by (rule no_nul_digits) (rule digits_fixed_all)

lemma atoi_fmt08: "n < 10 ^ 8 \<Longrightarrow> atoi (fmt08 n) = int n"
  unfolding fmt08_def by (subst atoi_digits) (auto dest: digits_fixed_all simp: digits_val_fixed)

lemma fmt08_inject: "m < 10 ^ 8 \<Longrightarrow> n < 10 ^ 8 \<Longrightarrow> fmt08 m = fmt08 n \<longleftrightarrow> m = n"
  by (metis atoi_fmt08 of_nat_eq_iff)

end
