(* ===== verification/SDLinuxFake.thy ===== *)
theory SDLinuxFake
  imports Prelude
begin

text \<open>
  The storage medium: \<open>src/Implementation/SDLinuxFake.h\<close> and \<open>SDLinuxFake.cpp\<close>, the Linux
  stand-in for the Arduino SD library.  The file system is a map from path names to contents;
  two path strings name the same file exactly when they are equal (the configured root is
  absolute).  The standard library's \<open>fstream\<close> and the \<open>touch\<close>, \<open>stat\<close> and \<open>remove\<close> calls are
  modelled by their effect on that map.
\<close>

section \<open>Card and file handles\<close>

record sd_card =
  files :: "bytes \<Rightarrow> bytes option"
  rootPath :: bytes
  cwd :: bytes

record file_handle =
  full_path :: bytes
  read_mode :: bool
  position :: nat
  closed :: bool

definition FILE_READ :: bool where "FILE_READ = True"
definition FILE_WRITE :: bool where "FILE_WRITE = False"

definition slash :: byte where "slash = 47"

definition path_in :: "'z sd_card_scheme \<Rightarrow> bytes \<Rightarrow> bytes" where
  "path_in s name = rootPath s @ slash # name"

definition content :: "'z sd_card_scheme \<Rightarrow> bytes \<Rightarrow> bytes" where
  "content s p = (case files s p of None \<Rightarrow> [] | Some c \<Rightarrow> c)"

definition set_file :: "bytes \<Rightarrow> bytes \<Rightarrow> 'z sd_card_scheme \<Rightarrow> 'z sd_card_scheme" where
  "set_file p c s = s\<lparr>files := (files s)(p := Some c)\<rparr>"

text \<open>\<open>SDLinuxFake::open\<close>: \<open>touch\<close> creates a missing file, then a handle at position 0.\<close>

definition sd_open :: "bytes \<Rightarrow> bool \<Rightarrow> ('z sd_card_scheme, file_handle) state" where
  "sd_open name mode = do {
     s \<leftarrow> State_Monad.get;
     let p = path_in s name;
     modify (set_file p (content s p));
     ret \<lparr>full_path = p, read_mode = mode, position = 0, closed = False\<rparr>
   }"

text \<open>\<open>SDLinuxFake::exists\<close> puts no separator between the root path and the name.\<close>

definition sd_exists :: "bytes \<Rightarrow> ('z sd_card_scheme, bool) state" where
  "sd_exists name = reads (\<lambda>s. files s (rootPath s @ name) \<noteq> None)"

text \<open>\<open>SDLinuxFake::remove\<close> gives the bare name to the operating system.\<close>

definition sd_remove :: "bytes \<Rightarrow> ('z sd_card_scheme, bool) state" where
  "sd_remove name = do {
     s \<leftarrow> State_Monad.get;
     let p = cwd s @ slash # name;
     modify (\<lambda>s. s\<lparr>files := (files s)(p := None)\<rparr>);
     ret (files s p \<noteq> None)
   }"

section \<open>Operations of a file\<close>

definition file_close :: "file_handle \<Rightarrow> file_handle" where
  "file_close h = h\<lparr>closed := True\<rparr>"

text \<open>The argument of \<open>seek\<close> is a \<open>uint32_t\<close>.\<close>

definition file_seek :: "file_handle \<Rightarrow> int \<Rightarrow> file_handle" where
  "file_seek h pos = h\<lparr>position := nat (pos mod 2 ^ 32)\<rparr>"

text \<open>\<open>FileLinuxFake::read(buf, nbyte)\<close>: the bytes read, at most \<open>nbyte\<close> of them.\<close>

definition file_read :: "'z sd_card_scheme \<Rightarrow> file_handle \<Rightarrow> nat \<Rightarrow> bytes \<times> file_handle" where
  "file_read s h n =
     (if \<not> read_mode h then ([], h)
      else let chunk = take n (drop (position h) (content s (full_path h)))
           in (chunk, h\<lparr>position := position h + length chunk\<rparr>))"

text \<open>
  \<open>FileLinuxFake::read()\<close>: one character, \<open>-1\<close> (EOF) at the end of the file and 0 when the
  file cannot be opened.
\<close>

definition file_getc :: "'z sd_card_scheme \<Rightarrow> file_handle \<Rightarrow> int \<times> file_handle" where
  "file_getc s h =
     (if \<not> read_mode h then (0, h)
      else case files s (full_path h) of
        None \<Rightarrow> (0, h)
      | Some c \<Rightarrow>
          if position h < length c
          then (uint (c ! position h), h\<lparr>position := position h + 1\<rparr>)
          else (-1, h))"

text \<open>
  The content after \<open>bs\<close> has been written at \<open>pos\<close>; a gap behind the old end reads as zeros.
\<close>

definition splice :: "bytes \<Rightarrow> nat \<Rightarrow> bytes \<Rightarrow> bytes" where
  "splice c pos bs = take pos (c @ replicate (pos - length c) 0) @ bs @ drop (pos + length bs) c"

text \<open>\<open>FileLinuxFake::write\<close>: nothing happens on a handle that is closed or opened for reading.\<close>

definition file_write :: "file_handle \<Rightarrow> bytes \<Rightarrow> 'z sd_card_scheme \<Rightarrow> 'z sd_card_scheme" where
  "file_write h bs s =
     (if closed h \<or> read_mode h then s
      else case files s (full_path h) of
        None \<Rightarrow> s
      | Some c \<Rightarrow> set_file (full_path h) (splice c (position h) bs) s)"

text \<open>
  The sequence \<open>SD.open(name, FILE_WRITE); seek(pos); write(bs)\<close> that ends every update of
  the persistence layer.
\<close>

definition write_at :: "bytes \<Rightarrow> int \<Rightarrow> bytes \<Rightarrow> ('z sd_card_scheme, unit) state" where
  "write_at name pos bs = do {
     h \<leftarrow> sd_open name FILE_WRITE;
     modify (file_write (file_seek h pos) bs)
   }"

section \<open>Facts about the card\<close>

lemma content_set_file [simp]: "content (set_file p c s) q = (if q = p then c else content s q)"
  by (simp add: content_def set_file_def)

lemma set_file_simps [simp]:
  "rootPath (set_file p c s) = rootPath s" "cwd (set_file p c s) = cwd s"
  "sd_card.more (set_file p c s) = sd_card.more s"
  "files (set_file p c s) = (files s)(p := Some c)"
  by (simp_all add: set_file_def)

lemma set_file_twice [simp]: "set_file p d (set_file p c s) = set_file p d s"
  by (simp add: set_file_def)

lemma path_in_set_file [simp]: "path_in (set_file p c s) name = path_in s name"
  by (simp add: path_in_def)

lemma path_in_inject [simp]: "path_in s a = path_in s b \<longleftrightarrow> a = b"
  by (simp add: path_in_def)

lemma run_sd_open [run_simps]:
  "run_state (sd_open name mode) s =
     (\<lparr>full_path = path_in s name, read_mode = mode, position = 0, closed = False\<rparr>,
      set_file (path_in s name) (content s (path_in s name)) s)"
  by (simp add: sd_open_def Let_def)

lemma run_write_at [run_simps]:
  "run_state (write_at name pos bs) s =
     ((), set_file (path_in s name)
        (splice (content s (path_in s name)) (nat (pos mod 2 ^ 32)) bs) s)"
  by (simp add: write_at_def run_sd_open file_write_def file_seek_def FILE_WRITE_def)

lemma splice_inside:
  assumes "pos + length bs \<le> length c"
  shows "splice c pos bs = take pos c @ bs @ drop (pos + length bs) c"
  using assms by (simp add: splice_def)

lemma splice_end: "splice c (length c) bs = c @ bs"
  by (simp add: splice_def)

end
