(* ===== verification/RecordFile.thy ===== *)
theory RecordFile
  imports SDLinuxFake
begin

text \<open>
  Files of fixed-size records.  Every table of \<open>SDPersistentImpl.h\<close> is a file that holds one C
  struct after the other, scanned by a \<open>do { ... } while (readChars > 0)\<close> loop.  The loop is
  \<open>file_loop\<close>, on the bytes of the file; the locale \<open>record_codec\<close> is the interface to a struct
  layout, and its lemmas turn the loop and the writes into operations on the list of records
  that the file holds.
\<close>

section \<open>The scanning loop\<close>

datatype ('x, 'a) ctl = Return 'x | Break 'a | Next 'a

datatype ('x, 'n, 'a) loop_result = Returned 'x | Done 'n bytes 'a

text \<open>
  One round reads \<open>sz\<close> bytes into the zeroed struct and runs the body on the bytes read, the
  entry counter (\<open>uint16_t\<close> or \<open>uint32_t\<close>) and the loop's variables.  The counter is incremented at the end of
  the body; the loop goes on while something was read.  A loop that ends hands over the counter
  and the bytes of its last read, which are still in the struct.
\<close>

function file_loop :: "nat \<Rightarrow> (bytes \<Rightarrow> 'n::semiring_1 \<Rightarrow> 'a \<Rightarrow> ('x, 'a) ctl) \<Rightarrow>
    'z sd_card_scheme \<Rightarrow> file_handle \<Rightarrow> 'n \<Rightarrow> 'a \<Rightarrow> ('x, 'n, 'a) loop_result" where
  "file_loop sz body s h n a =
     (let chunk = fst (file_read s h sz); h' = snd (file_read s h sz) in
      case body chunk n a of
        Return x \<Rightarrow> Returned x
      | Break a' \<Rightarrow> Done n chunk a'
      | Next a' \<Rightarrow> if chunk = [] then Done (n + 1) chunk a'
                   else file_loop sz body s h' (n + 1) a')"
  by pat_completeness auto
termination
  by (relation "measure (\<lambda>(sz, body, s, h, n, a). length (content s (full_path h)) - position h)")
    (auto simp: file_read_def Let_def split: if_splits)

declare file_loop.simps [simp del]

text \<open>
  The bodies act on full records only.  \<open>brk\<close> says whether the loop has the clause
  \<open>else if (readChars != 0 && readChars < buffer_size) break\<close>.
\<close>

definition on_full :: "nat \<Rightarrow> (bytes \<Rightarrow> 'r) \<Rightarrow> bool \<Rightarrow> ('r \<Rightarrow> 'n \<Rightarrow> 'a \<Rightarrow> 'x + 'a) \<Rightarrow>
    bytes \<Rightarrow> 'n \<Rightarrow> 'a \<Rightarrow> ('x, 'a) ctl" where
  "on_full sz dec brk f chunk n a =
     (if length chunk = sz
      then (case f (dec chunk) n a of Inl x \<Rightarrow> Return x | Inr a' \<Rightarrow> Next a')
      else if brk \<and> chunk \<noteq> [] then Break a else Next a)"

text \<open>The same loop on the list of records.\<close>

fun rec_loop :: "('r \<Rightarrow> 'n::semiring_1 \<Rightarrow> 'a \<Rightarrow> 'x + 'a) \<Rightarrow> 'r list \<Rightarrow> 'n \<Rightarrow> 'a \<Rightarrow>
    ('x, 'n, 'a) loop_result" where
  "rec_loop f [] n a = Done (n + 1) [] a"
| "rec_loop f (r # rs) n a =
     (case f r n a of Inl x \<Rightarrow> Returned x | Inr a' \<Rightarrow> rec_loop f rs (n + 1) a')"

text \<open>The loop on the chunks that the reads deliver, none of them empty.\<close>

fun chunk_loop :: "(bytes \<Rightarrow> 'n::semiring_1 \<Rightarrow> 'a \<Rightarrow> ('x, 'a) ctl) \<Rightarrow> bytes list \<Rightarrow> 'n \<Rightarrow> 'a \<Rightarrow>
    ('x, 'n, 'a) loop_result" where
  "chunk_loop body [] n a = (case body [] n a of Return x \<Rightarrow> Returned x | Break a' \<Rightarrow> Done n [] a'
     | Next a' \<Rightarrow> Done (n + 1) [] a')"
| "chunk_loop body (c # cs) n a = (case body c n a of Return x \<Rightarrow> Returned x | Break a' \<Rightarrow> Done n c a'
     | Next a' \<Rightarrow> chunk_loop body cs (n + 1) a')"

text \<open>
  \<open>acc i\<close> are the loop's variables before record \<open>i\<close>.  The loop runs over all records when
  no record makes its body return, and returns at the first record that does.
\<close>

lemma rec_loop_pass:
  assumes "\<And>i. i < length rs \<Longrightarrow> f (rs ! i) (n + of_nat i) (acc i) = Inr (acc (Suc i))"
  shows "rec_loop f rs n (acc 0) = Done (n + of_nat (length rs) + 1) [] (acc (length rs))"
  using assms
proof (induction rs arbitrary: n acc)
  case (Cons r rs)
  have "rec_loop f rs (n + 1) (acc (Suc 0)) = Done (n + 1 + of_nat (length rs) + 1) [] (acc (Suc (length rs)))"
    using Cons.prems [of "Suc _"]
    by (intro Cons.IH [of "n + 1" "\<lambda>i. acc (Suc i)"]) (simp_all add: add.assoc)
  then show ?case using Cons.prems [of 0] by (simp add: add.assoc)
qed simp

lemma rec_loop_return:
  assumes "i < length rs"
    and "\<And>j. j < i \<Longrightarrow> f (rs ! j) (n + of_nat j) (acc j) = Inr (acc (Suc j))"
    and "f (rs ! i) (n + of_nat i) (acc i) = Inl x"
  shows "rec_loop f rs n (acc 0) = Returned x"
  using assms
proof (induction rs arbitrary: n acc i)
  case (Cons r rs)
  show ?case
  proof (cases i)
    case 0
    then show ?thesis using Cons.prems by simp
  next
    case (Suc k)
    have "rec_loop f rs (n + 1) (acc (Suc 0)) = Returned x"
      using Cons.prems(1,3) Cons.prems(2) [of "Suc _"] Suc
      by (intro Cons.IH [of k "n + 1" "\<lambda>i. acc (Suc i)"]) (simp_all add: add.assoc)
    then show ?thesis using Cons.prems(2) [of 0] Suc by simp
  qed
qed simp

text \<open>A body that only looks for the first record with a property.\<close>

lemma rec_loop_find_cases:
  obtains (found) i where "i < length rs" "Q (rs ! i)" "\<And>j. j < i \<Longrightarrow> \<not> Q (rs ! j)"
      "rec_loop (\<lambda>e n a. if Q e then Inl (g e n) else Inr a) rs n a = Returned (g (rs ! i) (n + of_nat i))"
  | (none) "\<And>e. e \<in> set rs \<Longrightarrow> \<not> Q e"
      "rec_loop (\<lambda>e n a. if Q e then Inl (g e n) else Inr a) rs n a
        = Done (n + of_nat (length rs) + 1) [] a"
proof (cases "\<exists>i < length rs. Q (rs ! i)")
  case True
  define i where "i = (LEAST i. i < length rs \<and> Q (rs ! i))"
  have i: "i < length rs \<and> Q (rs ! i)" unfolding i_def using True by (rule LeastI_ex)
  have min: "\<not> Q (rs ! j)" if "j < i" for j
    using not_less_Least [of j "\<lambda>i. i < length rs \<and> Q (rs ! i)"] that i by (simp add: i_def)
  show ?thesis
    using i min rec_loop_return [of i rs "\<lambda>e n a. if Q e then Inl (g e n) else Inr a" n "\<lambda>_. a"]
    by (intro found [of i]) auto
next
  case False
  then have "\<And>e. e \<in> set rs \<Longrightarrow> \<not> Q e" by (auto simp: in_set_conv_nth)
  then show ?thesis
    using False rec_loop_pass [of rs "\<lambda>e n a. if Q e then Inl (g e n) else Inr a" n "\<lambda>_. a"]
    by (intro none) auto
qed

lemma rec_loop_find: "rec_loop (\<lambda>e n a. if Q e then Inl (g e) else Inr a) rs n a =
    (case List.find Q rs of None \<Rightarrow> Done (n + of_nat (length rs) + 1) [] a | Some e \<Rightarrow> Returned (g e))"
  by (induction rs arbitrary: n) (auto simp: ac_simps split: option.split)

text \<open>
  Bodies that remember the index of the last free entry while they look for an entry: the last
  index below \<open>n\<close> with \<open>E\<close>, or -1.
\<close>

primrec last_upto :: "('r \<Rightarrow> bool) \<Rightarrow> 'r list \<Rightarrow> nat \<Rightarrow> int" where
  "last_upto E rs 0 = -1"
| "last_upto E rs (Suc i) = (if E (rs ! i) then int i else last_upto E rs i)"

lemma last_upto_cases:
  obtains (none) "last_upto E rs n = -1" "\<And>i. i < n \<Longrightarrow> \<not> E (rs ! i)"
  | (some) k where "last_upto E rs n = int k" "k < n" "E (rs ! k)"
      "\<And>i. k < i \<Longrightarrow> i < n \<Longrightarrow> \<not> E (rs ! i)"
proof (induction n)
  case (Suc n)
  show ?case
  proof (cases "E (rs ! n)")
    case True
    then show ?thesis by (intro Suc.prems(2) [of n]) simp_all
  next
    case False
    show ?thesis
    proof (rule Suc.IH)
      assume "last_upto E rs n = -1" "\<And>i. i < n \<Longrightarrow> \<not> E (rs ! i)"
      then show thesis using False by (intro Suc.prems(1)) (auto simp: less_Suc_eq)
    next
      fix k
      assume "last_upto E rs n = int k" "k < n" "E (rs ! k)"
        "\<And>i. k < i \<Longrightarrow> i < n \<Longrightarrow> \<not> E (rs ! i)"
      then show thesis using False by (intro Suc.prems(2) [of k]) (auto simp: less_Suc_eq)
    qed
  qed
qed simp

lemma uint_of_nat_u16 [simp]: "i < 65536 \<Longrightarrow> uint (of_nat i :: u16) = int i"
  by (simp add: uint_nat unat_of_nat)

lemma rec_loop_scan_cases:
  assumes "length rs < 65536"
  obtains (found) i where "i < length rs" "Q (rs ! i)" "\<not> E (rs ! i)"
      "\<And>j. j < i \<Longrightarrow> E (rs ! j) \<or> \<not> Q (rs ! j)"
      "rec_loop (\<lambda>e n a. if E e then Inr (uint n) else if Q e then Inl (g e n) else Inr a) rs
        (0 :: u16) (-1) = Returned (g (rs ! i) (of_nat i))"
  | (none) "\<And>i. i < length rs \<Longrightarrow> E (rs ! i) \<or> \<not> Q (rs ! i)"
      "rec_loop (\<lambda>e n a. if E e then Inr (uint n) else if Q e then Inl (g e n) else Inr a) rs
        (0 :: u16) (-1) = Done (of_nat (length rs) + 1) [] (last_upto E rs (length rs))"
proof (cases "\<exists>i < length rs. Q (rs ! i) \<and> \<not> E (rs ! i)")
  case True
  define i where "i = (LEAST i. i < length rs \<and> Q (rs ! i) \<and> \<not> E (rs ! i))"
  have i: "i < length rs \<and> Q (rs ! i) \<and> \<not> E (rs ! i)"
    unfolding i_def using True by (rule LeastI_ex)
  have min: "E (rs ! j) \<or> \<not> Q (rs ! j)" if "j < i" for j
    using not_less_Least [of j "\<lambda>i. i < length rs \<and> Q (rs ! i) \<and> \<not> E (rs ! i)"] that i
    by (auto simp: i_def)
  have "rec_loop (\<lambda>e n a. if E e then Inr (uint n) else if Q e then Inl (g e n) else Inr a) rs
      (0 :: u16) (last_upto E rs 0) = Returned (g (rs ! i) (of_nat i))"
    by (rule rec_loop_return [of i]) (use i min assms in auto)
  then show ?thesis using i min by (intro found [of i]) simp_all
next
  case False
  have "rec_loop (\<lambda>e n a. if E e then Inr (uint n) else if Q e then Inl (g e n) else Inr a) rs
      (0 :: u16) (last_upto E rs 0) =
      Done (0 + of_nat (length rs) + 1) [] (last_upto E rs (length rs))"
    by (rule rec_loop_pass) (use False assms in auto)
  then show ?thesis using False by (intro none) auto
qed

lemma rec_loop_last:
  assumes "length rs < 65536"
  shows "rec_loop (\<lambda>e n a. Inr (if E e then uint n else a)) rs (0 :: u16) (-1)
    = Done (of_nat (length rs) + 1) [] (last_upto E rs (length rs))"
proof -
  have "rec_loop (\<lambda>e n a. Inr (if E e then uint n else a)) rs (0 :: u16) (last_upto E rs 0)
      = Done (0 + of_nat (length rs) + 1) [] (last_upto E rs (length rs))"
    by (rule rec_loop_pass) (use assms in auto)
  then show ?thesis by simp
qed

section \<open>Struct layouts\<close>

locale record_codec =
  fixes sz :: nat
    and enc :: "'r \<Rightarrow> bytes"
    and dec :: "bytes \<Rightarrow> 'r"
    and wf :: "'r \<Rightarrow> bool"
  assumes size_pos: "0 < sz"
    and length_enc: "wf r \<Longrightarrow> length (enc r) = sz"
    and dec_enc: "wf r \<Longrightarrow> dec (enc r) = r"
begin

definition file_of :: "'r list \<Rightarrow> bytes" where
  "file_of rs = concat (map enc rs)"

lemma file_of_simps [simp]: "file_of [] = []" "file_of (r # rs) = enc r @ file_of rs"
  "file_of (rs @ qs) = file_of rs @ file_of qs"
  by (simp_all add: file_of_def)

lemma length_file_of: "list_all wf rs \<Longrightarrow> length (file_of rs) = length rs * sz"
  by (induction rs) (simp_all add: length_enc)

lemma take_file_of: "list_all wf rs \<Longrightarrow> k \<le> length rs \<Longrightarrow>
    take (k * sz) (file_of rs) = file_of (take k rs)"
proof (induction rs arbitrary: k)
  case (Cons r rs)
  then show ?case by (cases k) (simp_all add: length_enc)
qed simp

lemma drop_file_of: "list_all wf rs \<Longrightarrow> drop (k * sz) (file_of rs) = file_of (drop k rs)"
proof (induction rs arbitrary: k)
  case (Cons r rs)
  then show ?case by (cases k) (simp_all add: length_enc)
qed simp

lemma read_slot: "list_all wf rs \<Longrightarrow>
    take sz (drop (k * sz) (file_of rs)) = (if k < length rs then enc (rs ! k) else [])"
  by (cases "k < length rs")
    (simp_all add: drop_file_of length_enc list_all_length flip: Cons_nth_drop_Suc)

lemma write_slot:
  assumes "list_all wf rs" "wf r" "k < length rs"
  shows "splice (file_of rs) (k * sz) (enc r) = file_of (rs[k := r])"
proof -
  have "k * sz + sz \<le> length (file_of rs)"
    using assms mult_le_mono1 [of "Suc k" "length rs" sz] by (simp add: length_file_of)
  then have "splice (file_of rs) (k * sz) (enc r)
      = take (k * sz) (file_of rs) @ enc r @ drop (Suc k * sz) (file_of rs)"
    using assms by (simp add: splice_inside length_enc add.commute)
  also have "\<dots> = file_of (take k rs) @ enc r @ file_of (drop (Suc k) rs)"
    using assms by (simp only: take_file_of drop_file_of less_imp_le)
  also have "\<dots> = file_of (rs[k := r])"
    using assms(3) by (simp add: upd_conv_take_nth_drop)
  finally show ?thesis .
qed

lemma append_slot:
  assumes "list_all wf rs"
  shows "splice (file_of rs) (length rs * sz) (enc r) = file_of (rs @ [r])"
  using splice_end [of "file_of rs" "enc r"] assms by (simp add: length_file_of)

lemma loop_on_chunks:
  assumes "list_all wf rs"
  shows "content s (full_path h) = file_of rs \<Longrightarrow> read_mode h \<Longrightarrow> position h = k * sz \<Longrightarrow>
    k \<le> length rs \<Longrightarrow> file_loop sz body s h n a = chunk_loop body (map enc (drop k rs)) n a"
proof (induction "length rs - k" arbitrary: k h n a)
  case 0
  then have "drop k rs = []" "fst (file_read s h sz) = []"
    using assms read_slot [OF assms, of k] by (simp_all add: file_read_def)
  then show ?case
    by (simp add: file_loop.simps [of sz _ s h n a] split: ctl.split)
next
  case (Suc m)
  define h' where "h' = snd (file_read s h sz)"
  have k: "k < length rs" using Suc.hyps(2) by simp
  then have chunk: "fst (file_read s h sz) = enc (rs ! k)" and wf: "wf (rs ! k)"
    using Suc.prems read_slot [OF assms, of k] assms
    by (simp_all add: file_read_def Let_def list_all_length)
  have h': "full_path h' = full_path h" "read_mode h'" "position h' = Suc k * sz"
    using Suc.prems chunk wf by (auto simp: h'_def file_read_def Let_def length_enc split: if_splits)
  have "file_loop sz body s h' (n + 1) a' = chunk_loop body (map enc (drop (Suc k) rs)) (n + 1) a'" for a'
    using Suc.hyps Suc.prems(1) h' k by (intro Suc.hyps(1)) simp_all
  moreover have "enc (rs ! k) \<noteq> []" using wf size_pos length_enc by fastforce
  ultimately show ?case
    using k chunk
    by (simp add: file_loop.simps [of sz _ s h n a] flip: h'_def Cons_nth_drop_Suc split: ctl.split)
qed

lemma chunk_loop_on_full: "list_all wf rs \<Longrightarrow>
    chunk_loop (on_full sz dec brk f) (map enc rs) n a = rec_loop f rs n a"
proof (induction rs arbitrary: n a)
  case Nil
  then show ?case using size_pos by (simp add: on_full_def)
qed (simp add: on_full_def length_enc dec_enc split: sum.split)

lemma loop_on_file: "list_all wf rs \<Longrightarrow> content s (full_path h) = file_of rs \<Longrightarrow> read_mode h \<Longrightarrow>
    position h = k * sz \<Longrightarrow> k \<le> length rs \<Longrightarrow>
    file_loop sz (on_full sz dec brk f) s h n a = rec_loop f (drop k rs) n a"
proof -
  assume *: "list_all wf rs" "content s (full_path h) = file_of rs" "read_mode h"
    "position h = k * sz" "k \<le> length rs"
  then have "list_all wf (drop k rs)" by (auto simp: list_all_iff dest: in_set_dropD)
  then show ?thesis by (simp add: loop_on_chunks [OF *] chunk_loop_on_full)
qed

text \<open>The file \<open>name\<close> exists and holds the records \<open>rs\<close>.\<close>

definition holds :: "'z sd_card_scheme \<Rightarrow> bytes \<Rightarrow> 'r list \<Rightarrow> bool" where
  "holds s name rs \<longleftrightarrow> files s (path_in s name) = Some (file_of rs) \<and> list_all wf rs"

lemma holds_open: "holds s name rs \<Longrightarrow> run_state (sd_open name mode) s =
    (\<lparr>full_path = path_in s name, read_mode = mode, position = 0, closed = False\<rparr>, s)"
  by (simp add: run_sd_open holds_def content_def set_file_def fun_upd_idem)

lemma holds_loop: "holds s name rs \<Longrightarrow> full_path h = path_in s name \<Longrightarrow> read_mode h \<Longrightarrow>
    position h = 0 \<Longrightarrow> file_loop sz (on_full sz dec brk f) s h n a = rec_loop f rs n a"
  using loop_on_file [of rs s h 0 brk f n a] by (simp add: holds_def content_def)

lemma holds_chunks: "holds s name rs \<Longrightarrow> full_path h = path_in s name \<Longrightarrow> read_mode h \<Longrightarrow>
    position h = 0 \<Longrightarrow> file_loop sz body s h n a = chunk_loop body (map enc rs) n a"
  using loop_on_chunks [of rs s h 0 body n a] by (simp add: holds_def content_def)

text \<open>Writing a record in place or behind the last one.\<close>

lemma holds_write:
  assumes "holds s name rs" "wf r" "k \<le> length rs" "k * sz < 2 ^ 32"
  shows "run_state (write_at name (int k * int sz) (enc r)) s =
      ((), set_file (path_in s name) (file_of (if k < length rs then rs[k := r] else rs @ [r])) s)"
    and "holds (set_file (path_in s name) (file_of (if k < length rs then rs[k := r] else rs @ [r])) s)
      name (if k < length rs then rs[k := r] else rs @ [r])"
proof -
  have "nat (int k * int sz mod 2 ^ 32) = k * sz"
    using assms(4) by (metis int_ops(7) mod_less nat_int of_nat_mod of_nat_numeral of_nat_power)
  moreover have "content s (path_in s name) = file_of rs" "list_all wf rs"
    using assms(1) by (simp_all add: holds_def content_def)
  ultimately show "run_state (write_at name (int k * int sz) (enc r)) s =
      ((), set_file (path_in s name) (file_of (if k < length rs then rs[k := r] else rs @ [r])) s)"
    using assms write_slot [of rs r k] append_slot [of rs r]
    by (cases "k = length rs") (simp_all add: run_write_at)
  show "holds (set_file (path_in s name) (file_of (if k < length rs then rs[k := r] else rs @ [r])) s)
      name (if k < length rs then rs[k := r] else rs @ [r])"
    using assms by (auto simp: holds_def list_all_length nth_list_update nth_append)
qed

text \<open>The card after the file has been given the records \<open>rs\<close>.\<close>

definition put :: "bytes \<Rightarrow> 'r list \<Rightarrow> 'z sd_card_scheme \<Rightarrow> 'z sd_card_scheme" where
  "put name rs s = set_file (path_in s name) (file_of rs) s"

lemma put_same: "holds s name rs \<Longrightarrow> put name rs s = s"
  by (simp add: put_def holds_def set_file_def fun_upd_idem)

lemma holds_put: "list_all wf rs \<Longrightarrow> holds (put name rs s) name rs"
  by (simp add: put_def holds_def)

lemma holds_put_other: "name' \<noteq> name \<Longrightarrow> holds (put name' qs s) name rs \<longleftrightarrow> holds s name rs"
  by (simp add: put_def holds_def)

lemma put_put: "put name qs (put name rs s) = put name qs s"
  by (simp add: put_def)

lemma path_in_put [simp]: "path_in (put name rs s) n = path_in s n"
  by (simp add: put_def)

lemma run_write_slot:
  assumes "holds s name rs" "wf r" "k \<le> length rs" "k * sz < 2 ^ 32"
  shows "run_state (write_at name (int k * int sz) (enc r)) s =
    ((), put name (if k < length rs then rs[k := r] else rs @ [r]) s)"
  unfolding put_def by (rule holds_write(1) [OF assms])

lemma wf_write_slot: "holds s name rs \<Longrightarrow> wf r \<Longrightarrow>
    list_all wf (if k < length rs then rs[k := r] else rs @ [r])"
  by (auto simp: holds_def list_all_length nth_list_update nth_append)

lemma holds_read: "holds s name rs \<Longrightarrow> full_path h = path_in s name \<Longrightarrow> read_mode h \<Longrightarrow>
    position h = k * sz \<Longrightarrow>
    fst (file_read s h sz) = (if k < length rs then enc (rs ! k) else [])"
  using read_slot [of rs k] by (simp add: holds_def content_def file_read_def Let_def)

lemma holds_other: "holds s name rs \<Longrightarrow> name' \<noteq> name \<Longrightarrow>
    holds (set_file (path_in s name') c s) name rs"
  by (simp add: holds_def)

end

end
