(* ===== verification/CoreDefines.thy ===== *)
theory CoreDefines
  imports Prelude
begin

text \<open>
  The enumerations and the address type shared by all parts of the gateway:
  \<open>src/core_defines.h\<close>, \<open>src/global_defines.h\<close> and the enumerations of
  \<open>src/mqttsn_messages.h\<close>.  \<open>CORE_RESULT\<close> only ever holds its enumerators and is a
  datatype with the \<open>int16_t\<close> value of each.  The enumerations that are stored in files or
  read from the wire (\<open>CLIENT_STATUS\<close>, \<open>message_type\<close>, \<open>return_code_t\<close>) have the
  underlying type \<open>uint8_t\<close> and can hold any byte, so they are bytes with named values.
\<close>

section \<open>Result of a core operation\<close>

datatype core_result = SUCCESS | ZERO | CLIENTNONEXISTENCE | CLIENTSUBSCRIPTIONFULL
  | TOPICIDNONEXISTENCE | FULL | MOREPUBLISHESAVAILABLE | TOOMUCHDATA

fun core_result_value :: "core_result \<Rightarrow> int" where
  "core_result_value SUCCESS = 1"
| "core_result_value ZERO = 0"
| "core_result_value CLIENTNONEXISTENCE = -1"
| "core_result_value CLIENTSUBSCRIPTIONFULL = -2"
| "core_result_value TOPICIDNONEXISTENCE = -3"
| "core_result_value FULL = -4"
| "core_result_value MOREPUBLISHESAVAILABLE = -5"
| "core_result_value TOOMUCHDATA = -6"

text \<open>The results are ordered as the enumerators are: errors are below \<open>ZERO\<close>.\<close>

lemma core_result_value_inject: "core_result_value a = core_result_value b \<Longrightarrow> a = b"
  by (cases a; cases b) simp_all

instantiation core_result :: linorder
begin

definition less_eq_core_result :: "core_result \<Rightarrow> core_result \<Rightarrow> bool" where
  "less_eq_core_result a b \<longleftrightarrow> core_result_value a \<le> core_result_value b"

definition less_core_result :: "core_result \<Rightarrow> core_result \<Rightarrow> bool" where
  "less_core_result a b \<longleftrightarrow> core_result_value a < core_result_value b"

instance
  by standard (auto simp: less_eq_core_result_def less_core_result_def intro: core_result_value_inject)

end

text \<open>
  \<open>result == FULL\<close> in \<open>CoreImpl.cpp\<close> compares a \<open>uint8_t\<close> with an enumerator of underlying
  type \<open>int16_t\<close>: both are promoted to \<open>int\<close>, so the byte is compared by its unsigned value.
\<close>

definition eq_result :: "byte \<Rightarrow> core_result \<Rightarrow> bool" where
  "eq_result r c \<longleftrightarrow> uint r = core_result_value c"

lemma eq_result_SUCCESS [simp]: "eq_result r SUCCESS \<longleftrightarrow> r = 1"
  by (simp add: eq_result_def uint_1_eq flip: word_uint_eq_iff)
    (metis uint_1 word_uint_eqI)

lemma eq_result_neg [simp]:
  "\<not> eq_result r CLIENTNONEXISTENCE" "\<not> eq_result r CLIENTSUBSCRIPTIONFULL"
  "\<not> eq_result r TOPICIDNONEXISTENCE" "\<not> eq_result r FULL"
proof -
  have "0 \<le> uint r" by simp
  then have "uint r \<noteq> - 1" "uint r \<noteq> - 2" "uint r \<noteq> - 3" "uint r \<noteq> - 4" by linarith+
  then show "\<not> eq_result r CLIENTNONEXISTENCE" "\<not> eq_result r CLIENTSUBSCRIPTIONFULL"
    "\<not> eq_result r TOPICIDNONEXISTENCE" "\<not> eq_result r FULL"
    by (simp_all add: eq_result_def)
qed

section \<open>Client states\<close>

definition EMPTY :: byte where [enum_defs]: "EMPTY = 0"
definition ACTIVE :: byte where [enum_defs]: "ACTIVE = 1"
definition ASLEEP :: byte where [enum_defs]: "ASLEEP = 2"
definition AWAKE :: byte where [enum_defs]: "AWAKE = 3"
definition DISCONNECTED :: byte where [enum_defs]: "DISCONNECTED = 4"
definition LOST :: byte where [enum_defs]: "LOST = 5"

section \<open>MQTT-SN message types and return codes\<close>

definition MQTTSN_ADVERTISE :: byte where [enum_defs]: "MQTTSN_ADVERTISE = 0x00"
definition MQTTSN_SEARCHGW :: byte where [enum_defs]: "MQTTSN_SEARCHGW = 0x01"
definition MQTTSN_GWINFO :: byte where [enum_defs]: "MQTTSN_GWINFO = 0x02"
definition MQTTSN_CONNECT :: byte where [enum_defs]: "MQTTSN_CONNECT = 0x04"
definition MQTTSN_CONNACK :: byte where [enum_defs]: "MQTTSN_CONNACK = 0x05"
definition MQTTSN_WILLTOPICREQ :: byte where [enum_defs]: "MQTTSN_WILLTOPICREQ = 0x06"
definition MQTTSN_WILLTOPIC :: byte where [enum_defs]: "MQTTSN_WILLTOPIC = 0x07"
definition MQTTSN_WILLMSGREQ :: byte where [enum_defs]: "MQTTSN_WILLMSGREQ = 0x08"
definition MQTTSN_WILLMSG :: byte where [enum_defs]: "MQTTSN_WILLMSG = 0x09"
definition MQTTSN_REGISTER :: byte where [enum_defs]: "MQTTSN_REGISTER = 0x0A"
definition MQTTSN_REGACK :: byte where [enum_defs]: "MQTTSN_REGACK = 0x0B"
definition MQTTSN_PUBLISH :: byte where [enum_defs]: "MQTTSN_PUBLISH = 0x0C"
definition MQTTSN_PUBACK :: byte where [enum_defs]: "MQTTSN_PUBACK = 0x0D"
definition MQTTSN_PUBCOMP :: byte where [enum_defs]: "MQTTSN_PUBCOMP = 0x0E"
definition MQTTSN_PUBREC :: byte where [enum_defs]: "MQTTSN_PUBREC = 0x0F"
definition MQTTSN_PUBREL :: byte where [enum_defs]: "MQTTSN_PUBREL = 0x10"
definition MQTTSN_SUBSCRIBE :: byte where [enum_defs]: "MQTTSN_SUBSCRIBE = 0x12"
definition MQTTSN_SUBACK :: byte where [enum_defs]: "MQTTSN_SUBACK = 0x13"
definition MQTTSN_UNSUBSCRIBE :: byte where [enum_defs]: "MQTTSN_UNSUBSCRIBE = 0x14"
definition MQTTSN_UNSUBACK :: byte where [enum_defs]: "MQTTSN_UNSUBACK = 0x15"
definition MQTTSN_PINGREQ :: byte where [enum_defs]: "MQTTSN_PINGREQ = 0x16"
definition MQTTSN_PINGRESP :: byte where [enum_defs]: "MQTTSN_PINGRESP = 0x17"
definition MQTTSN_DISCONNECT :: byte where [enum_defs]: "MQTTSN_DISCONNECT = 0x18"
definition MQTTSN_WILLTOPICUPD :: byte where [enum_defs]: "MQTTSN_WILLTOPICUPD = 0x1A"
definition MQTTSN_WILLTOPICRESP :: byte where [enum_defs]: "MQTTSN_WILLTOPICRESP = 0x1B"
definition MQTTSN_WILLMSGUPD :: byte where [enum_defs]: "MQTTSN_WILLMSGUPD = 0x1C"
definition MQTTSN_WILLMSGRESP :: byte where [enum_defs]: "MQTTSN_WILLMSGRESP = 0x1D"

definition ACCEPTED :: byte where [enum_defs]: "ACCEPTED = 0x00"
definition REJECTED_CONGESTION :: byte where [enum_defs]: "REJECTED_CONGESTION = 0x01"
definition REJECTED_INVALID_TOPIC_ID :: byte where [enum_defs]: "REJECTED_INVALID_TOPIC_ID = 0x02"
definition REJECTED_NOT_SUPPORTED :: byte where [enum_defs]: "REJECTED_NOT_SUPPORTED = 0x03"

section \<open>Device addresses\<close>

text \<open>\<open>struct device_address\<close>: six bytes, all zero when constructed.\<close>

type_synonym device_address = bytes

definition empty_address :: device_address where
  "empty_address = replicate 6 0"

text \<open>The loops of \<open>CoreImpl.cpp\<close> that look for a byte that is not zero.\<close>

definition is_address_empty :: "device_address \<Rightarrow> bool" where
  "is_address_empty a \<longleftrightarrow> list_all (\<lambda>b. b = 0) (take 6 a)"

lemma is_address_empty_zero [simp]: "is_address_empty (replicate n 0)"
  by (simp add: is_address_empty_def list_all_iff)

lemma is_address_empty_iff: "length a = 6 \<Longrightarrow> is_address_empty a \<longleftrightarrow> a = empty_address"
  by (auto simp: is_address_empty_def empty_address_def list_all_iff replicate_eqI)

end
