(* ===== verification/TableEntries.thy ===== *)
theory TableEntries
  imports RecordFile CoreDefines
begin

text \<open>
  The structs of \<open>src/Implementation/SD_table_entries.h\<close>, one record each, and their layout in
  memory and on the card: the order and the offsets of the fields, little-endian integers,
  \<open>bool\<close> as one byte, and the padding of the x86-64 ABI (\<open>entry_client\<close> is packed).  Padding
  bytes are zero, since the code clears a struct before it fills it.  Each layout is an
  interpretation of \<open>record_codec\<close>.
\<close>

record entry_mqtt_subscription =
  em_client_subscription_count :: u32
  em_topic_name :: bytes

record entry_will =
  ew_willtopic :: bytes
  ew_willmsg :: bytes
  ew_willmsg_length :: byte
  ew_qos :: byte
  ew_retain :: bool

record entry_subscription =
  es_topic_id :: u16
  es_qos :: byte
  es_topic_name :: bytes

record entry_registration =
  er_topic_id :: u16
  er_topic_name :: bytes
  er_known :: bool

record entry_publish =
  ep_msg :: bytes
  ep_msg_length :: byte
  ep_topic_id :: u16
  ep_qos :: byte
  ep_retain :: bool
  ep_dup :: bool
  ep_msg_id :: u16
  ep_publish_id :: u16
  ep_retransmition_timeout :: u32

record entry_client =
  ec_client_id :: bytes
  ec_file_number :: bytes
  ec_client_address :: device_address
  ec_client_status :: byte
  ec_duration :: u32
  ec_timeout :: u32
  ec_await_message_id :: u16
  ec_await_message :: byte

section \<open>Layouts\<close>

definition bool_byte :: "bool \<Rightarrow> byte" where "bool_byte b = (if b then 1 else 0)"

definition fld :: "nat \<Rightarrow> nat \<Rightarrow> bytes \<Rightarrow> bytes" where "fld off len bs = take len (drop off bs)"

definition byte_at :: "nat \<Rightarrow> bytes \<Rightarrow> byte" where
  "byte_at off bs = (if off < length bs then bs ! off else 0)"

definition sizeof_entry_client :: nat where "sizeof_entry_client = 51"
definition sizeof_entry_registration :: nat where "sizeof_entry_registration = 258"
definition sizeof_entry_subscription :: nat where "sizeof_entry_subscription = 258"
definition sizeof_entry_mqtt_subscription :: nat where "sizeof_entry_mqtt_subscription = 260"
definition sizeof_entry_will :: nat where "sizeof_entry_will = 513"
definition sizeof_entry_publish :: nat where "sizeof_entry_publish = 272"

lemmas sizeof_defs = sizeof_entry_client_def sizeof_entry_registration_def
  sizeof_entry_subscription_def sizeof_entry_mqtt_subscription_def sizeof_entry_will_def
  sizeof_entry_publish_def

definition enc_client :: "entry_client \<Rightarrow> bytes" where
  "enc_client e = ec_client_id e @ ec_file_number e @ ec_client_address e @ [ec_client_status e]
     @ u32_bytes (ec_duration e) @ u32_bytes (ec_timeout e)
     @ u16_bytes (ec_await_message_id e) @ [ec_await_message e]"

definition dec_client :: "bytes \<Rightarrow> entry_client" where
  "dec_client bs = \<lparr>ec_client_id = fld 0 24 bs, ec_file_number = fld 24 9 bs,
     ec_client_address = fld 33 6 bs, ec_client_status = byte_at 39 bs,
     ec_duration = u32_of (fld 40 4 bs), ec_timeout = u32_of (fld 44 4 bs),
     ec_await_message_id = u16_of (fld 48 2 bs), ec_await_message = byte_at 50 bs\<rparr>"

definition enc_registration :: "entry_registration \<Rightarrow> bytes" where
  "enc_registration e = u16_bytes (er_topic_id e) @ er_topic_name e @ [bool_byte (er_known e)]"

definition dec_registration :: "bytes \<Rightarrow> entry_registration" where
  "dec_registration bs = \<lparr>er_topic_id = u16_of (fld 0 2 bs), er_topic_name = fld 2 255 bs,
     er_known = (byte_at 257 bs \<noteq> 0)\<rparr>"

definition enc_subscription :: "entry_subscription \<Rightarrow> bytes" where
  "enc_subscription e = u16_bytes (es_topic_id e) @ [es_qos e] @ es_topic_name e"

definition dec_subscription :: "bytes \<Rightarrow> entry_subscription" where
  "dec_subscription bs = \<lparr>es_topic_id = u16_of (fld 0 2 bs), es_qos = byte_at 2 bs,
     es_topic_name = fld 3 255 bs\<rparr>"

definition enc_mqtt_subscription :: "entry_mqtt_subscription \<Rightarrow> bytes" where
  "enc_mqtt_subscription e =
     u32_bytes (em_client_subscription_count e) @ em_topic_name e @ [0]"

definition dec_mqtt_subscription :: "bytes \<Rightarrow> entry_mqtt_subscription" where
  "dec_mqtt_subscription bs = \<lparr>em_client_subscription_count = u32_of (fld 0 4 bs),
     em_topic_name = fld 4 255 bs\<rparr>"

definition enc_will :: "entry_will \<Rightarrow> bytes" where
  "enc_will e = ew_willtopic e @ ew_willmsg e
     @ [ew_willmsg_length e, ew_qos e, bool_byte (ew_retain e)]"

definition dec_will :: "bytes \<Rightarrow> entry_will" where
  "dec_will bs = \<lparr>ew_willtopic = fld 0 255 bs, ew_willmsg = fld 255 255 bs,
     ew_willmsg_length = byte_at 510 bs, ew_qos = byte_at 511 bs,
     ew_retain = (byte_at 512 bs \<noteq> 0)\<rparr>"

definition enc_publish :: "entry_publish \<Rightarrow> bytes" where
  "enc_publish e = ep_msg e @ [ep_msg_length e] @ u16_bytes (ep_topic_id e)
     @ [ep_qos e, bool_byte (ep_retain e), bool_byte (ep_dup e), 0]
     @ u16_bytes (ep_msg_id e) @ u16_bytes (ep_publish_id e) @ [0, 0]
     @ u32_bytes (ep_retransmition_timeout e)"

definition dec_publish :: "bytes \<Rightarrow> entry_publish" where
  "dec_publish bs = \<lparr>ep_msg = fld 0 255 bs, ep_msg_length = byte_at 255 bs,
     ep_topic_id = u16_of (fld 256 2 bs), ep_qos = byte_at 258 bs,
     ep_retain = (byte_at 259 bs \<noteq> 0), ep_dup = (byte_at 260 bs \<noteq> 0),
     ep_msg_id = u16_of (fld 262 2 bs), ep_publish_id = u16_of (fld 264 2 bs),
     ep_retransmition_timeout = u32_of (fld 268 4 bs)\<rparr>"

section \<open>The arrays have their declared lengths\<close>

definition wf_client :: "entry_client \<Rightarrow> bool" where
  "wf_client e \<longleftrightarrow> length (ec_client_id e) = 24 \<and> length (ec_file_number e) = 9 \<and>
     length (ec_client_address e) = 6"

definition wf_registration :: "entry_registration \<Rightarrow> bool" where
  "wf_registration e \<longleftrightarrow> length (er_topic_name e) = 255"

definition wf_subscription :: "entry_subscription \<Rightarrow> bool" where
  "wf_subscription e \<longleftrightarrow> length (es_topic_name e) = 255"

definition wf_mqtt_subscription :: "entry_mqtt_subscription \<Rightarrow> bool" where
  "wf_mqtt_subscription e \<longleftrightarrow> length (em_topic_name e) = 255"

definition wf_will :: "entry_will \<Rightarrow> bool" where
  "wf_will e \<longleftrightarrow> length (ew_willtopic e) = 255 \<and> length (ew_willmsg e) = 255"

definition wf_publish :: "entry_publish \<Rightarrow> bool" where
  "wf_publish e \<longleftrightarrow> length (ep_msg e) = 255"

section \<open>The layouts implement the codec interface\<close>

lemma bool_byte_nz [simp]: "bool_byte b \<noteq> 0 \<longleftrightarrow> b" "bool_byte b = 0 \<longleftrightarrow> \<not> b"
  by (simp_all add: bool_byte_def)

lemmas layout_simps = fld_def byte_at_def nth_append nth_Cons'

interpretation client: record_codec sizeof_entry_client enc_client dec_client wf_client
  by unfold_locales
    (simp_all add: sizeof_defs enc_client_def dec_client_def wf_client_def layout_simps)

interpretation reg: record_codec sizeof_entry_registration enc_registration dec_registration
  wf_registration
  by unfold_locales
    (simp_all add: sizeof_defs enc_registration_def dec_registration_def wf_registration_def
      layout_simps)

interpretation subs: record_codec sizeof_entry_subscription enc_subscription dec_subscription
  wf_subscription
  by unfold_locales
    (simp_all add: sizeof_defs enc_subscription_def dec_subscription_def wf_subscription_def
      layout_simps)

interpretation msub: record_codec sizeof_entry_mqtt_subscription enc_mqtt_subscription
  dec_mqtt_subscription wf_mqtt_subscription
  by unfold_locales
    (simp_all add: sizeof_defs enc_mqtt_subscription_def dec_mqtt_subscription_def
      wf_mqtt_subscription_def layout_simps)

interpretation will: record_codec sizeof_entry_will enc_will dec_will wf_will
  by unfold_locales
    (simp_all add: sizeof_defs enc_will_def dec_will_def wf_will_def layout_simps)

interpretation pub: record_codec sizeof_entry_publish enc_publish dec_publish wf_publish
  by unfold_locales
    (simp_all add: sizeof_defs enc_publish_def dec_publish_def wf_publish_def layout_simps)

lemma wf_dec_client [simp]: "51 \<le> length bs \<Longrightarrow> wf_client (dec_client bs)"
  by (simp add: wf_client_def dec_client_def fld_def)

section \<open>Cleared entries\<close>

text \<open>\<open>memset(&entry, 0, sizeof(entry))\<close>.\<close>

definition empty_client :: entry_client where
  "empty_client = dec_client (replicate 51 0)"
definition empty_subscription :: entry_subscription where
  "empty_subscription = dec_subscription (replicate 258 0)"
definition empty_mqtt_subscription :: entry_mqtt_subscription where
  "empty_mqtt_subscription = dec_mqtt_subscription (replicate 260 0)"
definition empty_publish :: entry_publish where
  "empty_publish = dec_publish (replicate 272 0)"

lemma u_of_zeros [simp]: "u16_of (replicate n 0) = 0" "u32_of (replicate n 0) = 0"
proof -
  have "le_nat (replicate n 0) = 0" by (induction n) simp_all
  then show "u16_of (replicate n 0) = 0" "u32_of (replicate n 0) = 0"
    by (simp_all add: u16_of_def u32_of_def)
qed

lemma fld_zeros [simp]: "fld off len (replicate n 0) = replicate (min len (n - off)) 0"
  by (simp add: fld_def)

lemma byte_at_zeros [simp]: "byte_at off (replicate n 0) = 0"
  by (simp add: byte_at_def)

lemma empty_client_simps [simp]: "ec_client_id empty_client = replicate 24 0"
  "ec_file_number empty_client = replicate 9 0" "ec_client_address empty_client = replicate 6 0"
  "ec_client_status empty_client = 0" "wf_client empty_client"
  by (simp_all add: empty_client_def dec_client_def wf_client_def)

lemma empty_subscription_simps [simp]: "es_topic_id empty_subscription = 0"
  "es_topic_name empty_subscription = replicate 255 0" "wf_subscription empty_subscription"
  by (simp_all add: empty_subscription_def dec_subscription_def wf_subscription_def)

lemma empty_mqtt_subscription_simps [simp]:
  "em_client_subscription_count empty_mqtt_subscription = 0"
  "em_topic_name empty_mqtt_subscription = replicate 255 0"
  "wf_mqtt_subscription empty_mqtt_subscription"
  by (simp_all add: empty_mqtt_subscription_def dec_mqtt_subscription_def wf_mqtt_subscription_def)

lemma empty_publish_simps [simp]: "ep_publish_id empty_publish = 0" "ep_msg_id empty_publish = 0"
  "wf_publish empty_publish"
  by (simp_all add: empty_publish_def dec_publish_def wf_publish_def)

end
