(* ===== verification/PersistClients.thy ===== *)
theory PersistClients
  imports TableEntries
begin

text \<open>
  The client registry and the transactions of \<open>src/Implementation/SDPersistentImpl.h\<close>: the file
  \<open>CLIENTS\<close> holds one \<open>entry_client\<close> per slot, a cleared entry where a client was deleted.  A
  transaction loads the entry of one client into \<open>_entry_client\<close>; the operations act on it and
  write it back to the slot given by its \<open>file_number\<close>.

  The state holds the members of the class.  \<open>_open_file\<close> is assigned by \<open>SD.open\<close> before every
  use and is a local value here.  Names (topics, client ids) are arrays; a C string is read with
  \<open>cstr\<close>.  Logging is left out.  \<open>crashed\<close> records a null pointer passed to \<open>strlen\<close>;
  \<open>indet_bool\<close> is the value that a function returns whose control flow reaches the closing brace
  without a \<open>return\<close>: the model never assigns it, so every theorem holds for both values.
\<close>

section \<open>State\<close>

record persistent = sd_card +
  entry :: entry_client
  not_in_client_registry :: bool
  transaction_started :: bool
  error :: bool
  mqttsn_online :: bool
  mqtt_online :: bool
  crashed :: bool
  indet_bool :: bool

definition MAXIMUM_CLIENT_ID_LENGTH :: nat where "MAXIMUM_CLIENT_ID_LENGTH = 24"
definition MAXIMUM_TOPIC_NAME_LENGTH :: nat where "MAXIMUM_TOPIC_NAME_LENGTH = 255"

lemmas max_defs = MAXIMUM_CLIENT_ID_LENGTH_def MAXIMUM_TOPIC_NAME_LENGTH_def

definition client_registry :: bytes where "client_registry = str ''CLIENTS''"
definition mqtt_sub :: bytes where "mqtt_sub = str ''MQTT.SUB''"
definition predefined_topic :: bytes where "predefined_topic = str ''TOPICS.PRE''"
definition mqtt_configuration :: bytes where "mqtt_configuration = str ''MQTT.CON''"

definition SUBSCRIBE_FILE_ENDING :: bytes where "SUBSCRIBE_FILE_ENDING = str ''.SUB''"
definition REGISTRATION_FILE_ENDING :: bytes where "REGISTRATION_FILE_ENDING = str ''.REG''"
definition WILL_FILE_ENDING :: bytes where "WILL_FILE_ENDING = str ''.WIL''"
definition PUBLISH_FILE_ENDING :: bytes where "PUBLISH_FILE_ENDING = str ''.PUB''"

text \<open>The name built from \<open>file_number\<close> and an extension by two \<open>memcpy\<close> calls.\<close>

definition client_file :: "entry_client \<Rightarrow> bytes \<Rightarrow> bytes" where
  "client_file e ending = cstr (ec_file_number e) @ ending"

definition set_error :: "('z persistent_scheme, unit) state" where
  "set_error = modify (\<lambda>s. s\<lparr>error := True\<rparr>)"

text \<open>The guards with which the operations begin.\<close>

definition no_transaction :: "'z persistent_scheme \<Rightarrow> bool" where
  "no_transaction s \<longleftrightarrow> \<not> transaction_started s \<or> error s"

definition no_client :: "'z persistent_scheme \<Rightarrow> bool" where
  "no_client s \<longleftrightarrow> no_transaction s \<or> not_in_client_registry s"

section \<open>Start-up and files\<close>

definition create_file :: "bytes \<Rightarrow> ('z persistent_scheme, unit) state" where
  "create_file name = do { _ \<leftarrow> sd_open name FILE_WRITE; ret () }"

definition delete_file :: "bytes \<Rightarrow> ('z persistent_scheme, unit) state" where
  "delete_file name = do {
     ex \<leftarrow> sd_exists name;
     if ex then do { _ \<leftarrow> sd_remove name; ret () } else ret ()
   }"

text \<open>\<open>begin\<close>, called with \<open>core\<close> and \<open>logger\<close> set as \<open>Gateway::begin\<close> sets them.\<close>

definition persistent_begin :: "('z persistent_scheme, bool) state" where
  "persistent_begin = do {
     modify (\<lambda>s. s\<lparr>transaction_started := False, not_in_client_registry := False\<rparr>);
     create_file client_registry;
     create_file mqtt_sub;
     ret True
   }"

section \<open>Transactions\<close>

text \<open>
  The loop over the registry in both \<open>start_client_transaction\<close> functions, in \<open>reset_client\<close> and
  in \<open>delete_client\<close>: the first full entry with a terminated client id that satisfies \<open>P\<close>.
\<close>

definition find_client :: "(entry_client \<Rightarrow> bool) \<Rightarrow>
    ('z persistent_scheme, (entry_client \<times> u32, u32, unit) loop_result) state" where
  "find_client P = do {
     h \<leftarrow> sd_open client_registry FILE_READ;
     reads (\<lambda>s. file_loop sizeof_entry_client
       (on_full sizeof_entry_client dec_client False
          (\<lambda>e n a. if length (cstr (ec_client_id e)) < MAXIMUM_CLIENT_ID_LENGTH \<and> P e
                   then Inl (e, n) else Inr a)) s h 0 ())
   }"

definition start_client_transaction_id :: "bytes \<Rightarrow> ('z persistent_scheme, unit) state" where
  "start_client_transaction_id client_id = do {
     s \<leftarrow> State_Monad.get;
     if transaction_started s then set_error
     else if length (cstr client_id) \<ge> MAXIMUM_CLIENT_ID_LENGTH then set_error
     else do {
       modify (\<lambda>s. s\<lparr>transaction_started := True, error := False,
                     not_in_client_registry := True\<rparr>);
       r \<leftarrow> find_client (\<lambda>e. cstr (ec_client_id e) = cstr client_id);
       case r of
         Returned (e, n) \<Rightarrow> modify (\<lambda>s. s\<lparr>entry := e, not_in_client_registry := False\<rparr>)
       | Done n rest a \<Rightarrow> modify (\<lambda>s. s\<lparr>entry := dec_client (padz sizeof_entry_client rest),
                                       not_in_client_registry := True\<rparr>)
     }
   }"

definition start_client_transaction_address ::
    "device_address \<Rightarrow> ('z persistent_scheme, unit) state" where
  "start_client_transaction_address address = do {
     s \<leftarrow> State_Monad.get;
     if transaction_started s then set_error
     else do {
       modify (\<lambda>s. s\<lparr>transaction_started := True, error := False,
                     not_in_client_registry := False\<rparr>);
       r \<leftarrow> find_client (\<lambda>e. ec_client_address e = address);
       case r of
         Returned (e, n) \<Rightarrow> modify (\<lambda>s. s\<lparr>entry := e, not_in_client_registry := False\<rparr>)
       | Done n rest a \<Rightarrow> modify (\<lambda>s. s\<lparr>entry := dec_client (padz sizeof_entry_client rest),
                                       not_in_client_registry := True\<rparr>)
     }
   }"

text \<open>The return type is \<open>uint8_t\<close>: \<open>return -1\<close> yields 255.\<close>

definition apply_transaction :: "('z persistent_scheme, byte) state" where
  "apply_transaction = do {
     s \<leftarrow> State_Monad.get;
     modify (\<lambda>s. s\<lparr>error := False, transaction_started := False,
                   not_in_client_registry := False\<rparr>);
     if transaction_started s then
       if error s then ret 0
       else if not_in_client_registry s then ret (-1)
       else ret 1
     else ret 0
   }"

definition client_exist :: "('z persistent_scheme, bool) state" where
  "client_exist = reads (\<lambda>s. \<not> no_transaction s \<and> \<not> not_in_client_registry s)"

section \<open>Clients\<close>

text \<open>Write the entry of the transaction to the slot \<open>n\<close> of the registry.\<close>

definition write_entry :: "int \<Rightarrow> ('z persistent_scheme, unit) state" where
  "write_entry n = do {
     s \<leftarrow> State_Monad.get;
     write_at client_registry (n * int sizeof_entry_client) (enc_client (entry s))
   }"

definition parse_file_number_to_int :: "entry_client \<Rightarrow> int" where
  "parse_file_number_to_int e = atoi (ec_file_number e)"

definition reset_client :: "bytes \<Rightarrow> device_address \<Rightarrow> u32 \<Rightarrow> ('z persistent_scheme, unit) state"
  where
  "reset_client client_id address duration = do {
     s \<leftarrow> State_Monad.get;
     if no_transaction s then ret ()
     else if not_in_client_registry s then ret ()
     else if length (cstr client_id) \<ge> MAXIMUM_CLIENT_ID_LENGTH then set_error
     else if cstr (ec_client_id (entry s)) \<noteq> cstr client_id then set_error
     else do {
       r \<leftarrow> find_client (\<lambda>e. cstr (ec_client_id e) = cstr client_id);
       case r of
         Returned (e, line_number) \<Rightarrow> do {
           modify (\<lambda>s. s\<lparr>entry := e\<lparr>ec_client_address := address,
             ec_client_id := padz 24 (cstr client_id), ec_duration := duration,
             ec_timeout := 0, ec_client_status := ACTIVE, ec_await_message_id := 0,
             ec_await_message := MQTTSN_PINGREQ\<rparr>\<rparr>);
           write_entry (uint line_number);
           modify (\<lambda>s. s\<lparr>not_in_client_registry := False\<rparr>)
         }
       | Done n rest a \<Rightarrow>
           modify (\<lambda>s. s\<lparr>entry := dec_client (padz sizeof_entry_client rest),
             error := True, not_in_client_registry := True\<rparr>)
     }
   }"

text \<open>\<open>find_empty_entry_space_in_registry\<close> looks at partial entries, too.\<close>

definition find_empty_entry_space_in_registry :: "('z persistent_scheme, u16) state" where
  "find_empty_entry_space_in_registry = do {
     h \<leftarrow> sd_open client_registry FILE_READ;
     s \<leftarrow> State_Monad.get;
     case file_loop sizeof_entry_client
         (\<lambda>chunk n a. if chunk = [] then Break a
            else if length (cstr (ec_client_id (dec_client (padz sizeof_entry_client chunk)))) = 0
            then Return n else Next a) s h 0 () of
       Returned n \<Rightarrow> ret n
     | Done n rest a \<Rightarrow> ret n
   }"

definition add_client :: "bytes \<Rightarrow> device_address \<Rightarrow> u32 \<Rightarrow> ('z persistent_scheme, unit) state"
  where
  "add_client client_id address duration = do {
     s \<leftarrow> State_Monad.get;
     if \<not> transaction_started s then ret ()
     else if error s then ret ()
     else if \<not> not_in_client_registry s then set_error
     else if length (cstr client_id) \<ge> MAXIMUM_CLIENT_ID_LENGTH then set_error
     else do {
       empty_space \<leftarrow> find_empty_entry_space_in_registry;
       modify (\<lambda>s. s\<lparr>entry := \<lparr>ec_client_id = padz 24 (cstr client_id),
         ec_file_number = padz 9 (fmt08 (unat empty_space)), ec_client_address = address,
         ec_client_status = ACTIVE, ec_duration = duration, ec_timeout = 0,
         ec_await_message_id = 0, ec_await_message = MQTTSN_PINGREQ\<rparr>\<rparr>);
       s \<leftarrow> State_Monad.get;
       create_file (client_file (entry s) REGISTRATION_FILE_ENDING);
       create_file (client_file (entry s) SUBSCRIBE_FILE_ENDING);
       create_file (client_file (entry s) WILL_FILE_ENDING);
       create_file (client_file (entry s) PUBLISH_FILE_ENDING);
       write_entry (uint empty_space);
       modify (\<lambda>s. s\<lparr>not_in_client_registry := False\<rparr>)
     }
   }"

section \<open>Fields of the current client\<close>

text \<open>The setters change one field of the entry and write it to its slot.\<close>

definition update_entry :: "(entry_client \<Rightarrow> entry_client) \<Rightarrow> ('z persistent_scheme, unit) state"
  where
  "update_entry f = do {
     s \<leftarrow> State_Monad.get;
     if no_transaction s then ret ()
     else if not_in_client_registry s then ret ()
     else do {
       modify (\<lambda>s. s\<lparr>entry := f (entry s)\<rparr>);
       write_entry (parse_file_number_to_int (f (entry s)))
     }
   }"

definition set_client_await_message :: "byte \<Rightarrow> ('z persistent_scheme, unit) state" where
  "set_client_await_message msg_type = update_entry (\<lambda>e. e\<lparr>ec_await_message := msg_type\<rparr>)"

definition set_timeout :: "u32 \<Rightarrow> ('z persistent_scheme, unit) state" where
  "set_timeout timeout = update_entry (\<lambda>e. e\<lparr>ec_timeout := timeout\<rparr>)"

definition set_client_state :: "byte \<Rightarrow> ('z persistent_scheme, unit) state" where
  "set_client_state status = update_entry (\<lambda>e. e\<lparr>ec_client_status := status\<rparr>)"

text \<open>
  The statement in \<open>set_client_await_msg_id\<close> is the comparison
  \<open>_entry_client.await_message_id == msg_id\<close>: the entry is written back as it was.
\<close>

definition set_client_await_msg_id :: "u16 \<Rightarrow> ('z persistent_scheme, unit) state" where
  "set_client_await_msg_id msg_id = update_entry (\<lambda>e. e)"

text \<open>\<open>set_client_duration\<close> has an empty body.\<close>

definition set_client_duration :: "u32 \<Rightarrow> ('z persistent_scheme, unit) state" where
  "set_client_duration duration = ret ()"

definition get_client_status :: "('z persistent_scheme, byte) state" where
  "get_client_status = reads (\<lambda>s. if no_client s then LOST else ec_client_status (entry s))"

definition get_client_await_msg_id :: "('z persistent_scheme, u16) state" where
  "get_client_await_msg_id = reads (\<lambda>s. if no_client s then 0 else ec_await_message_id (entry s))"

definition get_client_await_message_type :: "('z persistent_scheme, byte) state" where
  "get_client_await_message_type =
     reads (\<lambda>s. if no_client s then MQTTSN_PINGREQ else ec_await_message (entry s))"

section \<open>Iterating over the registry\<close>

definition get_last_client_address ::
    "device_address \<Rightarrow> ('z persistent_scheme, device_address) state" where
  "get_last_client_address target_address = do {
     h \<leftarrow> sd_open client_registry FILE_READ;
     s \<leftarrow> State_Monad.get;
     case file_loop sizeof_entry_client
         (on_full sizeof_entry_client dec_client False
            (\<lambda>e n a. Inr (if ec_client_status e \<noteq> EMPTY then ec_client_address e else a)))
         s h (0 :: u32) target_address of
       Returned x \<Rightarrow> ret x
     | Done n rest a \<Rightarrow> ret a
   }"

text \<open>Entry \<open>n\<close> of the registry, the zeroed entry behind its end.\<close>

definition get_nth_client :: "nat \<Rightarrow> ('z persistent_scheme, entry_client) state" where
  "get_nth_client n = do {
     h \<leftarrow> sd_open client_registry FILE_READ;
     reads (\<lambda>s. dec_client (padz sizeof_entry_client
       (fst (file_read s (file_seek h (int n * int sizeof_entry_client)) sizeof_entry_client))))
   }"

section \<open>Connection state of the gateway\<close>

definition set_mqttsn_disconnected :: "('z persistent_scheme, byte) state" where
  "set_mqttsn_disconnected = do { modify (\<lambda>s. s\<lparr>mqttsn_online := False\<rparr>); ret 1 }"

definition set_mqtt_disconnected :: "('z persistent_scheme, byte) state" where
  "set_mqtt_disconnected = do { modify (\<lambda>s. s\<lparr>mqtt_online := False\<rparr>); ret 1 }"

definition set_mqttsn_connected :: "('z persistent_scheme, byte) state" where
  "set_mqttsn_connected = do { modify (\<lambda>s. s\<lparr>mqttsn_online := True\<rparr>); ret 1 }"

definition set_mqtt_connected :: "('z persistent_scheme, byte) state" where
  "set_mqtt_connected = do { modify (\<lambda>s. s\<lparr>mqtt_online := True\<rparr>); ret 1 }"

definition is_mqttsn_online :: "('z persistent_scheme, bool) state" where
  "is_mqttsn_online = reads mqttsn_online"

definition is_mqtt_online :: "('z persistent_scheme, bool) state" where
  "is_mqtt_online = reads mqtt_online"

definition get_advertise_duration :: u16 where "get_advertise_duration = 900"

text \<open>\<open>get_gateway_id\<close> returns true and leaves the byte it is to fill untouched.\<close>

definition get_gateway_id :: "byte \<Rightarrow> ('z persistent_scheme, bool \<times> byte) state" where
  "get_gateway_id gateway_id = ret (True, gateway_id)"

end
