(* ===== verification/PersistTopics.thy ===== *)
theory PersistTopics
  imports PersistClients
begin

text \<open>
  Topic registrations of a client in \<open>src/Implementation/SDPersistentImpl.h\<close>: the file
  \<open><file_number>.REG\<close> holds one \<open>entry_registration\<close> per topic.  A \<open>const char*\<close> result is an
  option of the C string; the pointers point into members that no operation changes before the
  callers are done with them.
\<close>

definition reg_file :: "'z persistent_scheme \<Rightarrow> bytes" where
  "reg_file s = client_file (entry s) REGISTRATION_FILE_ENDING"

definition get_topic_name :: "u16 \<Rightarrow> ('z persistent_scheme, bytes option) state" where
  "get_topic_name topic_id = do {
     s \<leftarrow> State_Monad.get;
     if no_transaction s then ret None
     else if topic_id = 0 then ret None
     else do {
       h \<leftarrow> sd_open (reg_file s) FILE_READ;
       s \<leftarrow> State_Monad.get;
       case file_loop sizeof_entry_registration
           (on_full sizeof_entry_registration dec_registration False
              (\<lambda>e n a. if er_topic_id e = topic_id
                          \<and> length (cstr (er_topic_name e)) < MAXIMUM_TOPIC_NAME_LENGTH
                       then Inl (cstr (er_topic_name e)) else Inr a)) s h (0 :: u16) () of
         Returned name \<Rightarrow> ret (Some name)
       | Done n rest a \<Rightarrow> ret None
     }
   }"

text \<open>\<open>get_topic_id\<close> is a stub.\<close>

definition get_topic_id :: "bytes option \<Rightarrow> ('z persistent_scheme, u16) state" where
  "get_topic_id topic_name = ret 0"

text \<open>
  \<open>add_client_registration\<close>: the loop's variable is \<open>first_empty_space\<close>.  The id of a new entry
  is the entry counter after the loop.  \<open>new_topic_id\<close> is the value of the out-parameter, kept
  when the function returns without assigning it.
\<close>

definition add_client_registration ::
    "bytes \<Rightarrow> u16 \<Rightarrow> ('z persistent_scheme, u16) state" where
  "add_client_registration topic_name new_topic_id = do {
     s \<leftarrow> State_Monad.get;
     if no_transaction s then ret new_topic_id
     else if not_in_client_registry s then ret new_topic_id
     else if length (cstr topic_name) > MAXIMUM_TOPIC_NAME_LENGTH then do {
       set_error;
       ret new_topic_id
     } else do {
       h \<leftarrow> sd_open (reg_file s) FILE_READ;
       s \<leftarrow> State_Monad.get;
       case file_loop sizeof_entry_registration
           (on_full sizeof_entry_registration dec_registration True
              (\<lambda>e n a. if er_topic_id e = 0 \<and> cstr (er_topic_name e) = [] then Inr (uint n)
                 else if er_topic_id e \<noteq> 0
                   \<and> length (cstr (er_topic_name e)) < MAXIMUM_TOPIC_NAME_LENGTH
                   \<and> cstr (er_topic_name e) = cstr topic_name
                 then Inl (er_topic_id e) else Inr a)) s h (0 :: u16) (-1) of
         Returned t \<Rightarrow> ret t
       | Done entry_number rest a \<Rightarrow> do {
           let first_empty_space = (if a = -1 then uint entry_number - 1 else a);
           let e = dec_registration (padz sizeof_entry_registration rest);
           let e' = \<lparr>er_topic_id = entry_number,
                     er_topic_name = strcpy (er_topic_name e) (cstr topic_name),
                     er_known = True\<rparr>;
           write_at (reg_file s) (first_empty_space * int sizeof_entry_registration)
             (enc_registration e');
           ret entry_number
         }
     }
   }"

text \<open>
  \<open>is_topic_known\<close> ends without a \<open>return\<close> when no entry has the id; the value is then
  \<open>indet_bool\<close>.
\<close>

definition is_topic_known :: "u16 \<Rightarrow> ('z persistent_scheme, bool) state" where
  "is_topic_known topic_id = do {
     s \<leftarrow> State_Monad.get;
     if no_transaction s then ret False
     else if not_in_client_registry s then ret False
     else if topic_id = 0 then do { set_error; ret False }
     else do {
       h \<leftarrow> sd_open (reg_file s) FILE_READ;
       s \<leftarrow> State_Monad.get;
       case file_loop sizeof_entry_registration
           (on_full sizeof_entry_registration dec_registration True
              (\<lambda>e n a. if er_topic_id e = 0 \<and> cstr (er_topic_name e) = [] then Inr a
                 else if er_topic_id e = topic_id
                   \<and> length (cstr (er_topic_name e)) < MAXIMUM_TOPIC_NAME_LENGTH
                 then Inl (er_known e) else Inr a)) s h (0 :: u16) () of
         Returned k \<Rightarrow> ret k
       | Done n rest a \<Rightarrow> ret (indet_bool s)
     }
   }"

text \<open>\<open>set_topic_known\<close> has an empty body and its result is never used.\<close>

definition set_topic_known :: "u16 \<Rightarrow> bool \<Rightarrow> ('z persistent_scheme, unit) state" where
  "set_topic_known topic_id known = ret ()"

end
