(* ===== verification/PersistSubscriptions.thy ===== *)
theory PersistSubscriptions
  imports PersistClients
begin

text \<open>
  Subscriptions in \<open>src/Implementation/SDPersistentImpl.h\<close>: the file \<open><file_number>.SUB\<close> holds the
  subscriptions of a client, a cleared entry where one was deleted, and the file \<open>MQTT.SUB\<close> the
  number of subscribed clients of each topic name.  A \<open>const char*\<close> parameter that may be null
  is an option.
\<close>

definition sub_file :: "'z persistent_scheme \<Rightarrow> bytes" where
  "sub_file s = client_file (entry s) SUBSCRIBE_FILE_ENDING"

text \<open>\<open>topic_name == nullptr || strlen(..) == 0 || strlen(..) >= MAXIMUM_TOPIC_NAME_LENGTH\<close>.\<close>

definition bad_topic_name :: "bytes option \<Rightarrow> bool" where
  "bad_topic_name t = (case t of None \<Rightarrow> True
     | Some n \<Rightarrow> cstr n = [] \<or> length (cstr n) \<ge> MAXIMUM_TOPIC_NAME_LENGTH)"

definition names_topic :: "bytes \<Rightarrow> bytes \<Rightarrow> bool" where
  "names_topic arr n \<longleftrightarrow> length (cstr arr) < MAXIMUM_TOPIC_NAME_LENGTH \<and> cstr arr = cstr n"

section \<open>Subscriptions of the current client\<close>

text \<open>
  The loop shared by \<open>is_subscribed\<close>, \<open>get_subscription_qos\<close> and \<open>get_subscription_topic_id\<close>.
\<close>

definition find_subscription :: "bytes \<Rightarrow> ('z persistent_scheme, entry_subscription option) state"
  where
  "find_subscription topic_name = do {
     s \<leftarrow> State_Monad.get;
     h \<leftarrow> sd_open (sub_file s) FILE_READ;
     s \<leftarrow> State_Monad.get;
     case file_loop sizeof_entry_subscription
         (on_full sizeof_entry_subscription dec_subscription False
            (\<lambda>e n a. if names_topic (es_topic_name e) topic_name then Inl e else Inr a))
         s h (0 :: u16) () of
       Returned e \<Rightarrow> ret (Some e)
     | Done n rest a \<Rightarrow> ret None
   }"

definition is_subscribed :: "bytes option \<Rightarrow> ('z persistent_scheme, bool) state" where
  "is_subscribed topic_name = do {
     s \<leftarrow> State_Monad.get;
     if no_client s then ret False
     else if bad_topic_name topic_name then ret False
     else do { r \<leftarrow> find_subscription (the topic_name); ret (r \<noteq> None) }
   }"

definition get_subscription_qos :: "bytes option \<Rightarrow> ('z persistent_scheme, byte) state" where
  "get_subscription_qos topic_name = do {
     s \<leftarrow> State_Monad.get;
     if no_client s then ret 0
     else if bad_topic_name topic_name then ret 0
     else do {
       r \<leftarrow> find_subscription (the topic_name);
       ret (case r of None \<Rightarrow> -1 | Some e \<Rightarrow> es_qos e)
     }
   }"

definition get_subscription_topic_id :: "bytes option \<Rightarrow> ('z persistent_scheme, u16) state" where
  "get_subscription_topic_id topic_name = do {
     s \<leftarrow> State_Monad.get;
     if no_client s then ret 0
     else if bad_topic_name topic_name then ret 0
     else do {
       r \<leftarrow> find_subscription (the topic_name);
       ret (case r of None \<Rightarrow> 0 | Some e \<Rightarrow> es_topic_id e)
     }
   }"

definition add_subscription :: "bytes option \<Rightarrow> u16 \<Rightarrow> byte \<Rightarrow> ('z persistent_scheme, unit) state"
  where
  "add_subscription topic_name topic_id qos = do {
     s \<leftarrow> State_Monad.get;
     if no_client s then ret ()
     else if bad_topic_name topic_name then ret ()
     else if topic_id = 0 then ret ()
     else do {
       h \<leftarrow> sd_open (sub_file s) FILE_READ;
       s \<leftarrow> State_Monad.get;
       case file_loop sizeof_entry_subscription
           (on_full sizeof_entry_subscription dec_subscription False
              (\<lambda>e n a. if es_topic_id e = 0 \<and> cstr (es_topic_name e) = [] then Inr (uint n)
                 else if es_topic_id e = topic_id \<and> names_topic (es_topic_name e) (the topic_name)
                 then Inl () else Inr a)) s h (0 :: u16) (-1) of
         Returned u \<Rightarrow> ret ()
       | Done entry_number rest a \<Rightarrow>
           write_at (sub_file s)
             ((if a = -1 then uint entry_number - 1 else a) * int sizeof_entry_subscription)
             (enc_subscription \<lparr>es_topic_id = topic_id, es_qos = qos,
                es_topic_name = padz 255 (cstr (the topic_name))\<rparr>)
     }
   }"

definition get_client_subscription_count :: "('z persistent_scheme, u16) state" where
  "get_client_subscription_count = do {
     s \<leftarrow> State_Monad.get;
     if no_transaction s then ret 0
     else if not_in_client_registry s then ret 0
     else do {
       h \<leftarrow> sd_open (sub_file s) FILE_READ;
       s \<leftarrow> State_Monad.get;
       case file_loop sizeof_entry_subscription
           (on_full sizeof_entry_subscription dec_subscription False
              (\<lambda>e n a. Inr (if es_topic_id e \<noteq> 0 then a + 1 else a))) s h (0 :: u16) 0 of
         Returned x \<Rightarrow> ret x
       | Done n rest entry_number \<Rightarrow> ret entry_number
     }
   }"

text \<open>Entry \<open>n\<close> of the file, whether or not the entries before it are in use.\<close>

definition get_nth_subscribed_topic_id :: "u16 \<Rightarrow> ('z persistent_scheme, u16) state" where
  "get_nth_subscribed_topic_id n = do {
     s \<leftarrow> State_Monad.get;
     if no_transaction s then ret 0
     else do {
       h \<leftarrow> sd_open (sub_file s) FILE_READ;
       s \<leftarrow> State_Monad.get;
       let chunk = fst (file_read s (file_seek h (uint n * int sizeof_entry_subscription))
                          sizeof_entry_subscription);
       ret (if length chunk = sizeof_entry_subscription \<and> es_topic_id (dec_subscription chunk) \<noteq> 0
            then es_topic_id (dec_subscription chunk) else 0)
     }
   }"

definition delete_subscription :: "u16 \<Rightarrow> ('z persistent_scheme, unit) state" where
  "delete_subscription topic_id = do {
     s \<leftarrow> State_Monad.get;
     if no_transaction s then ret ()
     else if topic_id = 0 then ret ()
     else do {
       h \<leftarrow> sd_open (sub_file s) FILE_READ;
       s \<leftarrow> State_Monad.get;
       case file_loop sizeof_entry_subscription
           (on_full sizeof_entry_subscription dec_subscription False
              (\<lambda>e n a. if es_topic_id e = topic_id then Inl n else Inr a)) s h (0 :: u16) () of
         Returned line_number \<Rightarrow>
           write_at (sub_file s) (uint line_number * int sizeof_entry_subscription)
             (enc_subscription empty_subscription)
       | Done n rest a \<Rightarrow> set_error
     }
   }"

section \<open>Deleting a client\<close>

definition delete_client :: "bytes \<Rightarrow> ('z persistent_scheme, unit) state" where
  "delete_client client_id = do {
     s \<leftarrow> State_Monad.get;
     if no_transaction s then ret ()
     else if not_in_client_registry s then ret ()
     else if length (cstr client_id) \<ge> MAXIMUM_CLIENT_ID_LENGTH then set_error
     else do {
       subscription_count \<leftarrow> get_client_subscription_count;
       if subscription_count > 0 then set_error
       else do {
         delete_file (client_file (entry s) REGISTRATION_FILE_ENDING);
         delete_file (client_file (entry s) SUBSCRIBE_FILE_ENDING);
         delete_file (client_file (entry s) WILL_FILE_ENDING);
         delete_file (client_file (entry s) PUBLISH_FILE_ENDING);
         r \<leftarrow> find_client (\<lambda>e. cstr (ec_client_id e) = cstr client_id);
         case r of
           Returned (e, line_number) \<Rightarrow> do {
             modify (\<lambda>s. s\<lparr>entry := empty_client\<rparr>);
             write_entry (uint line_number);
             modify (\<lambda>s. s\<lparr>not_in_client_registry := True\<rparr>)
           }
         | Done n rest a \<Rightarrow>
             modify (\<lambda>s. s\<lparr>entry := dec_client (padz sizeof_entry_client rest),
                           not_in_client_registry := True\<rparr>)
       }
     }
   }"

section \<open>Subscription counts of the gateway\<close>

text \<open>
  The loop of \<open>increment_global_subscription_count\<close> and \<open>decrement_global_subscription_count\<close>:
  the position and the content of the entry in use for a topic name, or the variables after the
  loop.
\<close>

definition find_global :: "bytes \<Rightarrow>
    ('z persistent_scheme, (u16 \<times> entry_mqtt_subscription, u16, int) loop_result) state" where
  "find_global topic_name = do {
     h \<leftarrow> sd_open mqtt_sub FILE_READ;
     reads (\<lambda>s. file_loop sizeof_entry_mqtt_subscription
       (on_full sizeof_entry_mqtt_subscription dec_mqtt_subscription True
          (\<lambda>e n a. if em_client_subscription_count e = 0 \<and> cstr (em_topic_name e) = []
             then Inr (uint n)
             else if em_client_subscription_count e \<noteq> 0 \<and> names_topic (em_topic_name e) topic_name
             then Inl (n, e) else Inr a)) s h 0 (-1))
   }"

definition write_global :: "int \<Rightarrow> entry_mqtt_subscription \<Rightarrow> ('z persistent_scheme, unit) state"
  where
  "write_global n e =
     write_at mqtt_sub (n * int sizeof_entry_mqtt_subscription) (enc_mqtt_subscription e)"

definition increment_global_subscription_count ::
    "bytes option \<Rightarrow> ('z persistent_scheme, bool) state" where
  "increment_global_subscription_count topic_name = do {
     s \<leftarrow> State_Monad.get;
     if error s then ret False
     else if bad_topic_name topic_name then ret False
     else do {
       r \<leftarrow> find_global (the topic_name);
       case r of
         Returned (entry_number, e) \<Rightarrow> do {
           write_global (uint entry_number)
             (e\<lparr>em_client_subscription_count := em_client_subscription_count e + 1\<rparr>);
           ret True
         }
       | Done entry_number rest a \<Rightarrow> do {
           let e = dec_mqtt_subscription (padz sizeof_entry_mqtt_subscription rest);
           write_global (if a = -1 then uint entry_number - 1 else a)
             \<lparr>em_client_subscription_count = 1,
              em_topic_name = strcpy (em_topic_name e) (cstr (the topic_name))\<rparr>;
           ret True
         }
     }
   }"

definition decrement_global_subscription_count ::
    "bytes option \<Rightarrow> ('z persistent_scheme, bool) state" where
  "decrement_global_subscription_count topic_name = do {
     s \<leftarrow> State_Monad.get;
     if error s then ret False
     else if bad_topic_name topic_name then ret False
     else do {
       r \<leftarrow> find_global (the topic_name);
       case r of
         Returned (entry_number, e) \<Rightarrow> do {
           let e' = e\<lparr>em_client_subscription_count := em_client_subscription_count e - 1\<rparr>;
           write_global (uint entry_number)
             (if em_client_subscription_count e' = 0 then empty_mqtt_subscription else e');
           ret True
         }
       | Done entry_number rest a \<Rightarrow> ret True
     }
   }"

definition get_global_topic_subscription_count ::
    "bytes option \<Rightarrow> ('z persistent_scheme, u32) state" where
  "get_global_topic_subscription_count topic_name = do {
     s \<leftarrow> State_Monad.get;
     if error s then ret 0
     else if bad_topic_name topic_name then ret 0
     else do {
       h \<leftarrow> sd_open mqtt_sub FILE_READ;
       s \<leftarrow> State_Monad.get;
       case file_loop sizeof_entry_mqtt_subscription
           (on_full sizeof_entry_mqtt_subscription dec_mqtt_subscription True
              (\<lambda>e n a. if em_client_subscription_count e \<noteq> 0
                         \<and> names_topic (em_topic_name e) (the topic_name)
                       then Inl (em_client_subscription_count e) else Inr a))
           s h (0 :: u16) () of
         Returned c \<Rightarrow> ret c
       | Done n rest a \<Rightarrow> ret 0
     }
   }"

end
