(* ===== verification/PersistPublishes.thy ===== *)
theory PersistPublishes
  imports PersistClients
begin

text \<open>
  Stored publishes of a client in \<open>src/Implementation/SDPersistentImpl.h\<close>: the file
  \<open><file_number>.PUB\<close> holds one \<open>entry_publish\<close> per message that waits for the client; an entry
  in use has its position plus one as \<open>publish_id\<close>, a free one has 0.
\<close>

definition pub_file :: "'z persistent_scheme \<Rightarrow> bytes" where
  "pub_file s = client_file (entry s) PUBLISH_FILE_ENDING"

definition has_client_publishes :: "('z persistent_scheme, bool) state" where
  "has_client_publishes = do {
     s \<leftarrow> State_Monad.get;
     if no_client s then ret False
     else do {
       h \<leftarrow> sd_open (pub_file s) FILE_READ;
       s \<leftarrow> State_Monad.get;
       case file_loop sizeof_entry_publish
           (on_full sizeof_entry_publish dec_publish True
              (\<lambda>e n a. if ep_publish_id e \<noteq> 0 then Inl () else Inr a)) s h (0 :: u16) () of
         Returned u \<Rightarrow> ret True
       | Done n rest a \<Rightarrow> ret False
     }
   }"

text \<open>
  \<open>add_client_publish\<close> stores \<open>dup\<close> as false and \<open>msg_id\<close> as 0 whatever its arguments are.
  \<open>data\<close> are the \<open>data_len\<close> bytes it copies.
\<close>

definition add_client_publish :: "bytes \<Rightarrow> byte \<Rightarrow> u16 \<Rightarrow> bool \<Rightarrow> byte \<Rightarrow> bool \<Rightarrow> u16 \<Rightarrow>
    ('z persistent_scheme, unit) state" where
  "add_client_publish data data_len topic_id retain qos dup msg_id = do {
     s \<leftarrow> State_Monad.get;
     if no_client s then ret ()
     else do {
       h \<leftarrow> sd_open (pub_file s) FILE_READ;
       s \<leftarrow> State_Monad.get;
       case file_loop sizeof_entry_publish
           (on_full sizeof_entry_publish dec_publish True
              (\<lambda>e n a. Inr (if ep_publish_id e = 0 then uint n else a))) s h (0 :: u16) (-1) of
         Returned u \<Rightarrow> ret u
       | Done entry_number rest a \<Rightarrow> do {
           let first_empty_space = (if a = -1 then uint entry_number - 1 else a);
           write_at (pub_file s) (first_empty_space * int sizeof_entry_publish)
             (enc_publish \<lparr>ep_msg = padz 255 (take (unat data_len) data),
                ep_msg_length = data_len, ep_topic_id = topic_id, ep_qos = qos,
                ep_retain = retain, ep_dup = False, ep_msg_id = 0,
                ep_publish_id = of_int (first_empty_space + 1),
                ep_retransmition_timeout = 0\<rparr>)
         }
     }
   }"

definition add_new_client_publish :: "bytes \<Rightarrow> byte \<Rightarrow> u16 \<Rightarrow> bool \<Rightarrow> byte \<Rightarrow>
    ('z persistent_scheme, unit) state" where
  "add_new_client_publish data data_len topic_id retain qos =
     add_client_publish data data_len topic_id retain qos False 0"

text \<open>
  \<open>get_next_publish\<close> finds the last entry in use.  \<open>None\<close> when only \<open>data_len\<close> and
  \<open>publish_id\<close> are set, to 0.
\<close>

definition get_next_publish :: "('z persistent_scheme, entry_publish option) state" where
  "get_next_publish = do {
     s \<leftarrow> State_Monad.get;
     if no_client s then ret None
     else do {
       h \<leftarrow> sd_open (pub_file s) FILE_READ;
       s \<leftarrow> State_Monad.get;
       case file_loop sizeof_entry_publish
           (on_full sizeof_entry_publish dec_publish True
              (\<lambda>e n a. Inr (if ep_publish_id e \<noteq> 0 then uint n else a))) s h (0 :: u16) (-1) of
         Returned u \<Rightarrow> ret u
       | Done entry_number rest last_publish_entry \<Rightarrow>
           if last_publish_entry = -1 then ret None
           else do {
             h \<leftarrow> sd_open (pub_file s) FILE_READ;
             reads (\<lambda>s. Some (dec_publish (padz sizeof_entry_publish (fst (file_read s
               (file_seek h (last_publish_entry * int sizeof_entry_publish))
               sizeof_entry_publish)))))
           }
     }
   }"

text \<open>
  The shared shape of \<open>set_publish_msg_id\<close> and \<open>remove_publish_by_publish_id\<close>: read the entry
  at \<open>publish_id - 1\<close> and, if it carries this id, write \<open>f\<close> of it back.
\<close>

definition update_publish :: "u16 \<Rightarrow> (entry_publish \<Rightarrow> entry_publish) \<Rightarrow>
    ('z persistent_scheme, unit) state" where
  "update_publish publish_id f = do {
     s \<leftarrow> State_Monad.get;
     if no_client s then ret ()
     else do {
       h \<leftarrow> sd_open (pub_file s) FILE_READ;
       s \<leftarrow> State_Monad.get;
       let pos = (uint publish_id - 1) * int sizeof_entry_publish;
       let chunk = fst (file_read s (file_seek h pos) sizeof_entry_publish);
       if length chunk = sizeof_entry_publish then
         if ep_publish_id (dec_publish chunk) = publish_id
         then write_at (pub_file s) pos (enc_publish (f (dec_publish chunk)))
         else set_error
       else ret ()
     }
   }"

definition set_publish_msg_id :: "u16 \<Rightarrow> u16 \<Rightarrow> ('z persistent_scheme, unit) state" where
  "set_publish_msg_id publish_id msg_id =
     update_publish publish_id (\<lambda>e. e\<lparr>ep_msg_id := msg_id\<rparr>)"

definition remove_publish_by_publish_id :: "u16 \<Rightarrow> ('z persistent_scheme, unit) state" where
  "remove_publish_by_publish_id publish_id = update_publish publish_id (\<lambda>e. empty_publish)"

text \<open>
  \<open>remove_publish_by_msg_id\<close> seeks to \<open>entry_number * sizeof(buffer_size)\<close> and writes
  \<open>sizeof(buffer_size)\<close> zero bytes, where \<open>buffer_size\<close> is a \<open>uint16_t\<close>: two bytes, not the
  size of the entry.  It goes on after setting the error for a message id of 0.
\<close>

definition sizeof_buffer_size :: nat where "sizeof_buffer_size = 2"

definition remove_publish_by_msg_id :: "u16 \<Rightarrow> ('z persistent_scheme, unit) state" where
  "remove_publish_by_msg_id msg_id = do {
     s \<leftarrow> State_Monad.get;
     if no_client s then ret ()
     else do {
       (if msg_id = 0 then set_error else ret ());
       h \<leftarrow> sd_open (pub_file s) FILE_READ;
       s \<leftarrow> State_Monad.get;
       case file_loop sizeof_entry_publish
           (on_full sizeof_entry_publish dec_publish True
              (\<lambda>e n a. if ep_msg_id e = msg_id then Inl n else Inr a)) s h (0 :: u16) () of
         Returned entry_number \<Rightarrow>
           write_at (pub_file s) (uint entry_number * int sizeof_buffer_size)
             (replicate sizeof_buffer_size 0)
       | Done n rest a \<Rightarrow> ret ()
     }
   }"

end
