(* ===== verification/PersistWill.thy ===== *)
theory PersistWill
  imports PersistClients
begin

text \<open>
  The will of a client in \<open>src/Implementation/SDPersistentImpl.h\<close>: the file \<open><file_number>.WIL\<close>
  is empty or holds one \<open>entry_will\<close>.
\<close>

definition will_file :: "'z persistent_scheme \<Rightarrow> bytes" where
  "will_file s = client_file (entry s) WILL_FILE_ENDING"

definition delete_will :: "('z persistent_scheme, unit) state" where
  "delete_will = do {
     s \<leftarrow> State_Monad.get;
     if no_client s then ret ()
     else do {
       _ \<leftarrow> sd_remove (will_file s);
       create_file (will_file s)
     }
   }"

text \<open>The first \<open>sizeof(entry_will)\<close> bytes of the file, fewer when it is shorter.\<close>

definition read_will :: "('z persistent_scheme, bytes) state" where
  "read_will = do {
     s \<leftarrow> State_Monad.get;
     h \<leftarrow> sd_open (will_file s) FILE_READ;
     reads (\<lambda>s. fst (file_read s h sizeof_entry_will))
   }"

definition has_client_will :: "('z persistent_scheme, bool) state" where
  "has_client_will = do {
     s \<leftarrow> State_Monad.get;
     if no_client s then ret False
     else do { chunk \<leftarrow> read_will; ret (length chunk = sizeof_entry_will) }
   }"

text \<open>\<open>None\<close> when the out-parameters are left as they are.\<close>

definition get_client_will :: "('z persistent_scheme, entry_will option) state" where
  "get_client_will = do {
     s \<leftarrow> State_Monad.get;
     if no_client s then ret None
     else do {
       chunk \<leftarrow> read_will;
       ret (if length chunk = sizeof_entry_will then Some (dec_will chunk) else None)
     }
   }"

text \<open>Read what the file holds into a zeroed struct, change it and write it to the front.\<close>

definition update_will :: "(entry_will \<Rightarrow> entry_will) \<Rightarrow> ('z persistent_scheme, unit) state" where
  "update_will f = do {
     chunk \<leftarrow> read_will;
     s \<leftarrow> State_Monad.get;
     write_at (will_file s) 0 (enc_will (f (dec_will (padz sizeof_entry_will chunk))))
   }"

definition set_client_willtopic :: "bytes \<Rightarrow> byte \<Rightarrow> bool \<Rightarrow> ('z persistent_scheme, unit) state"
  where
  "set_client_willtopic willtopic qos retain = do {
     s \<leftarrow> State_Monad.get;
     if no_client s then ret ()
     else if length (cstr willtopic) \<ge> MAXIMUM_TOPIC_NAME_LENGTH then ret ()
     else update_will (\<lambda>w. w\<lparr>ew_willtopic := padz 255 (cstr willtopic),
                             ew_qos := qos, ew_retain := retain\<rparr>)
   }"

text \<open>\<open>willmsg\<close> are the bytes at the pointer, of which the first \<open>willmsg_length\<close> are copied.\<close>

definition set_client_willmessage :: "bytes \<Rightarrow> byte \<Rightarrow> ('z persistent_scheme, unit) state" where
  "set_client_willmessage willmsg willmsg_length = do {
     s \<leftarrow> State_Monad.get;
     if no_client s then ret ()
     else update_will (\<lambda>w. w\<lparr>ew_willmsg := padz 255 (take (unat willmsg_length) willmsg),
                             ew_willmsg_length := willmsg_length\<rparr>)
   }"

end
