(* ===== verification/PersistConfig.thy ===== *)
theory PersistConfig
  imports PersistClients
begin

text \<open>
  The text files of \<open>src/Implementation/SDPersistentImpl.h\<close>: reading lines, the predefined topics
  of \<open>TOPICS.PRE\<close> and the configuration values of \<open>MQTT.CON\<close>.  The parsers walk over a
  terminated line with a pointer; here they recurse over the bytes from the pointer on.
\<close>

definition newline :: byte where "newline = 10"
definition space :: byte where "space = 32"
definition dot :: byte where "dot = 46"

section \<open>Reading lines\<close>

text \<open>
  \<open>readCharUntil\<close>: at most \<open>buffer_size\<close> characters, up to the terminator, which is consumed,
  or the end of the file.
\<close>

fun readCharUntil :: "'z sd_card_scheme \<Rightarrow> int \<Rightarrow> nat \<Rightarrow> file_handle \<Rightarrow> bytes \<times> file_handle" where
  "readCharUntil s terminator 0 h = ([], h)"
| "readCharUntil s terminator (Suc n) h =
     (let (c, h') = file_getc s h in
      if c < 0 \<or> c = terminator then ([], h')
      else let (bs, h'') = readCharUntil s terminator n h' in (of_int c # bs, h''))"

definition readLine :: "'z sd_card_scheme \<Rightarrow> nat \<Rightarrow> file_handle \<Rightarrow> bytes \<times> file_handle" where
  "readLine s buffer_size h = readCharUntil s (uint newline) buffer_size h"

text \<open>The same on the bytes that are left in the file.\<close>

fun take_line :: "nat \<Rightarrow> bytes \<Rightarrow> bytes \<times> bytes" where
  "take_line 0 bs = ([], bs)"
| "take_line (Suc n) [] = ([], [])"
| "take_line (Suc n) (b # bs) =
     (if b = newline then ([], bs) else let (l, r) = take_line n bs in (b # l, r))"

lemma file_getc_eq:
  assumes "files s (full_path h) = Some c" "read_mode h"
  shows "file_getc s h = (case drop (position h) c of [] \<Rightarrow> (-1, h)
    | b # bs \<Rightarrow> (uint b, h\<lparr>position := position h + 1\<rparr>))"
proof (cases "position h < length c")
  case True
  then have "drop (position h) c = c ! position h # drop (Suc (position h)) c"
    by (simp add: Cons_nth_drop_Suc)
  then show ?thesis using assms True by (simp add: file_getc_def)
qed (use assms in \<open>simp add: file_getc_def\<close>)

lemma readLine_take_line:
  assumes "files s (full_path h) = Some c" "read_mode h"
  shows "fst (readLine s n h) = fst (take_line n (drop (position h) c)) \<and>
    (let h' = snd (readLine s n h) in full_path h' = full_path h \<and> read_mode h' \<and>
       drop (position h') c = snd (take_line n (drop (position h) c)))"
  using assms unfolding readLine_def
proof (induction n arbitrary: h)
  case (Suc n)
  show ?case
  proof (cases "drop (position h) c")
    case Nil
    then show ?thesis using Suc.prems by (simp add: file_getc_eq)
  next
    case (Cons b bs)
    define g where "g = h\<lparr>position := position h + 1\<rparr>"
    have bs: "drop (position g) c = bs"
    proof -
      have "drop (Suc (position h)) c = tl (drop (position h) c)" by (simp add: drop_Suc tl_drop)
      then show ?thesis using Cons by (simp add: g_def)
    qed
    have g: "full_path g = full_path h" "read_mode g" using Suc.prems by (simp_all add: g_def)
    have getc: "file_getc s h = (uint b, g)" using Suc.prems Cons by (simp add: file_getc_eq g_def)
    have nn: "\<not> uint b < 0" by (simp add: not_less)
    have eq: "uint b = uint newline \<longleftrightarrow> b = newline" by (simp add: word_uint_eq_iff)
    obtain l k where lk: "readCharUntil s (uint newline) n g = (l, k)" by fastforce
    then have IH: "l = fst (take_line n bs)" "full_path k = full_path h" "read_mode k"
      "drop (position k) c = snd (take_line n bs)"
      using Suc.IH [of g] Suc.prems g bs by (simp_all add: Let_def)
    show ?thesis
      using Cons bs g IH by (simp add: getc nn eq lk Let_def case_prod_beta)
  qed
qed simp

lemma take_line_length: "take_line n bs = (l, r) \<Longrightarrow> l \<noteq> [] \<Longrightarrow> length r < length bs"
proof -
  have "take_line n bs = (l, r) \<Longrightarrow> length l + length r \<le> length bs" for l r
  proof (induction n bs arbitrary: l r rule: take_line.induct)
    case (3 n b bs)
    then show ?case by (fastforce split: if_splits prod.splits)
  qed auto
  then show "take_line n bs = (l, r) \<Longrightarrow> l \<noteq> [] \<Longrightarrow> length r < length bs"
    by (cases l) fastforce+
qed

text \<open>The lines that a loop \<open>while (readLine(...) > 0)\<close> sees: it ends at the first empty line.\<close>

function read_lines :: "nat \<Rightarrow> bytes \<Rightarrow> bytes list" where
  "read_lines buffer_size bs =
     (let l = fst (take_line buffer_size bs); r = snd (take_line buffer_size bs) in
      if l = [] then [] else l # read_lines buffer_size r)"
  by pat_completeness auto
termination
  by (relation "measure (\<lambda>(n, bs). length bs)")
    (auto intro: take_line_length [OF surjective_pairing])

declare read_lines.simps [simp del]

text \<open>\<open>SD.open(name)\<close> and the loop over the lines.\<close>

definition lines_of_file :: "bytes \<Rightarrow> nat \<Rightarrow> ('z persistent_scheme, bytes list) state" where
  "lines_of_file name buffer_size = do {
     h \<leftarrow> sd_open name FILE_READ;
     reads (\<lambda>s. read_lines buffer_size (content s (full_path h)))
   }"

section \<open>Tokens\<close>

text \<open>
  One call of \<open>strtok\<close> on the string that is left: the token and what is left after its
  delimiter, \<open>None\<close> for \<open>NULL\<close>.
\<close>

definition strtok :: "byte \<Rightarrow> bytes \<Rightarrow> (bytes \<times> bytes) option" where
  "strtok d s = (let t = dropWhile (\<lambda>b. b = d) s in
     if t = [] then None
     else Some (takeWhile (\<lambda>b. b \<noteq> d) t, drop 1 (dropWhile (\<lambda>b. b \<noteq> d) t)))"

lemma strtok_shorter: "strtok d s = Some (found, left) \<Longrightarrow> length left < length s"
proof -
  assume *: "strtok d s = Some (found, left)"
  define t where "t = dropWhile (\<lambda>b. b = d) s"
  have t: "t \<noteq> []" and left: "left = drop 1 (dropWhile (\<lambda>b. b \<noteq> d) t)"
    using * by (auto simp: strtok_def Let_def t_def split: if_splits)
  have "length (dropWhile (\<lambda>b. b \<noteq> d) t) \<le> length t" "length t \<le> length s"
    by (simp_all add: t_def length_dropWhile_le)
  then show ?thesis using t left by (cases "dropWhile (\<lambda>b. b \<noteq> d) t") auto
qed

section \<open>Predefined topics\<close>

datatype predefined_result = Found bytes | NotFound | NullPointer

text \<open>
  The body of the loop of \<open>get_predefined_topic_name\<close>.  A line whose second token is missing
  makes \<open>strlen\<close> read a null pointer.
\<close>

fun find_predefined :: "u16 \<Rightarrow> bytes list \<Rightarrow> predefined_result" where
  "find_predefined topic_id [] = NotFound"
| "find_predefined topic_id (l # ls) =
     (if length l > 3 then
        (case strtok space (cstr l) of
           None \<Rightarrow> find_predefined topic_id ls
         | Some (found, left) \<Rightarrow>
             (case strtok space left of
                None \<Rightarrow> NullPointer
              | Some (found_topic_name, _) \<Rightarrow>
                  if length found_topic_name \<ge> MAXIMUM_TOPIC_NAME_LENGTH
                  then find_predefined topic_id ls
                  else if of_int (atoi found) = topic_id then Found found_topic_name
                  else find_predefined topic_id ls))
      else find_predefined topic_id ls)"

definition get_predefined_topic_name :: "u16 \<Rightarrow> ('z persistent_scheme, bytes option) state" where
  "get_predefined_topic_name topic_id = do {
     s \<leftarrow> State_Monad.get;
     if error s then ret None
     else do {
       ls \<leftarrow> lines_of_file predefined_topic 262;
       case find_predefined topic_id ls of
         Found name \<Rightarrow> ret (Some name)
       | NotFound \<Rightarrow> ret None
       | NullPointer \<Rightarrow> do { modify (\<lambda>s. s\<lparr>crashed := True\<rparr>); ret None }
     }
   }"

section \<open>Values after a space\<close>

text \<open>\<open>while (*source++ != ' ') { start++; if (*source == '\n' || start == max) return false; }\<close>\<close>

fun find_space :: "bytes \<Rightarrow> nat \<Rightarrow> nat \<Rightarrow> (nat \<times> bytes) option" where
  "find_space [] mx start = None"
| "find_space (c # r) mx start =
     (if c = space then Some (start, r)
      else if byte_at 0 r = newline \<or> start + 1 = mx then None
      else find_space r mx (start + 1))"

text \<open>\<open>while (*source != '\n' && *source != 0) { source++; end++; if (end > max) return false; }\<close>\<close>

fun find_end :: "bytes \<Rightarrow> nat \<Rightarrow> nat \<Rightarrow> nat option" where
  "find_end [] mx end_pos = Some end_pos"
| "find_end (c # r) mx end_pos =
     (if c = newline \<or> c = 0 then Some end_pos
      else if end_pos + 1 > mx then None
      else find_end r mx (end_pos + 1))"

text \<open>
  The part all four parsers share: \<open>start\<close>, \<open>end\<close> and the bytes \<open>source[start+1 .. end]\<close>.
\<close>

definition after_space :: "bytes \<Rightarrow> nat \<Rightarrow> (nat \<times> nat \<times> bytes) option" where
  "after_space source mx =
     (case find_space source mx 0 of
        None \<Rightarrow> None
      | Some (start, r) \<Rightarrow>
          (case find_end r mx start of
             None \<Rightarrow> None
           | Some e \<Rightarrow> Some (start, e, take (e - start) r)))"

definition parse_uint8_t_after_space :: "bytes \<Rightarrow> nat \<Rightarrow> byte option" where
  "parse_uint8_t_after_space source mx =
     (case after_space source mx of
        None \<Rightarrow> None
      | Some (start, e, v) \<Rightarrow>
          if start + 1 < mx \<and> start \<noteq> e \<and> e - start \<le> 3 \<and> e - start \<ge> 1
          then Some (of_int (atoi v)) else None)"

definition parse_uint16_t_after_space :: "bytes \<Rightarrow> nat \<Rightarrow> u16 option" where
  "parse_uint16_t_after_space source mx =
     (case after_space source mx of
        None \<Rightarrow> None
      | Some (start, e, v) \<Rightarrow>
          if start + 1 < mx \<and> start \<noteq> e \<and> e - start \<le> 6 \<and> e - start \<ge> 1
          then (if (of_int (atoi v) :: u16) = 0 then None else Some (of_int (atoi v)))
          else None)"

definition parse_string_after_space :: "bytes \<Rightarrow> nat \<Rightarrow> bytes option" where
  "parse_string_after_space source mx =
     (case after_space source mx of
        None \<Rightarrow> None
      | Some (start, e, v) \<Rightarrow>
          if start + 1 < mx \<and> start \<noteq> e
          then (if cstr v = [] then None else Some v) else None)"

text \<open>The loop over the tokens of an address; \<open>numbers\<close> are the bytes stored so far.\<close>

function parse_ip :: "bytes \<Rightarrow> bytes \<Rightarrow> bytes option" where
  "parse_ip numbers s =
     (case strtok dot s of
        None \<Rightarrow> None
      | Some (found, left) \<Rightarrow>
          let tmp_number = (of_int (atoi found) :: u16); numbers' = numbers @ [ucast tmp_number] in
          if tmp_number > 255 then None
          else if length numbers' = 4
          then (if strtok dot left = None then Some numbers' else None)
          else parse_ip numbers' left)"
  by pat_completeness auto
termination
  by (relation "measure (\<lambda>(numbers, s). length s)") (auto intro: strtok_shorter)

declare parse_ip.simps [simp del]

definition parse_ipaddress_after_space :: "bytes \<Rightarrow> nat \<Rightarrow> bytes option" where
  "parse_ipaddress_after_space source mx =
     (case after_space source mx of
        None \<Rightarrow> None
      | Some (start, e, v) \<Rightarrow>
          if start + 1 < mx \<and> start \<noteq> e \<and> e - start < 17 \<and> e - start > 7
          then parse_ip [] v else None)"

section \<open>Gateway configuration\<close>

definition has_prefix :: "bytes \<Rightarrow> bytes \<Rightarrow> bool" where
  "has_prefix p l \<longleftrightarrow> take (length p) l = p"

text \<open>
  \<open>memcpy(destination, v, ...)\<close> into a buffer: what lies behind the copied bytes stays.  A value
  longer than the buffer makes the result longer than the buffer.
\<close>

definition overlay :: "bytes \<Rightarrow> bytes \<Rightarrow> bytes" where
  "overlay dst v = v @ drop (length v) dst"

text \<open>
  The variables of \<open>get_mqtt_config\<close>: the buffers it fills and its three flags.  Each flag is
  assigned by every line with its key, so the last one decides.
\<close>

record mqtt_config =
  cf_server_ip :: bytes
  cf_server_port :: u16
  cf_client_id :: bytes
  cf_has_b_addr :: bool
  cf_has_b_port :: bool
  cf_has_c_id :: bool

definition mqtt_config_line :: "mqtt_config \<Rightarrow> bytes \<Rightarrow> mqtt_config" where
  "mqtt_config_line c l =
     (let line_length = length (cstr l) + 1; source = cstr l @ [0] in
      if has_prefix (str ''brokeraddress'') l then
        (case parse_ipaddress_after_space source line_length of
           None \<Rightarrow> c\<lparr>cf_has_b_addr := False\<rparr>
         | Some ip \<Rightarrow> c\<lparr>cf_server_ip := ip, cf_has_b_addr := True\<rparr>)
      else if has_prefix (str ''brokerport'') l then
        (case parse_uint16_t_after_space source line_length of
           None \<Rightarrow> c\<lparr>cf_has_b_port := False\<rparr>
         | Some p \<Rightarrow> c\<lparr>cf_server_port := p, cf_has_b_port := True\<rparr>)
      else if has_prefix (str ''clientid'') l then
        (case parse_string_after_space source line_length of
           None \<Rightarrow> c\<lparr>cf_has_c_id := False\<rparr>
         | Some v \<Rightarrow> c\<lparr>cf_client_id := overlay (cf_client_id c) v, cf_has_c_id := True\<rparr>)
      else c)"

text \<open>The values it stores when it returns true; the caller passes zeroed buffers.\<close>

definition get_mqtt_config :: "('z persistent_scheme, (bytes \<times> u16 \<times> bytes) option) state" where
  "get_mqtt_config = do {
     ls \<leftarrow> lines_of_file mqtt_configuration 512;
     let c = foldl mqtt_config_line
       \<lparr>cf_server_ip = replicate 4 0, cf_server_port = 0, cf_client_id = replicate 24 0,
        cf_has_b_addr = False, cf_has_b_port = False, cf_has_c_id = False\<rparr> ls;
     ret (if cf_has_b_addr c \<and> cf_has_b_port c \<and> cf_has_c_id c
          then Some (cf_server_ip c, cf_server_port c, cstr (cf_client_id c)) else None)
   }"

record mqtt_login_config =
  cl_username :: bytes
  cl_password :: bytes
  cl_has_username :: bool
  cl_has_password :: bool

definition mqtt_login_line :: "mqtt_login_config \<Rightarrow> bytes \<Rightarrow> mqtt_login_config" where
  "mqtt_login_line c l =
     (let line_length = length (cstr l) + 1; source = cstr l @ [0] in
      if has_prefix (str ''username'') l then
        (case parse_string_after_space source line_length of
           None \<Rightarrow> c\<lparr>cl_has_username := False\<rparr>
         | Some v \<Rightarrow> c\<lparr>cl_username := overlay (cl_username c) v, cl_has_username := True\<rparr>)
      else if has_prefix (str ''password'') l then
        (case parse_string_after_space source line_length of
           None \<Rightarrow> c\<lparr>cl_has_password := False\<rparr>
         | Some v \<Rightarrow> c\<lparr>cl_password := overlay (cl_password c) v, cl_has_password := True\<rparr>)
      else c)"

definition get_mqtt_login_config :: "('z persistent_scheme, (bytes \<times> bytes) option) state" where
  "get_mqtt_login_config = do {
     ls \<leftarrow> lines_of_file mqtt_configuration 128;
     let c = foldl mqtt_login_line
       \<lparr>cl_username = replicate 24 0, cl_password = replicate 24 0,
        cl_has_username = False, cl_has_password = False\<rparr> ls;
     ret (if cl_has_username c \<and> cl_has_password c
          then Some (cstr (cl_username c), cstr (cl_password c)) else None)
   }"

record mqtt_will_config =
  cw_will_topic :: bytes
  cw_will_msg :: bytes
  cw_will_qos :: byte
  cw_will_retain :: bool
  cw_has_topic :: bool
  cw_has_msg :: bool
  cw_has_qos :: bool
  cw_has_retain :: bool

definition mqtt_will_line :: "mqtt_will_config \<Rightarrow> bytes \<Rightarrow> mqtt_will_config" where
  "mqtt_will_line c l =
     (let line_length = length (cstr l) + 1; source = cstr l @ [0] in
      if has_prefix (str ''willtopic'') l then
        (case parse_string_after_space source line_length of
           None \<Rightarrow> c\<lparr>cw_has_topic := False\<rparr>
         | Some v \<Rightarrow> c\<lparr>cw_will_topic := overlay (cw_will_topic c) v, cw_has_topic := True\<rparr>)
      else if has_prefix (str ''willmessage'') l then
        (case parse_string_after_space source line_length of
           None \<Rightarrow> c\<lparr>cw_has_msg := False\<rparr>
         | Some v \<Rightarrow> c\<lparr>cw_will_msg := overlay (cw_will_msg c) v, cw_has_msg := True\<rparr>)
      else if has_prefix (str ''willqos'') l then
        (case parse_uint8_t_after_space source line_length of
           None \<Rightarrow> c\<lparr>cw_has_qos := False\<rparr>
         | Some q \<Rightarrow> c\<lparr>cw_will_qos := q, cw_has_qos := True\<rparr>)
      else if has_prefix (str ''willretain'') l then
        (case parse_uint8_t_after_space source line_length of
           None \<Rightarrow> c
         | Some tmp_number \<Rightarrow>
             if tmp_number \<le> 1
             then c\<lparr>cw_will_retain := tmp_number \<noteq> 0, cw_has_retain := True\<rparr> else c)
      else c)"

text \<open>
  The result is the boolean and the buffers: \<open>process_mqttsn_offline_procedure\<close> and
  \<open>getConfigAndConnect\<close> use them.
\<close>

definition get_mqtt_will :: "('z persistent_scheme, bool \<times> mqtt_will_config) state" where
  "get_mqtt_will = do {
     ls \<leftarrow> lines_of_file mqtt_configuration 128;
     let c = foldl mqtt_will_line
       \<lparr>cw_will_topic = replicate 255 0, cw_will_msg = replicate 255 0, cw_will_qos = 0,
        cw_will_retain = False, cw_has_topic = False, cw_has_msg = False, cw_has_qos = False,
        cw_has_retain = False\<rparr> ls;
     ret (cw_has_topic c \<and> cw_has_msg c \<and> cw_has_qos c \<and> cw_has_retain c, c)
   }"

end
