(* ===== verification/Gateway.thy ===== *)
theory Gateway
  imports PersistTopics PersistSubscriptions PersistPublishes PersistWill PersistConfig
begin

text \<open>
  The state of the whole gateway and its connections to the outside: the UDP socket
  (\<open>src/Implementation/UdpSocketImpl.cpp\<close>), the MQTT client behind
  \<open>src/Implementation/paho/PahoMqttMessageHandler.cpp\<close> and the clock
  (\<open>src/Implementation/ArduinoSystem.cpp\<close>).

  \<open>sent\<close> are the datagrams handed to \<open>sendto\<close>, oldest first; a byte that the code sends without
  having written it is \<open>None\<close>.  \<open>broker_calls\<close> are the calls of the Paho client library and of
  its network stack; the return codes of the library come from \<open>client_rc\<close>, a function of all
  calls so far.  \<open>clock\<close> gives the value of each call of \<open>millis\<close>.  \<open>own_address\<close> is what the
  operating system reports for the interface.  \<open>indet_result\<close> is the value left behind by
  \<open>notify_regack_arrived\<close> when it ends without a \<open>return\<close>.  No operation assigns \<open>client_rc\<close>,
  \<open>clock\<close>, \<open>own_address\<close> or \<open>indet_result\<close>.  \<open>exited\<close> records the exception of \<open>System::exit\<close>
  and \<open>diverged\<close> a loop that did not end within the fuel the model gives it.
\<close>

datatype broker_call =
    CallPublish bytes bytes byte bool
  | CallSubscribe bytes byte
  | CallUnsubscribe bytes
  | CallDisconnect
  | CallIpConnect u32 u16
  | CallConnect byte bytes "(bytes \<times> bytes) option" "(bytes \<times> bytes \<times> byte \<times> bool) option"

record gateway = persistent +
  sent :: "(device_address \<times> byte option list) list"
  socket_fd :: int
  own_address :: device_address
  broker_calls :: "broker_call list"
  client_rc :: "broker_call list \<Rightarrow> int"
  heartbeat_period :: u32
  heartbeat_current :: u32
  elapsed_current :: u32
  clock :: "nat \<Rightarrow> u32"
  ticks :: nat
  exited :: bool
  diverged :: bool
  indet_result :: core_result

section \<open>UDP socket\<close>

definition BUFLEN :: nat where "BUFLEN = 255"

definition getMaximumMessageLength :: byte where "getMaximumMessageLength = 255"

text \<open>A failing \<open>sendto\<close> is ignored; the result says whether the socket is open.\<close>

definition socket_send :: "device_address \<Rightarrow> byte option list \<Rightarrow> (gateway, bool) state" where
  "socket_send destination bs = do {
     modify (\<lambda>s. if socket_fd s \<ge> 0 then s\<lparr>sent := sent s @ [(destination, bs)]\<rparr> else s);
     reads (\<lambda>s. socket_fd s \<ge> 0)
   }"

text \<open>
  \<open>getDevice_address\<close>: four bytes of the address and two of the port as they are in
  \<open>sockaddr_in\<close>; port 0 is replaced by \<open>PORT\<close> (8888) in host byte order.
\<close>

definition getDevice_address :: "u32 \<Rightarrow> u16 \<Rightarrow> device_address" where
  "getDevice_address s_addr sin_port =
     u32_bytes s_addr @ u16_bytes (if sin_port = 0 then 8888 else sin_port)"

definition getIp_address :: "device_address \<Rightarrow> u32" where
  "getIp_address address = u32_of (take 4 address)"

definition getPort :: "device_address \<Rightarrow> u16" where
  "getPort address = u16_of (take 2 (drop 4 address))"

section \<open>MQTT client\<close>

definition call_broker :: "broker_call \<Rightarrow> (gateway, int) state" where
  "call_broker c = do {
     modify (\<lambda>s. s\<lparr>broker_calls := broker_calls s @ [c]\<rparr>);
     reads (\<lambda>s. client_rc s (broker_calls s))
   }"

definition mqtt_publish :: "bytes \<Rightarrow> bytes \<Rightarrow> byte \<Rightarrow> bool \<Rightarrow> (gateway, bool) state" where
  "mqtt_publish topic payload qos retained =
     (if qos = 0 \<or> qos = 1 \<or> qos = 2
      then do { rc \<leftarrow> call_broker (CallPublish topic payload qos retained); ret (rc = 0) }
      else ret False)"

definition mqtt_subscribe :: "bytes \<Rightarrow> byte \<Rightarrow> (gateway, bool) state" where
  "mqtt_subscribe topic qos =
     (if qos = 0 \<or> qos = 1 \<or> qos = 2
      then do { rc \<leftarrow> call_broker (CallSubscribe topic qos); ret (rc = 0) }
      else ret False)"

definition mqtt_unsubscribe :: "bytes option \<Rightarrow> (gateway, bool) state" where
  "mqtt_unsubscribe topic =
     (case topic of
        None \<Rightarrow> ret True
      | Some t \<Rightarrow>
          if cstr t = [] then ret True
          else do { rc \<leftarrow> call_broker (CallUnsubscribe t); ret (rc = 0) })"

definition mqtt_disconnect :: "(gateway, unit) state" where
  "mqtt_disconnect = do { _ \<leftarrow> call_broker CallDisconnect; ret () }"

text \<open>
  The four \<open>connect\<close> functions, with the host given by address, as \<open>getConfigAndConnect\<close> sets
  it: MQTT version 3 without login and will, 4 otherwise.  The will's retain flag is left at its
  default (false) by the function without a login.  The address 255.255.255.255 becomes the
  \<open>int64_t\<close> value -1 in \<open>setServer\<close>, which stands for an address that is not set.
\<close>

definition mqtt_connect :: "u32 \<Rightarrow> u16 \<Rightarrow> bytes \<Rightarrow> (bytes \<times> bytes) option \<Rightarrow>
    (bytes \<times> bytes \<times> byte \<times> bool) option \<Rightarrow> (gateway, bool) state" where
  "mqtt_connect ip port client_id login will = (if ip = -1 then ret False else do {
     rc \<leftarrow> call_broker (CallIpConnect ip port);
     if rc \<noteq> 0 then ret False
     else
       let version = (if login = None \<and> will = None then 3 else 4);
           will' = map_option (\<lambda>(t, m, q, r). (t, m, q, if login = None then False else r)) will
       in if (case will of None \<Rightarrow> False | Some (t, m, q, r) \<Rightarrow> q \<noteq> 0 \<and> q \<noteq> 1 \<and> q \<noteq> 2)
          then ret False
          else do { rc \<leftarrow> call_broker (CallConnect version client_id login will'); ret (rc = 0) }
   })"

text \<open>\<open>setServer\<close> puts the four bytes of the address together, most significant first.\<close>

definition server_ip_address :: "bytes \<Rightarrow> u32" where
  "server_ip_address ip = ucast (byte_at 0 ip) * 2 ^ 24 + ucast (byte_at 1 ip) * 2 ^ 16
     + ucast (byte_at 2 ip) * 2 ^ 8 + ucast (byte_at 3 ip)"

definition getConfigAndConnect :: "(gateway, bool) state" where
  "getConfigAndConnect = do {
     config \<leftarrow> get_mqtt_config;
     case config of
       None \<Rightarrow> ret False
     | Some (server_ip, server_port, client_id) \<Rightarrow> do {
         login \<leftarrow> get_mqtt_login_config;
         w \<leftarrow> get_mqtt_will;
         let will = (if fst w then Some (cstr (cw_will_topic (snd w)), cstr (cw_will_msg (snd w)),
                                         cw_will_qos (snd w), cw_will_retain (snd w)) else None);
         mqtt_connect (server_ip_address server_ip) server_port client_id login will
       }
   }"

section \<open>System\<close>

definition millis :: "(gateway, u32) state" where
  "millis = do {
     s \<leftarrow> State_Monad.get;
     modify (\<lambda>s. s\<lparr>ticks := ticks s + 1\<rparr>);
     ret (clock s (ticks s))
   }"

definition has_beaten :: "(gateway, bool) state" where
  "has_beaten = do {
     current \<leftarrow> millis;
     s \<leftarrow> State_Monad.get;
     if current - heartbeat_current s > heartbeat_period s
     then do { modify (\<lambda>s. s\<lparr>heartbeat_current := current\<rparr>); ret True }
     else ret False
   }"

definition get_elapsed_time :: "(gateway, u32) state" where
  "get_elapsed_time = do {
     current \<leftarrow> millis;
     s \<leftarrow> State_Monad.get;
     modify (\<lambda>s. s\<lparr>elapsed_current := current\<rparr>);
     ret (current - elapsed_current s)
   }"

definition system_exit :: "(gateway, unit) state" where
  "system_exit = modify (\<lambda>s. s\<lparr>exited := True\<rparr>)"

end
