(* ===== verification/SnMessages.thy ===== *)
theory SnMessages
  imports Gateway
begin

text \<open>
  The MQTT-SN messages of \<open>src/mqttsn_messages.h\<close> as the gateway sends them, and the \<open>send_*\<close>
  functions of \<open>src/MqttSnMessageHandler.cpp\<close>.  A message is the memory image of its struct on
  the x86-64 ABI: \<open>uint16_t\<close> fields are little-endian and aligned to two bytes (only
  \<open>message_header\<close> and \<open>msg_advertise\<close> are packed), so \<open>msg_publish\<close> and \<open>msg_suback\<close> have a
  padding byte behind \<open>flags\<close>.  Bytes that the constructor does not write are \<open>None\<close>.
\<close>

definition FLAG_DUP :: byte where [enum_defs]: "FLAG_DUP = 0x80"
definition FLAG_QOS_0 :: byte where [enum_defs]: "FLAG_QOS_0 = 0x00"
definition FLAG_QOS_1 :: byte where [enum_defs]: "FLAG_QOS_1 = 0x20"
definition FLAG_QOS_2 :: byte where [enum_defs]: "FLAG_QOS_2 = 0x40"
definition FLAG_QOS_M1 :: byte where [enum_defs]: "FLAG_QOS_M1 = 0x60"
definition FLAG_RETAIN :: byte where [enum_defs]: "FLAG_RETAIN = 0x10"
definition FLAG_WILL :: byte where [enum_defs]: "FLAG_WILL = 0x08"
definition FLAG_CLEAN :: byte where [enum_defs]: "FLAG_CLEAN = 0x04"
definition FLAG_TOPIC_PREDEFINED_ID :: byte where [enum_defs]: "FLAG_TOPIC_PREDEFINED_ID = 0x01"
definition FLAG_TOPIC_SHORT_NAME :: byte where [enum_defs]: "FLAG_TOPIC_SHORT_NAME = 0x02"
definition PROTOCOL_ID :: byte where [enum_defs]: "PROTOCOL_ID = 0x01"

unbundle bit_operations_syntax

section \<open>Message images\<close>

type_synonym image = "byte option list"

definition written :: "bytes \<Rightarrow> image" where "written bs = map Some bs"
definition unwritten :: "nat \<Rightarrow> image" where "unwritten n = replicate n None"

lemma length_image [simp]: "length (written bs) = length bs" "length (unwritten n) = n"
  by (simp_all add: written_def unwritten_def)

text \<open>\<open>qos\<close> is an \<open>int8_t\<close>: -1 is the byte 255.\<close>

definition qos_flags :: "byte \<Rightarrow> byte" where
  "qos_flags qos = (if qos = 0 then FLAG_QOS_0 else if qos = 1 then FLAG_QOS_1
     else if qos = 2 then FLAG_QOS_2 else 0)"

definition header_msg :: "byte \<Rightarrow> image" where
  "header_msg type = written [2, type]"

definition msg_advertise :: "byte \<Rightarrow> u16 \<Rightarrow> image" where
  "msg_advertise gw_id duration = written ([5, MQTTSN_ADVERTISE, gw_id] @ u16_bytes duration)"

definition msg_gwinfo :: "byte \<Rightarrow> device_address \<Rightarrow> image" where
  "msg_gwinfo gw_id gw_add = written ([9, MQTTSN_GWINFO, gw_id] @ take 6 gw_add)"

definition msg_connack :: "byte \<Rightarrow> image" where
  "msg_connack return_code = written [3, MQTTSN_CONNACK, return_code]"

text \<open>256 bytes: the name is copied with its NUL, the rest of \<open>topic_name[249]\<close> is not written.\<close>

definition msg_register :: "u16 \<Rightarrow> u16 \<Rightarrow> bytes \<Rightarrow> image" where
  "msg_register topic_id message_id topic_name =
     (let w = [of_nat (6 + length topic_name + 1), MQTTSN_REGISTER] @ u16_bytes topic_id
                @ u16_bytes message_id @ topic_name @ [0]
      in written w @ unwritten (256 - length w))"

definition msg_regack :: "u16 \<Rightarrow> u16 \<Rightarrow> byte \<Rightarrow> image" where
  "msg_regack topic_id message_id return_code =
     written ([7, MQTTSN_REGACK] @ u16_bytes topic_id @ u16_bytes message_id @ [return_code])
       @ unwritten 1"

definition msg_publish_flags :: "bool \<Rightarrow> byte \<Rightarrow> bool \<Rightarrow> bool \<Rightarrow> byte" where
  "msg_publish_flags dup qos retain short_topic =
     (if dup then FLAG_DUP else 0) OR (if retain then FLAG_RETAIN else 0)
     OR (if short_topic then FLAG_TOPIC_SHORT_NAME else FLAG_TOPIC_PREDEFINED_ID)
     OR (if qos = 255 then FLAG_QOS_M1 else qos_flags qos)"

text \<open>
  \<open>memset(this, 0, sizeof(this))\<close> clears eight bytes, the size of a pointer: exactly the fields
  before \<open>data\<close>.
\<close>

definition msg_publish :: "bool \<Rightarrow> byte \<Rightarrow> bool \<Rightarrow> bool \<Rightarrow> u16 \<Rightarrow> u16 \<Rightarrow> bytes \<Rightarrow> image" where
  "msg_publish dup qos retain short_topic topic_id msg_id data =
     (let w = [7 + of_nat (length data), MQTTSN_PUBLISH,
               msg_publish_flags dup qos retain short_topic, 0]
                @ u16_bytes topic_id @ u16_bytes msg_id @ data
      in written w @ unwritten (256 - length w))"

definition msg_puback :: "u16 \<Rightarrow> u16 \<Rightarrow> byte \<Rightarrow> image" where
  "msg_puback topic_id msg_id return_code =
     written ([7, MQTTSN_PUBACK] @ u16_bytes topic_id @ u16_bytes msg_id @ [return_code])
       @ unwritten 1"

definition msg_suback :: "byte \<Rightarrow> u16 \<Rightarrow> u16 \<Rightarrow> byte \<Rightarrow> image" where
  "msg_suback qos topic_id msg_id return_code =
     written ([8, MQTTSN_SUBACK, qos_flags qos, 0] @ u16_bytes topic_id @ u16_bytes msg_id
       @ [return_code, 0])"

definition msg_unsuback :: "u16 \<Rightarrow> image" where
  "msg_unsuback msg_id = written ([4, MQTTSN_UNSUBACK] @ u16_bytes msg_id)"

definition msg_disconnect :: "u16 \<Rightarrow> image" where
  "msg_disconnect duration = written ([4, MQTTSN_DISCONNECT] @ u16_bytes duration)"

definition msg_pubrec :: "u16 \<Rightarrow> image" where
  "msg_pubrec msg_id = written ([4, MQTTSN_PUBREC] @ u16_bytes msg_id)"

section \<open>Sending\<close>

text \<open>
  \<open>CoreImpl::notify_mqttsn_disconnected\<close> stands here because every \<open>send_*\<close> function calls it
  when the socket is gone.
\<close>

definition core_value :: "byte \<Rightarrow> core_result" where
  "core_value r = (if eq_result r SUCCESS then SUCCESS else ZERO)"

definition notify_mqttsn_disconnected :: "(gateway, core_result) state" where
  "notify_mqttsn_disconnected = do { r \<leftarrow> set_mqttsn_disconnected; ret (core_value r) }"

text \<open>
  \<open>if (!socket->send(address, &to_send, n)) core->notify_mqttsn_disconnected();\<close> bytes behind the
  struct are not part of it and unwritten.
\<close>

definition send_or_notify :: "device_address \<Rightarrow> image \<Rightarrow> nat \<Rightarrow> (gateway, bool) state" where
  "send_or_notify address to_send n = do {
     ok \<leftarrow> socket_send address (take n (to_send @ unwritten n));
     if ok then ret True else do { _ \<leftarrow> notify_mqttsn_disconnected; ret False }
   }"

definition send_advertise :: "device_address \<Rightarrow> byte \<Rightarrow> u16 \<Rightarrow> (gateway, bool) state" where
  "send_advertise address gw_id duration = send_or_notify address (msg_advertise gw_id duration) 5"

definition send_gwinfo :: "device_address \<Rightarrow> byte \<Rightarrow> byte \<Rightarrow> device_address \<Rightarrow> nat \<Rightarrow>
    (gateway, bool) state" where
  "send_gwinfo address radius gw_id gw_add gw_add_len =
     send_or_notify address (msg_gwinfo gw_id gw_add) gw_add_len"

definition send_connack :: "device_address \<Rightarrow> byte \<Rightarrow> (gateway, bool) state" where
  "send_connack address return_code = send_or_notify address (msg_connack return_code) 3"

definition send_willtopicreq :: "device_address \<Rightarrow> (gateway, bool) state" where
  "send_willtopicreq address = send_or_notify address (header_msg MQTTSN_WILLTOPICREQ) 2"

definition send_willmsgreq :: "device_address \<Rightarrow> (gateway, bool) state" where
  "send_willmsgreq address = send_or_notify address (header_msg MQTTSN_WILLMSGREQ) 2"

text \<open>\<open>sizeof(msg_register) + sizeof(topic_name)\<close>: the struct and the size of a pointer.\<close>

definition send_register :: "device_address \<Rightarrow> u16 \<Rightarrow> u16 \<Rightarrow> bytes \<Rightarrow> (gateway, bool) state" where
  "send_register address topic_id msg_id topic_name =
     send_or_notify address (msg_register topic_id msg_id topic_name) (256 + 8)"

definition send_regack :: "device_address \<Rightarrow> u16 \<Rightarrow> u16 \<Rightarrow> byte \<Rightarrow> (gateway, bool) state" where
  "send_regack address topic_id msg_id return_code =
     send_or_notify address (msg_regack topic_id msg_id return_code) 7"

text \<open>\<open>to_send.length\<close> bytes are sent; \<open>data\<close> are the \<open>data_len\<close> bytes that are copied.\<close>

definition send_publish :: "device_address \<Rightarrow> bytes \<Rightarrow> u16 \<Rightarrow> u16 \<Rightarrow> bool \<Rightarrow> bool \<Rightarrow> byte \<Rightarrow> bool \<Rightarrow>
    (gateway, bool) state" where
  "send_publish address data msg_id topic_id short_topic retain qos dup =
     send_or_notify address (msg_publish dup qos retain short_topic topic_id msg_id data)
       (unat (7 + of_nat (length data) :: byte))"

definition send_puback :: "device_address \<Rightarrow> u16 \<Rightarrow> u16 \<Rightarrow> byte \<Rightarrow> (gateway, bool) state" where
  "send_puback address msg_id topic_id return_code =
     send_or_notify address (msg_puback topic_id msg_id return_code) 8"

definition send_suback :: "device_address \<Rightarrow> byte \<Rightarrow> u16 \<Rightarrow> u16 \<Rightarrow> byte \<Rightarrow> (gateway, bool) state"
  where
  "send_suback address qos topic_id msg_id return_code =
     send_or_notify address (msg_suback qos topic_id msg_id return_code) 10"

definition send_unsuback :: "device_address \<Rightarrow> u16 \<Rightarrow> (gateway, bool) state" where
  "send_unsuback address msg_id = send_or_notify address (msg_unsuback msg_id) 4"

definition send_pingresp :: "device_address \<Rightarrow> (gateway, bool) state" where
  "send_pingresp address = send_or_notify address (header_msg MQTTSN_PINGRESP) 2"

definition send_disconnect :: "device_address \<Rightarrow> (gateway, bool) state" where
  "send_disconnect address = send_or_notify address (header_msg MQTTSN_DISCONNECT) 2"

text \<open>The answer with a duration is sent with the size of the header only.\<close>

definition send_disconnect_duration :: "device_address \<Rightarrow> u16 \<Rightarrow> (gateway, bool) state" where
  "send_disconnect_duration address duration =
     send_or_notify address (msg_disconnect duration) 2"

definition send_pubrec :: "device_address \<Rightarrow> u16 \<Rightarrow> (gateway, bool) state" where
  "send_pubrec address msg_id = send_or_notify address (msg_pubrec msg_id) 4"

definition get_maximum_publish_payload_length :: byte where
  "get_maximum_publish_payload_length =
     (if getMaximumMessageLength \<le> 7 then 0 else getMaximumMessageLength - 7)"

end
