(* ===== verification/Core.thy ===== *)
theory Core
  imports SnMessages
begin

text \<open>
  \<open>src/CoreImpl.cpp\<close>: the operations that the MQTT-SN message handler and the MQTT client call,
  and the main loop that serves the clients.  Every operation is a computation on the gateway
  state; out-parameters are part of the result.  Logging is left out.

  Loops over the clients and over subscriptions have fuel.  A walk over the registry gets the
  number of slots plus two, and the removal of subscriptions 65536 rounds (the count is a
  \<open>uint16_t\<close>); running out sets \<open>diverged\<close>.
\<close>

section \<open>Setting up\<close>

text \<open>
  The result of a transaction as most operations return it: each comparison of the source is
  kept.
\<close>

definition result_full :: "byte \<Rightarrow> core_result" where
  "result_full r = (if eq_result r SUCCESS then SUCCESS else if eq_result r FULL then FULL else ZERO)"

definition result_client :: "byte \<Rightarrow> core_result" where
  "result_client r = (if eq_result r CLIENTNONEXISTENCE then CLIENTNONEXISTENCE
     else if eq_result r SUCCESS then SUCCESS else ZERO)"

section \<open>Removing the subscriptions of a client\<close>

fun remove_subscriptions_loop :: "nat \<Rightarrow> (gateway, unit) state" where
  "remove_subscriptions_loop 0 = modify (\<lambda>s. s\<lparr>diverged := True\<rparr>)"
| "remove_subscriptions_loop (Suc fuel) = do {
     client_subscription_count \<leftarrow> get_client_subscription_count;
     if client_subscription_count > 0 then do {
       topic_id \<leftarrow> get_nth_subscribed_topic_id (client_subscription_count - 1);
       topic_name \<leftarrow> get_topic_name topic_id;
       delete_subscription topic_id;
       _ \<leftarrow> decrement_global_subscription_count topic_name;
       subscription_count \<leftarrow> get_global_topic_subscription_count topic_name;
       (if subscription_count = 0 then do { _ \<leftarrow> mqtt_unsubscribe topic_name; ret () } else ret ());
       remove_subscriptions_loop fuel
     } else ret ()
   }"

definition remove_client_subscriptions :: "bytes \<Rightarrow> (gateway, unit) state" where
  "remove_client_subscriptions client_id = remove_subscriptions_loop 65536"

section \<open>Clients\<close>

definition core_add_client :: "bytes \<Rightarrow> u16 \<Rightarrow> bool \<Rightarrow> device_address \<Rightarrow> (gateway, core_result) state"
  where
  "core_add_client client_id duration clean_session address = do {
     online \<leftarrow> is_mqtt_online;
     if \<not> online then ret ZERO
     else do {
       start_client_transaction_id client_id;
       exist \<leftarrow> client_exist;
       (if exist then
          if \<not> clean_session then reset_client client_id address (ucast duration * 1000)
          else do {
            remove_client_subscriptions client_id;
            delete_client client_id;
            add_client client_id address (ucast duration * 1000)
          }
        else add_client client_id address (ucast duration * 1000));
       r \<leftarrow> apply_transaction;
       ret (result_full r)
     }
   }"

definition remove_will :: "device_address \<Rightarrow> (gateway, core_result) state" where
  "remove_will address = do {
     start_client_transaction_address address;
     delete_will;
     r \<leftarrow> apply_transaction;
     ret (result_full r)
   }"

definition add_will_topic :: "device_address \<Rightarrow> bytes \<Rightarrow> bool \<Rightarrow> byte \<Rightarrow> (gateway, core_result) state"
  where
  "add_will_topic address will_topic retain qos = do {
     online \<leftarrow> is_mqtt_online;
     if \<not> online then ret ZERO
     else do {
       start_client_transaction_address address;
       t \<leftarrow> get_client_await_message_type;
       if t \<noteq> MQTTSN_WILLTOPIC \<or> t = MQTTSN_PINGREQ
       then do { _ \<leftarrow> apply_transaction; ret ZERO }
       else do {
         set_client_willtopic will_topic qos retain;
         r \<leftarrow> apply_transaction;
         ret (result_full r)
       }
     }
   }"

definition add_will_msg :: "device_address \<Rightarrow> bytes \<Rightarrow> byte \<Rightarrow> (gateway, core_result) state" where
  "add_will_msg address will_msg will_msg_len = do {
     online \<leftarrow> is_mqtt_online;
     if \<not> online then ret ZERO
     else do {
       start_client_transaction_address address;
       t \<leftarrow> get_client_await_message_type;
       if t \<noteq> MQTTSN_WILLMSG \<or> t = MQTTSN_PINGREQ
       then do { _ \<leftarrow> apply_transaction; ret ZERO }
       else do {
         set_client_willmessage will_msg will_msg_len;
         r \<leftarrow> apply_transaction;
         ret (result_full r)
       }
     }
   }"

definition await_message :: "device_address \<Rightarrow> byte \<Rightarrow> (gateway, core_result) state" where
  "await_message address type = do {
     start_client_transaction_address address;
     set_client_await_message type;
     r \<leftarrow> apply_transaction;
     ret (result_full r)
   }"

section \<open>Topics and publishes of a client\<close>

definition register_topic :: "device_address \<Rightarrow> bytes \<Rightarrow> u16 \<Rightarrow> (gateway, core_result \<times> u16) state"
  where
  "register_topic address topic_name new_topic_id = do {
     online \<leftarrow> is_mqtt_online;
     if \<not> online then ret (ZERO, new_topic_id)
     else do {
       start_client_transaction_address address;
       t \<leftarrow> add_client_registration topic_name new_topic_id;
       r \<leftarrow> apply_transaction;
       ret (if eq_result r FULL then FULL
            else if eq_result r CLIENTNONEXISTENCE then CLIENTNONEXISTENCE
            else if eq_result r SUCCESS then SUCCESS else ZERO, t)
     }
   }"

text \<open>\<open>qos\<close> is an \<open>int8_t\<close>; 255 is -1.  \<open>data\<close> are the \<open>data_len\<close> bytes of the payload.\<close>

definition core_publish_client :: "device_address \<Rightarrow> bytes \<Rightarrow> u16 \<Rightarrow> u16 \<Rightarrow> bool \<Rightarrow> bool \<Rightarrow> byte \<Rightarrow>
    bool \<Rightarrow> (gateway, core_result) state" where
  "core_publish_client address data msg_id topic_id short_topic retain qos dup = do {
     online \<leftarrow> is_mqtt_online;
     if \<not> online then ret ZERO
     else do {
       start_client_transaction_address address;
       exist \<leftarrow> client_exist;
       status \<leftarrow> get_client_status;
       if \<not> exist \<or> (exist \<and> (status = DISCONNECTED \<or> status = LOST)) then do {
         topic_name \<leftarrow> (if qos = 255 \<and> \<not> short_topic then get_predefined_topic_name topic_id
                        else ret None);
         case topic_name of
           Some t \<Rightarrow> do {
             mqtt_result \<leftarrow> mqtt_publish t data 0 retain;
             r \<leftarrow> apply_transaction;
             ret (if mqtt_result \<and> eq_result r SUCCESS then SUCCESS else ZERO)
           }
         | None \<Rightarrow> do {
             r \<leftarrow> apply_transaction;
             ret (if eq_result r SUCCESS then CLIENTNONEXISTENCE else ZERO)
           }
       } else do {
         topic_name \<leftarrow> (if short_topic then get_topic_name topic_id
                        else get_predefined_topic_name topic_id);
         case topic_name of
           None \<Rightarrow> do {
             r \<leftarrow> apply_transaction;
             ret (if eq_result r SUCCESS then TOPICIDNONEXISTENCE else ZERO)
           }
         | Some t \<Rightarrow> do {
             r \<leftarrow> apply_transaction;
             if \<not> eq_result r SUCCESS then ret ZERO
             else do {
               mqtt_result \<leftarrow> mqtt_publish t data (if qos = 255 then 0 else qos) retain;
               ret (if \<not> mqtt_result then ZERO else SUCCESS)
             }
           }
       }
     }
   }"

section \<open>Subscriptions of a client\<close>

definition core_add_subscription :: "device_address \<Rightarrow> u16 \<Rightarrow> u16 \<Rightarrow> bool \<Rightarrow> byte \<Rightarrow> bool \<Rightarrow> u16 \<Rightarrow>
    byte \<Rightarrow> (gateway, core_result \<times> u16 \<times> byte) state" where
  "core_add_subscription address topic_id msg_id short_topic qos dup new_topic_id granted_qos = do {
     online \<leftarrow> is_mqtt_online;
     if \<not> online then ret (ZERO, new_topic_id, granted_qos)
     else do {
       start_client_transaction_address address;
       exist \<leftarrow> client_exist;
       if \<not> exist then do { _ \<leftarrow> apply_transaction; ret (ZERO, new_topic_id, granted_qos) }
       else do {
         let granted_qos = (if qos \<ge> 1 then 1 else 0);
         topic_name \<leftarrow> (if short_topic then get_topic_name topic_id
                        else get_predefined_topic_name topic_id);
         case topic_name of
           None \<Rightarrow> do { _ \<leftarrow> apply_transaction; ret (ZERO, new_topic_id, granted_qos) }
         | Some t \<Rightarrow> do {
             new_topic_id \<leftarrow> (if short_topic then ret topic_id
                              else add_client_registration t new_topic_id);
             subscribed \<leftarrow> is_subscribed (Some t);
             subscribe \<leftarrow> (if \<not> subscribed then do {
                 add_subscription (Some t) new_topic_id granted_qos;
                 _ \<leftarrow> increment_global_subscription_count (Some t);
                 subscription_count \<leftarrow> get_global_topic_subscription_count (Some t);
                 ret (subscription_count = 1)
               } else ret False);
             r \<leftarrow> apply_transaction;
             if eq_result r FULL then ret (FULL, new_topic_id, granted_qos)
             else if eq_result r CLIENTNONEXISTENCE
             then ret (CLIENTNONEXISTENCE, new_topic_id, granted_qos)
             else if eq_result r CLIENTSUBSCRIPTIONFULL
             then ret (CLIENTSUBSCRIPTIONFULL, new_topic_id, granted_qos)
             else if eq_result r TOPICIDNONEXISTENCE
             then ret (TOPICIDNONEXISTENCE, new_topic_id, granted_qos)
             else do {
               ok \<leftarrow> (if subscribe then mqtt_subscribe t 1 else ret True);
               if \<not> ok then do {
                 _ \<leftarrow> decrement_global_subscription_count (Some t);
                 ret (ZERO, new_topic_id, granted_qos)
               } else ret (if eq_result r SUCCESS then SUCCESS else ZERO, new_topic_id, granted_qos)
             }
           }
       }
     }
   }"

text \<open>
  The body that the two \<open>delete_subscription\<close> functions share, from the test
  \<open>!persistent->is_subscribed(topic_name)\<close> on.
\<close>

definition finish_delete_subscription :: "u16 \<Rightarrow> bytes option \<Rightarrow> (gateway, core_result) state" where
  "finish_delete_subscription topic_id topic_name = do {
     subscribed \<leftarrow> is_subscribed topic_name;
     unsubscribe \<leftarrow> (if \<not> subscribed then do {
         delete_subscription topic_id;
         _ \<leftarrow> decrement_global_subscription_count topic_name;
         subscription_count \<leftarrow> get_global_topic_subscription_count topic_name;
         ret (subscription_count = 0)
       } else ret False);
     r \<leftarrow> apply_transaction;
     if eq_result r FULL then ret FULL
     else if eq_result r CLIENTNONEXISTENCE then ret CLIENTNONEXISTENCE
     else if eq_result r TOPICIDNONEXISTENCE then ret TOPICIDNONEXISTENCE
     else do {
       ok \<leftarrow> (if unsubscribe then mqtt_unsubscribe topic_name else ret True);
       ret (if \<not> ok then ZERO else if eq_result r SUCCESS then SUCCESS else ZERO)
     }
   }"

definition core_delete_subscription_id :: "device_address \<Rightarrow> u16 \<Rightarrow> u16 \<Rightarrow> bool \<Rightarrow> bool \<Rightarrow>
    (gateway, core_result) state" where
  "core_delete_subscription_id address topic_id msg_id short_topic dup = do {
     start_client_transaction_address address;
     topic_name \<leftarrow> (if short_topic then get_topic_name topic_id
                    else get_predefined_topic_name topic_id);
     finish_delete_subscription topic_id topic_name
   }"

definition core_delete_subscription_name :: "device_address \<Rightarrow> bytes \<Rightarrow> u16 \<Rightarrow> bool \<Rightarrow>
    (gateway, core_result) state" where
  "core_delete_subscription_name address topic_name msg_id dup = do {
     start_client_transaction_address address;
     topic_id \<leftarrow> get_topic_id (Some topic_name);
     finish_delete_subscription topic_id (Some topic_name)
   }"

section \<open>Client states\<close>

definition set_disconnected :: "device_address \<Rightarrow> (gateway, core_result) state" where
  "set_disconnected address = do {
     start_client_transaction_address address;
     set_client_state DISCONNECTED;
     r \<leftarrow> apply_transaction;
     ret (result_client r)
   }"

definition set_asleep_duration :: "device_address \<Rightarrow> u16 \<Rightarrow> (gateway, core_result) state" where
  "set_asleep_duration address duration = do {
     online \<leftarrow> is_mqtt_online;
     if \<not> online then ret ZERO
     else do {
       start_client_transaction_address address;
       set_client_state ASLEEP;
       set_client_duration (ucast duration * 1000);
       r \<leftarrow> apply_transaction;
       ret (result_client r)
     }
   }"

definition set_asleep :: "device_address \<Rightarrow> (gateway, core_result) state" where
  "set_asleep address = do {
     online \<leftarrow> is_mqtt_online;
     if \<not> online then ret ZERO
     else do {
       start_client_transaction_address address;
       set_client_state ASLEEP;
       r \<leftarrow> apply_transaction;
       ret (result_client r)
     }
   }"

definition set_awake :: "device_address \<Rightarrow> (gateway, core_result) state" where
  "set_awake address = do {
     start_client_transaction_address address;
     set_client_state AWAKE;
     r \<leftarrow> apply_transaction;
     ret (result_client r)
   }"

section \<open>Acknowledgements\<close>

definition notify_regack_arrived :: "device_address \<Rightarrow> u16 \<Rightarrow> u16 \<Rightarrow> byte \<Rightarrow>
    (gateway, core_result) state" where
  "notify_regack_arrived address topic_id msg_id return_code = do {
     start_client_transaction_address address;
     t \<leftarrow> get_client_await_message_type;
     m \<leftarrow> get_client_await_msg_id;
     let awaited = (t = MQTTSN_REGACK \<and> m = msg_id);
     if awaited \<and> (return_code = REJECTED_INVALID_TOPIC_ID \<or> return_code = REJECTED_NOT_SUPPORTED)
     then do {
       set_topic_known topic_id True;
       _ \<leftarrow> apply_transaction;
       ret ZERO
     }
     else if awaited \<and> return_code \<noteq> ACCEPTED \<and> return_code \<noteq> REJECTED_CONGESTION
     then do { _ \<leftarrow> apply_transaction; ret ZERO }
     else do {
       (if awaited then do {
          set_topic_known topic_id (return_code = ACCEPTED);
          set_client_await_message MQTTSN_PINGREQ
        } else ret ());
       r \<leftarrow> apply_transaction;
       if eq_result r CLIENTNONEXISTENCE then ret CLIENTNONEXISTENCE
       else if eq_result r SUCCESS then ret SUCCESS
       else reads indet_result
     }
   }"

definition notify_puback_arrived :: "device_address \<Rightarrow> u16 \<Rightarrow> u16 \<Rightarrow> byte \<Rightarrow>
    (gateway, core_result) state" where
  "notify_puback_arrived address msg_id topic_id return_code = do {
     start_client_transaction_address address;
     if return_code = ACCEPTED \<or> return_code = REJECTED_CONGESTION
       \<or> return_code = REJECTED_INVALID_TOPIC_ID \<or> return_code = REJECTED_NOT_SUPPORTED
     then do {
       remove_publish_by_msg_id msg_id;
       r \<leftarrow> apply_transaction;
       ret (result_client r)
     } else do { _ \<leftarrow> apply_transaction; ret ZERO }
   }"

section \<open>Gateway status\<close>

definition core_get_gateway_id :: "byte \<Rightarrow> (gateway, core_result \<times> byte) state" where
  "core_get_gateway_id gateway_id = do {
     (ok, g) \<leftarrow> get_gateway_id gateway_id;
     ret (if ok then SUCCESS else ZERO, g)
   }"

definition notify_mqtt_disconnected :: "(gateway, core_result) state" where
  "notify_mqtt_disconnected = do { r \<leftarrow> set_mqtt_disconnected; ret (core_value r) }"

definition notify_mqtt_connected :: "(gateway, core_result) state" where
  "notify_mqtt_connected = do { r \<leftarrow> set_mqtt_connected; ret (core_value r) }"

definition notify_mqttsn_connected :: "(gateway, core_result) state" where
  "notify_mqttsn_connected = do { r \<leftarrow> set_mqttsn_connected; ret (core_value r) }"

end
