(* ===== verification/CoreLoop.thy ===== *)
theory CoreLoop
  imports Core
begin

text \<open>
  The periodic part of \<open>src/CoreImpl.cpp\<close>: delivering stored publishes, timeouts, messages from
  the broker and the main loop \<open>CoreImpl::loop\<close> with its two offline procedures.
\<close>

section \<open>Delivering stored publishes\<close>

text \<open>\<open>(msg_id + 1 == 0) ? msg_id = 1 : msg_id += 1\<close>: the sum is an \<open>int\<close> and never 0.\<close>

definition next_msg_id :: "u16 \<Rightarrow> u16" where
  "next_msg_id msg_id = (if uint msg_id + 1 = 0 then 1 else msg_id + 1)"

definition handle_client_publishes :: "byte \<Rightarrow> bytes \<Rightarrow> device_address \<Rightarrow> (gateway, unit) state" where
  "handle_client_publishes status client_id address = (
     if status = AWAKE \<or> status = ACTIVE then do {
       start_client_transaction_address address;
       t \<leftarrow> get_client_await_message_type;
       pending \<leftarrow> (if t = MQTTSN_PINGREQ then has_client_publishes else ret False);
       next \<leftarrow> (if pending then get_next_publish else ret None);
       case next of
         None \<Rightarrow> do { _ \<leftarrow> apply_transaction; ret () }
       | Some p \<Rightarrow> do {
           known \<leftarrow> is_topic_known (ep_topic_id p);
           if \<not> known then do {
             topic_name \<leftarrow> get_topic_name (ep_topic_id p);
             case topic_name of
               None \<Rightarrow> do { _ \<leftarrow> apply_transaction; ret () }
             | Some n \<Rightarrow> do {
                 m \<leftarrow> get_client_await_msg_id;
                 let msg_id = next_msg_id m;
                 set_client_await_msg_id msg_id;
                 set_client_await_message MQTTSN_REGACK;
                 r \<leftarrow> apply_transaction;
                 if eq_result r SUCCESS
                 then do { _ \<leftarrow> send_register address (ep_topic_id p) msg_id n; ret () }
                 else ret ()
               }
           }
           else if ep_qos p = 0 then do {
             remove_publish_by_publish_id (ep_publish_id p);
             r \<leftarrow> apply_transaction;
             if eq_result r SUCCESS
             then do {
               _ \<leftarrow> send_publish address (take (unat (ep_msg_length p)) (ep_msg p)) 0
                     (ep_topic_id p) True (ep_retain p) (ep_qos p) False;
               ret ()
             } else ret ()
           }
           else if ep_qos p = 1 then do {
             m \<leftarrow> get_client_await_msg_id;
             let msg_id = next_msg_id m;
             set_client_await_msg_id msg_id;
             set_client_await_message MQTTSN_PUBACK;
             set_publish_msg_id (ep_publish_id p) msg_id;
             r \<leftarrow> apply_transaction;
             if eq_result r SUCCESS
             then do {
               _ \<leftarrow> send_publish address (take (unat (ep_msg_length p)) (ep_msg p)) msg_id
                     (ep_topic_id p) True (ep_retain p) (ep_qos p) False;
               ret ()
             } else ret ()
           }
           else do { _ \<leftarrow> apply_transaction; ret () }
         }
     } else ret ())"

section \<open>Timeouts\<close>

text \<open>
  The tolerance in milliseconds: a tenth more above one minute, a half more up to it.  The code
  computes in \<open>double\<close>, where the sum of a 32-bit integer and its half or its tenth is exact to
  far less than a tenth, and truncates.
\<close>

definition tolerance_timeout :: "u32 \<Rightarrow> nat" where
  "tolerance_timeout duration =
     (if duration > 60000 then unat duration * 11 div 10 else unat duration * 3 div 2)"

definition handle_timeout :: "byte \<Rightarrow> u32 \<Rightarrow> u32 \<Rightarrow> bytes \<Rightarrow> device_address \<Rightarrow> u32 \<Rightarrow>
    (gateway, unit) state" where
  "handle_timeout status duration elapsed_time client_id address timeout = (
     if status = ACTIVE \<or> status = ASLEEP \<or> status = AWAKE then do {
       start_client_transaction_address address;
       let timeout = timeout + elapsed_time;
       set_timeout timeout;
       (if unat timeout > tolerance_timeout duration then do {
          set_client_state LOST;
          has_will \<leftarrow> has_client_will;
          if has_will then do {
            will \<leftarrow> get_client_will;
            _ \<leftarrow> (case will of
                None \<Rightarrow> mqtt_publish [] [] 0 False
              | Some w \<Rightarrow> mqtt_publish (cstr (ew_willtopic w))
                  (take (unat (ew_willmsg_length w)) (ew_willmsg w)) (ew_qos w) (ew_retain w));
            remove_client_subscriptions client_id;
            delete_client client_id
          } else ret ()
        } else ret ());
       _ \<leftarrow> apply_transaction;
       ret ()
     } else ret ())"

section \<open>Publishes from the broker\<close>

definition handle_receive_mqtt_publish_for_client ::
    "bytes \<Rightarrow> bytes \<Rightarrow> device_address \<Rightarrow> bool \<Rightarrow> (gateway, unit) state" where
  "handle_receive_mqtt_publish_for_client topic_name data address retain = do {
     start_client_transaction_address address;
     status \<leftarrow> get_client_status;
     subscribed \<leftarrow> (if status = ACTIVE \<or> status = ASLEEP \<or> status = AWAKE
                    then is_subscribed (Some topic_name) else ret False);
     (if subscribed then do {
        qos \<leftarrow> get_subscription_qos (Some topic_name);
        topic_id \<leftarrow> get_subscription_topic_id (Some topic_name);
        add_new_client_publish data (of_nat (length data)) topic_id retain qos
      } else ret ());
     _ \<leftarrow> apply_transaction;
     ret ()
   }"

text \<open>The fuel of a walk over the registry: the slots of the file and two more.\<close>

definition walk_fuel :: "(gateway, nat) state" where
  "walk_fuel = reads (\<lambda>s. length (content s (path_in s client_registry)) div sizeof_entry_client + 2)"

definition diverge :: "(gateway, unit) state" where
  "diverge = modify (\<lambda>s. s\<lparr>diverged := True\<rparr>)"

text \<open>
  \<open>do { handle(client); get_nth_client(i++); if (empty) break; } while (last != address)\<close>.
\<close>

fun publish_walk :: "nat \<Rightarrow> device_address \<Rightarrow> bytes \<Rightarrow> bytes \<Rightarrow> bool \<Rightarrow> nat \<Rightarrow> entry_client \<Rightarrow>
    (gateway, unit) state" where
  "publish_walk 0 last_address topic_name data retain i e = diverge"
| "publish_walk (Suc fuel) last_address topic_name data retain i e = do {
     handle_receive_mqtt_publish_for_client topic_name data (ec_client_address e) retain;
     e' \<leftarrow> get_nth_client i;
     if is_address_empty (ec_client_address e') then ret ()
     else if ec_client_address e' = last_address then ret ()
     else publish_walk fuel last_address topic_name data retain (i + 1) e'
   }"

text \<open>\<open>CoreImpl::publish(topic_name, data, data_length, retain)\<close>.\<close>

definition core_publish_broker :: "bytes \<Rightarrow> bytes \<Rightarrow> bool \<Rightarrow> (gateway, core_result) state" where
  "core_publish_broker topic_name data retain =
     (if length data > unat get_maximum_publish_payload_length then ret SUCCESS
      else do {
        _ \<leftarrow> get_global_topic_subscription_count (Some topic_name);
        last_address \<leftarrow> get_last_client_address empty_address;
        if is_address_empty last_address then ret SUCCESS
        else do {
          e \<leftarrow> get_nth_client 0;
          fuel \<leftarrow> walk_fuel;
          publish_walk fuel last_address topic_name data retain 1 e;
          ret SUCCESS
        }
      })"

text \<open>\<open>PahoMqttMessageHandler::receive_publish\<close> and the callback \<open>messageArrived\<close>.\<close>

definition receive_publish :: "bytes \<Rightarrow> bytes \<Rightarrow> (gateway, bool) state" where
  "receive_publish topic payload = do {
     r \<leftarrow> core_publish_broker topic payload False;
     ret (r = SUCCESS)
   }"

definition messageArrived :: "bytes \<Rightarrow> bytes \<Rightarrow> (gateway, unit) state" where
  "messageArrived topicName payload =
     (if length topicName < 1024
      then do { _ \<leftarrow> receive_publish (cstr topicName) payload; ret () }
      else ret ())"

section \<open>The main loop\<close>

text \<open>
  The round for one client, with the state in which it counts as served (\<open>AWAKE\<close> online,
  \<open>ACTIVE\<close> or \<open>AWAKE\<close> offline), its new state and the message it gets.
\<close>

definition serve_client :: "(byte \<Rightarrow> bool) \<Rightarrow> byte \<Rightarrow> (device_address \<Rightarrow> (gateway, bool) state) \<Rightarrow>
    bool \<Rightarrow> u32 \<Rightarrow> entry_client \<Rightarrow> (gateway, unit) state" where
  "serve_client served new_status answer has_heart_beaten elapsed_time e = do {
     let status = ec_client_status e;
     let address = ec_client_address e;
     handle_client_publishes status (cstr (ec_client_id e)) address;
     start_client_transaction_address address;
     pending \<leftarrow> (if served status then has_client_publishes else ret True);
     (if \<not> pending then do {
        set_client_state new_status;
        r \<leftarrow> apply_transaction;
        if eq_result r SUCCESS then do { _ \<leftarrow> answer address; ret () } else ret ()
      } else do { _ \<leftarrow> apply_transaction; ret () });
     if has_heart_beaten
     then handle_timeout status (ec_duration e) elapsed_time (cstr (ec_client_id e)) address
       (ec_timeout e)
     else ret ()
   }"

definition serve_online :: "bool \<Rightarrow> u32 \<Rightarrow> entry_client \<Rightarrow> (gateway, unit) state" where
  "serve_online = serve_client (\<lambda>st. st = AWAKE) ASLEEP send_pingresp"

definition serve_offline :: "bool \<Rightarrow> u32 \<Rightarrow> entry_client \<Rightarrow> (gateway, unit) state" where
  "serve_offline = serve_client (\<lambda>st. st = ACTIVE \<or> st = AWAKE) DISCONNECTED send_disconnect"

text \<open>The walk of \<open>CoreImpl::loop\<close> returns at an empty address; the last client is served after it.\<close>

fun online_walk :: "nat \<Rightarrow> device_address \<Rightarrow> bool \<Rightarrow> u32 \<Rightarrow> nat \<Rightarrow> entry_client \<Rightarrow>
    (gateway, unit) state" where
  "online_walk 0 last_address beaten elapsed i e = diverge"
| "online_walk (Suc fuel) last_address beaten elapsed i e = do {
     serve_online beaten elapsed e;
     e' \<leftarrow> get_nth_client i;
     if is_address_empty (ec_client_address e') then ret ()
     else if ec_client_address e' = last_address then serve_online beaten elapsed e'
     else online_walk fuel last_address beaten elapsed (i + 1) e'
   }"

text \<open>The walk of \<open>process_mqtt_offline_procedure\<close> has no such test.\<close>

fun offline_walk :: "nat \<Rightarrow> device_address \<Rightarrow> bool \<Rightarrow> u32 \<Rightarrow> nat \<Rightarrow> entry_client \<Rightarrow>
    (gateway, unit) state" where
  "offline_walk 0 last_address beaten elapsed i e = diverge"
| "offline_walk (Suc fuel) last_address beaten elapsed i e = do {
     serve_offline beaten elapsed e;
     e' \<leftarrow> get_nth_client i;
     if ec_client_address e' = last_address then serve_offline beaten elapsed e'
     else offline_walk fuel last_address beaten elapsed (i + 1) e'
   }"

definition process_mqtt_offline_procedure :: "(gateway, unit) state" where
  "process_mqtt_offline_procedure = do {
     beaten \<leftarrow> has_beaten;
     t \<leftarrow> get_elapsed_time;
     last_address \<leftarrow> get_last_client_address empty_address;
     if is_address_empty last_address then system_exit
     else do {
       e \<leftarrow> get_nth_client 0;
       fuel \<leftarrow> walk_fuel;
       offline_walk fuel last_address beaten (t div 1000) 1 e
     }
   }"

text \<open>\<open>System::exit\<close> throws, so nothing after it is executed.\<close>

definition process_mqttsn_offline_procedure :: "(gateway, unit) state" where
  "process_mqttsn_offline_procedure = do {
     w \<leftarrow> get_mqtt_will;
     (if fst w then do {
        _ \<leftarrow> mqtt_publish (cstr (cw_will_topic (snd w))) (cstr (cw_will_msg (snd w)) @ [0])
              (cw_will_qos (snd w)) (cw_will_retain (snd w));
        ret ()
      } else ret ());
     mqtt_disconnect;
     system_exit
   }"

fun lost_walk :: "nat \<Rightarrow> device_address \<Rightarrow> nat \<Rightarrow> entry_client \<Rightarrow> (gateway, unit) state" where
  "lost_walk 0 last_address i e = diverge"
| "lost_walk (Suc fuel) last_address i e =
     (if ec_client_address e = last_address then ret ()
      else do {
        (if ec_client_status e \<noteq> EMPTY then do {
           start_client_transaction_address (ec_client_address e);
           set_client_state LOST;
           _ \<leftarrow> apply_transaction;
           ret ()
         } else ret ());
        e' \<leftarrow> get_nth_client i;
        lost_walk fuel last_address (i + 1) e'
      })"

definition set_all_clients_lost :: "(gateway, unit) state" where
  "set_all_clients_lost = do {
     last_address \<leftarrow> get_last_client_address empty_address;
     e \<leftarrow> get_nth_client 0;
     fuel \<leftarrow> walk_fuel;
     lost_walk fuel last_address 1 e
   }"

definition core_loop :: "(gateway, unit) state" where
  "core_loop = do {
     mqttsn \<leftarrow> is_mqttsn_online;
     mqtt \<leftarrow> is_mqtt_online;
     if mqttsn \<and> \<not> mqtt then process_mqtt_offline_procedure
     else if \<not> mqttsn \<and> mqtt then process_mqttsn_offline_procedure
     else if \<not> mqttsn \<and> \<not> mqtt then do { set_all_clients_lost; system_exit }
     else do {
       beaten \<leftarrow> has_beaten;
       elapsed \<leftarrow> (if beaten then get_elapsed_time else ret 0);
       last_address \<leftarrow> get_last_client_address empty_address;
       if is_address_empty last_address then ret ()
       else do {
         e \<leftarrow> get_nth_client 0;
         fuel \<leftarrow> walk_fuel;
         online_walk fuel last_address beaten elapsed 1 e
       }
     }
   }"

end
