(* ===== verification/SnHandler.thy ===== *)
theory SnHandler
  imports CoreLoop
begin

text \<open>
  Receiving MQTT-SN messages: the \<open>parse_*\<close> and \<open>handle_*\<close> functions of
  \<open>src/MqttSnMessageHandler.cpp\<close> and \<open>receiveData\<close>.  A message is the receive buffer of
  \<open>UdpSocketImpl\<close> (255 bytes, zero behind the datagram); a field is read at the offset it has in
  the message's struct on the x86-64 ABI.
\<close>

definition u16_at :: "nat \<Rightarrow> bytes \<Rightarrow> u16" where
  "u16_at off bs = u16_of (fld off 2 bs)"

definition has_flag :: "bytes \<Rightarrow> byte \<Rightarrow> bool" where
  "has_flag bs f \<longleftrightarrow> byte_at 2 bs AND f \<noteq> 0"

text \<open>The quality of service in \<open>flags\<close>; 255 is the \<open>int8_t\<close> -1.\<close>

definition parse_qos :: "byte \<Rightarrow> byte" where
  "parse_qos flags =
     (if flags AND FLAG_QOS_M1 = FLAG_QOS_M1 then 255
      else if flags AND FLAG_QOS_2 = FLAG_QOS_2 then 2
      else if flags AND FLAG_QOS_1 = FLAG_QOS_1 then 1
      else 0)"

section \<open>Gateway discovery\<close>

text \<open>\<open>sizeof(own_address)\<close> is the size of a pointer.\<close>

definition handle_searchgw :: "device_address \<Rightarrow> byte \<Rightarrow> (gateway, unit) state" where
  "handle_searchgw address radius = do {
     own \<leftarrow> reads own_address;
     (r, gw_id) \<leftarrow> core_get_gateway_id 0;
     if r = SUCCESS \<and> gw_id > 0
     then do { _ \<leftarrow> send_gwinfo address radius gw_id own 8; ret () } else ret ()
   }"

definition parse_searchgw :: "device_address \<Rightarrow> bytes \<Rightarrow> (gateway, unit) state" where
  "parse_searchgw address bs =
     (if byte_at 0 bs = 3 \<and> byte_at 1 bs = MQTTSN_SEARCHGW
      then handle_searchgw address (byte_at 2 bs) else ret ())"

section \<open>Connecting\<close>

definition handle_connect :: "device_address \<Rightarrow> bytes \<Rightarrow> u16 \<Rightarrow> bool \<Rightarrow> bool \<Rightarrow> (gateway, unit) state"
  where
  "handle_connect address client_id duration will clean_session = do {
     add_result \<leftarrow> core_add_client client_id duration clean_session address;
     if add_result \<noteq> SUCCESS then do {
       _ \<leftarrow> send_connack address
             (if add_result = FULL then REJECTED_CONGESTION else REJECTED_NOT_SUPPORTED);
       ret ()
     }
     else if will then do {
       await_result \<leftarrow> await_message address MQTTSN_WILLTOPIC;
       if await_result \<noteq> SUCCESS
       then do { _ \<leftarrow> send_connack address REJECTED_NOT_SUPPORTED; ret () }
       else do { _ \<leftarrow> send_willtopicreq address; ret () }
     }
     else do { _ \<leftarrow> send_connack address ACCEPTED; ret () }
   }"

definition parse_connect :: "device_address \<Rightarrow> bytes \<Rightarrow> (gateway, unit) state" where
  "parse_connect address bs =
     (if byte_at 0 bs > 6 \<and> byte_at 1 bs = MQTTSN_CONNECT
        \<and> unat (byte_at 0 bs) = 6 + length (cstr (drop 6 bs)) + 1
        \<and> byte_at 3 bs = PROTOCOL_ID
      then handle_connect address (cstr (drop 6 bs)) (u16_at 4 bs) (has_flag bs FLAG_WILL)
             (has_flag bs FLAG_CLEAN)
      else ret ())"

definition handle_willtopic :: "device_address \<Rightarrow> bytes \<Rightarrow> bool \<Rightarrow> byte \<Rightarrow> (gateway, unit) state" where
  "handle_willtopic address will_topic retain qos =
     (if cstr will_topic = [] \<and> qos = 0 \<and> \<not> retain
      then do { _ \<leftarrow> remove_will address; ret () }
      else do {
        topic_result \<leftarrow> add_will_topic address will_topic retain qos;
        if topic_result \<noteq> SUCCESS
        then do { _ \<leftarrow> send_connack address REJECTED_NOT_SUPPORTED; ret () }
        else do {
          await_result \<leftarrow> await_message address MQTTSN_WILLMSG;
          if await_result \<noteq> SUCCESS
          then do { _ \<leftarrow> send_connack address REJECTED_NOT_SUPPORTED; ret () }
          else do { _ \<leftarrow> send_willmsgreq address; ret () }
        }
      })"

text \<open>\<open>retain\<close> is read with the mask \<open>FLAG_WILL\<close>.\<close>

definition parse_willtopic :: "device_address \<Rightarrow> bytes \<Rightarrow> (gateway, unit) state" where
  "parse_willtopic address bs =
     (if byte_at 0 bs > 3 \<and> byte_at 1 bs = MQTTSN_WILLTOPIC
        \<and> unat (byte_at 0 bs) = 3 + length (cstr (drop 3 bs)) + 1
      then handle_willtopic address (cstr (drop 3 bs)) (has_flag bs FLAG_WILL)
             (parse_qos (byte_at 2 bs))
      else ret ())"

definition handle_willmsg :: "device_address \<Rightarrow> bytes \<Rightarrow> byte \<Rightarrow> (gateway, unit) state" where
  "handle_willmsg address will_msg will_msg_len = do {
     r \<leftarrow> add_will_msg address will_msg will_msg_len;
     _ \<leftarrow> send_connack address (if r = SUCCESS then ACCEPTED else REJECTED_NOT_SUPPORTED);
     ret ()
   }"

definition parse_willmsg :: "device_address \<Rightarrow> bytes \<Rightarrow> (gateway, unit) state" where
  "parse_willmsg address bs =
     (if byte_at 0 bs > 2 \<and> byte_at 1 bs = MQTTSN_WILLMSG
      then handle_willmsg address (drop 2 bs) (byte_at 0 bs - 2) else ret ())"

section \<open>Registering topics\<close>

definition handle_register :: "device_address \<Rightarrow> u16 \<Rightarrow> bytes \<Rightarrow> (gateway, unit) state" where
  "handle_register address msg_id topic_name = do {
     (register_result, topic_id) \<leftarrow> register_topic address topic_name 0;
     _ \<leftarrow> (if register_result = FULL then send_regack address 0 msg_id REJECTED_CONGESTION
           else if register_result \<noteq> SUCCESS
           then send_regack address 0 msg_id REJECTED_NOT_SUPPORTED
           else send_regack address topic_id msg_id ACCEPTED);
     ret ()
   }"

definition parse_register :: "device_address \<Rightarrow> bytes \<Rightarrow> (gateway, unit) state" where
  "parse_register address bs =
     (if byte_at 0 bs > 6 \<and> byte_at 1 bs = MQTTSN_REGISTER \<and> u16_at 2 bs = 0
        \<and> unat (byte_at 0 bs) = 6 + length (cstr (drop 6 bs)) + 1
      then handle_register address (u16_at 4 bs) (cstr (drop 6 bs)) else ret ())"

definition handle_regack :: "device_address \<Rightarrow> u16 \<Rightarrow> u16 \<Rightarrow> byte \<Rightarrow> (gateway, unit) state" where
  "handle_regack address topic_id msg_id return_code = do {
     r \<leftarrow> notify_regack_arrived address topic_id msg_id return_code;
     if r \<noteq> SUCCESS then do { _ \<leftarrow> send_disconnect address; ret () } else ret ()
   }"

definition parse_regack :: "device_address \<Rightarrow> bytes \<Rightarrow> (gateway, unit) state" where
  "parse_regack address bs =
     (if byte_at 0 bs = 7 \<and> byte_at 1 bs = MQTTSN_REGACK
      then handle_regack address (u16_at 2 bs) (u16_at 4 bs) (byte_at 6 bs) else ret ())"

section \<open>Publishing\<close>

definition handle_publish :: "device_address \<Rightarrow> bytes \<Rightarrow> u16 \<Rightarrow> u16 \<Rightarrow> bool \<Rightarrow> bool \<Rightarrow> byte \<Rightarrow> bool \<Rightarrow>
    (gateway, unit) state" where
  "handle_publish address data msg_id topic_id short_topic retain qos dup = do {
     r \<leftarrow> core_publish_client address data msg_id topic_id short_topic retain qos dup;
     if qos = 255 then ret ()
     else if r \<noteq> SUCCESS \<and> r \<noteq> TOPICIDNONEXISTENCE then
       if qos = 1
       then do { _ \<leftarrow> send_puback address msg_id topic_id REJECTED_NOT_SUPPORTED; ret () }
       else do { _ \<leftarrow> send_disconnect address; ret () }
     else if qos = 0 then
       if r = TOPICIDNONEXISTENCE
       then do { _ \<leftarrow> send_puback address msg_id topic_id REJECTED_INVALID_TOPIC_ID; ret () }
       else ret ()
     else if qos = 1 then do {
       _ \<leftarrow> send_puback address msg_id topic_id
             (if r = TOPICIDNONEXISTENCE then REJECTED_INVALID_TOPIC_ID else ACCEPTED);
       ret ()
     }
     else if qos = 2 then do {
       await_result \<leftarrow> await_message address MQTTSN_PUBREL;
       _ \<leftarrow> (if await_result \<noteq> SUCCESS then send_disconnect address
             else send_pubrec address msg_id);
       ret ()
     }
     else ret ()
   }"

text \<open>
  The guard of the first of the two calls is \<open>!short_topic && !(msg->flags &
  FLAG_TOPIC_PREDEFINED_ID != 0)\<close>, where \<open>!=\<close> binds tighter than \<open>&\<close>: the flags are masked with
  the truth value 1.  The data is read from the buffer, which ends at 255 bytes.
\<close>

definition parse_publish :: "device_address \<Rightarrow> bytes \<Rightarrow> (gateway, unit) state" where
  "parse_publish address bs =
     (if byte_at 0 bs > 7 \<and> byte_at 1 bs = MQTTSN_PUBLISH then
        let dup = has_flag bs FLAG_DUP;
            qos = parse_qos (byte_at 2 bs);
            retain = has_flag bs FLAG_RETAIN;
            short_topic = has_flag bs FLAG_TOPIC_SHORT_NAME;
            data_len = unat (byte_at 0 bs) - 7;
            data = take data_len (drop 8 bs);
            message_id = u16_at 6 bs;
            topic_id = u16_at 4 bs
        in if (qos = 0 \<or> qos = 255) \<and> message_id \<noteq> 0 then ret ()
           else do {
             (if \<not> short_topic \<and> byte_at 2 bs AND 1 = 0
              then handle_publish address data message_id topic_id short_topic retain qos dup
              else ret ());
             handle_publish address data message_id topic_id short_topic retain qos dup
           }
      else ret ())"

definition handle_puback :: "device_address \<Rightarrow> u16 \<Rightarrow> u16 \<Rightarrow> byte \<Rightarrow> (gateway, unit) state" where
  "handle_puback address msg_id topic_id return_code = do {
     r \<leftarrow> notify_puback_arrived address msg_id topic_id return_code;
     if r \<noteq> SUCCESS then do { _ \<leftarrow> send_disconnect address; ret () } else ret ()
   }"

text \<open>
  \<open>handle_puback(address, msg->topic_id, msg->message_id, ...)\<close>: the topic id is passed as the
  message id.
\<close>

definition parse_puback :: "device_address \<Rightarrow> bytes \<Rightarrow> (gateway, unit) state" where
  "parse_puback address bs =
     (if byte_at 0 bs = 7
      then handle_puback address (u16_at 2 bs) (u16_at 4 bs) (byte_at 6 bs) else ret ())"

section \<open>Subscribing\<close>

text \<open>The answers both \<open>handle_subscribe\<close> functions give to the result of \<open>add_subscription\<close>.\<close>

definition answer_subscribe :: "device_address \<Rightarrow> u16 \<Rightarrow> core_result \<times> u16 \<times> byte \<Rightarrow>
    (gateway, unit) state" where
  "answer_subscribe address msg_id res = (case res of (r, new_topic_id, granted_qos) \<Rightarrow> do {
     _ \<leftarrow> (if r \<noteq> SUCCESS then
             if r = CLIENTSUBSCRIPTIONFULL then send_suback address 0 0 msg_id REJECTED_CONGESTION
             else if r = TOPICIDNONEXISTENCE
             then send_suback address 0 0 msg_id REJECTED_INVALID_TOPIC_ID
             else if r = CLIENTNONEXISTENCE then send_disconnect address
             else send_suback address 0 0 msg_id REJECTED_NOT_SUPPORTED
           else send_suback address granted_qos new_topic_id msg_id ACCEPTED);
     ret ()
   })"

definition handle_subscribe_id :: "device_address \<Rightarrow> u16 \<Rightarrow> u16 \<Rightarrow> bool \<Rightarrow> byte \<Rightarrow> bool \<Rightarrow>
    (gateway, unit) state" where
  "handle_subscribe_id address topic_id msg_id short_topic qos dup = do {
     r \<leftarrow> core_add_subscription address topic_id msg_id short_topic qos dup 0 0;
     answer_subscribe address msg_id r
   }"

definition handle_subscribe_name :: "device_address \<Rightarrow> bytes \<Rightarrow> u16 \<Rightarrow> byte \<Rightarrow> bool \<Rightarrow>
    (gateway, unit) state" where
  "handle_subscribe_name address topic_name msg_id qos dup = do {
     (register_result, new_topic_id) \<leftarrow> register_topic address topic_name 0;
     if register_result = FULL
     then do { _ \<leftarrow> send_suback address qos 0 msg_id REJECTED_CONGESTION; ret () }
     else if register_result \<noteq> SUCCESS
     then do { _ \<leftarrow> send_suback address qos 0 msg_id REJECTED_NOT_SUPPORTED; ret () }
     else do {
       r \<leftarrow> core_add_subscription address new_topic_id msg_id True qos dup new_topic_id 0;
       answer_subscribe address msg_id r
     }
   }"

definition short_or_predefined :: "bytes \<Rightarrow> bool" where
  "short_or_predefined bs \<longleftrightarrow>
     has_flag bs FLAG_TOPIC_SHORT_NAME \<or> has_flag bs FLAG_TOPIC_PREDEFINED_ID"

definition parse_subscribe :: "device_address \<Rightarrow> bytes \<Rightarrow> (gateway, unit) state" where
  "parse_subscribe address bs =
     (if byte_at 0 bs > 3 then
        let qos = parse_qos (byte_at 2 bs); dup = has_flag bs FLAG_DUP in
        if qos = 255 then ret ()
        else if short_or_predefined bs \<and> byte_at 0 bs = 7
        then handle_subscribe_id address (u16_at 6 bs) (u16_at 4 bs)
               (has_flag bs FLAG_TOPIC_SHORT_NAME) qos dup
        else if byte_at 0 bs > 6
        then handle_subscribe_name address (cstr (drop 6 bs)) (u16_at 4 bs) qos dup
        else ret ()
      else ret ())"

section \<open>Unsubscribing\<close>

definition answer_unsubscribe :: "device_address \<Rightarrow> u16 \<Rightarrow> core_result \<Rightarrow> (gateway, unit) state" where
  "answer_unsubscribe address msg_id r = do {
     _ \<leftarrow> (if r = CLIENTNONEXISTENCE then send_disconnect address
           else send_unsuback address msg_id);
     ret ()
   }"

definition handle_unsubscribe_id :: "device_address \<Rightarrow> u16 \<Rightarrow> u16 \<Rightarrow> bool \<Rightarrow> bool \<Rightarrow>
    (gateway, unit) state" where
  "handle_unsubscribe_id address topic_id msg_id short_topic dup = do {
     r \<leftarrow> core_delete_subscription_id address topic_id msg_id short_topic dup;
     answer_unsubscribe address msg_id r
   }"

definition handle_unsubscribe_name :: "device_address \<Rightarrow> bytes \<Rightarrow> u16 \<Rightarrow> bool \<Rightarrow>
    (gateway, unit) state" where
  "handle_unsubscribe_name address topic_name msg_id dup = do {
     r \<leftarrow> core_delete_subscription_name address topic_name msg_id dup;
     answer_unsubscribe address msg_id r
   }"

definition parse_unsubscribe :: "device_address \<Rightarrow> bytes \<Rightarrow> (gateway, unit) state" where
  "parse_unsubscribe address bs =
     (if byte_at 0 bs > 3 then
        if short_or_predefined bs \<and> byte_at 0 bs = 7
        then handle_unsubscribe_id address (u16_at 6 bs) (u16_at 4 bs)
               (has_flag bs FLAG_TOPIC_SHORT_NAME) (has_flag bs FLAG_DUP)
        else if byte_at 0 bs > 6
        then handle_unsubscribe_name address (cstr (drop 6 bs)) (u16_at 4 bs)
               (has_flag bs FLAG_DUP)
        else ret ()
      else ret ())"

section \<open>Ping and disconnect\<close>

definition handle_pingreq :: "device_address \<Rightarrow> (gateway, unit) state" where
  "handle_pingreq address = do { _ \<leftarrow> send_pingresp address; ret () }"

definition handle_pingreq_id :: "device_address \<Rightarrow> bytes \<Rightarrow> (gateway, unit) state" where
  "handle_pingreq_id address client_id = do {
     r \<leftarrow> set_awake address;
     if r \<noteq> SUCCESS then do { _ \<leftarrow> send_disconnect address; ret () } else ret ()
   }"

definition parse_pingreq :: "device_address \<Rightarrow> bytes \<Rightarrow> (gateway, unit) state" where
  "parse_pingreq address bs =
     (if byte_at 0 bs = 2 then handle_pingreq address
      else if byte_at 0 bs > 2 \<and> length (cstr (drop 2 bs)) < 24
        \<and> int (length (cstr (drop 2 bs))) = uint (byte_at 0 bs) - 3
      then handle_pingreq_id address (cstr (drop 2 bs)) else ret ())"

definition handle_disconnect :: "device_address \<Rightarrow> (gateway, unit) state" where
  "handle_disconnect address = do {
     r \<leftarrow> set_disconnected address;
     if r \<noteq> SUCCESS then ret () else do { _ \<leftarrow> send_disconnect address; ret () }
   }"

definition handle_disconnect_duration :: "device_address \<Rightarrow> u16 \<Rightarrow> (gateway, unit) state" where
  "handle_disconnect_duration address duration = do {
     r \<leftarrow> set_asleep_duration address duration;
     _ \<leftarrow> (if r \<noteq> SUCCESS then send_disconnect address
           else send_disconnect_duration address duration);
     ret ()
   }"

definition parse_disconnect :: "device_address \<Rightarrow> bytes \<Rightarrow> (gateway, unit) state" where
  "parse_disconnect address bs =
     (if byte_at 0 bs = 2 then handle_disconnect address
      else if byte_at 0 bs = 4 then handle_disconnect_duration address (u16_at 2 bs)
      else ret ())"

section \<open>Dispatch\<close>

definition receiveData :: "device_address \<Rightarrow> bytes \<Rightarrow> (gateway, unit) state" where
  "receiveData address bs =
     (if byte_at 0 bs < 2 then ret ()
      else let type = byte_at 1 bs in
        if type = MQTTSN_PINGREQ then parse_pingreq address bs
        else if type = MQTTSN_SEARCHGW then parse_searchgw address bs
        else if type = MQTTSN_CONNECT then parse_connect address bs
        else if type = MQTTSN_WILLTOPIC then parse_willtopic address bs
        else if type = MQTTSN_WILLMSG then parse_willmsg address bs
        else if type = MQTTSN_REGISTER then parse_register address bs
        else if type = MQTTSN_REGACK then parse_regack address bs
        else if type = MQTTSN_PUBLISH then parse_publish address bs
        else if type = MQTTSN_PUBACK then parse_puback address bs
        else if type = MQTTSN_SUBSCRIBE then parse_subscribe address bs
        else if type = MQTTSN_UNSUBSCRIBE then parse_unsubscribe address bs
        else if type = MQTTSN_DISCONNECT then parse_disconnect address bs
        else ret ())"

text \<open>
  \<open>UdpSocketImpl::loop\<close> with an open socket: a datagram of at most 255 bytes is copied into the
  cleared buffer.
\<close>

definition receive_datagram :: "device_address \<Rightarrow> bytes \<Rightarrow> (gateway, unit) state" where
  "receive_datagram address datagram = receiveData address (padz BUFLEN datagram)"

end
