(* ===== verification/Frames.thy ===== *)
theory Frames
  imports SnHandler
begin

text \<open>
  What an operation leaves alone.  Most operations neither touch the file of the client registry
  nor the transaction: the predicate \<open>frame\<close> says so, and its rules follow the structure of a
  computation, so that a framed operation is proved by unfolding it.
\<close>

section \<open>Framed computations\<close>

definition same_client :: "'z persistent_scheme \<Rightarrow> 'z persistent_scheme \<Rightarrow> bool" where
  "same_client s t \<longleftrightarrow>
     files t (path_in t client_registry) = files s (path_in s client_registry) \<and>
     rootPath t = rootPath s \<and> entry t = entry s \<and>
     not_in_client_registry t = not_in_client_registry s \<and>
     transaction_started t = transaction_started s \<and> (error s \<longrightarrow> error t)"

definition registry_present :: "'z persistent_scheme \<Rightarrow> bool" where
  "registry_present s \<longleftrightarrow> files s (path_in s client_registry) \<noteq> None"

definition frame :: "('z persistent_scheme, 'a) state \<Rightarrow> bool" where
  "frame m \<longleftrightarrow> (\<forall>s. registry_present s \<longrightarrow> same_client s (snd (run_state m s)))"

named_theorems frame_intros "rules for framed computations"

lemma same_client_refl [simp]: "same_client s s"
  by (simp add: same_client_def)

lemma same_client_trans: "same_client s t \<Longrightarrow> same_client t u \<Longrightarrow> same_client s u"
  by (simp add: same_client_def)

lemma same_client_present: "same_client s t \<Longrightarrow> registry_present s \<Longrightarrow> registry_present t"
  by (simp add: same_client_def registry_present_def)

lemma frameI: "(\<And>s. registry_present s \<Longrightarrow> same_client s (snd (run_state m s))) \<Longrightarrow> frame m"
  by (simp add: frame_def)

lemma frameD: "frame m \<Longrightarrow> registry_present s \<Longrightarrow> run_state m s = (a, t) \<Longrightarrow> same_client s t"
  by (auto simp: frame_def)

lemma frame_return [frame_intros]: "frame (ret a)"
  by (simp add: frame_def State_Monad.return_def)

lemma frame_reads [frame_intros]: "frame (reads f)"
  by (simp add: frame_def)

lemma frame_get [frame_intros]: "frame State_Monad.get"
  by (simp add: frame_def)

lemma frame_bind [frame_intros]: "frame m \<Longrightarrow> (\<And>a. frame (f a)) \<Longrightarrow> frame (State_Monad.bind m f)"
  unfolding frame_def by (simp add: split_beta) (metis same_client_trans same_client_present)

lemma frame_if [frame_intros]: "frame m \<Longrightarrow> frame n \<Longrightarrow> frame (if b then m else n)"
  by simp

lemma frame_let [frame_intros]: "frame (f x) \<Longrightarrow> frame (let y = x in f y)"
  by simp

lemma frame_option [frame_intros]:
  "frame m \<Longrightarrow> (\<And>x. frame (f x)) \<Longrightarrow> frame (case y of None \<Rightarrow> m | Some x \<Rightarrow> f x)"
  by (cases y) simp_all

lemma frame_prod [frame_intros]: "(\<And>x y. frame (f x y)) \<Longrightarrow> frame (case p of (x, y) \<Rightarrow> f x y)"
  by (cases p) simp

lemma frame_loop_result [frame_intros]:
  "(\<And>x. frame (f x)) \<Longrightarrow> (\<And>n r a. frame (g n r a)) \<Longrightarrow>
    frame (case y of Returned x \<Rightarrow> f x | Done n r a \<Rightarrow> g n r a)"
  by (cases y) simp_all

lemma frame_modify: "(\<And>s. same_client s (f s)) \<Longrightarrow> frame (modify f)"
  by (simp add: frame_def)

lemma frame_set_error [frame_intros]: "frame set_error"
  by (simp add: set_error_def frame_modify same_client_def path_in_def)

section \<open>Files\<close>

lemma same_client_set_file: "name \<noteq> client_registry \<Longrightarrow> same_client s (set_file (path_in s name) c s)"
  by (simp add: same_client_def set_file_def path_in_def)

lemma frame_sd_open [frame_intros]: "frame (sd_open name mode)"
proof (rule frameI)
  fix s :: "'a persistent_scheme"
  assume "registry_present s"
  then show "same_client s (snd (run_state (sd_open name mode) s))"
    by (cases "name = client_registry")
      (auto simp: run_sd_open same_client_set_file registry_present_def same_client_def
        set_file_def path_in_def content_def)
qed

lemma frame_write_at [frame_intros]: "name \<noteq> client_registry \<Longrightarrow> frame (write_at name pos bs)"
  by (rule frameI) (simp add: run_write_at same_client_set_file)

text \<open>The names of the other files end differently, so no path leads to the registry.\<close>

lemma path_not_registry: "last name \<noteq> last client_registry \<Longrightarrow> name \<noteq> [] \<Longrightarrow>
    p @ slash # name \<noteq> path_in s client_registry"
  unfolding path_in_def client_registry_def
  by (metis (no_types, lifting) last_append last_ConsR list.distinct(1) str_simps(2))

lemma client_file_last:
  "last (client_file e SUBSCRIBE_FILE_ENDING) \<noteq> last client_registry"
  "last (client_file e REGISTRATION_FILE_ENDING) \<noteq> last client_registry"
  "last (client_file e WILL_FILE_ENDING) \<noteq> last client_registry"
  "last (client_file e PUBLISH_FILE_ENDING) \<noteq> last client_registry"
  by (simp_all add: client_file_def SUBSCRIBE_FILE_ENDING_def REGISTRATION_FILE_ENDING_def
      WILL_FILE_ENDING_def PUBLISH_FILE_ENDING_def client_registry_def)

lemma client_file_nonempty [simp]: "client_file e SUBSCRIBE_FILE_ENDING \<noteq> []"
  "client_file e REGISTRATION_FILE_ENDING \<noteq> []" "client_file e WILL_FILE_ENDING \<noteq> []"
  "client_file e PUBLISH_FILE_ENDING \<noteq> []"
  by (simp_all add: client_file_def SUBSCRIBE_FILE_ENDING_def REGISTRATION_FILE_ENDING_def
      WILL_FILE_ENDING_def PUBLISH_FILE_ENDING_def)

lemma client_file_not_registry [simp]: "client_file e SUBSCRIBE_FILE_ENDING \<noteq> client_registry"
  "client_file e REGISTRATION_FILE_ENDING \<noteq> client_registry"
  "client_file e WILL_FILE_ENDING \<noteq> client_registry"
  "client_file e PUBLISH_FILE_ENDING \<noteq> client_registry"
  using client_file_last [of e] by metis+

lemma names_not_registry [simp]: "sub_file s \<noteq> client_registry" "reg_file s \<noteq> client_registry"
  "will_file s \<noteq> client_registry" "pub_file s \<noteq> client_registry"
  by (simp_all add: sub_file_def reg_file_def will_file_def pub_file_def)

lemma mqtt_sub_not_registry [simp]: "mqtt_sub \<noteq> client_registry"
  by (simp add: mqtt_sub_def client_registry_def)

lemma frame_sd_remove: "last name \<noteq> last client_registry \<Longrightarrow> name \<noteq> [] \<Longrightarrow> frame (sd_remove name)"
proof (rule frameI)
  fix s :: "'a persistent_scheme"
  assume "last name \<noteq> last client_registry" "name \<noteq> []"
  then have "path_in s client_registry \<noteq> cwd s @ slash # name"
    using path_not_registry [of name "cwd s" s] by metis
  then show "same_client s (snd (run_state (sd_remove name) s))"
    by (simp add: sd_remove_def same_client_def Let_def path_in_def)
qed

lemmas frame_files [frame_intros] = frame_sd_remove [OF client_file_last(1) client_file_nonempty(1)]
  frame_sd_remove [OF client_file_last(2) client_file_nonempty(2)]
  frame_sd_remove [OF client_file_last(3) client_file_nonempty(3)]
  frame_sd_remove [OF client_file_last(4) client_file_nonempty(4)]

section \<open>The persistence layer\<close>

lemma frame_create_file [frame_intros]: "frame (create_file name)"
  unfolding create_file_def by (intro frame_intros)

lemma frame_delete_file:
  "last name \<noteq> last client_registry \<Longrightarrow> name \<noteq> [] \<Longrightarrow> frame (delete_file name)"
  unfolding delete_file_def sd_exists_def by (intro frame_intros frame_sd_remove)

lemma frame_find_client [frame_intros]: "frame (find_client P)"
  unfolding find_client_def by (intro frame_intros)

lemma frame_find_empty [frame_intros]: "frame find_empty_entry_space_in_registry"
  unfolding find_empty_entry_space_in_registry_def by (intro frame_intros)

lemma frame_getters [frame_intros]: "frame client_exist" "frame get_client_status"
  "frame get_client_await_msg_id" "frame get_client_await_message_type" "frame is_mqttsn_online"
  "frame is_mqtt_online" "frame (get_last_client_address a)" "frame (get_nth_client n)"
  "frame (set_client_duration d)" "frame (get_gateway_id g)"
  unfolding client_exist_def get_client_status_def get_client_await_msg_id_def
    get_client_await_message_type_def is_mqttsn_online_def is_mqtt_online_def
    get_last_client_address_def get_nth_client_def set_client_duration_def get_gateway_id_def
  by (intro frame_intros)+

lemma frame_connection [frame_intros]: "frame set_mqttsn_disconnected" "frame set_mqtt_disconnected"
  "frame set_mqttsn_connected" "frame set_mqtt_connected"
  unfolding set_mqttsn_disconnected_def set_mqtt_disconnected_def set_mqttsn_connected_def
    set_mqtt_connected_def
  by (intro frame_intros frame_modify; simp add: same_client_def path_in_def)+

lemma frame_topics [frame_intros]: "frame (get_topic_name t)" "frame (get_topic_id tn)"
  "frame (add_client_registration n t)" "frame (is_topic_known t)" "frame (set_topic_known t k)"
  unfolding get_topic_name_def get_topic_id_def add_client_registration_def is_topic_known_def
    set_topic_known_def
  by (intro frame_intros; simp)+

lemma frame_subscriptions [frame_intros]: "frame (find_subscription b)" "frame (is_subscribed tn)"
  "frame (get_subscription_qos tn)" "frame (get_subscription_topic_id tn)"
  "frame (add_subscription tn t q)" "frame get_client_subscription_count"
  "frame (get_nth_subscribed_topic_id t)" "frame (delete_subscription t)"
  unfolding find_subscription_def is_subscribed_def get_subscription_qos_def
    get_subscription_topic_id_def add_subscription_def get_client_subscription_count_def
    get_nth_subscribed_topic_id_def delete_subscription_def
  by (intro frame_intros; simp)+

lemma frame_global [frame_intros]: "frame (find_global b)" "frame (write_global i e)"
  "frame (increment_global_subscription_count tn)" "frame (decrement_global_subscription_count tn)"
  "frame (get_global_topic_subscription_count tn)"
  unfolding find_global_def write_global_def increment_global_subscription_count_def
    decrement_global_subscription_count_def get_global_topic_subscription_count_def
  by (intro frame_intros; simp)+

lemma frame_publishes [frame_intros]: "frame has_client_publishes"
  "frame (add_client_publish b l t r q d m)" "frame (add_new_client_publish b l t r q)"
  "frame get_next_publish" "frame (update_publish t f)" "frame (set_publish_msg_id t m)"
  "frame (remove_publish_by_publish_id t)" "frame (remove_publish_by_msg_id t)"
  unfolding has_client_publishes_def add_client_publish_def add_new_client_publish_def
    get_next_publish_def update_publish_def set_publish_msg_id_def
    remove_publish_by_publish_id_def remove_publish_by_msg_id_def
  by (intro frame_intros; simp)+

lemma frame_wills [frame_intros]: "frame delete_will" "frame read_will" "frame has_client_will"
  "frame get_client_will" "frame (update_will f)" "frame (set_client_willtopic t q r)"
  "frame (set_client_willmessage t l)"
  unfolding delete_will_def read_will_def has_client_will_def get_client_will_def update_will_def
    set_client_willtopic_def set_client_willmessage_def will_file_def
  by (intro frame_intros; simp add: will_file_def)+

lemma frame_predefined_result [frame_intros]: "(\<And>n. frame (f n)) \<Longrightarrow> frame m \<Longrightarrow> frame k \<Longrightarrow>
    frame (case r of Found n \<Rightarrow> f n | NotFound \<Rightarrow> m | NullPointer \<Rightarrow> k)"
  by (cases r) simp_all

lemma frame_config [frame_intros]: "frame (lines_of_file n b)" "frame (get_predefined_topic_name t)"
  "frame get_mqtt_config" "frame get_mqtt_login_config" "frame get_mqtt_will"
  unfolding lines_of_file_def get_predefined_topic_name_def get_mqtt_config_def
    get_mqtt_login_config_def get_mqtt_will_def
  by (intro frame_intros frame_modify; simp add: same_client_def path_in_def)+

section \<open>Socket, broker and clock\<close>

lemma frame_outside [frame_intros]: "frame (socket_send a bs)" "frame (call_broker c)"
  "frame millis" "frame system_exit" "frame walk_fuel" "frame diverge"
  unfolding socket_send_def call_broker_def millis_def system_exit_def walk_fuel_def diverge_def
  by (intro frame_intros frame_modify; simp add: same_client_def path_in_def)+

lemma frame_clock [frame_intros]: "frame has_beaten" "frame get_elapsed_time"
  unfolding has_beaten_def get_elapsed_time_def
  by (intro frame_intros frame_modify; simp add: same_client_def path_in_def)+

lemma frame_mqtt [frame_intros]: "frame (mqtt_publish t p q r)" "frame (mqtt_subscribe t q)"
  "frame (mqtt_unsubscribe tn)" "frame mqtt_disconnect" "frame (mqtt_connect i po c l w)"
  "frame getConfigAndConnect"
  unfolding mqtt_publish_def mqtt_subscribe_def mqtt_unsubscribe_def mqtt_disconnect_def
    mqtt_connect_def getConfigAndConnect_def
  by (intro frame_intros)+

lemma frame_send [frame_intros]: "frame notify_mqttsn_disconnected" "frame (send_or_notify a i k)"
  unfolding notify_mqttsn_disconnected_def send_or_notify_def by (intro frame_intros)+

lemma frame_messages [frame_intros]: "frame (send_advertise a g d)" "frame (send_gwinfo a ra g b k)"
  "frame (send_connack a c)" "frame (send_willtopicreq a)" "frame (send_willmsgreq a)"
  "frame (send_register a t m tn)" "frame (send_regack a t m c)"
  "frame (send_publish a b m t sh r q dp)" "frame (send_puback a m t c)" "frame (send_suback a q t m c)"
  "frame (send_unsuback a m)" "frame (send_pingresp a)" "frame (send_disconnect a)"
  "frame (send_disconnect_duration a du)" "frame (send_pubrec a m)"
  unfolding send_advertise_def send_gwinfo_def send_connack_def send_willtopicreq_def
    send_willmsgreq_def send_register_def send_regack_def send_publish_def send_puback_def
    send_suback_def send_unsuback_def send_pingresp_def send_disconnect_def
    send_disconnect_duration_def send_pubrec_def
  by (intro frame_intros)+

section \<open>Parts of the core that run inside a transaction\<close>

lemma frame_remove_subscriptions [frame_intros]: "frame (remove_subscriptions_loop fuel)"
proof (induction fuel)
  case 0
  show ?case by (simp add: frame_modify same_client_def path_in_def)
next
  case (Suc fuel)
  show ?case unfolding remove_subscriptions_loop.simps by (intro frame_intros Suc)
qed

lemma frame_remove_client_subscriptions [frame_intros]: "frame (remove_client_subscriptions c)"
  unfolding remove_client_subscriptions_def by (rule frame_intros)

lemma frame_core [frame_intros]: "frame (core_get_gateway_id g)" "frame notify_mqtt_disconnected"
  "frame notify_mqtt_connected" "frame notify_mqttsn_connected"
  unfolding core_get_gateway_id_def notify_mqtt_disconnected_def notify_mqtt_connected_def
    notify_mqttsn_connected_def
  by (intro frame_intros)+

end
