(* ===== verification/Registry.thy ===== *)
theory Registry
  imports Frames
begin

text \<open>
  The client registry as a list of entries, and the invariant that the operations on it keep.
  An entry is either cleared or belongs to a client: it has a client id, the address of its
  device and the position of its slot as file number, and no other entry has its id.  During a
  transaction on a registered client, \<open>entry\<close> is the client's entry in the registry.
\<close>

section \<open>The invariant\<close>

definition id_of :: "entry_client \<Rightarrow> bytes" where
  "id_of e = cstr (ec_client_id e)"

definition live :: "nat \<Rightarrow> entry_client \<Rightarrow> bool" where
  "live i e \<longleftrightarrow> wf_client e \<and> id_of e \<noteq> [] \<and> length (id_of e) < MAXIMUM_CLIENT_ID_LENGTH \<and>
     ec_client_address e \<noteq> empty_address \<and> ec_file_number e = padz 9 (fmt08 i)"

definition registry_ok :: "entry_client list \<Rightarrow> bool" where
  "registry_ok rs \<longleftrightarrow> length rs \<le> 65536 \<and>
     (\<forall>i < length rs. rs ! i = empty_client \<or> live i (rs ! i)) \<and>
     (\<forall>i < length rs. \<forall>j < length rs. id_of (rs ! i) = id_of (rs ! j) \<and> id_of (rs ! i) \<noteq> []
        \<longrightarrow> i = j)"

definition reg :: "'z persistent_scheme \<Rightarrow> entry_client list \<Rightarrow> bool" where
  "reg s rs \<longleftrightarrow> client.holds s client_registry rs \<and> registry_ok rs"

definition registry_inv :: "'z persistent_scheme \<Rightarrow> bool" where
  "registry_inv s \<longleftrightarrow> (\<exists>rs. reg s rs)"

definition coupled :: "'z persistent_scheme \<Rightarrow> entry_client list \<Rightarrow> bool" where
  "coupled s rs \<longleftrightarrow> (transaction_started s \<and> \<not> not_in_client_registry s \<longrightarrow>
     (\<exists>i < length rs. rs ! i = entry s \<and> live i (entry s)))"

definition in_transaction :: "'z persistent_scheme \<Rightarrow> bool" where
  "in_transaction s \<longleftrightarrow> (\<exists>rs. reg s rs \<and> coupled s rs)"

definition between :: "'z persistent_scheme \<Rightarrow> bool" where
  "between s \<longleftrightarrow> registry_inv s \<and> \<not> transaction_started s"

definition slots :: "'z persistent_scheme \<Rightarrow> nat" where
  "slots s = length (content s (path_in s client_registry)) div sizeof_entry_client"

text \<open>A slot is free to be given to the client \<open>cid\<close>, which has none.\<close>

definition may_add :: "bytes \<Rightarrow> 'z persistent_scheme \<Rightarrow> bool" where
  "may_add cid s \<longleftrightarrow> (\<exists>rs. reg s rs \<and> coupled s rs \<and> length rs < 65536 \<and>
     (transaction_started s \<and> not_in_client_registry s \<and> \<not> error s \<longrightarrow> cid \<notin> id_of ` set rs))"

lemma id_of_empty [simp]: "id_of empty_client = []"
  by (simp add: id_of_def)

lemma live_not_empty: "live i e \<Longrightarrow> e \<noteq> empty_client"
  by (auto simp: live_def)

lemma registry_ok_live: "registry_ok rs \<Longrightarrow> i < length rs \<Longrightarrow> id_of (rs ! i) \<noteq> [] \<Longrightarrow> live i (rs ! i)"
  by (auto simp: registry_ok_def)

lemma registry_ok_live_address: "registry_ok rs \<Longrightarrow> i < length rs \<Longrightarrow>
    ec_client_address (rs ! i) \<noteq> empty_address \<Longrightarrow> live i (rs ! i)"
  by (auto simp: registry_ok_def empty_address_def)

lemma live_wf: "live i e \<Longrightarrow> wf_client e"
  by (simp add: live_def)

lemma registry_okI:
  assumes "length rs \<le> 65536"
    and "\<And>i. i < length rs \<Longrightarrow> rs ! i = empty_client \<or> live i (rs ! i)"
    and "\<And>i j. i < length rs \<Longrightarrow> j < length rs \<Longrightarrow> id_of (rs ! i) = id_of (rs ! j) \<Longrightarrow>
      id_of (rs ! i) \<noteq> [] \<Longrightarrow> i = j"
  shows "registry_ok rs"
  using assms unfolding registry_ok_def by blast

lemma registry_ok_slot: "registry_ok rs \<Longrightarrow> i < length rs \<Longrightarrow> rs ! i = empty_client \<or> live i (rs ! i)"
  by (simp add: registry_ok_def)

lemma registry_ok_same_id: "registry_ok rs \<Longrightarrow> i < length rs \<Longrightarrow> j < length rs \<Longrightarrow>
    id_of (rs ! i) = id_of (rs ! j) \<Longrightarrow> id_of (rs ! i) \<noteq> [] \<Longrightarrow> i = j"
  by (simp add: registry_ok_def)

lemma registry_ok_length: "registry_ok rs \<Longrightarrow> length rs \<le> 65536"
  by (simp add: registry_ok_def)

lemma registry_ok_clear: "registry_ok rs \<Longrightarrow> registry_ok (rs[i := empty_client])"
proof (rule registry_okI)
  fix k j
  assume ok: "registry_ok rs" and kj: "k < length (rs[i := empty_client])" "j < length (rs[i := empty_client])"
    "id_of (rs[i := empty_client] ! k) = id_of (rs[i := empty_client] ! j)"
    "id_of (rs[i := empty_client] ! k) \<noteq> []"
  then have "k \<noteq> i" "j \<noteq> i" by auto
  then show "k = j" using ok kj registry_ok_same_id [of rs k j] by simp
next
  fix k
  assume "registry_ok rs" "k < length (rs[i := empty_client])"
  then show "rs[i := empty_client] ! k = empty_client \<or> live k (rs[i := empty_client] ! k)"
    using registry_ok_slot [of rs k] by (cases "k = i") simp_all
qed (simp add: registry_ok_length)

lemma registry_ok_set:
  assumes "registry_ok rs" "i < length rs" "live i e"
    and "\<And>j. j < length rs \<Longrightarrow> j \<noteq> i \<Longrightarrow> id_of (rs ! j) \<noteq> id_of e"
  shows "registry_ok (rs[i := e])"
proof (rule registry_okI)
  fix k j
  assume "k < length (rs[i := e])" "j < length (rs[i := e])"
    "id_of (rs[i := e] ! k) = id_of (rs[i := e] ! j)" "id_of (rs[i := e] ! k) \<noteq> []"
  then show "k = j"
    using assms(1,2) assms(4) [of j] assms(4) [of k] registry_ok_same_id [of rs k j]
    by (cases "k = i"; cases "j = i") auto
next
  fix k
  assume "k < length (rs[i := e])"
  then show "rs[i := e] ! k = empty_client \<or> live k (rs[i := e] ! k)"
    using assms(1,3) registry_ok_slot [of rs k] by (cases "k = i") simp_all
qed (use assms(1) in \<open>simp add: registry_ok_length\<close>)

lemma registry_ok_append:
  assumes "registry_ok rs" "length rs < 65536" "live (length rs) e" "id_of e \<notin> id_of ` set rs"
  shows "registry_ok (rs @ [e])"
proof (rule registry_okI)
  have new: "id_of (rs ! k) \<noteq> id_of e" if "k < length rs" for k
    using assms(4) that by (metis image_eqI nth_mem)
  fix k j
  assume "k < length (rs @ [e])" "j < length (rs @ [e])"
    "id_of ((rs @ [e]) ! k) = id_of ((rs @ [e]) ! j)" "id_of ((rs @ [e]) ! k) \<noteq> []"
  then show "k = j"
    using assms(1) new [of k] new [of j] registry_ok_same_id [of rs k j]
    by (cases "k = length rs"; cases "j = length rs") (auto simp: nth_append)
next
  fix k
  assume "k < length (rs @ [e])"
  then show "(rs @ [e]) ! k = empty_client \<or> live k ((rs @ [e]) ! k)"
    using assms(1,3) registry_ok_slot [of rs k] by (cases "k = length rs") (auto simp: nth_append)
qed (use assms(2) in simp)

lemma distinct_filter_nth:
  assumes "\<And>i j. i < length xs \<Longrightarrow> j < length xs \<Longrightarrow> xs ! i = xs ! j \<Longrightarrow> P (xs ! i) \<Longrightarrow> i = j"
  shows "distinct (filter P xs)"
  using assms
proof (induction xs)
  case (Cons x xs)
  have "distinct (filter P xs)"
  proof (rule Cons.IH)
    fix i j
    assume "i < length xs" "j < length xs" "xs ! i = xs ! j" "P (xs ! i)"
    then show "i = j" using Cons.prems [of "Suc i" "Suc j"] by simp
  qed
  moreover have "x \<notin> set xs" if "P x"
  proof
    assume "x \<in> set xs"
    then obtain j where "j < length xs" "xs ! j = x" by (auto simp: in_set_conv_nth)
    then show False using Cons.prems [of 0 "Suc j"] that by simp
  qed
  ultimately show ?case by simp
qed simp

lemma registry_ok_distinct: "registry_ok rs \<Longrightarrow> distinct (filter (\<lambda>c. c \<noteq> []) (map id_of rs))"
  by (rule distinct_filter_nth) (simp add: registry_ok_same_id)

section \<open>Framed operations keep it\<close>

lemma reg_same: "reg s rs \<Longrightarrow> same_client s t \<Longrightarrow> reg t rs"
  by (simp add: reg_def client.holds_def same_client_def)

lemma coupled_same: "coupled s rs \<Longrightarrow> same_client s t \<Longrightarrow> coupled t rs"
  by (simp add: coupled_def same_client_def)

lemma reg_present: "reg s rs \<Longrightarrow> registry_present s"
  by (simp add: reg_def client.holds_def registry_present_def)

definition leads :: "('s \<Rightarrow> bool) \<Rightarrow> ('s, 'a) state \<Rightarrow> ('s \<Rightarrow> bool) \<Rightarrow> bool" where
  "leads P m Q \<longleftrightarrow> (\<forall>s. P s \<longrightarrow> Q (snd (run_state m s)))"

named_theorems leads_rules "rules for what a computation establishes"

lemma leadsI: "(\<And>s. P s \<Longrightarrow> Q (snd (run_state m s))) \<Longrightarrow> leads P m Q"
  by (simp add: leads_def)

lemma leadsD: "leads P m Q \<Longrightarrow> P s \<Longrightarrow> Q (snd (run_state m s))"
  by (simp add: leads_def)

lemma leads_bind [leads_rules]: "leads P m Q \<Longrightarrow> (\<And>a. leads Q (f a) R) \<Longrightarrow>
    leads P (State_Monad.bind m f) R"
  by (auto simp: leads_def split_beta)

lemma leads_return [leads_rules]: "leads P (ret a) P"
  by (simp add: leads_def State_Monad.return_def)

lemma leads_if [leads_rules]: "leads P m R \<Longrightarrow> leads P n R \<Longrightarrow> leads P (if b then m else n) R"
  by simp

lemma leads_if_cond: "(b \<Longrightarrow> leads P m R) \<Longrightarrow> (\<not> b \<Longrightarrow> leads P n R) \<Longrightarrow>
    leads P (if b then m else n) R"
  by simp

lemma leads_let [leads_rules]: "leads P (f x) R \<Longrightarrow> leads P (let y = x in f y) R"
  by simp

lemma leads_option [leads_rules]: "leads P m R \<Longrightarrow> (\<And>x. leads P (f x) R) \<Longrightarrow>
    leads P (case y of None \<Rightarrow> m | Some x \<Rightarrow> f x) R"
  by (cases y) simp_all

lemma leads_prod [leads_rules]: "(\<And>x y. leads P (f x y) R) \<Longrightarrow>
    leads P (case p of (x, y) \<Rightarrow> f x y) R"
  by (cases p) simp

lemma leads_weaken: "leads P m Q \<Longrightarrow> (\<And>s. P' s \<Longrightarrow> P s) \<Longrightarrow> (\<And>s. Q s \<Longrightarrow> Q' s) \<Longrightarrow> leads P' m Q'"
  by (simp add: leads_def)

lemma leads_framed:
  assumes "frame m" "\<And>s t. P s \<Longrightarrow> same_client s t \<Longrightarrow> P t" "\<And>s. P s \<Longrightarrow> registry_present s"
  shows "leads P m P"
  using assms by (auto simp: leads_def frame_def)

lemma leads_frame:
  "frame m \<Longrightarrow> leads in_transaction m in_transaction" "frame m \<Longrightarrow> leads between m between"
  "frame m \<Longrightarrow> leads (may_add cid) m (may_add cid)"
  "frame m \<Longrightarrow> leads registry_inv m registry_inv"
proof -
  show "frame m \<Longrightarrow> leads in_transaction m in_transaction"
    by (rule leads_framed) (auto simp: in_transaction_def dest: reg_same coupled_same reg_present)
  show "frame m \<Longrightarrow> leads between m between"
    by (rule leads_framed)
      (auto simp: between_def registry_inv_def dest: reg_same reg_present simp: same_client_def)
  show "frame m \<Longrightarrow> leads registry_inv m registry_inv"
    by (rule leads_framed) (auto simp: registry_inv_def dest: reg_same reg_present)
  show "frame m \<Longrightarrow> leads (may_add cid) m (may_add cid)"
  proof (rule leads_framed)
    fix s t :: "'a persistent_scheme"
    assume "may_add cid s" and st: "same_client s t"
    then obtain rs where "reg s rs" "coupled s rs" and rest: "length rs < 65536"
      "transaction_started s \<and> not_in_client_registry s \<and> \<not> error s \<longrightarrow> cid \<notin> id_of ` set rs"
      by (auto simp: may_add_def)
    then have "reg t rs" "coupled t rs" using st reg_same coupled_same by blast+
    moreover have "transaction_started t \<and> not_in_client_registry t \<and> \<not> error t \<longrightarrow>
        cid \<notin> id_of ` set rs"
      using rest(2) st by (auto simp: same_client_def)
    ultimately show "may_add cid t" using rest(1) unfolding may_add_def by blast
  qed (auto simp: may_add_def dest: reg_present)
qed

section \<open>The registry file\<close>

lemma reg_find:
  assumes "reg s rs"
  shows "run_state (find_client P) s =
    (rec_loop (\<lambda>e n a. if length (id_of e) < MAXIMUM_CLIENT_ID_LENGTH \<and> P e then Inl (e, n)
       else Inr a) rs 0 (), s)"
proof -
  have h: "client.holds s client_registry rs" using assms by (simp add: reg_def)
  show ?thesis
    by (simp add: find_client_def FILE_READ_def id_of_def client.holds_open [OF h]
        client.holds_loop [OF h])
qed

lemma reg_find_cases:
  assumes "reg s rs"
  obtains (found) i where "i < length rs" "P (rs ! i)"
      "length (id_of (rs ! i)) < MAXIMUM_CLIENT_ID_LENGTH"
      "run_state (find_client P) s = (Returned (rs ! i, of_nat i), s)"
  | (none) "\<And>i. i < length rs \<Longrightarrow> length (id_of (rs ! i)) < MAXIMUM_CLIENT_ID_LENGTH \<Longrightarrow>
        \<not> P (rs ! i)"
      "run_state (find_client P) s = (Done (of_nat (length rs) + 1) [] (), s)"
proof (cases rule: rec_loop_find_cases [of rs
    "\<lambda>e. length (id_of e) < MAXIMUM_CLIENT_ID_LENGTH \<and> P e" "\<lambda>e n. (e, n)" "0 :: u32" "()"])
  case (found i)
  then show ?thesis using that(1) [of i] reg_find [OF assms, of P] by simp
next
  case none
  then show ?thesis using that(2) reg_find [OF assms, of P] by simp
qed

lemma reg_write:
  assumes "reg s rs" "i \<le> length rs" "wf_client e" "i < 65536" "entry s = e"
    and "registry_ok (if i < length rs then rs[i := e] else rs @ [e])"
  shows "\<exists>t. run_state (write_entry (int i)) s = ((), t) \<and>
    reg t (if i < length rs then rs[i := e] else rs @ [e]) \<and> entry t = entry s \<and>
    transaction_started t = transaction_started s \<and>
    not_in_client_registry t = not_in_client_registry s \<and> error t = error s"
proof -
  let ?rs = "if i < length rs then rs[i := e] else rs @ [e]"
  let ?t = "set_file (path_in s client_registry) (client.file_of ?rs) s"
  have h: "client.holds s client_registry rs" using assms by (simp add: reg_def)
  have "i * sizeof_entry_client < 2 ^ 32" using assms(4) by (simp add: sizeof_entry_client_def)
  note w = client.holds_write [OF h assms(3,2) this]
  have "run_state (write_entry (int i)) s = ((), ?t)"
    unfolding write_entry_def run_bind run_get prod.case assms(5) by (rule w(1))
  moreover have "reg ?t ?rs" unfolding reg_def using w(2) assms(6) by (rule conjI)
  moreover have "entry ?t = entry s" "transaction_started ?t = transaction_started s"
    "not_in_client_registry ?t = not_in_client_registry s" "error ?t = error s"
    by (simp_all add: set_file_def)
  ultimately show ?thesis by blast
qed

end
