(* ===== verification/Transactions.thy ===== *)
theory Transactions
  imports Registry
begin

text \<open>
  The operations that open and close a transaction or change the registry, and what they
  establish of the invariant of theory \<open>Registry\<close>.
\<close>

lemma between_registry: "between s \<Longrightarrow> registry_inv s"
  by (simp add: between_def)

lemma between_in_transaction: "between s \<Longrightarrow> in_transaction s"
  by (auto simp: between_def registry_inv_def in_transaction_def coupled_def)

lemma in_transaction_registry: "in_transaction s \<Longrightarrow> registry_inv s"
  by (auto simp: in_transaction_def registry_inv_def)

lemma may_add_in_transaction: "may_add cid s \<Longrightarrow> in_transaction s"
  by (auto simp: may_add_def in_transaction_def)

text \<open>A change of the members that leaves the files alone.\<close>

lemma reg_members: "files t = files s \<Longrightarrow> rootPath t = rootPath s \<Longrightarrow> reg s rs \<Longrightarrow> reg t rs"
  by (simp add: reg_def client.holds_def path_in_def)

section \<open>Opening and closing\<close>

lemma start_address_reg:
  assumes "reg s rs"
  shows "reg (snd (run_state (start_client_transaction_address a) s)) rs"
proof -
  let ?s = "s\<lparr>transaction_started := True, error := False, not_in_client_registry := False\<rparr>"
  have "reg ?s rs" using assms by (intro reg_members [OF _ _ assms]) simp_all
  note cases = reg_find_cases [OF this, of "\<lambda>e. ec_client_address e = a"]
  show ?thesis
  proof (cases "transaction_started s")
    case True
    then show ?thesis
      using reg_members [OF _ _ assms, of "s\<lparr>error := True\<rparr>"]
      by (simp add: start_client_transaction_address_def set_error_def)
  next
    case False
    show ?thesis
      by (rule cases; rule reg_members [OF _ _ assms])
        (simp_all add: start_client_transaction_address_def False)
  qed
qed

lemma leads_start_registry: "leads registry_inv (start_client_transaction_address a) registry_inv"
  by (rule leadsI) (auto simp: registry_inv_def intro: start_address_reg)

lemma leads_start_address:
  assumes "a \<noteq> empty_address"
  shows "leads between (start_client_transaction_address a) in_transaction"
proof (rule leadsI)
  fix s :: "'a persistent_scheme"
  assume "between s"
  then obtain rs where rs: "reg s rs" and ts: "\<not> transaction_started s"
    by (auto simp: between_def registry_inv_def)
  let ?s = "s\<lparr>transaction_started := True, error := False, not_in_client_registry := False\<rparr>"
  let ?t = "snd (run_state (start_client_transaction_address a) s)"
  have s: "reg ?s rs" by (rule reg_members [OF _ _ rs]) simp_all
  have ok: "registry_ok rs" using rs by (simp add: reg_def)
  have "coupled ?t rs"
    using s
  proof (cases rule: reg_find_cases [where P = "\<lambda>e. ec_client_address e = a"])
    case (found i)
    then have "live i (rs ! i)" using registry_ok_live_address [OF ok] assms by auto
    then show ?thesis
      using found ts by (auto simp: coupled_def start_client_transaction_address_def)
  next
    case none
    then show ?thesis
      using ts by (simp add: coupled_def start_client_transaction_address_def)
  qed
  then show "in_transaction ?t" using start_address_reg [OF rs] by (auto simp: in_transaction_def)
qed

lemma leads_start_id:
  assumes "cstr cid \<noteq> []"
  shows "leads (\<lambda>s. between s \<and> slots s < 65536) (start_client_transaction_id cid)
    (may_add (cstr cid))"
proof (rule leadsI)
  fix s :: "'a persistent_scheme"
  assume *: "between s \<and> slots s < 65536"
  then obtain rs where rs: "reg s rs" and ts: "\<not> transaction_started s"
    by (auto simp: between_def registry_inv_def)
  have len: "length rs < 65536"
    using * rs by (simp add: slots_def reg_def client.holds_def content_def client.length_file_of
        sizeof_entry_client_def)
  let ?s = "s\<lparr>transaction_started := True, error := False, not_in_client_registry := True\<rparr>"
  let ?t = "snd (run_state (start_client_transaction_id cid) s)"
  have s: "reg ?s rs" by (rule reg_members [OF _ _ rs]) simp_all
  have ok: "registry_ok rs" using rs by (simp add: reg_def)
  show "may_add (cstr cid) ?t"
  proof (cases "length (cstr cid) \<ge> MAXIMUM_CLIENT_ID_LENGTH")
    case True
    then have t: "?t = s\<lparr>error := True\<rparr>"
      using ts by (simp add: start_client_transaction_id_def set_error_def)
    have "reg ?t rs" unfolding t by (rule reg_members [OF _ _ rs]) simp_all
    then show ?thesis using ts len unfolding t may_add_def coupled_def by auto
  next
    case False
    show ?thesis
      using s
    proof (cases rule: reg_find_cases [where P = "\<lambda>e. cstr (ec_client_id e) = cstr cid"])
      case (found i)
      then have "live i (rs ! i)" using registry_ok_live [OF ok] assms by (auto simp: id_of_def)
      moreover have t: "?t = ?s\<lparr>entry := rs ! i, not_in_client_registry := False\<rparr>"
        using found False ts by (simp add: start_client_transaction_id_def)
      moreover have "reg ?t rs" unfolding t by (rule reg_members [OF _ _ rs]) simp_all
      ultimately show ?thesis
        using found(1) len by (auto simp: may_add_def coupled_def)
    next
      case none
      have t: "?t = ?s\<lparr>entry := dec_client (padz sizeof_entry_client [])\<rparr>"
        using none False ts by (simp add: start_client_transaction_id_def)
      have "cstr cid \<notin> id_of ` set rs"
      proof
        assume "cstr cid \<in> id_of ` set rs"
        then obtain i where "i < length rs" "id_of (rs ! i) = cstr cid"
          by (auto simp: in_set_conv_nth)
        then show False using none(1) [of i] False by (simp add: id_of_def)
      qed
      moreover have "reg ?t rs" unfolding t by (rule reg_members [OF _ _ rs]) simp_all
      ultimately show ?thesis using len unfolding t may_add_def coupled_def by auto
    qed
  qed
qed

lemma apply_transaction_state: "snd (run_state apply_transaction s) =
    s\<lparr>error := False, transaction_started := False, not_in_client_registry := False\<rparr>"
  by (simp add: apply_transaction_def State_Monad.return_def)

lemma leads_apply: "leads registry_inv apply_transaction between"
proof (rule leadsI)
  fix s :: "'a persistent_scheme"
  assume "registry_inv s"
  then obtain rs where rs: "reg s rs" by (auto simp: registry_inv_def)
  have "reg (s\<lparr>error := False, transaction_started := False, not_in_client_registry := False\<rparr>) rs"
    by (rule reg_members [OF _ _ rs]) simp_all
  then show "between (snd (run_state apply_transaction s))"
    unfolding apply_transaction_state between_def registry_inv_def by auto
qed

lemma leads_apply_in: "leads in_transaction apply_transaction between"
  "leads (may_add cid) apply_transaction between"
  by (rule leads_weaken [OF leads_apply]; auto dest: in_transaction_registry may_add_in_transaction)+

section \<open>Changing the entry of the current client\<close>

definition keeps_key :: "(entry_client \<Rightarrow> entry_client) \<Rightarrow> bool" where
  "keeps_key f \<longleftrightarrow> (\<forall>e. ec_client_id (f e) = ec_client_id e \<and>
     ec_client_address (f e) = ec_client_address e \<and> ec_file_number (f e) = ec_file_number e)"

lemma live_keeps_key: "keeps_key f \<Longrightarrow> live i (f e) \<longleftrightarrow> live i e"
  by (simp add: keeps_key_def live_def id_of_def wf_client_def)

lemma id_of_keeps_key: "keeps_key f \<Longrightarrow> id_of (f e) = id_of e"
  by (simp add: keeps_key_def id_of_def)

lemma file_number_live: "live i e \<Longrightarrow> i < 65536 \<Longrightarrow> parse_file_number_to_int e = int i"
proof -
  assume "live i e" "i < 65536"
  then have "ec_file_number e = fmt08 i @ [0]" by (simp add: live_def padz_eq)
  moreover have "atoi (fmt08 i @ [0]) = atoi (fmt08 i)"
    by (metis atoi_cstr cstr_append_zero no_nul_fmt08)
  ultimately show ?thesis using \<open>i < 65536\<close> by (simp add: parse_file_number_to_int_def atoi_fmt08)
qed

lemma leads_update_entry:
  assumes key: "keeps_key f"
  shows "leads in_transaction (update_entry f) in_transaction"
proof (rule leadsI)
  fix s :: "'a persistent_scheme"
  assume in_s: "in_transaction s"
  let ?t = "snd (run_state (update_entry f) s)"
  show "in_transaction ?t"
  proof (cases "no_client s")
    case True
    then have "?t = s"
      by (auto simp: update_entry_def no_client_def State_Monad.return_def)
    with in_s show ?thesis by simp
  next
    case False
    obtain rs where rs: "reg s rs" "coupled s rs" using in_s by (auto simp: in_transaction_def)
    have ts: "transaction_started s" "\<not> not_in_client_registry s"
      using False by (auto simp: no_client_def no_transaction_def)
    obtain i where i: "i < length rs" "rs ! i = entry s" "live i (entry s)"
      using rs(2) ts by (auto simp: coupled_def)
    have ok: "registry_ok rs" using rs by (simp add: reg_def)
    let ?e = "f (entry s)" and ?s = "s\<lparr>entry := f (entry s)\<rparr>"
    have live: "live i ?e" using i(3) key by (simp add: live_keeps_key)
    have i16: "i < 65536" using i(1) registry_ok_length [OF ok] by simp
    have other: "id_of (rs ! j) \<noteq> id_of ?e" if "j < length rs" "j \<noteq> i" for j
      using registry_ok_same_id [OF ok, of i j] that i live
      by (auto simp: id_of_keeps_key [OF key] live_def)
    have "registry_ok (rs[i := ?e])" by (rule registry_ok_set [OF ok i(1) live other])
    moreover have "reg ?s rs" by (rule reg_members [OF _ _ rs(1)]) simp_all
    ultimately obtain t where t: "run_state (write_entry (int i)) ?s = ((), t)" "reg t (rs[i := ?e])"
        "entry t = ?e"
      using reg_write [of ?s rs i ?e] i(1) i16 live live_wf by auto
    have "?t = t"
      using t(1) False file_number_live [OF live i16]
      by (simp add: update_entry_def no_client_def)
    moreover have "coupled t (rs[i := ?e])"
      using i(1) live t(3) by (auto simp: coupled_def intro: exI [of _ i])
    ultimately show ?thesis using t(2) by (auto simp: in_transaction_def)
  qed
qed

lemma leads_setters: "leads in_transaction (set_client_await_message m) in_transaction"
  "leads in_transaction (set_timeout t) in_transaction"
  "leads in_transaction (set_client_state st) in_transaction"
  "leads in_transaction (set_client_await_msg_id i) in_transaction"
  unfolding set_client_await_message_def set_timeout_def set_client_state_def
    set_client_await_msg_id_def
  by (rule leads_update_entry, simp add: keeps_key_def)+

section \<open>Resetting, deleting and adding a client\<close>

text \<open>The state after the last step of an operation that has written its entry.\<close>

lemma coupled_members: "coupled s rs \<Longrightarrow> entry t = entry s \<Longrightarrow>
    transaction_started t = transaction_started s \<Longrightarrow>
    not_in_client_registry t = not_in_client_registry s \<Longrightarrow> coupled t rs"
  by (simp add: coupled_def)

lemma in_transaction_error: "in_transaction s \<Longrightarrow> in_transaction (s\<lparr>error := True\<rparr>)"
  using reg_members [of "s\<lparr>error := True\<rparr>" s] by (auto simp: in_transaction_def coupled_def)

lemma in_transaction_no_client:
  "reg s rs \<Longrightarrow> in_transaction (s\<lparr>entry := e, error := b, not_in_client_registry := True\<rparr>)"
  "reg s rs \<Longrightarrow> in_transaction (s\<lparr>entry := e, not_in_client_registry := True\<rparr>)"
  using reg_members [of "s\<lparr>entry := e, error := b, not_in_client_registry := True\<rparr>" s rs]
    reg_members [of "s\<lparr>entry := e, not_in_client_registry := True\<rparr>" s rs]
  by (auto simp: in_transaction_def coupled_def)

lemma leads_reset_client:
  assumes a: "a \<noteq> empty_address" "length a = 6" and cid: "cstr cid \<noteq> []"
  shows "leads in_transaction (reset_client cid a d) in_transaction"
proof (rule leadsI)
  fix s :: "'a persistent_scheme"
  assume in_s: "in_transaction s"
  let ?t = "snd (run_state (reset_client cid a d) s)"
  obtain rs where rs: "reg s rs" using in_s by (auto simp: in_transaction_def)
  have ok: "registry_ok rs" using rs by (simp add: reg_def)
  show "in_transaction ?t"
  proof (cases "no_transaction s \<or> not_in_client_registry s \<or>
      length (cstr cid) \<ge> MAXIMUM_CLIENT_ID_LENGTH \<or> cstr (ec_client_id (entry s)) \<noteq> cstr cid")
    case True
    then have "?t = s \<or> ?t = s\<lparr>error := True\<rparr>"
      by (auto simp: reset_client_def set_error_def State_Monad.return_def)
    then show ?thesis using in_s in_transaction_error by metis
  next
    case go: False
    from rs show ?thesis
    proof (cases rule: reg_find_cases [where P = "\<lambda>e. cstr (ec_client_id e) = cstr cid"])
      case (found i)
      let ?e = "(rs ! i)\<lparr>ec_client_address := a, ec_client_id := padz 24 (cstr cid),
        ec_duration := d, ec_timeout := 0, ec_client_status := ACTIVE, ec_await_message_id := 0,
        ec_await_message := MQTTSN_PINGREQ\<rparr>"
      have short: "length (cstr cid) < 24" using go by (simp add: MAXIMUM_CLIENT_ID_LENGTH_def)
      have old: "live i (rs ! i)"
        using registry_ok_live [OF ok found(1)] found(2) cid by (simp add: id_of_def)
      have id: "id_of ?e = cstr cid" "id_of (rs ! i) = cstr cid"
        using short found(2) by (simp_all add: id_of_def cstr_no_nul)
      have live: "live i ?e"
        using old a id cid short by (simp add: live_def wf_client_def MAXIMUM_CLIENT_ID_LENGTH_def)
      have i16: "i < 65536" using found(1) registry_ok_length [OF ok] by simp
      have other: "id_of (rs ! j) \<noteq> id_of ?e" if "j < length rs" "j \<noteq> i" for j
        using registry_ok_same_id [OF ok, of i j] that id found(1) cid by auto
      have "registry_ok (rs[i := ?e])" by (rule registry_ok_set [OF ok found(1) live other])
      moreover have "reg (s\<lparr>entry := ?e\<rparr>) rs" by (rule reg_members [OF _ _ rs]) simp_all
      ultimately obtain t where t: "run_state (write_entry (int i)) (s\<lparr>entry := ?e\<rparr>) = ((), t)"
          "reg t (rs[i := ?e])" "entry t = ?e"
        using reg_write [of "s\<lparr>entry := ?e\<rparr>" rs i ?e] found(1) i16 live live_wf by auto
      have "uint (of_nat i :: u32) = int i"
        using i16 by (simp add: uint_nat unat_of_nat)
      then have "?t = t\<lparr>not_in_client_registry := False\<rparr>"
        using t(1) go found(4) by (simp add: reset_client_def)
      moreover have "reg (t\<lparr>not_in_client_registry := False\<rparr>) (rs[i := ?e])"
        by (rule reg_members [OF _ _ t(2)]) simp_all
      moreover have "coupled (t\<lparr>not_in_client_registry := False\<rparr>) (rs[i := ?e])"
        using found(1) live t(3) by (auto simp: coupled_def intro: exI [of _ i])
      ultimately show ?thesis by (auto simp: in_transaction_def)
    next
      case none
      then have "?t = s\<lparr>entry := dec_client (padz sizeof_entry_client []), error := True,
          not_in_client_registry := True\<rparr>"
        using go by (simp add: reset_client_def)
      then show ?thesis using in_transaction_no_client(1) [OF rs] by simp
    qed
  qed
qed

text \<open>
  \<open>delete_client\<close> runs the same steps whichever client id it is given; when it clears an entry,
  no entry with this id is left.
\<close>

lemma delete_client_steps:
  fixes s :: "'z persistent_scheme"
  assumes "reg s rs" "\<not> no_transaction s" "\<not> not_in_client_registry s"
    "length (cstr cid) < MAXIMUM_CLIENT_ID_LENGTH"
  shows "\<exists>u. same_client s u \<and>
    (snd (run_state (delete_client cid) s) = u\<lparr>error := True\<rparr> \<or>
     (\<exists>i < length rs. id_of (rs ! i) = cstr cid \<and>
       (\<exists>t. run_state (write_entry (int i)) (u\<lparr>entry := empty_client\<rparr>) = ((), t) \<and>
         snd (run_state (delete_client cid) s) = t\<lparr>not_in_client_registry := True\<rparr>)) \<or>
     ((\<forall>i < length rs. id_of (rs ! i) \<noteq> cstr cid) \<and>
       (\<exists>e. snd (run_state (delete_client cid) s) = u\<lparr>entry := e, not_in_client_registry := True\<rparr>)))"
proof -
  define pre :: "('z persistent_scheme, unit) state" where "pre = do {
    delete_file (client_file (entry s) REGISTRATION_FILE_ENDING);
    delete_file (client_file (entry s) SUBSCRIBE_FILE_ENDING);
    delete_file (client_file (entry s) WILL_FILE_ENDING);
    delete_file (client_file (entry s) PUBLISH_FILE_ENDING)}"
  obtain n s1 where c: "run_state get_client_subscription_count s = (n, s1)" by fastforce
  have s1: "same_client s s1" using frameD [OF frame_subscriptions(6) reg_present [OF assms(1)] c] .
  show ?thesis
  proof (cases "n > 0")
    case True
    then have "snd (run_state (delete_client cid) s) = s1\<lparr>error := True\<rparr>"
      using assms c by (simp add: delete_client_def set_error_def)
    then show ?thesis using s1 by blast
  next
    case False
    obtain a u where u: "run_state pre s1 = (a, u)" by (cases "run_state pre s1")
    have pre: "frame pre" unfolding pre_def
      by (intro frame_intros frame_delete_file client_file_last client_file_nonempty)
    have su: "same_client s u"
      using frameD [OF pre same_client_present [OF s1 reg_present [OF assms(1)]] u] s1
      by (rule same_client_trans [rotated])
    have ru: "reg u rs" using reg_same [OF assms(1) su] .
    have run: "run_state (delete_client cid) s = run_state (do {
        r \<leftarrow> find_client (\<lambda>e. cstr (ec_client_id e) = cstr cid);
        case r of
          Returned (e, line_number) \<Rightarrow> do {
            modify (\<lambda>s. s\<lparr>entry := empty_client\<rparr>);
            write_entry (uint line_number);
            modify (\<lambda>s. s\<lparr>not_in_client_registry := True\<rparr>)
          }
        | Done n rest a \<Rightarrow>
            modify (\<lambda>s. s\<lparr>entry := dec_client (padz sizeof_entry_client rest),
                          not_in_client_registry := True\<rparr>)
      }) u"
      using assms c False u by (simp add: delete_client_def pre_def split_beta)
    from ru show ?thesis
    proof (cases rule: reg_find_cases [where P = "\<lambda>e. cstr (ec_client_id e) = cstr cid"])
      case (found i)
      have "registry_ok rs" using ru by (simp add: reg_def)
      then have "uint (of_nat i :: u32) = int i"
        using found(1) registry_ok_length [of rs] by (simp add: uint_nat unat_of_nat)
      moreover obtain t where
        "run_state (write_entry (int i)) (u\<lparr>entry := empty_client\<rparr>) = ((), t)"
        by (cases "run_state (write_entry (int i)) (u\<lparr>entry := empty_client\<rparr>)") auto
      ultimately show ?thesis
        using su found run by (intro exI [of _ u]) (auto simp: id_of_def)
    next
      case none
      have "id_of (rs ! i) \<noteq> cstr cid" if "i < length rs" for i
        using none(1) [OF that] assms(4) by (auto simp: id_of_def)
      then show ?thesis using su none(2) run by (intro exI [of _ u]) auto
    qed
  qed
qed

text \<open>The registry and the transaction after \<open>delete_client\<close>.\<close>

lemma delete_client_reg:
  fixes cid :: bytes
  assumes rs: "reg s rs" "coupled s rs"
  defines "t \<equiv> snd (run_state (delete_client cid) s)"
  shows "\<exists>qs. reg t qs \<and> coupled t qs \<and> length qs = length rs \<and>
    (transaction_started s \<and> not_in_client_registry s \<and> \<not> error s \<longrightarrow> t = s) \<and>
    (t \<noteq> s \<longrightarrow> error t \<or> cstr cid = [] \<or> cstr cid \<notin> id_of ` set qs)"
proof (cases "no_transaction s \<or> not_in_client_registry s \<or>
    length (cstr cid) \<ge> MAXIMUM_CLIENT_ID_LENGTH")
  case True
  then have "t = s \<or> t = s\<lparr>error := True\<rparr> \<and> \<not> not_in_client_registry s"
    by (auto simp: t_def delete_client_def set_error_def State_Monad.return_def)
  moreover have "reg (s\<lparr>error := True\<rparr>) rs" by (rule reg_members [OF _ _ rs(1)]) simp_all
  ultimately show ?thesis
    using rs coupled_members [of s rs "s\<lparr>error := True\<rparr>"] by (intro exI [of _ rs]) auto
next
  case False
  then have "\<not> no_transaction s" "\<not> not_in_client_registry s"
    "length (cstr cid) < MAXIMUM_CLIENT_ID_LENGTH" by auto
  note go = this
  obtain u where u: "same_client s u" and alt: "t = u\<lparr>error := True\<rparr> \<or>
     (\<exists>i < length rs. id_of (rs ! i) = cstr cid \<and>
       (\<exists>v. run_state (write_entry (int i)) (u\<lparr>entry := empty_client\<rparr>) = ((), v) \<and>
         t = v\<lparr>not_in_client_registry := True\<rparr>)) \<or>
     ((\<forall>i < length rs. id_of (rs ! i) \<noteq> cstr cid) \<and>
       (\<exists>e. t = u\<lparr>entry := e, not_in_client_registry := True\<rparr>))"
    using delete_client_steps [OF rs(1) go] unfolding t_def by blast
  have ru: "reg u rs" "coupled u rs" using rs u reg_same coupled_same by blast+
  have ok: "registry_ok rs" using rs by (simp add: reg_def)
  from alt consider (err) "t = u\<lparr>error := True\<rparr>"
    | (cleared) i v where "i < length rs" "id_of (rs ! i) = cstr cid"
        "run_state (write_entry (int i)) (u\<lparr>entry := empty_client\<rparr>) = ((), v)"
        "t = v\<lparr>not_in_client_registry := True\<rparr>"
    | (absent) e where "\<forall>i < length rs. id_of (rs ! i) \<noteq> cstr cid"
        "t = u\<lparr>entry := e, not_in_client_registry := True\<rparr>"
    by blast
  then show ?thesis
  proof cases
    case err
    have "reg t rs" unfolding err by (rule reg_members [OF _ _ ru(1)]) simp_all
    moreover have "coupled t rs" unfolding err by (rule coupled_members [OF ru(2)]) simp_all
    ultimately show ?thesis using go err by (intro exI [of _ rs]) auto
  next
    case cleared
    let ?qs = "rs[i := empty_client]"
    have "reg (u\<lparr>entry := empty_client\<rparr>) rs" by (rule reg_members [OF _ _ ru(1)]) simp_all
    moreover have "i < 65536" using cleared(1) registry_ok_length [OF ok] by simp
    ultimately have "reg v ?qs"
      using reg_write [of "u\<lparr>entry := empty_client\<rparr>" rs i empty_client] cleared(1,3)
        registry_ok_clear [OF ok] by auto
    then have "reg t ?qs" unfolding cleared(4) by (rule reg_members [rotated 2]) simp_all
    moreover have "coupled t ?qs" unfolding cleared(4) by (simp add: coupled_def)
    moreover have "cstr cid = [] \<or> cstr cid \<notin> id_of ` set ?qs"
    proof (rule disjCI)
      assume "\<not> cstr cid \<notin> id_of ` set ?qs"
      then obtain j where j: "j < length rs" "id_of (?qs ! j) = cstr cid"
        by (auto simp: in_set_conv_nth)
      show "cstr cid = []"
      proof (cases "j = i")
        case False
        then show ?thesis
          using j cleared(2) registry_ok_same_id [OF ok cleared(1) j(1)] by auto
      qed (use j in simp)
    qed
    ultimately show ?thesis using go by (intro exI [of _ ?qs]) auto
  next
    case absent
    have "reg t rs" unfolding absent(2) by (rule reg_members [OF _ _ ru(1)]) simp_all
    moreover have "coupled t rs" unfolding absent(2) by (simp add: coupled_def)
    moreover have "cstr cid \<notin> id_of ` set rs" using absent(1) by (auto simp: in_set_conv_nth)
    ultimately show ?thesis using go by (intro exI [of _ rs]) auto
  qed
qed

lemma leads_delete_client: "leads in_transaction (delete_client cid) in_transaction"
proof (rule leadsI)
  fix s :: "'a persistent_scheme"
  assume "in_transaction s"
  then obtain rs where "reg s rs" "coupled s rs" by (auto simp: in_transaction_def)
  then show "in_transaction (snd (run_state (delete_client cid) s))"
    using delete_client_reg [of s rs cid] by (auto simp: in_transaction_def)
qed

lemma leads_delete_client_add:
  assumes "cstr cid \<noteq> []"
  shows "leads (may_add (cstr cid)) (delete_client cid) (may_add (cstr cid))"
proof (rule leadsI)
  fix s :: "'a persistent_scheme"
  assume m: "may_add (cstr cid) s"
  then obtain rs where rs: "reg s rs" "coupled s rs" "length rs < 65536" by (auto simp: may_add_def)
  let ?t = "snd (run_state (delete_client cid) s)"
  obtain qs where "reg ?t qs" "coupled ?t qs" "length qs = length rs"
    and "?t \<noteq> s \<longrightarrow> error ?t \<or> cstr cid \<notin> id_of ` set qs"
    using delete_client_reg [OF rs(1,2), of cid] assms by auto
  then show "may_add (cstr cid) ?t" using m rs(3) by (cases "?t = s") (auto simp: may_add_def)
qed

text \<open>The first slot with an empty client id, or the one behind the end.\<close>

fun free_slot :: "entry_client list \<Rightarrow> nat" where
  "free_slot [] = 0"
| "free_slot (e # es) = (if id_of e = [] then 0 else Suc (free_slot es))"

lemma free_slot_le: "free_slot rs \<le> length rs"
  by (induction rs) auto

lemma free_slot_free: "free_slot rs < length rs \<Longrightarrow> id_of (rs ! free_slot rs) = []"
  by (induction rs) (auto split: if_splits)

lemma run_find_empty:
  assumes "client.holds s client_registry rs"
  shows "run_state find_empty_entry_space_in_registry s = (of_nat (free_slot rs), s)"
proof -
  have wf: "list_all wf_client rs" using assms by (simp add: client.holds_def)
  let ?body = "\<lambda>chunk n a. if chunk = [] then Break a
    else if length (cstr (ec_client_id (dec_client (padz sizeof_entry_client chunk)))) = 0
    then Return n else Next a"
  have loop: "chunk_loop ?body (map enc_client qs) n () =
      (if free_slot qs < length qs then Returned (n + of_nat (free_slot qs))
       else Done (n + of_nat (free_slot qs)) [] ())"
    if "list_all wf_client qs" for qs and n :: u16
    using that
  proof (induction qs arbitrary: n)
    case (Cons q qs)
    then have "padz sizeof_entry_client (enc_client q) = enc_client q"
      "dec_client (enc_client q) = q" "enc_client q \<noteq> []"
      using client.length_enc [of q] client.dec_enc [of q] client.size_pos
      by (auto intro: padz_full)
    then show ?case using Cons by (simp add: id_of_def add.assoc)
  qed simp
  show ?thesis
    unfolding find_empty_entry_space_in_registry_def
    using loop [OF wf, of 0]
    by (simp add: client.holds_open [OF assms] client.holds_chunks [OF assms] FILE_READ_def
        State_Monad.return_def)
qed

lemma find_empty_slot:
  assumes "reg s rs" "length rs < 65536"
  obtains i where "run_state find_empty_entry_space_in_registry s = (of_nat i, s)" "i \<le> length rs"
    "i < length rs \<longrightarrow> id_of (rs ! i) = []"
proof -
  have "client.holds s client_registry rs" using assms by (simp add: reg_def)
  from run_find_empty [OF this] that show ?thesis using free_slot_le free_slot_free by blast
qed

lemma leads_add_client:
  assumes a: "a \<noteq> empty_address" "length a = 6" and cid: "cstr cid \<noteq> []"
  shows "leads (may_add (cstr cid)) (add_client cid a d) in_transaction"
proof (rule leadsI)
  fix s :: "'a persistent_scheme"
  assume m: "may_add (cstr cid) s"
  let ?t = "snd (run_state (add_client cid a d) s)"
  obtain rs where rs: "reg s rs" "length rs < 65536"
    and new: "transaction_started s \<and> not_in_client_registry s \<and> \<not> error s \<longrightarrow>
      cstr cid \<notin> id_of ` set rs"
    using m by (auto simp: may_add_def)
  have ok: "registry_ok rs" using rs by (simp add: reg_def)
  have in_s: "in_transaction s" using m by (rule may_add_in_transaction)
  show "in_transaction ?t"
  proof (cases "\<not> transaction_started s \<or> error s \<or> \<not> not_in_client_registry s \<or>
      length (cstr cid) \<ge> MAXIMUM_CLIENT_ID_LENGTH")
    case True
    then have "?t = s \<or> ?t = s\<lparr>error := True\<rparr>"
      by (auto simp: add_client_def set_error_def State_Monad.return_def)
    then show ?thesis using in_s in_transaction_error by metis
  next
    case go: False
    obtain i where i: "run_state find_empty_entry_space_in_registry s = (of_nat i, s)"
        "i \<le> length rs" "i < length rs \<longrightarrow> id_of (rs ! i) = []"
      by (rule find_empty_slot [OF rs])
    let ?e = "\<lparr>ec_client_id = padz 24 (cstr cid), ec_file_number = padz 9 (fmt08 i),
      ec_client_address = a, ec_client_status = ACTIVE, ec_duration = d, ec_timeout = 0,
      ec_await_message_id = 0, ec_await_message = MQTTSN_PINGREQ\<rparr>"
    let ?qs = "if i < length rs then rs[i := ?e] else rs @ [?e]"
    have i16: "i < 65536" using i(2) rs(2) by simp
    then have u: "unat (of_nat i :: u16) = i" "uint (of_nat i :: u16) = int i"
      by (simp_all add: unat_of_nat uint_nat)
    have short: "length (cstr cid) < 24" using go by (simp add: MAXIMUM_CLIENT_ID_LENGTH_def)
    then have id: "id_of ?e = cstr cid" by (simp add: id_of_def cstr_no_nul)
    have live: "live i ?e"
      using a id cid short by (simp add: live_def wf_client_def MAXIMUM_CLIENT_ID_LENGTH_def)
    have fresh: "cstr cid \<notin> id_of ` set rs" using new go by auto
    have okq: "registry_ok ?qs"
    proof (cases "i < length rs")
      case True
      have "id_of (rs ! j) \<noteq> id_of ?e" if "j < length rs" "j \<noteq> i" for j
        using fresh that id by (metis image_eqI nth_mem)
      then show ?thesis using registry_ok_set [OF ok True live] True by simp
    next
      case False
      then show ?thesis
        using registry_ok_append [OF ok rs(2), of ?e] live id fresh i(2) by simp
    qed
    define files_made :: "('a persistent_scheme, unit) state" where "files_made = do {
      create_file (client_file ?e REGISTRATION_FILE_ENDING);
      create_file (client_file ?e SUBSCRIBE_FILE_ENDING);
      create_file (client_file ?e WILL_FILE_ENDING);
      create_file (client_file ?e PUBLISH_FILE_ENDING)}"
    have fr: "frame files_made" unfolding files_made_def by (intro frame_intros)
    have s: "reg (s\<lparr>entry := ?e\<rparr>) rs" by (rule reg_members [OF _ _ rs(1)]) simp_all
    obtain x v where v: "run_state files_made (s\<lparr>entry := ?e\<rparr>) = (x, v)"
      by (cases "run_state files_made (s\<lparr>entry := ?e\<rparr>)")
    have sv: "same_client (s\<lparr>entry := ?e\<rparr>) v" by (rule frameD [OF fr reg_present [OF s] v])
    have rv: "reg v rs" "entry v = ?e"
      using reg_same [OF s sv] sv by (simp_all add: same_client_def)
    obtain w where w: "run_state (write_entry (int i)) v = ((), w)" "reg w ?qs" "entry w = ?e"
      using reg_write [OF rv(1) i(2) live_wf [OF live] i16 rv(2) okq] rv(2) by auto
    have "?t = w\<lparr>not_in_client_registry := False\<rparr>"
      using go i(1) w(1) v u by (simp add: add_client_def files_made_def split_beta)
    moreover have "reg (w\<lparr>not_in_client_registry := False\<rparr>) ?qs"
      by (rule reg_members [OF _ _ w(2)]) simp_all
    moreover have "coupled (w\<lparr>not_in_client_registry := False\<rparr>) ?qs"
      using live w(3) i(2) by (auto simp: coupled_def intro: exI [of _ i])
    ultimately show ?thesis by (auto simp: in_transaction_def)
  qed
qed

end
