(* ===== verification/Safety.thy ===== *)
theory Safety
  imports Transactions
begin

text \<open>
  Every operation of the core, every message handler and the main loop keep the registry
  invariant and leave no transaction open.
\<close>

section \<open>Core operations\<close>

lemmas leads_transaction = leads_rules leads_setters leads_apply_in(1)
lemmas leads_framed_between = leads_frame(1,2)

named_theorems core_leads "the core operations lead from between transactions to there"

lemma leads_wills [core_leads]: "a \<noteq> empty_address \<Longrightarrow> leads between (remove_will a) between"
  "a \<noteq> empty_address \<Longrightarrow> leads between (add_will_topic a t r q) between"
  "a \<noteq> empty_address \<Longrightarrow> leads between (add_will_msg a wm wl) between"
  unfolding remove_will_def add_will_topic_def add_will_msg_def
  by (assumption | rule leads_transaction leads_start_address leads_framed_between frame_intros)+

lemma leads_await [core_leads]: "a \<noteq> empty_address \<Longrightarrow> leads between (await_message a ty) between"
  unfolding await_message_def
  by (assumption | rule leads_transaction leads_start_address leads_framed_between frame_intros)+

lemma leads_register [core_leads]: "a \<noteq> empty_address \<Longrightarrow> leads between (register_topic a n t) between"
  unfolding register_topic_def
  by (assumption | rule leads_transaction leads_start_address leads_framed_between frame_intros)+

lemma leads_publish_client [core_leads]:
  "a \<noteq> empty_address \<Longrightarrow> leads between (core_publish_client a dat m t sh r q d) between"
  unfolding core_publish_client_def
  by (assumption | rule leads_transaction leads_start_address leads_framed_between frame_intros)+

lemma leads_add_subscription [core_leads]:
  "a \<noteq> empty_address \<Longrightarrow> leads between (core_add_subscription a t m sh q d nt g) between"
  unfolding core_add_subscription_def
  by (assumption | rule leads_transaction leads_start_address leads_framed_between frame_intros)+

lemma leads_delete_subscription [core_leads]:
  "a \<noteq> empty_address \<Longrightarrow> leads between (core_delete_subscription_id a t m sh d) between"
  "a \<noteq> empty_address \<Longrightarrow> leads between (core_delete_subscription_name a n m d) between"
  unfolding core_delete_subscription_id_def core_delete_subscription_name_def
    finish_delete_subscription_def
  by (assumption | rule leads_transaction leads_start_address leads_framed_between frame_intros)+

lemma leads_states [core_leads]: "a \<noteq> empty_address \<Longrightarrow> leads between (set_disconnected a) between"
  "a \<noteq> empty_address \<Longrightarrow> leads between (set_asleep_duration a du) between"
  "a \<noteq> empty_address \<Longrightarrow> leads between (set_asleep a) between"
  "a \<noteq> empty_address \<Longrightarrow> leads between (set_awake a) between"
  unfolding set_disconnected_def set_asleep_duration_def set_asleep_def set_awake_def
  by (assumption | rule leads_transaction leads_start_address leads_framed_between frame_intros)+

lemma leads_acks [core_leads]:
  "a \<noteq> empty_address \<Longrightarrow> leads between (notify_regack_arrived a t m c) between"
  "a \<noteq> empty_address \<Longrightarrow> leads between (notify_puback_arrived a m t c) between"
  unfolding notify_regack_arrived_def notify_puback_arrived_def
  by (assumption | rule leads_transaction leads_start_address leads_framed_between frame_intros)+

text \<open>Adding a client needs a free slot.\<close>

definition has_room :: "'z persistent_scheme \<Rightarrow> bool" where
  "has_room s \<longleftrightarrow> between s \<and> slots s < 65536"

lemma leads_frame_room: "frame m \<Longrightarrow> leads has_room m has_room"
proof (rule leads_framed)
  fix s t :: "'a persistent_scheme"
  assume st: "has_room s" "same_client s t"
  then have "slots t = slots s" by (simp add: slots_def same_client_def content_def)
  moreover have "between t" using st reg_same by (fastforce simp: has_room_def between_def registry_inv_def same_client_def)
  ultimately show "has_room t" using st by (simp add: has_room_def)
qed (auto simp: has_room_def between_def registry_inv_def dest: reg_present)

lemma leads_room: "leads between m Q \<Longrightarrow> leads has_room m Q"
  by (auto simp: leads_def has_room_def)

lemma leads_core_add_client:
  assumes a: "a \<noteq> empty_address" "length a = 6" and cid: "cstr cid \<noteq> []"
  shows "leads has_room (core_add_client cid du clean a) between"
proof -
  have start: "leads has_room (start_client_transaction_id cid) (may_add (cstr cid))"
    using leads_start_id [OF cid] by (simp add: leads_def has_room_def)
  have reset: "leads (may_add (cstr cid)) (reset_client cid a d) in_transaction" for d :: u32
    using leads_reset_client [OF a cid] may_add_in_transaction by (rule leads_weaken)
  show ?thesis
    unfolding core_add_client_def
    by (rule leads_bind [OF leads_frame_room [OF frame_getters(6)]], rule leads_if,
        rule leads_room, rule leads_return)
      (rule leads_bind [OF start] leads_bind [OF leads_frame(3) [OF frame_getters(1)]]
        leads_bind leads_if reset leads_frame(3) leads_delete_client_add [OF cid]
        leads_add_client [OF a cid] leads_apply_in(1) leads_return frame_intros)+
qed

section \<open>Message handlers\<close>

named_theorems handler_leads "the handlers and parsers lead from between transactions to there"

lemma leads_handlers [handler_leads]:
  "leads between (handle_searchgw a ra) between"
  "a \<noteq> empty_address \<Longrightarrow> leads between (handle_willtopic a t r q) between"
  "a \<noteq> empty_address \<Longrightarrow> leads between (handle_willmsg a wm wl) between"
  "a \<noteq> empty_address \<Longrightarrow> leads between (handle_register a m n) between"
  "a \<noteq> empty_address \<Longrightarrow> leads between (handle_regack a ti m c) between"
  "a \<noteq> empty_address \<Longrightarrow> leads between (handle_publish a dat m ti sh r q d) between"
  "a \<noteq> empty_address \<Longrightarrow> leads between (handle_puback a m ti c) between"
  unfolding handle_searchgw_def handle_willtopic_def handle_willmsg_def handle_register_def
    handle_regack_def handle_publish_def handle_puback_def
  by (assumption | rule leads_rules core_leads leads_framed_between frame_intros)+

lemma leads_subscribe [handler_leads]:
  "a \<noteq> empty_address \<Longrightarrow> leads between (handle_subscribe_id a t m sh q d) between"
  "a \<noteq> empty_address \<Longrightarrow> leads between (handle_subscribe_name a n m q d) between"
  "a \<noteq> empty_address \<Longrightarrow> leads between (handle_unsubscribe_id a t m sh d) between"
  "a \<noteq> empty_address \<Longrightarrow> leads between (handle_unsubscribe_name a n m d) between"
  unfolding handle_subscribe_id_def handle_subscribe_name_def handle_unsubscribe_id_def
    handle_unsubscribe_name_def answer_subscribe_def answer_unsubscribe_def
  by (assumption | rule leads_rules core_leads leads_framed_between frame_intros)+

lemma leads_ping [handler_leads]:
  "leads between (handle_pingreq a) between"
  "a \<noteq> empty_address \<Longrightarrow> leads between (handle_pingreq_id a c) between"
  "a \<noteq> empty_address \<Longrightarrow> leads between (handle_disconnect a) between"
  "a \<noteq> empty_address \<Longrightarrow> leads between (handle_disconnect_duration a du) between"
  unfolding handle_pingreq_def handle_pingreq_id_def handle_disconnect_def
    handle_disconnect_duration_def
  by (assumption | rule leads_rules core_leads leads_framed_between frame_intros)+

lemma leads_parsers:
  assumes a: "a \<noteq> empty_address"
  shows "leads between (parse_pingreq a bs) between" "leads between (parse_searchgw a bs) between"
    "leads between (parse_willtopic a bs) between" "leads between (parse_willmsg a bs) between"
    "leads between (parse_register a bs) between" "leads between (parse_regack a bs) between"
    "leads between (parse_publish a bs) between" "leads between (parse_puback a bs) between"
    "leads between (parse_subscribe a bs) between" "leads between (parse_unsubscribe a bs) between"
    "leads between (parse_disconnect a bs) between"
  unfolding parse_pingreq_def parse_searchgw_def parse_willtopic_def parse_willmsg_def
    parse_register_def parse_regack_def parse_publish_def parse_puback_def parse_subscribe_def
    parse_unsubscribe_def parse_disconnect_def
  by (rule a leads_rules handler_leads)+

lemma leads_connect:
  assumes a: "a \<noteq> empty_address" "length a = 6" and cid: "cstr (drop 6 bs) \<noteq> []"
  shows "leads has_room (parse_connect a bs) between"
proof -
  have "leads has_room (handle_connect a (cstr (drop 6 bs)) du w c) between" for du w c
    unfolding handle_connect_def
    by (rule leads_bind [OF leads_core_add_client [OF a]])
      (simp add: cid cstr_no_nul, (rule a leads_rules core_leads leads_framed_between frame_intros)+)
  then show ?thesis
    unfolding parse_connect_def by (auto intro: leads_room leads_return)
qed

text \<open>The only datagram that can break the invariant: a CONNECT with an empty client id.\<close>

definition anonymous_connect :: "bytes \<Rightarrow> bool" where
  "anonymous_connect bs \<longleftrightarrow> byte_at 1 bs = MQTTSN_CONNECT \<and> cstr (drop 6 bs) = []"

lemma leads_receiveData:
  assumes a: "a \<noteq> empty_address" "length a = 6" and bs: "\<not> anonymous_connect bs"
  shows "leads has_room (receiveData a bs) between"
proof -
  have conn: "byte_at 1 bs = MQTTSN_CONNECT \<Longrightarrow> leads has_room (parse_connect a bs) between"
    using bs by (intro leads_connect a) (simp add: anonymous_connect_def)
  show ?thesis
    unfolding receiveData_def Let_def
    by (intro leads_if_cond; (rule conn, assumption | rule leads_room, rule leads_return
          | rule leads_room, rule leads_parsers [OF a(1)]))
qed

section \<open>The periodic operations\<close>

text \<open>What the walks over the registry read: the entry of a client or a cleared one.\<close>

definition slot_like :: "entry_client \<Rightarrow> bool" where
  "slot_like e \<longleftrightarrow> e = empty_client \<or> (\<exists>i. live i e)"

lemma slot_like_served: "slot_like e \<Longrightarrow> ec_client_status e \<noteq> EMPTY \<Longrightarrow>
    ec_client_address e \<noteq> empty_address"
  by (auto simp: slot_like_def live_def EMPTY_def)

lemma run_get_nth_client:
  assumes "reg s rs" "n * sizeof_entry_client < 2 ^ 32"
  shows "run_state (get_nth_client n) s = (if n < length rs then rs ! n else empty_client, s)"
proof -
  have h: "client.holds s client_registry rs" using assms(1) by (simp add: reg_def)
  note open_file = client.holds_open [OF h, of FILE_READ]
  let ?h = "file_seek \<lparr>full_path = path_in s client_registry, read_mode = FILE_READ, position = 0,
    closed = False\<rparr> (int n * int sizeof_entry_client)"
  have "position ?h = n * sizeof_entry_client"
    using assms(2) by (simp add: file_seek_def flip: of_nat_mult)
  then have chunk: "fst (file_read s ?h sizeof_entry_client) =
      (if n < length rs then enc_client (rs ! n) else [])"
    using client.holds_read [OF h, of ?h n] by (simp add: file_seek_def FILE_READ_def)
  show ?thesis
  proof (cases "n < length rs")
    case True
    then have "wf_client (rs ! n)" using h by (simp add: client.holds_def list_all_length)
    then show ?thesis
      using True chunk client.length_enc client.dec_enc by (simp add: get_nth_client_def open_file)
  next
    case False
    then show ?thesis using chunk
      by (simp add: get_nth_client_def open_file empty_client_def sizeof_entry_client_def)
  qed
qed

lemma get_nth_client_slot:
  assumes "registry_inv s" "n * sizeof_entry_client < 2 ^ 32"
  shows "snd (run_state (get_nth_client n) s) = s" "slot_like (fst (run_state (get_nth_client n) s))"
proof -
  obtain rs where rs: "reg s rs" using assms(1) by (auto simp: registry_inv_def)
  then have "registry_ok rs" by (simp add: reg_def)
  then show "snd (run_state (get_nth_client n) s) = s" "slot_like (fst (run_state (get_nth_client n) s))"
    using run_get_nth_client [OF rs assms(2)] registry_ok_slot [of rs n] by (auto simp: slot_like_def)
qed

lemma leads_client_publishes:
  assumes "status = AWAKE \<or> status = ACTIVE \<Longrightarrow> a \<noteq> empty_address"
  shows "leads between (handle_client_publishes status cid a) between"
  unfolding handle_client_publishes_def
  by (rule leads_if_cond, drule assms)
    (assumption | rule leads_transaction leads_start_address leads_framed_between frame_intros)+

lemma leads_timeout:
  assumes "status = ACTIVE \<or> status = ASLEEP \<or> status = AWAKE \<Longrightarrow> a \<noteq> empty_address"
  shows "leads between (handle_timeout status du el cid a ti) between"
  unfolding handle_timeout_def
  by (rule leads_if_cond, drule assms)
    (assumption | rule leads_transaction leads_delete_client leads_start_address
      leads_framed_between frame_intros)+

text \<open>A transaction that changes nothing but framed state works for every address.\<close>

lemma leads_start_any: "leads between (start_client_transaction_address a) registry_inv"
  using leads_start_registry between_registry by (rule leads_weaken)

lemma leads_receive_for_client:
  "leads between (handle_receive_mqtt_publish_for_client n dat a r) between"
  unfolding handle_receive_mqtt_publish_for_client_def
  by (rule leads_bind [OF leads_start_any])
    (rule leads_rules leads_apply leads_frame(2,4) frame_intros)+

lemma leads_serve_client:
  assumes e: "slot_like e" and served: "\<not> served EMPTY" and answer: "\<And>a. frame (answer a)"
  shows "leads between (serve_client served st answer beaten el e) between"
proof (cases "ec_client_status e = EMPTY")
  case True
  have [simp]: "EMPTY \<noteq> AWAKE" "EMPTY \<noteq> ACTIVE" "EMPTY \<noteq> ASLEEP"
    by (simp_all add: enum_defs)
  have "serve_client served st answer beaten el e = do {
      ret ();
      start_client_transaction_address (ec_client_address e);
      _ \<leftarrow> apply_transaction;
      if beaten then ret () else ret ()
    }"
    unfolding serve_client_def handle_client_publishes_def handle_timeout_def
    using True served by (simp add: Let_def State_Monad.bind_assoc)
  then show ?thesis
    by (simp only:)
      (rule leads_bind leads_return leads_start_any leads_apply leads_if)+
next
  case False
  then have a: "ec_client_address e \<noteq> empty_address" by (rule slot_like_served [OF e])
  show ?thesis
    unfolding serve_client_def Let_def
    by (rule a answer leads_client_publishes leads_timeout leads_transaction leads_start_address
        leads_framed_between frame_intros)+
qed

lemma leads_serve: "slot_like e \<Longrightarrow> leads between (serve_online beaten el e) between"
  "slot_like e \<Longrightarrow> leads between (serve_offline beaten el e) between"
  unfolding serve_online_def serve_offline_def
  by (rule leads_serve_client; simp add: enum_defs frame_messages)+

lemma leads_bind_nth:
  assumes "n < 84000000" "\<And>e. slot_like e \<Longrightarrow> leads between (f e) R"
  shows "leads between (State_Monad.bind (get_nth_client n) f) R"
proof (rule leadsI)
  fix s :: "'a persistent_scheme"
  assume s: "between s"
  have "n * sizeof_entry_client < 2 ^ 32" using assms(1) by (simp add: sizeof_entry_client_def)
  then have "slot_like (fst (run_state (get_nth_client n) s))"
    "snd (run_state (get_nth_client n) s) = s"
    using get_nth_client_slot [of s n] s by (simp_all add: between_def)
  then show "R (snd (run_state (State_Monad.bind (get_nth_client n) f) s))"
    using leadsD [OF assms(2) s] by (simp add: split_beta)
qed

lemma leads_diverge: "leads between diverge between"
  by (rule leads_framed_between frame_intros)+

lemma leads_publish_walk: "i + fuel < 84000000 \<Longrightarrow>
    leads between (publish_walk fuel l n dat r i e) between"
proof (induction fuel arbitrary: i e)
  case (Suc fuel)
  then show ?case
    unfolding publish_walk.simps
    by (intro leads_bind [OF leads_receive_for_client] leads_bind_nth leads_if leads_return) simp_all
qed (simp add: leads_diverge)

lemma leads_online_walk: "i + fuel < 84000000 \<Longrightarrow> slot_like e \<Longrightarrow>
    leads between (online_walk fuel l beaten el i e) between"
proof (induction fuel arbitrary: i e)
  case (Suc fuel)
  then show ?case
    unfolding online_walk.simps
    by (intro leads_bind [OF leads_serve(1)] leads_bind_nth leads_if leads_return leads_serve(1))
      simp_all
qed (simp add: leads_diverge)

lemma leads_offline_walk: "i + fuel < 84000000 \<Longrightarrow> slot_like e \<Longrightarrow>
    leads between (offline_walk fuel l beaten el i e) between"
proof (induction fuel arbitrary: i e)
  case (Suc fuel)
  then show ?case
    unfolding offline_walk.simps
    by (intro leads_bind [OF leads_serve(2)] leads_bind_nth leads_if leads_serve(2)) simp_all
qed (simp add: leads_diverge)

lemma leads_lost_walk: "i + fuel < 84000000 \<Longrightarrow> slot_like e \<Longrightarrow>
    leads between (lost_walk fuel l i e) between"
proof (induction fuel arbitrary: i e)
  case (Suc fuel)
  have lost: "leads between (if ec_client_status e \<noteq> EMPTY then do {
           start_client_transaction_address (ec_client_address e);
           set_client_state LOST;
           _ \<leftarrow> apply_transaction;
           ret ()
         } else ret ()) between"
    by (rule leads_if_cond, drule slot_like_served [OF Suc.prems(2)])
      (assumption | rule leads_transaction leads_start_address)+
  show ?case
    unfolding lost_walk.simps using Suc
    by (intro leads_if leads_return leads_bind [OF lost] leads_bind_nth) simp_all
qed (simp add: leads_diverge)

lemma leads_bind_fuel:
  assumes "\<And>k. k < 65540 \<Longrightarrow> leads between (f k) R"
  shows "leads between (State_Monad.bind walk_fuel f) R"
proof (rule leadsI)
  fix s :: gateway
  assume s: "between s"
  then obtain rs where "reg s rs" by (auto simp: between_def registry_inv_def)
  then have "length (content s (path_in s client_registry)) div sizeof_entry_client = length rs"
    "length rs \<le> 65536"
    by (simp_all add: reg_def client.holds_def content_def client.length_file_of
        sizeof_entry_client_def registry_ok_length)
  then show "R (snd (run_state (State_Monad.bind walk_fuel f) s))"
    using leadsD [OF assms s] by (simp add: walk_fuel_def)
qed

lemma leads_core_publish_broker: "leads between (core_publish_broker n dat r) between"
  unfolding core_publish_broker_def
  by (intro leads_if leads_return leads_bind_fuel leads_bind_nth leads_bind [OF leads_publish_walk]
      leads_bind [OF leads_frame(2) [OF frame_global(5)]]
      leads_bind [OF leads_frame(2) [OF frame_getters(7)]]) simp_all

lemma leads_messageArrived: "leads between (messageArrived t p) between"
  unfolding messageArrived_def receive_publish_def
  by (rule leads_if, rule leads_bind, rule leads_bind, rule leads_core_publish_broker)
    (rule leads_return)+

lemma leads_core_loop: "leads between core_loop between"
proof -
  have off: "leads between process_mqtt_offline_procedure between"
    unfolding process_mqtt_offline_procedure_def
    by (rule leads_bind [OF leads_frame(2) [OF frame_clock(1)]])
      (intro leads_bind [OF leads_frame(2) [OF frame_clock(2)]]
        leads_bind [OF leads_frame(2) [OF frame_getters(7)]] leads_if
        leads_frame(2) [OF frame_outside(4)] leads_bind_nth leads_bind_fuel leads_offline_walk;
        simp)
  have sn: "leads between process_mqttsn_offline_procedure between"
    unfolding process_mqttsn_offline_procedure_def
    by (rule leads_rules leads_frame(2) frame_intros)+
  have lost: "leads between set_all_clients_lost between"
    unfolding set_all_clients_lost_def
    by (intro leads_bind [OF leads_frame(2) [OF frame_getters(7)]] leads_bind_nth leads_bind_fuel
        leads_lost_walk) simp_all
  show ?thesis
    unfolding core_loop_def
    by (intro leads_bind [OF leads_frame(2) [OF frame_getters(5)]]
        leads_bind [OF leads_frame(2) [OF frame_getters(6)]] leads_if off sn leads_bind [OF lost]
        leads_frame(2) [OF frame_outside(4)] leads_bind [OF leads_frame(2) [OF frame_clock(1)]]
        leads_bind [OF leads_if [OF leads_frame(2) [OF frame_clock(2)] leads_return]]
        leads_bind [OF leads_frame(2) [OF frame_getters(7)]] leads_return leads_bind_nth
        leads_bind_fuel leads_online_walk) simp_all
qed

end
