(* ===== verification/GatewaySteps.thy ===== *)
theory GatewaySteps
  imports Safety
begin

text \<open>
  The gateway as a whole.  \<open>Gateway::loop\<close> (\<open>src/Gateway.h\<close>) runs the loop of the MQTT client,
  the loop of the socket and the loop of the core in turn, for ever.  Each thing that can happen
  in a round is an event: a message of the broker or a lost connection in
  \<open>PahoMqttMessageHandler::loop\<close>, a datagram or a closed socket in \<open>UdpSocketImpl::loop\<close>, and
  \<open>CoreImpl::loop\<close>.  What the client library and the operating system deliver is part of the
  event.  The events are taken in any order, which covers the order of the code.
\<close>

section \<open>Loops of the connections\<close>

text \<open>\<open>PahoMqttMessageHandler::loop\<close> when the client library reports no connection.\<close>

definition mqtt_reconnect :: "(gateway, bool) state" where
  "mqtt_reconnect = do {
     ok \<leftarrow> getConfigAndConnect;
     if ok then do { _ \<leftarrow> notify_mqtt_connected; ret True } else ret False
   }"

text \<open>
  \<open>UdpSocketImpl::begin\<close>: \<open>fd\<close> is what \<open>socket\<close> returns, \<open>ok\<close> whether the calls that set it up
  succeed.
\<close>

definition socket_begin :: "int \<Rightarrow> bool \<Rightarrow> (gateway, bool) state" where
  "socket_begin fd ok = do {
     modify (\<lambda>s. s\<lparr>socket_fd := fd\<rparr>);
     if fd = -1 \<or> \<not> ok then ret False
     else do {
       (if fd \<ge> 0 then do { _ \<leftarrow> notify_mqttsn_connected; ret () } else ret ());
       ret (fd \<ge> 0)
     }
   }"

text \<open>\<open>UdpSocketImpl::loop\<close>; \<open>received\<close> is the datagram that \<open>recvfrom\<close> delivers, if any.\<close>

definition socket_loop :: "int \<Rightarrow> bool \<Rightarrow> (u32 \<times> u16 \<times> bytes) option \<Rightarrow> (gateway, bool) state" where
  "socket_loop fd ok received = do {
     s \<leftarrow> State_Monad.get;
     if socket_fd s < 0 then do {
       _ \<leftarrow> notify_mqttsn_disconnected;
       up \<leftarrow> socket_begin fd ok;
       if up then do { _ \<leftarrow> notify_mqttsn_connected; ret True } else ret False
     } else do {
       (case received of
          None \<Rightarrow> ret ()
        | Some (ip, port, datagram) \<Rightarrow>
            receive_datagram (getDevice_address ip port) (take BUFLEN datagram));
       reads (\<lambda>s. socket_fd s \<ge> 0)
     }
   }"

text \<open>
  \<open>Gateway::begin\<close> ends in \<open>CoreImpl::begin\<close>: the persistence layer, the MQTT handler (which only
  creates the client object) and the MQTT-SN handler, which opens the socket.
\<close>

definition core_begin :: "int \<Rightarrow> bool \<Rightarrow> (gateway, bool) state" where
  "core_begin fd ok = do {
     p \<leftarrow> persistent_begin;
     if p \<and> getMaximumMessageLength > 7 then socket_begin fd ok else ret False
   }"

section \<open>Steps\<close>

datatype event =
    Datagram u32 u16 bytes
  | SocketDown int bool
  | BrokerMessage bytes bytes
  | BrokerDown
  | CoreRound

fun handle_event :: "event \<Rightarrow> (gateway, unit) state" where
  "handle_event (Datagram ip port datagram) = do {
     _ \<leftarrow> socket_loop 0 True (Some (ip, port, datagram)); ret () }"
| "handle_event (SocketDown fd ok) = do {
     modify (\<lambda>s. s\<lparr>socket_fd := -1\<rparr>);
     _ \<leftarrow> socket_loop fd ok None;
     ret () }"
| "handle_event (BrokerMessage topic payload) = messageArrived topic payload"
| "handle_event BrokerDown = do { _ \<leftarrow> mqtt_reconnect; ret () }"
| "handle_event CoreRound = core_loop"

text \<open>An exception or a null pointer ends the program; a loop that does not end takes no further step.\<close>

inductive gateway_step :: "gateway \<Rightarrow> event \<Rightarrow> gateway \<Rightarrow> bool" where
  "\<not> exited s \<Longrightarrow> \<not> crashed s \<Longrightarrow> \<not> diverged s \<Longrightarrow> gateway_step s ev (snd (run_state (handle_event ev) s))"

inductive_simps gateway_step_iff: "gateway_step s ev t"
inductive_cases gateway_stepE: "gateway_step s ev t"

text \<open>
  Runs that stay inside the limits of the registry: no CONNECT with an empty client id, and
  fewer than 65536 slots before each step, since the slot number is a \<open>uint16_t\<close>.
\<close>

fun anonymous :: "event \<Rightarrow> bool" where
  "anonymous (Datagram ip port datagram) = anonymous_connect (padz BUFLEN (take BUFLEN datagram))"
| "anonymous ev = False"

inductive orderly_run :: "gateway \<Rightarrow> gateway \<Rightarrow> bool" where
  start: "orderly_run s s"
| step: "orderly_run s t \<Longrightarrow> gateway_step t ev u \<Longrightarrow> \<not> anonymous ev \<Longrightarrow> slots t < 65536 \<Longrightarrow>
    orderly_run s u"

section \<open>The invariant of the whole gateway\<close>

lemma leads_modify_outside:
  fixes f :: "gateway \<Rightarrow> gateway"
  assumes "\<And>s. files (f s) = files s" "\<And>s. rootPath (f s) = rootPath s"
    "\<And>s. transaction_started (f s) = transaction_started s"
  shows "leads between (modify f) between"
proof (rule leadsI)
  fix s :: gateway
  assume "between s"
  then show "between (snd (run_state (modify f) s))"
    using assms reg_members [of "f s" s] unfolding between_def registry_inv_def by auto blast
qed

lemma frame_reconnect: "frame mqtt_reconnect"
  unfolding mqtt_reconnect_def by (intro frame_intros)

lemma leads_socket_begin: "leads between (socket_begin fd ok) between"
  unfolding socket_begin_def
  by (rule leads_modify_outside leads_rules leads_frame(2) frame_intros | simp)+

lemma getDevice_address_nonzero: "getDevice_address ip port \<noteq> empty_address"
  "length (getDevice_address ip port) = 6"
proof -
  have "u16_of (drop 4 (getDevice_address ip port)) = (if port = 0 then 8888 else port)"
    by (simp add: getDevice_address_def)
  moreover have "u16_of (drop 4 empty_address) = 0" by (simp add: empty_address_def)
  ultimately show "getDevice_address ip port \<noteq> empty_address"
    by (auto split: if_splits)
  show "length (getDevice_address ip port) = 6" by (simp add: getDevice_address_def)
qed

lemma leads_datagram:
  assumes "\<not> anonymous_connect (padz BUFLEN (take BUFLEN datagram))"
  shows "leads has_room (socket_loop fd ok (Some (ip, port, datagram))) between"
proof (rule leadsI)
  fix s :: gateway
  assume s: "has_room s"
  show "between (snd (run_state (socket_loop fd ok (Some (ip, port, datagram))) s))"
  proof (cases "socket_fd s < 0")
    case True
    have "leads between (do { _ \<leftarrow> notify_mqttsn_disconnected;
       up \<leftarrow> socket_begin fd ok;
       if up then do { _ \<leftarrow> notify_mqttsn_connected; ret True } else ret False}) between"
      by (rule leads_socket_begin leads_rules leads_frame(2) frame_intros)+
    from leadsD [OF this, of s] True s show ?thesis
      by (simp add: socket_loop_def has_room_def)
  next
    case False
    have "leads has_room (receive_datagram (getDevice_address ip port) (take BUFLEN datagram)) between"
      unfolding receive_datagram_def
      by (intro leads_receiveData getDevice_address_nonzero assms)
    from leadsD [OF this s] False show ?thesis
      by (simp add: socket_loop_def split_beta)
  qed
qed

lemma leads_socket_none: "leads between (socket_loop fd ok None) between"
  unfolding socket_loop_def option.case
  by (rule leads_socket_begin leads_bind leads_return leads_if leads_prod leads_frame(2)
      frame_intros | simp)+

lemma step_between:
  assumes "gateway_step s ev t" "between s" "slots s < 65536" "\<not> anonymous ev"
  shows "between t"
proof -
  have t: "t = snd (run_state (handle_event ev) s)" using assms(1) by (rule gateway_stepE)
  show ?thesis
  proof (cases ev)
    case (Datagram ip port datagram)
    then show ?thesis
      using leadsD [OF leads_datagram, of datagram s 0 True ip port] assms t
      by (simp add: has_room_def split_beta State_Monad.return_def)
  next
    case (SocketDown fd ok)
    have "between (s\<lparr>socket_fd := -1\<rparr>)"
      using leadsD [OF leads_modify_outside [of "\<lambda>s. s\<lparr>socket_fd := -1\<rparr>"] assms(2)] by simp
    then show ?thesis
      using leadsD [OF leads_socket_none] t SocketDown
      by (simp add: split_beta State_Monad.return_def)
  next
    case BrokerDown
    then show ?thesis
      using leadsD [OF leads_frame(2) [OF frame_reconnect] assms(2)] t
      by (simp add: split_beta State_Monad.return_def)
  qed (use t assms(2) leadsD [OF leads_messageArrived] leadsD [OF leads_core_loop] in auto)
qed

lemma orderly_between: "orderly_run s t \<Longrightarrow> between s \<Longrightarrow> between t"
  by (induction rule: orderly_run.induct) (auto dest: step_between)

lemma between_begin:
  assumes "files s (path_in s client_registry) = None \<or> registry_inv s"
  shows "between (snd (run_state (core_begin fd ok) s))"
proof -
  let ?s = "s\<lparr>transaction_started := False, not_in_client_registry := False\<rparr>"
  let ?t = "snd (run_state (create_file client_registry) ?s)"
  have t: "?t = set_file (path_in s client_registry) (content s (path_in s client_registry)) ?s"
    by (simp add: create_file_def run_sd_open path_in_def content_def)
  have "between ?t"
  proof (cases "files s (path_in s client_registry) = None")
    case True
    have "reg ?t []"
      unfolding t using True
      by (simp add: reg_def client.holds_def registry_ok_def content_def path_in_def)
    then show ?thesis unfolding between_def registry_inv_def t by (auto simp: set_file_def)
  next
    case False
    then obtain rs where rs: "reg s rs" using assms by (auto simp: registry_inv_def)
    have "?t = ?s"
      unfolding t using False by (auto simp: set_file_def content_def fun_upd_idem split: option.split)
    moreover have "reg ?s rs" by (rule reg_members [OF _ _ rs]) simp_all
    ultimately show ?thesis by (auto simp: between_def registry_inv_def)
  qed
  moreover have "leads between (do {
      create_file mqtt_sub;
      p \<leftarrow> ret True;
      if p \<and> getMaximumMessageLength > 7 then socket_begin fd ok else ret False}) between"
    by (rule leads_socket_begin leads_bind leads_return leads_if leads_frame(2) frame_intros)+
  ultimately show ?thesis
    by (auto simp: core_begin_def persistent_begin_def leads_def split_beta)
qed

text \<open>
  C4: Start the gateway on a card whose client registry is missing or consistent, and let it take
  any number of steps in any order: datagrams (but no CONNECT with an empty client id), messages
  of the broker, lost connections and rounds of the main loop, with fewer than 65536 slots in
  use before each.  Then the registry file is again a list of entries in which each is cleared
  or belongs to a client with an id, an address and the position of its slot as file number; no
  client id occurs twice; and no transaction is open.
\<close>

theorem run_keeps_registry:
  assumes "files s (path_in s client_registry) = None \<or> registry_inv s"
    and "orderly_run (snd (run_state (core_begin fd ok) s)) t"
  shows "\<not> transaction_started t \<and> (\<exists>rs. client.holds t client_registry rs \<and>
    (\<forall>i < length rs. rs ! i = empty_client \<or> live i (rs ! i)) \<and>
    distinct (filter (\<lambda>c. c \<noteq> []) (map id_of rs)))"
proof -
  have "between t" using orderly_between [OF assms(2) between_begin [OF assms(1)]] .
  then obtain rs where "\<not> transaction_started t" "client.holds t client_registry rs"
    and ok: "registry_ok rs"
    by (auto simp: between_def registry_inv_def reg_def)
  moreover have "distinct (filter (\<lambda>c. c \<noteq> []) (map id_of rs))"
    using ok by (rule registry_ok_distinct)
  ultimately show ?thesis using registry_ok_slot [OF ok] by blast
qed

section \<open>A gateway on an empty card\<close>

definition new_gateway :: gateway where
  "new_gateway = \<lparr>files = (\<lambda>p. None), rootPath = str ''/DB'', cwd = str ''/'',
     entry = empty_client, not_in_client_registry = False, transaction_started = False,
     error = False, mqttsn_online = False, mqtt_online = False, crashed = False,
     indet_bool = False, sent = [], socket_fd = -1, own_address = replicate 6 0,
     broker_calls = [], client_rc = (\<lambda>cs. 0), heartbeat_period = 10000, heartbeat_current = 0,
     elapsed_current = 0, clock = (\<lambda>n. of_nat n), ticks = 0, exited = False, diverged = False,
     indet_result = ZERO\<rparr>"

definition begun :: gateway where
  "begun = snd (run_state (core_begin 3 True) new_gateway)"

lemma begun_eq: "begun = new_gateway\<lparr>socket_fd := 3, mqttsn_online := True,
    files := [str ''/DB/CLIENTS'' \<mapsto> [], str ''/DB/MQTT.SUB'' \<mapsto> []]\<rparr>"
  by (simp add: begun_def core_begin_def persistent_begin_def create_file_def run_sd_open
      socket_begin_def notify_mqttsn_connected_def set_mqttsn_connected_def new_gateway_def
      path_in_def client_registry_def mqtt_sub_def slash_def content_def set_file_def
      getMaximumMessageLength_def State_Monad.return_def fun_upd_twist)

lemma run_keeps_registry_witness:
  "\<exists>rs. client.holds (snd (run_state (handle_event (Datagram 1 2 [2, 0x16])) begun))
    client_registry rs"
proof -
  have "\<not> anonymous (Datagram 1 2 [2, 0x16])"
    by (simp add: anonymous_connect_def enum_defs byte_at_def padz_def BUFLEN_def)
  moreover have "slots begun < 65536"
    by (simp add: slots_def begun_eq path_in_def content_def new_gateway_def client_registry_def
        slash_def)
  moreover have "\<not> exited begun" "\<not> crashed begun" "\<not> diverged begun"
    by (simp_all add: begun_eq new_gateway_def)
  ultimately have run: "orderly_run (snd (run_state (core_begin 3 True) new_gateway))
      (snd (run_state (handle_event (Datagram 1 2 [2, 0x16])) begun))"
    unfolding begun_def [symmetric]
    by (intro orderly_run.step [OF orderly_run.start, of _ "Datagram 1 2 [2, 0x16]"]
        gateway_step.intros)
  have "files new_gateway (path_in new_gateway client_registry) = None"
    by (simp add: new_gateway_def)
  then show ?thesis using run_keeps_registry [OF disjI1 run] by blast
qed

end
