(* ===== verification/Evolution.thy ===== *)
theory Evolution
  imports GatewaySteps "HOL-Library.Sublist"
begin

text \<open>
  Relations between the state before and after a step.  The locale \<open>quiet_evolution\<close> is the
  interface to a relation that the changes of the files and of the members of the persistence layer
  respect, \<open>calm_evolution\<close> extends it by the other elementary changes - a datagram sent, a call of
  the client library, the connection to the broker coming up - and \<open>evolution\<close> by a loop that does
  not end.  The first is followed through the persistence layer and the messages of the broker,
  the second through every operation without such a loop, the third through all of them; their
  interpretations are properties that hold along every run.
\<close>

definition internal_change :: "gateway \<Rightarrow> gateway \<Rightarrow> bool" where
  "internal_change s t \<longleftrightarrow> rootPath t = rootPath s \<and> cwd t = cwd s \<and>
     indet_bool t = indet_bool s \<and> mqtt_online t = mqtt_online s \<and> sent t = sent s \<and>
     own_address t = own_address s \<and> broker_calls t = broker_calls s \<and>
     client_rc t = client_rc s \<and> heartbeat_period t = heartbeat_period s \<and>
     clock t = clock s \<and> indet_result t = indet_result s \<and> diverged t = diverged s"

text \<open>Any number of steps, without the limits of \<open>orderly_run\<close>.\<close>

inductive gateway_run :: "gateway \<Rightarrow> gateway \<Rightarrow> bool" where
  start: "gateway_run s s"
| step: "gateway_run s t \<Longrightarrow> gateway_step t ev u \<Longrightarrow> gateway_run s u"

lemma run_one: "\<not> exited s \<Longrightarrow> \<not> crashed s \<Longrightarrow> \<not> diverged s \<Longrightarrow>
    gateway_run s (snd (run_state (handle_event ev) s))"
  by (rule gateway_run.step [OF gateway_run.start gateway_step.intros])

named_theorems evolves_intros "rules for evolving computations"

text \<open>What the gateway asks of the client library.\<close>

definition proper_call :: "broker_call \<Rightarrow> bool" where
  "proper_call k \<longleftrightarrow> (case k of
     CallPublish t d q r \<Rightarrow> q \<le> 2
   | CallSubscribe t q \<Rightarrow> q \<le> 2
   | CallUnsubscribe t \<Rightarrow> cstr t \<noteq> []
   | CallConnect v i l w \<Rightarrow> (v = 3 \<or> v = 4) \<and> (case w of None \<Rightarrow> True | Some (t, m, q, r) \<Rightarrow> q \<le> 2)
   | _ \<Rightarrow> True)"

lemma qos_cases: "(q :: byte) = 0 \<or> q = 1 \<or> q = 2 \<longleftrightarrow> q \<le> 2"
proof -
  have "q \<le> 2 \<longleftrightarrow> unat q = 0 \<or> unat q = 1 \<or> unat q = 2" by (auto simp: word_le_nat_alt)
  then show ?thesis by (simp add: word_unat_eq_iff)
qed

locale quiet_evolution =
  fixes R :: "gateway \<Rightarrow> gateway \<Rightarrow> bool"
  assumes R_trans: "R s t \<Longrightarrow> R t u \<Longrightarrow> R s u"
    and R_internal: "internal_change s t \<Longrightarrow> R s t"
begin

definition evolves :: "(gateway, 'a) state \<Rightarrow> bool" where
  "evolves m \<longleftrightarrow> (\<forall>s. R s (snd (run_state m s)))"

lemma evolvesD: "evolves m \<Longrightarrow> R s (snd (run_state m s))"
  by (simp add: evolves_def)

lemma evo_refl: "R s s"
  by (rule R_internal) (simp add: internal_change_def)

lemma evo_basic [evolves_intros]: "evolves (ret a)" "evolves (reads f)" "evolves State_Monad.get"
  by (simp_all add: evolves_def State_Monad.return_def evo_refl)

lemma evo_bind [evolves_intros]: "evolves m \<Longrightarrow> (\<And>a. evolves (f a)) \<Longrightarrow>
    evolves (State_Monad.bind m f)"
  unfolding evolves_def by (simp add: split_beta) (metis R_trans)

lemma evo_if [evolves_intros]: "evolves m \<Longrightarrow> evolves n \<Longrightarrow> evolves (if b then m else n)"
  by simp

lemma evo_let [evolves_intros]: "evolves (f x) \<Longrightarrow> evolves (let y = x in f y)"
  by simp

lemma evo_option [evolves_intros]:
  "evolves m \<Longrightarrow> (\<And>x. evolves (f x)) \<Longrightarrow> evolves (case y of None \<Rightarrow> m | Some x \<Rightarrow> f x)"
  by (cases y) simp_all

lemma evo_prod [evolves_intros]: "(\<And>x y. evolves (f x y)) \<Longrightarrow> evolves (case p of (x, y) \<Rightarrow> f x y)"
  by (cases p) simp

lemma evo_loop_result [evolves_intros]: "(\<And>x. evolves (f x)) \<Longrightarrow> (\<And>n r a. evolves (g n r a)) \<Longrightarrow>
    evolves (case y of Returned x \<Rightarrow> f x | Done n r a \<Rightarrow> g n r a)"
  by (cases y) simp_all

lemma evo_predefined [evolves_intros]: "(\<And>n. evolves (f n)) \<Longrightarrow> evolves m \<Longrightarrow> evolves k \<Longrightarrow>
    evolves (case r of Found n \<Rightarrow> f n | NotFound \<Rightarrow> m | NullPointer \<Rightarrow> k)"
  by (cases r) simp_all

lemma evo_modify: "(\<And>s. internal_change s (f s)) \<Longrightarrow> evolves (modify f)"
  by (simp add: evolves_def R_internal)

lemma evo_files [evolves_intros]: "evolves (sd_open n md)" "evolves (write_at n p bs)"
  "evolves (sd_exists n)" "evolves (sd_remove n)" "evolves (create_file n)" "evolves (delete_file n)"
  by (auto simp: evolves_def run_sd_open run_write_at sd_exists_def sd_remove_def Let_def
      create_file_def delete_file_def State_Monad.return_def set_file_def internal_change_def
      intro!: R_internal)

lemma evo_transactions [evolves_intros]: "evolves set_error" "evolves (find_client P)"
  "evolves (start_client_transaction_id b)" "evolves (start_client_transaction_address a)"
  "evolves apply_transaction" "evolves client_exist" "evolves (write_entry i)"
  "evolves (update_entry g)"
  unfolding set_error_def find_client_def start_client_transaction_id_def
    start_client_transaction_address_def apply_transaction_def client_exist_def write_entry_def
    update_entry_def
  by (intro evolves_intros evo_modify; simp add: internal_change_def)+

lemma evo_clients [evolves_intros]: "evolves (reset_client b a d)"
  "evolves find_empty_entry_space_in_registry" "evolves (add_client b a d)"
  "evolves (set_client_await_message m)" "evolves (set_timeout d)" "evolves (set_client_state m)"
  "evolves (set_client_await_msg_id i)" "evolves (set_client_duration d)"
  "evolves get_client_status" "evolves get_client_await_msg_id"
  "evolves get_client_await_message_type" "evolves (get_last_client_address a)"
  "evolves (get_nth_client n)"
  unfolding reset_client_def find_empty_entry_space_in_registry_def add_client_def
    set_client_await_message_def set_timeout_def set_client_state_def set_client_await_msg_id_def
    set_client_duration_def get_client_status_def get_client_await_msg_id_def
    get_client_await_message_type_def get_last_client_address_def get_nth_client_def
  by (intro evolves_intros evo_modify; simp add: internal_change_def)+

lemma evo_connection [evolves_intros]: "evolves set_mqttsn_disconnected"
  "evolves set_mqttsn_connected" "evolves is_mqttsn_online"
  "evolves is_mqtt_online" "evolves (get_gateway_id g)"
  unfolding set_mqttsn_disconnected_def set_mqttsn_connected_def is_mqttsn_online_def
    is_mqtt_online_def get_gateway_id_def
  by (intro evolves_intros evo_modify; simp add: internal_change_def)+

lemma evo_topics [evolves_intros]: "evolves (get_topic_name t)" "evolves (get_topic_id tn)"
  "evolves (add_client_registration n t)" "evolves (is_topic_known t)" "evolves (set_topic_known t k)"
  unfolding get_topic_name_def get_topic_id_def add_client_registration_def is_topic_known_def
    set_topic_known_def
  by (intro evolves_intros)+

lemma evo_subscriptions [evolves_intros]: "evolves (find_subscription b)" "evolves (is_subscribed tn)"
  "evolves (get_subscription_qos tn)" "evolves (get_subscription_topic_id tn)"
  "evolves (add_subscription tn t q)" "evolves get_client_subscription_count"
  "evolves (get_nth_subscribed_topic_id t)" "evolves (delete_subscription t)"
  "evolves (delete_client b)"
  unfolding find_subscription_def is_subscribed_def get_subscription_qos_def
    get_subscription_topic_id_def add_subscription_def get_client_subscription_count_def
    get_nth_subscribed_topic_id_def delete_subscription_def delete_client_def
  by (intro evolves_intros evo_modify; simp add: internal_change_def)+

lemma evo_global [evolves_intros]: "evolves (find_global b)" "evolves (write_global i e)"
  "evolves (increment_global_subscription_count tn)" "evolves (decrement_global_subscription_count tn)"
  "evolves (get_global_topic_subscription_count tn)"
  unfolding find_global_def write_global_def increment_global_subscription_count_def
    decrement_global_subscription_count_def get_global_topic_subscription_count_def
  by (intro evolves_intros)+

lemma evo_publishes [evolves_intros]: "evolves has_client_publishes"
  "evolves (add_client_publish b l t r q d m)" "evolves (add_new_client_publish b l t r q)"
  "evolves get_next_publish" "evolves (update_publish t g)" "evolves (set_publish_msg_id t m)"
  "evolves (remove_publish_by_publish_id t)" "evolves (remove_publish_by_msg_id t)"
  unfolding has_client_publishes_def add_client_publish_def add_new_client_publish_def
    get_next_publish_def update_publish_def set_publish_msg_id_def
    remove_publish_by_publish_id_def remove_publish_by_msg_id_def
  by (intro evolves_intros)+

lemma evo_wills [evolves_intros]: "evolves delete_will" "evolves read_will" "evolves has_client_will"
  "evolves get_client_will" "evolves (update_will g)" "evolves (set_client_willtopic t q r)"
  "evolves (set_client_willmessage t l)"
  unfolding delete_will_def read_will_def has_client_will_def get_client_will_def update_will_def
    set_client_willtopic_def set_client_willmessage_def
  by (intro evolves_intros)+

lemma evo_config [evolves_intros]: "evolves (lines_of_file n b)" "evolves (get_predefined_topic_name t)"
  "evolves get_mqtt_config" "evolves get_mqtt_login_config" "evolves get_mqtt_will"
  unfolding lines_of_file_def get_predefined_topic_name_def get_mqtt_config_def
    get_mqtt_login_config_def get_mqtt_will_def
  by (intro evolves_intros evo_modify; simp add: internal_change_def)+

lemma evo_clock [evolves_intros]: "evolves millis" "evolves has_beaten" "evolves get_elapsed_time"
  "evolves system_exit" "evolves walk_fuel"
  unfolding millis_def has_beaten_def get_elapsed_time_def system_exit_def walk_fuel_def
  by (intro evolves_intros evo_modify; simp add: internal_change_def)+

lemma evo_broker_message [evolves_intros]: "evolves (handle_receive_mqtt_publish_for_client b b' a r)"
  unfolding handle_receive_mqtt_publish_for_client_def Let_def by (intro evolves_intros)+

text \<open>A message of the broker, whose walk may not end.\<close>

lemma evo_arrival:
  assumes "\<And>s. R s (s\<lparr>diverged := True\<rparr>)"
  shows "evolves (publish_walk n l b b' r i e)" "evolves (messageArrived b b')"
proof -
  have fail: "evolves diverge" using assms by (simp add: evolves_def diverge_def)
  have walk: "evolves (publish_walk n l b b' r i e)" for n l b b' r i e
    by (induction n arbitrary: i e) (simp only: publish_walk.simps, intro evolves_intros fail; assumption)+
  show "evolves (publish_walk n l b b' r i e)" by (rule walk)
  show "evolves (messageArrived b b')"
    unfolding messageArrived_def receive_publish_def core_publish_broker_def by (intro evolves_intros walk)+
qed

end

locale calm_evolution = quiet_evolution +
  assumes R_sent: "R s (s\<lparr>sent := sent s @ [d]\<rparr>)"
    and R_call: "proper_call c \<Longrightarrow> R s (s\<lparr>broker_calls := broker_calls s @ [c]\<rparr>)"
    and R_online: "R s (s\<lparr>mqtt_online := True\<rparr>)"
begin

lemma evo_socket_send [evolves_intros]: "evolves (socket_send a bs)"
  by (simp add: evolves_def socket_send_def R_sent evo_refl)

lemma evo_call_broker: "proper_call c \<Longrightarrow> evolves (call_broker c)"
  by (simp add: evolves_def call_broker_def R_call)

lemma evo_connected [evolves_intros]: "evolves set_mqtt_connected"
  by (simp add: evolves_def set_mqtt_connected_def State_Monad.return_def R_online)

lemma evo_guarded: "(b \<Longrightarrow> evolves m) \<Longrightarrow> (\<not> b \<Longrightarrow> evolves n) \<Longrightarrow> evolves (if b then m else n)"
  by simp

lemma evo_call_then: "proper_call c \<Longrightarrow> (\<And>rc. evolves (f rc)) \<Longrightarrow> evolves (State_Monad.bind (call_broker c) f)"
  by (intro evo_bind evo_call_broker)

lemma evo_mqtt [evolves_intros]: "evolves (mqtt_publish t p q r)" "evolves (mqtt_subscribe t q)"
  "evolves (mqtt_unsubscribe tn)" "evolves mqtt_disconnect"
  unfolding mqtt_publish_def mqtt_subscribe_def mqtt_unsubscribe_def mqtt_disconnect_def qos_cases
  by (auto simp: proper_call_def split: option.split intro!: evo_guarded evo_call_then evo_basic)

lemma evo_mqtt_connect [evolves_intros]: "evolves (mqtt_connect i po c l w)" "evolves getConfigAndConnect"
proof -
  show c: "evolves (mqtt_connect i po c l w)" for i po c l w
    unfolding mqtt_connect_def Let_def
    by (intro evo_guarded evo_call_then evo_basic; auto simp: proper_call_def simp flip: qos_cases
        split: option.splits)
  show "evolves getConfigAndConnect"
    unfolding getConfigAndConnect_def Let_def by (intro evolves_intros c)+
qed

lemma evo_send [evolves_intros]: "evolves notify_mqttsn_disconnected" "evolves (send_or_notify a i k)"
  unfolding notify_mqttsn_disconnected_def send_or_notify_def by (intro evolves_intros)+

lemma evo_messages [evolves_intros]: "evolves (send_gwinfo a ra g b k)"
  "evolves (send_connack a c)" "evolves (send_willtopicreq a)" "evolves (send_willmsgreq a)"
  "evolves (send_register a t m tn)" "evolves (send_regack a t m c)"
  "evolves (send_publish a b m t sh r q dp)" "evolves (send_puback a m t c)"
  "evolves (send_suback a q t m c)" "evolves (send_unsuback a m)" "evolves (send_pingresp a)"
  "evolves (send_disconnect a)" "evolves (send_disconnect_duration a du)" "evolves (send_pubrec a m)"
  unfolding send_gwinfo_def send_connack_def send_willtopicreq_def send_willmsgreq_def
    send_register_def send_regack_def send_publish_def send_puback_def send_suback_def
    send_unsuback_def send_pingresp_def send_disconnect_def send_disconnect_duration_def
    send_pubrec_def
  by (intro evolves_intros)+

lemma evo_core [evolves_intros]: "evolves (remove_will a)" "evolves (add_will_topic a b r q)"
  "evolves (add_will_msg a b l)" "evolves (await_message a k)" "evolves (register_topic a b t)"
  "evolves (core_publish_client a b m t sh r q dp)"
  "evolves (core_add_subscription a t m sh q dp t' g)"
  "evolves (finish_delete_subscription t tn)" "evolves (core_delete_subscription_id a t m sh dp)"
  "evolves (core_delete_subscription_name a b m dp)" "evolves (set_disconnected a)"
  "evolves (set_asleep_duration a t)" "evolves (set_asleep a)" "evolves (set_awake a)"
  "evolves (notify_regack_arrived a t m c)" "evolves (notify_puback_arrived a m t c)"
  "evolves (core_get_gateway_id c)" "evolves notify_mqtt_connected"
  "evolves notify_mqttsn_connected"
  unfolding remove_will_def add_will_topic_def
    add_will_msg_def await_message_def register_topic_def core_publish_client_def
    core_add_subscription_def core_delete_subscription_id_def core_delete_subscription_name_def
    finish_delete_subscription_def set_disconnected_def set_asleep_duration_def set_asleep_def
    set_awake_def notify_regack_arrived_def notify_puback_arrived_def core_get_gateway_id_def
    notify_mqtt_connected_def notify_mqttsn_connected_def Let_def
  by (intro evolves_intros)+

lemma evo_rounds [evolves_intros]: "evolves (handle_client_publishes st b a)"
  unfolding handle_client_publishes_def Let_def
  by (intro evolves_intros)+

lemma evo_serve_calm: "evolves (serve_online False el e)" "evolves (serve_offline False el e)"
proof -
  have "evolves (serve_client b st m False el e)" if "\<And>a. evolves (m a)" for b st m
    unfolding serve_client_def Let_def if_False by (intro evolves_intros that)
  then show "evolves (serve_online False el e)" "evolves (serve_offline False el e)"
    unfolding serve_online_def serve_offline_def by (simp_all add: evo_messages)
qed

lemma evo_handlers [evolves_intros]: "evolves (handle_searchgw a c)"
  "evolves (handle_willtopic a b r q)"
  "evolves (handle_willmsg a b l)" "evolves (handle_register a t b)"
  "evolves (handle_regack a t m c)" "evolves (handle_publish a b t m sh r q dp)"
  "evolves (handle_puback a t m c)" "evolves (answer_subscribe a m x)"
  "evolves (handle_subscribe_id a t m sh q dp)" "evolves (handle_subscribe_name a b m q dp)"
  "evolves (answer_unsubscribe a m y)" "evolves (handle_unsubscribe_id a t m sh dp)"
  "evolves (handle_unsubscribe_name a b m dp)" "evolves (handle_pingreq a)"
  "evolves (handle_pingreq_id a b)" "evolves (handle_disconnect a)"
  "evolves (handle_disconnect_duration a t)"
  unfolding handle_searchgw_def handle_willtopic_def handle_willmsg_def
    handle_register_def handle_regack_def handle_publish_def handle_puback_def
    answer_subscribe_def handle_subscribe_id_def handle_subscribe_name_def
    answer_unsubscribe_def handle_unsubscribe_id_def handle_unsubscribe_name_def
    handle_pingreq_def handle_pingreq_id_def handle_disconnect_def handle_disconnect_duration_def
  by (intro evolves_intros)+

lemma evo_parsers [evolves_intros]: "evolves (parse_searchgw a bs)" "evolves (parse_willtopic a bs)"
  "evolves (parse_willmsg a bs)" "evolves (parse_register a bs)" "evolves (parse_regack a bs)"
  "evolves (parse_publish a bs)" "evolves (parse_puback a bs)" "evolves (parse_subscribe a bs)"
  "evolves (parse_unsubscribe a bs)" "evolves (parse_pingreq a bs)" "evolves (parse_disconnect a bs)"
  unfolding parse_searchgw_def parse_willtopic_def parse_willmsg_def parse_register_def
    parse_regack_def parse_publish_def parse_puback_def parse_subscribe_def parse_unsubscribe_def
    parse_pingreq_def parse_disconnect_def Let_def
  by (intro evolves_intros)+

lemma evo_receive_calm: "byte_at 1 bs \<noteq> MQTTSN_CONNECT \<Longrightarrow> evolves (receiveData a bs)"
  unfolding receiveData_def Let_def by (simp only: if_False) (intro evolves_intros)

end

text \<open>The operations with the loops that may not end.\<close>

locale evolution = calm_evolution +
  assumes R_diverged: "R s (s\<lparr>diverged := True\<rparr>)"
begin

lemma evo_fail [evolves_intros]: "evolves diverge" "evolves (modify (\<lambda>s. s\<lparr>diverged := True\<rparr>))"
  by (simp_all add: evolves_def diverge_def R_diverged)

lemma evo_remove_loop [evolves_intros]: "evolves (remove_subscriptions_loop n)"
  by (induction n) (simp only: remove_subscriptions_loop.simps, intro evolves_intros; assumption)+

lemma evo_removals [evolves_intros]: "evolves (remove_client_subscriptions b)"
  "evolves (core_add_client b du cl a)" "evolves (handle_timeout st dur el b a ti)"
  "evolves (handle_connect a b t w cl)"
  unfolding remove_client_subscriptions_def core_add_client_def handle_timeout_def handle_connect_def
    Let_def
  by (intro evolves_intros)+

lemma evo_serve [evolves_intros]: "evolves (serve_online beaten el e)"
  "evolves (serve_offline beaten el e)"
  unfolding serve_online_def serve_offline_def serve_client_def Let_def
  by (intro evolves_intros)+

lemmas evo_broker [evolves_intros] = evo_arrival [OF R_diverged]

lemma evo_walks [evolves_intros]:
  "evolves (online_walk n l beaten el i e)" "evolves (offline_walk n l beaten el i e)"
  "evolves (lost_walk n l i e)"
  by (induction n arbitrary: i e) (simp only: online_walk.simps
      offline_walk.simps lost_walk.simps, intro evolves_intros; assumption)+

lemma evo_core_loop [evolves_intros]: "evolves core_loop"
  unfolding core_loop_def process_mqtt_offline_procedure_def process_mqttsn_offline_procedure_def
    set_all_clients_lost_def
  by (intro evolves_intros)+

lemma evo_receive [evolves_intros]: "evolves (parse_connect a bs)" "evolves (receiveData a bs)"
  unfolding receiveData_def parse_connect_def Let_def by (intro evolves_intros)+

lemma evo_connections [evolves_intros]: "evolves mqtt_reconnect" "evolves (socket_begin fd ok)"
  "evolves (socket_loop fd ok received)"
  unfolding mqtt_reconnect_def socket_loop_def socket_begin_def receive_datagram_def
  by (intro evolves_intros evo_modify; simp add: internal_change_def)+

lemma evo_event: "evolves (handle_event ev)"
  by (cases ev) (simp only: handle_event.simps,
      intro evolves_intros evo_modify; simp add: internal_change_def)+

lemma step_evolves: "gateway_step s ev t \<Longrightarrow> R s t"
  using evolvesD [OF evo_event] by (auto elim: gateway_stepE)

lemma run_evolves: "gateway_run s t \<Longrightarrow> R s t"
  by (induction rule: gateway_run.induct) (auto intro: evo_refl R_trans dest: step_evolves)

end

section \<open>What holds along every run\<close>

text \<open>Both traces only grow, and what stands for the outside world stays the same.\<close>

definition extends_history :: "gateway \<Rightarrow> gateway \<Rightarrow> bool" where
  "extends_history s t \<longleftrightarrow> prefix (sent s) (sent t) \<and> prefix (broker_calls s) (broker_calls t) \<and>
     rootPath t = rootPath s \<and> cwd t = cwd s \<and> own_address t = own_address s \<and>
     clock t = clock s \<and> client_rc t = client_rc s"

definition stays_online :: "gateway \<Rightarrow> gateway \<Rightarrow> bool" where
  "stays_online s t \<longleftrightarrow> (mqtt_online s \<longrightarrow> mqtt_online t)"

interpretation history: evolution extends_history
  by unfold_locales (auto simp: extends_history_def internal_change_def intro: prefix_order.trans)

interpretation online: evolution stays_online
  by unfold_locales (auto simp: stays_online_def internal_change_def)

text \<open>A message of the broker makes the gateway send nothing and call nothing; it is only stored.\<close>

definition silent :: "gateway \<Rightarrow> gateway \<Rightarrow> bool" where
  "silent s t \<longleftrightarrow> sent t = sent s \<and> broker_calls t = broker_calls s"

interpretation silence: quiet_evolution silent
  by unfold_locales (auto simp: silent_def internal_change_def)

lemma message_silent: "gateway_step s (BrokerMessage topic payload) t \<Longrightarrow> silent s t"
  using silence.evolvesD [OF silence.evo_arrival(2)] by (auto simp: silent_def elim!: gateway_stepE)

text \<open>What the gateway calls the client library with.\<close>

definition stays_proper :: "gateway \<Rightarrow> gateway \<Rightarrow> bool" where
  "stays_proper s t \<longleftrightarrow> (\<exists>ks. broker_calls t = broker_calls s @ ks \<and> list_all proper_call ks)"

interpretation proper: evolution stays_proper
  by unfold_locales (auto simp: stays_proper_def internal_change_def)

definition returns_too :: "gateway \<Rightarrow> gateway \<Rightarrow> bool" where
  "returns_too s t \<longleftrightarrow> (diverged t \<longleftrightarrow> diverged s)"

interpretation calm: calm_evolution returns_too
  by unfold_locales (auto simp: returns_too_def internal_change_def)

text \<open>
  Whatever happens to the gateway, its steps never take back a datagram that was sent or a
  call of the MQTT client library: both sequences after a run begin with the sequences before
  it.  The card's root, the working directory, the own address and the clock are those the
  gateway was started with.
\<close>

theorem run_extends_history:
  assumes "gateway_run s t"
  shows "prefix (sent s) (sent t) \<and> prefix (broker_calls s) (broker_calls t) \<and>
    rootPath t = rootPath s \<and> cwd t = cwd s \<and> own_address t = own_address s \<and> clock t = clock s"
  using history.run_evolves [OF assms] by (simp add: extends_history_def)

lemma run_extends_history_witness:
  "prefix (sent begun)
     (sent (snd (run_state (handle_event (Datagram 1 2 [2, MQTTSN_PINGREQ])) begun)))"
proof -
  have "\<not> exited begun" "\<not> crashed begun" "\<not> diverged begun"
    by (simp_all add: begun_eq new_gateway_def)
  then have "gateway_run begun
      (snd (run_state (handle_event (Datagram 1 2 [2, MQTTSN_PINGREQ])) begun))"
    by (rule run_one)
  then show ?thesis using run_extends_history by blast
qed

text \<open>
  C6: Once the gateway has been connected to the broker it counts as online for ever: no event,
  a lost connection and a failed reconnect included, resets \<open>mqtt_online\<close>, because nothing calls
  \<open>notify_mqtt_disconnected\<close>.  So the main loop does not take the branch for a lost broker, and
  no operation answers that the broker is away.
\<close>

theorem run_stays_online:
  assumes "gateway_run s t" and "mqtt_online s"
  shows "mqtt_online t \<and> fst (run_state is_mqtt_online t)"
  using online.run_evolves [OF assms(1)] assms(2)
  by (simp add: stays_online_def is_mqtt_online_def)

text \<open>A connected gateway whose client library reports a failure for every call.\<close>

definition cut_off :: gateway where
  "cut_off = begun\<lparr>mqtt_online := True, client_rc := (\<lambda>cs. -1)\<rparr>"

lemma run_stays_online_witness:
  "mqtt_online (snd (run_state (handle_event BrokerDown) cut_off))"
proof -
  have "\<not> exited cut_off" "\<not> crashed cut_off" "\<not> diverged cut_off" and up: "mqtt_online cut_off"
    by (simp_all add: cut_off_def begun_eq new_gateway_def)
  then have "gateway_run cut_off (snd (run_state (handle_event BrokerDown) cut_off))"
    by (intro run_one)
  from run_stays_online [OF this up] show ?thesis by blast
qed

end
