(* ===== verification/MqttPacket.thy ===== *)
theory MqttPacket
  imports Prelude "HOL-Library.Signed_Division"
begin

text \<open>
  The MQTT packet library the gateway talks to its broker with:
  \<open>paho/pahomqttembeddedc/MQTTPacket/src/MQTTPacket.c\<close> and the types of \<open>MQTTPacket.h\<close>.

  A C \<open>int\<close> is an \<open>int\<close>: the lengths that occur are far below \<open>2 ^ 31\<close>.  A pointer that is read
  through is the list of the bytes from it to the end of its object, so advancing it drops bytes,
  and a read behind the object is \<open>None\<close>.  A function that fills a buffer gives the bytes it
  writes, from the buffer's start on; nothing in the model cuts them at the buffer's length, so
  a result longer than \<open>buflen\<close> is an overrun.
\<close>

unbundle bit_operations_syntax

definition MQTTPACKET_BUFFER_TOO_SHORT :: int where "MQTTPACKET_BUFFER_TOO_SHORT = -2"
definition MQTTPACKET_READ_ERROR :: int where "MQTTPACKET_READ_ERROR = -1"

named_theorems packet_types "the packet types of MQTT"

definition CONNECT :: byte where [packet_types]: "CONNECT = 1"
definition CONNACK :: byte where [packet_types]: "CONNACK = 2"
definition PUBLISH :: byte where [packet_types]: "PUBLISH = 3"
definition PUBACK :: byte where [packet_types]: "PUBACK = 4"
definition PUBREC :: byte where [packet_types]: "PUBREC = 5"
definition PUBREL :: byte where [packet_types]: "PUBREL = 6"
definition PUBCOMP :: byte where [packet_types]: "PUBCOMP = 7"
definition SUBSCRIBE :: byte where [packet_types]: "SUBSCRIBE = 8"
definition SUBACK :: byte where [packet_types]: "SUBACK = 9"
definition UNSUBSCRIBE :: byte where [packet_types]: "UNSUBSCRIBE = 10"
definition UNSUBACK :: byte where [packet_types]: "UNSUBACK = 11"
definition PINGREQ :: byte where [packet_types]: "PINGREQ = 12"
definition PINGRESP :: byte where [packet_types]: "PINGRESP = 13"
definition DISCONNECT :: byte where [packet_types]: "DISCONNECT = 14"

section \<open>The header byte\<close>

text \<open>The bit fields of \<open>MQTTHeader\<close>: an assignment keeps the low bits of the value.\<close>

definition header_byte :: "byte \<Rightarrow> byte \<Rightarrow> byte \<Rightarrow> byte \<Rightarrow> byte" where
  "header_byte type dup qos retain =
     push_bit 4 (type AND 15) OR push_bit 3 (dup AND 1) OR push_bit 1 (qos AND 3) OR (retain AND 1)"

definition header_type :: "byte \<Rightarrow> byte" where "header_type b = drop_bit 4 b"
definition header_dup :: "byte \<Rightarrow> byte" where "header_dup b = drop_bit 3 b AND 1"
definition header_qos :: "byte \<Rightarrow> byte" where "header_qos b = drop_bit 1 b AND 3"
definition header_retain :: "byte \<Rightarrow> byte" where "header_retain b = b AND 1"

section \<open>The remaining length\<close>

function MQTTPacket_encode :: "int \<Rightarrow> bytes" where
  "MQTTPacket_encode len =
     (let d = of_int (len smod 128); len' = len sdiv 128 in
      if len' > 0 then (d OR 0x80) # MQTTPacket_encode len' else [d])"
  by pat_completeness auto
termination
proof (relation "measure nat")
  fix len :: int and d :: byte and len'
  assume "len' = len sdiv 128" "0 < len'"
  then have "0 < len" "len' = len div 128"
    by (simp_all add: signed_divide_int_def sgn_if split: if_splits)
  then show "(len', len) \<in> measure nat" by simp
qed simp

declare MQTTPacket_encode.simps [simp del]

text \<open>
  \<open>getcharfn(&c, 1)\<close> on the source \<open>s\<close>: its return code, the bytes it stored and the source
  after it.  The result is the count of length bytes, the value and the source.
\<close>

type_synonym 's getfn = "'s \<Rightarrow> nat \<Rightarrow> int \<times> bytes \<times> 's"

definition MAX_NO_OF_REMAINING_LENGTH_BYTES :: nat where "MAX_NO_OF_REMAINING_LENGTH_BYTES = 4"

function decode_loop :: "'s getfn \<Rightarrow> nat \<Rightarrow> int \<Rightarrow> int \<Rightarrow> 's \<Rightarrow> nat \<times> int \<times> 's" where
  "decode_loop getcharfn len multiplier value s =
     (if len + 1 > MAX_NO_OF_REMAINING_LENGTH_BYTES then (len + 1, value, s)
      else case getcharfn s 1 of (rc, cs, s') \<Rightarrow>
        if rc \<noteq> 1 then (len + 1, value, s')
        else
          let value' = value + uint (hd cs AND 127) * multiplier in
          if hd cs AND 128 \<noteq> 0
          then decode_loop getcharfn (len + 1) (multiplier * 128) value' s'
          else (len + 1, value', s'))"
  by pat_completeness auto
termination
  by (relation "measure (\<lambda>(g, len, m, v, s). 5 - len)")
    (auto simp: MAX_NO_OF_REMAINING_LENGTH_BYTES_def)

declare decode_loop.simps [simp del]

definition MQTTPacket_decode :: "'s getfn \<Rightarrow> 's \<Rightarrow> nat \<times> int \<times> 's" where
  "MQTTPacket_decode getcharfn s = decode_loop getcharfn 0 1 0 s"

definition MQTTPacket_len :: "int \<Rightarrow> int" where
  "MQTTPacket_len rem_len =
     (let rem_len = rem_len + 1 in
      if rem_len < 128 then rem_len + 1
      else if rem_len < 16384 then rem_len + 2
      else if rem_len < 2097151 then rem_len + 3
      else rem_len + 4)"

text \<open>\<open>bufptr\<close> is the source: \<open>None\<close> once a byte behind the object has been read.\<close>

definition bufchar :: "bytes option getfn" where
  "bufchar bufptr count = (case bufptr of
     None \<Rightarrow> (int count, [0], None)
   | Some m \<Rightarrow> if count \<le> length m then (int count, drop (count - 1) (take count m), Some (drop count m))
               else (int count, [0], None))"

definition MQTTPacket_decodeBuf :: "bytes \<Rightarrow> (nat \<times> int) option" where
  "MQTTPacket_decodeBuf buf = (case MQTTPacket_decode bufchar (Some buf) of
     (len, value, None) \<Rightarrow> None
   | (len, value, Some _) \<Rightarrow> Some (len, value))"

section \<open>Integers, characters and strings\<close>

fun readInt :: "bytes \<Rightarrow> (int \<times> bytes) option" where
  "readInt (a # b # m) = Some (256 * uint a + uint b, m)"
| "readInt _ = None"

fun readChar :: "bytes \<Rightarrow> (byte \<times> bytes) option" where
  "readChar (c # m) = Some (c, m)"
| "readChar [] = None"

definition writeInt :: "int \<Rightarrow> bytes" where
  "writeInt anInt = [of_int (anInt sdiv 256), of_int (anInt smod 256)]"

definition writeCString :: "bytes \<Rightarrow> bytes" where
  "writeCString string = writeInt (int (length (cstr string))) @ cstr string"

text \<open>\<open>memcpy\<close> of \<open>n\<close> bytes from a pointer.\<close>

definition copy_from :: "bytes \<Rightarrow> int \<Rightarrow> bytes option" where
  "copy_from m n = (if 0 \<le> n \<and> n \<le> int (length m) then Some (take (nat n) m) else None)"

record mqtt_string =
  cstring :: "bytes option"
  lenstring_len :: int
  lenstring_data :: "bytes option"

definition MQTTString_initializer :: mqtt_string where
  "MQTTString_initializer = \<lparr>cstring = None, lenstring_len = 0, lenstring_data = None\<rparr>"

definition writeMQTTString :: "mqtt_string \<Rightarrow> bytes option" where
  "writeMQTTString s =
     (if lenstring_len s > 0 then do {
        m \<leftarrow> lenstring_data s;
        d \<leftarrow> copy_from m (lenstring_len s);
        Some (writeInt (lenstring_len s) @ d)
      } else case cstring s of
        Some c \<Rightarrow> Some (writeCString c)
      | None \<Rightarrow> Some (writeInt 0))"

text \<open>
  \<open>readMQTTLenString\<close> with \<open>n\<close> bytes up to \<open>enddata\<close>: the return code, the string structure, the
  pointer and the bytes left.
\<close>

definition readMQTTLenString :: "mqtt_string \<Rightarrow> bytes \<Rightarrow> int \<Rightarrow>
    (bool \<times> mqtt_string \<times> bytes \<times> int) option" where
  "readMQTTLenString s m n =
     (if n > 1 then do {
        (len, m) \<leftarrow> readInt m;
        Some (if len \<le> n - 2
          then (True, \<lparr>cstring = None, lenstring_len = len, lenstring_data = Some m\<rparr>,
                drop (nat len) m, n - 2 - len)
          else (False, s\<lparr>cstring := None, lenstring_len := len\<rparr>, m, n - 2))
      } else Some (False, s\<lparr>cstring := None\<rparr>, m, n))"

definition MQTTstrlen :: "mqtt_string \<Rightarrow> int" where
  "MQTTstrlen s = (case cstring s of Some c \<Rightarrow> int (length (cstr c)) | None \<Rightarrow> lenstring_len s)"

text \<open>\<open>strncmp(a, b, n) == 0\<close>: the first \<open>n\<close> bytes agree up to a NUL in both.\<close>

definition strncmp_eq :: "bytes \<Rightarrow> bytes \<Rightarrow> nat \<Rightarrow> bool" where
  "strncmp_eq a b n \<longleftrightarrow> take n (cstr a @ [0]) = take n (cstr b @ [0])"

definition MQTTPacket_equals :: "mqtt_string \<Rightarrow> bytes \<Rightarrow> bool" where
  "MQTTPacket_equals a bptr \<longleftrightarrow>
     (case cstring a of
        Some c \<Rightarrow> length (cstr c) = length (cstr bptr) \<and> strncmp_eq c bptr (length (cstr c))
      | None \<Rightarrow> lenstring_len a = int (length (cstr bptr)) \<and>
          strncmp_eq (case lenstring_data a of None \<Rightarrow> [] | Some d \<Rightarrow> take (nat (lenstring_len a)) d)
            bptr (nat (lenstring_len a)))"

section \<open>Reading a packet\<close>

text \<open>
  \<open>MQTTPacket_read\<close>: the return code, the bytes written to \<open>buf\<close> and the source.  The result of
  \<open>MQTTPacket_decode\<close> is not looked at.
\<close>

definition MQTTPacket_read :: "int \<Rightarrow> 's getfn \<Rightarrow> 's \<Rightarrow> int \<times> bytes \<times> 's" where
  "MQTTPacket_read buflen getfn s = (case getfn s 1 of (rc, h, s) \<Rightarrow>
     if rc \<noteq> 1 then (-1, h, s)
     else case MQTTPacket_decode getfn s of (_, rem_len, s) \<Rightarrow>
       let front = h @ MQTTPacket_encode rem_len in
       if rem_len + int (length front) > buflen then (-1, front, s)
       else case getfn s (nat rem_len) of (rc, d, s) \<Rightarrow>
         if rc \<noteq> rem_len then (-1, front @ d, s)
         else (uint (header_type (hd h)), front @ d, s))"

text \<open>\<open>MQTTTransport\<close>, with the source in place of \<open>sck\<close>.\<close>

record 's transport =
  sck :: 's
  tr_multiplier :: int
  tr_rem_len :: int
  tr_len :: int
  tr_state :: int

function decodenb_loop :: "'s getfn \<Rightarrow> 's transport \<Rightarrow> int \<times> 's transport" where
  "decodenb_loop getfn trp =
     (let trp = trp\<lparr>tr_len := tr_len trp + 1\<rparr> in
      if tr_len trp > int MAX_NO_OF_REMAINING_LENGTH_BYTES then (MQTTPACKET_READ_ERROR, trp)
      else case getfn (sck trp) 1 of (frc, cs, s') \<Rightarrow>
        let trp = trp\<lparr>sck := s'\<rparr> in
        if frc = -1 then (MQTTPACKET_READ_ERROR, trp)
        else if frc = 0 then (0, trp)
        else
          let trp = trp\<lparr>tr_rem_len := tr_rem_len trp + uint (hd cs AND 127) * tr_multiplier trp,
                        tr_multiplier := tr_multiplier trp * 128\<rparr> in
          if hd cs AND 128 \<noteq> 0 then decodenb_loop getfn trp else (tr_len trp, trp))"
  by pat_completeness auto
termination
  by (relation "measure (\<lambda>(g, trp). nat (5 - tr_len trp))")
    (auto simp: MAX_NO_OF_REMAINING_LENGTH_BYTES_def)

declare decodenb_loop.simps [simp del]

definition MQTTPacket_decodenb :: "'s getfn \<Rightarrow> 's transport \<Rightarrow> int \<times> 's transport" where
  "MQTTPacket_decodenb getfn trp =
     decodenb_loop getfn
       (if tr_len trp = 0 then trp\<lparr>tr_multiplier := 1, tr_rem_len := 0\<rparr> else trp)"

definition put :: "bytes \<Rightarrow> int \<Rightarrow> bytes \<Rightarrow> bytes" where
  "put buf pos bs = take (nat pos) buf @ bs @ drop (nat pos + length bs) buf"

text \<open>
  \<open>MQTTPacket_readnb\<close>, the three cases of its \<open>switch\<close> falling through to the next: the return
  code, the transport and the buffer.
\<close>

definition readnb_data :: "'s getfn \<Rightarrow> 's transport \<Rightarrow> bytes \<Rightarrow> int \<times> 's transport \<times> bytes" where
  "readnb_data getfn trp buf = (case getfn (sck trp) (nat (tr_rem_len trp)) of (frc, d, s') \<Rightarrow>
     let buf' = put buf (tr_len trp) d; trp = trp\<lparr>sck := s'\<rparr> in
     if frc = -1 then (-1, trp\<lparr>tr_state := 0\<rparr>, buf')
     else if frc = 0 then (0, trp, buf')
     else
       let trp = trp\<lparr>tr_rem_len := tr_rem_len trp - frc, tr_len := tr_len trp + frc\<rparr> in
       if tr_rem_len trp \<noteq> 0 then (0, trp, buf')
       else (uint (header_type (hd buf')), trp\<lparr>tr_state := 0\<rparr>, buf'))"

definition readnb_length :: "int \<Rightarrow> 's getfn \<Rightarrow> 's transport \<Rightarrow> bytes \<Rightarrow>
    int \<times> 's transport \<times> bytes" where
  "readnb_length buflen getfn trp buf = (case MQTTPacket_decodenb getfn trp of (frc, trp) \<Rightarrow>
     if frc = MQTTPACKET_READ_ERROR then (-1, trp\<lparr>tr_state := 0\<rparr>, buf)
     else if frc = 0 then (0, trp, buf)
     else
       let e = MQTTPacket_encode (tr_rem_len trp); buf' = put buf 1 e;
           trp = trp\<lparr>tr_len := 1 + int (length e)\<rparr> in
       if tr_rem_len trp + tr_len trp > buflen then (-1, trp\<lparr>tr_state := 0\<rparr>, buf')
       else readnb_data getfn (trp\<lparr>tr_state := tr_state trp + 1\<rparr>) buf')"

definition MQTTPacket_readnb :: "int \<Rightarrow> 's getfn \<Rightarrow> 's transport \<Rightarrow> bytes \<Rightarrow>
    int \<times> 's transport \<times> bytes" where
  "MQTTPacket_readnb buflen getfn trp buf =
     (if tr_state trp = 1 then readnb_length buflen getfn trp buf
      else if tr_state trp = 2 then readnb_data getfn trp buf
      else case getfn (sck trp) 1 of (frc, h, s') \<Rightarrow>
        let buf' = put buf 0 h; trp = trp\<lparr>sck := s', tr_state := 0\<rparr> in
        if frc = -1 then (-1, trp, buf')
        else if frc = 0 then (0, trp, buf')
        else readnb_length buflen getfn (trp\<lparr>tr_len := 0, tr_state := 1\<rparr>) buf')"

section \<open>The length field\<close>

lemma and_127: "uint ((c::byte) AND 127) = uint c mod 128"
proof -
  have "uint (c AND 127) = uint c AND 127" by (simp add: unsigned_and_eq)
  also have "\<dots> = take_bit 7 (uint c)" by (simp add: take_bit_eq_mask mask_eq_exp_minus_1)
  finally show ?thesis by (simp add: take_bit_eq_mod)
qed

lemma uint_byte_bound [simp]: "uint (c::byte) < 256"
  using uint_lt2p [of c] by simp

lemma even_div_128: "0 \<le> u \<Longrightarrow> u < 256 \<Longrightarrow> even (u div 128) \<longleftrightarrow> u < (128 :: int)"
  using div_pos_pos_trivial [of u 128] int_div_pos_eq [of u 128 1 "u - 128"] by (cases "u < 128") simp_all

lemma and_128: "(c::byte) AND 128 = 0 \<longleftrightarrow> uint c < 128"
proof -
  have "c AND 128 = 0 \<longleftrightarrow> uint c AND 128 = 0" by (simp add: unsigned_and_eq word_uint_eq_iff)
  also have "\<dots> \<longleftrightarrow> \<not> bit (uint c) 7" using and_exp_eq_0_iff_not_bit [of "uint c" 7] by simp
  also have "\<dots> \<longleftrightarrow> uint c < 128" by (simp add: bit_iff_odd even_div_128)
  finally show ?thesis .
qed

lemma or_128: "0 \<le> k \<Longrightarrow> k < 128 \<Longrightarrow> uint (of_int k OR 128 :: byte) = k + 128"
proof -
  assume k: "0 \<le> k" "k < 128"
  then have u: "uint (of_int k :: byte) = k" by (simp add: uint_word_of_int)
  have "k AND 128 = 0" using k and_128 [of "of_int k"] u
    by (simp add: word_uint_eq_iff unsigned_and_eq)
  then have "k OR 128 = k + 128" using plus_and_or [of k 128] by simp
  with u show ?thesis by (simp add: unsigned_or_eq)
qed


lemma encode_small: "0 \<le> n \<Longrightarrow> n < 128 \<Longrightarrow> MQTTPacket_encode n = [of_int n]"
  by (simp add: MQTTPacket_encode.simps [of n] signed_divide_int_def signed_modulo_int_def sgn_if)

lemma encode_large: "128 \<le> n \<Longrightarrow>
    MQTTPacket_encode n = (of_int (n mod 128) OR 128) # MQTTPacket_encode (n div 128)"
  by (simp add: MQTTPacket_encode.simps [of n] signed_divide_int_def signed_modulo_int_def sgn_if
      Let_def pos_imp_zdiv_pos_iff minus_div_mult_eq_mod [symmetric] algebra_simps)


lemma length_encode_small: "0 \<le> n \<Longrightarrow> n < 128 \<Longrightarrow> length (MQTTPacket_encode n) = 1"
  by (simp add: encode_small)

lemma length_encode_large: "128 \<le> n \<Longrightarrow>
    length (MQTTPacket_encode n) = Suc (length (MQTTPacket_encode (n div 128)))"
  by (simp add: encode_large)

lemma length_encode_2: "128 \<le> n \<Longrightarrow> n < 16384 \<Longrightarrow> length (MQTTPacket_encode n) = 2"
  by (simp add: length_encode_large length_encode_small)

lemma length_encode_3: "16384 \<le> n \<Longrightarrow> n < 2097152 \<Longrightarrow> length (MQTTPacket_encode n) = 3"
  by (subst length_encode_large) (simp_all add: length_encode_2)

lemma length_encode_4: "2097152 \<le> n \<Longrightarrow> n < 268435456 \<Longrightarrow> length (MQTTPacket_encode n) = 4"
  by (subst length_encode_large) (simp_all add: length_encode_3)

lemmas length_encode = length_encode_small length_encode_2 length_encode_3 length_encode_4

lemma length_encode_le: "0 \<le> n \<Longrightarrow> n < 268435456 \<Longrightarrow> length (MQTTPacket_encode n) \<le> 4"
  using length_encode [of n] by linarith

lemma encode_last: "0 \<le> n \<Longrightarrow> MQTTPacket_encode n \<noteq> [] \<and> last (MQTTPacket_encode n) AND 128 = 0 \<and>
    list_all (\<lambda>c. c AND 128 \<noteq> 0) (butlast (MQTTPacket_encode n))"
proof (induction "nat n" arbitrary: n rule: less_induct)
  case less
  show ?case
  proof (cases "n < 128")
    case True
    then show ?thesis using less.prems by (simp add: encode_small and_128 uint_word_of_int)
  next
    case False
    have "MQTTPacket_encode (n div 128) \<noteq> [] \<and> last (MQTTPacket_encode (n div 128)) AND 128 = 0 \<and>
        list_all (\<lambda>c. c AND 128 \<noteq> 0) (butlast (MQTTPacket_encode (n div 128)))"
      using False by (intro less.hyps) simp_all
    moreover have "(of_int (n mod 128) OR 128 :: byte) AND 128 \<noteq> 0"
      using or_128 [of "n mod 128"] by (simp add: and_128)
    ultimately show ?thesis using False by (simp add: encode_large)
  qed
qed

text \<open>
  The interface to a source that has the next byte ready: \<open>feed m\<close> is the source that is going to
  deliver the bytes \<open>m\<close>.
\<close>

locale byte_source =
  fixes getfn :: "'s getfn" and feed :: "bytes \<Rightarrow> 's"
  assumes get_byte: "getfn (feed (c # m)) 1 = (1, [c], feed m)"
begin

lemma decode_loop_encode:
  assumes "0 \<le> n" "n < 128 ^ Suc k" "len + k < 4"
  shows "decode_loop getfn len mult v (feed (MQTTPacket_encode n @ rest)) =
    (len + length (MQTTPacket_encode n), v + n * mult, feed rest)"
  using assms
proof (induction k arbitrary: n len mult v)
  case 0
  then have "uint (of_int n AND 127 :: byte) = n" "(of_int n :: byte) AND 128 = 0"
    by (simp_all add: and_127 and_128 uint_word_of_int)
  with 0 show ?case
    by (simp add: decode_loop.simps [of getfn len] encode_small get_byte [simplified]
        MAX_NO_OF_REMAINING_LENGTH_BYTES_def)
next
  case (Suc k)
  show ?case
  proof (cases "n < 128")
    case True
    then show ?thesis using Suc.prems
      by (simp add: decode_loop.simps [of getfn len] encode_small get_byte [simplified]
          MAX_NO_OF_REMAINING_LENGTH_BYTES_def and_127 and_128 uint_word_of_int)
  next
    case False
    define c where "c = (of_int (n mod 128) OR 128 :: byte)"
    have uc: "uint c = n mod 128 + 128" unfolding c_def by (rule or_128) simp_all
    have c: "uint (c AND 127) = n mod 128" "c AND 128 \<noteq> 0"
      using uc by (simp_all add: and_127 and_128)
    have "n div 128 < 128 ^ Suc k"
      using Suc.prems(2) by (simp add: div_less_iff_less_mult mult.commute)
    then have "decode_loop getfn (len + 1) (mult * 128) (v + n mod 128 * mult)
        (feed (MQTTPacket_encode (n div 128) @ rest)) =
      (len + 1 + length (MQTTPacket_encode (n div 128)),
       v + n mod 128 * mult + n div 128 * (mult * 128), feed rest)"
      using Suc.prems by (intro Suc.IH) (simp_all add: pos_imp_zdiv_nonneg_iff)
    moreover have "n mod 128 * mult + n div 128 * (mult * 128) = n * mult"
      using mult_div_mod_eq [of 128 n] by (metis add.commute distrib_right mult.assoc mult.commute)
    ultimately show ?thesis using False c Suc.prems(3)
      by (simp add: decode_loop.simps [of getfn len] encode_large get_byte [simplified]
          MAX_NO_OF_REMAINING_LENGTH_BYTES_def flip: c_def)
  qed
qed

lemma decode_encode: "0 \<le> n \<Longrightarrow> n < 268435456 \<Longrightarrow>
    MQTTPacket_decode getfn (feed (MQTTPacket_encode n @ rest))
      = (length (MQTTPacket_encode n), n, feed rest)"
  using decode_loop_encode [of n 3 0 1 0 rest] by (simp add: MQTTPacket_decode_def)

text \<open>The loop of the non-blocking decoder goes through the same values.\<close>

lemma decodenb_loop_decode:
  assumes "tr_len trp + int j = 4"
    and "decode_loop getfn (nat (tr_len trp)) (tr_multiplier trp) (tr_rem_len trp) (sck trp)
      = (len, v, s')"
    and "sck trp = feed (bs @ rest)" "list_all (\<lambda>c. c AND 128 \<noteq> 0) (butlast bs)" "bs \<noteq> []"
      "last bs AND 128 = 0" "length bs \<le> j" "0 \<le> tr_len trp"
  shows "\<exists>mult. decodenb_loop getfn trp = (int len, trp\<lparr>sck := s', tr_multiplier := mult,
    tr_rem_len := v, tr_len := int len\<rparr>)"
  using assms
proof (induction bs arbitrary: trp j)
  case (Cons b bs)
  have small: "\<not> tr_len trp + 1 > 4" "\<not> nat (tr_len trp) + 1 > 4" using Cons.prems by auto
  have get: "getfn (sck trp) 1 = (1, [b], feed (bs @ rest))"
    using Cons.prems(3) get_byte by simp
  show ?case
  proof (cases "bs = []")
    case True
    then show ?thesis
      using Cons.prems small get
      by (intro exI [of _ "tr_multiplier trp * 128"])
        (auto simp: decodenb_loop.simps [of getfn trp] decode_loop.simps [of getfn "nat (tr_len trp)"]
          MAX_NO_OF_REMAINING_LENGTH_BYTES_def Let_def)
  next
    case False
    define trp' where "trp' = trp\<lparr>tr_len := tr_len trp + 1, sck := feed (bs @ rest),
      tr_rem_len := tr_rem_len trp + uint (b AND 127) * tr_multiplier trp,
      tr_multiplier := tr_multiplier trp * 128\<rparr>"
    have b: "b AND 128 \<noteq> 0" using Cons.prems(4) False by simp
    have "decode_loop getfn (nat (tr_len trp')) (tr_multiplier trp') (tr_rem_len trp') (sck trp')
        = (len, v, s')"
      using Cons.prems(2,8) small get b
      by (simp add: decode_loop.simps [of getfn "nat (tr_len trp)"] trp'_def
          MAX_NO_OF_REMAINING_LENGTH_BYTES_def nat_add_distrib)
    then have "\<exists>mult. decodenb_loop getfn trp' = (int len, trp'\<lparr>sck := s', tr_multiplier := mult,
        tr_rem_len := v, tr_len := int len\<rparr>)"
      using Cons.prems False by (intro Cons.IH [of trp' "j - 1"]) (auto simp: trp'_def)
    moreover have "decodenb_loop getfn trp = decodenb_loop getfn trp'"
      using small get b
      by (simp add: decodenb_loop.simps [of getfn trp] trp'_def Let_def
          MAX_NO_OF_REMAINING_LENGTH_BYTES_def)
    ultimately show ?thesis by (simp add: trp'_def)
  qed
qed simp

lemma decodenb_encode:
  assumes n: "0 \<le> n" "n < 268435456" and trp: "tr_len trp = 0" "sck trp = feed (MQTTPacket_encode n @ rest)"
  shows "\<exists>mult. MQTTPacket_decodenb getfn trp = (int (length (MQTTPacket_encode n)),
    trp\<lparr>sck := feed rest, tr_multiplier := mult, tr_rem_len := n,
      tr_len := int (length (MQTTPacket_encode n))\<rparr>)"
  using decodenb_loop_decode [of "trp\<lparr>tr_multiplier := 1, tr_rem_len := 0\<rparr>" 4
      "length (MQTTPacket_encode n)" n "feed rest" "MQTTPacket_encode n" rest]
    decode_loop_encode [of n 3 0 1 0 rest] encode_last [OF n(1)] length_encode_le [OF n] trp n
  by (simp add: MQTTPacket_decodenb_def)

end

interpretation bufchar: byte_source bufchar Some
  by unfold_locales (simp add: bufchar_def)

lemma decodeBuf_encode: "0 \<le> n \<Longrightarrow> n < 268435456 \<Longrightarrow>
    MQTTPacket_decodeBuf (MQTTPacket_encode n @ rest) = Some (length (MQTTPacket_encode n), n)"
  using bufchar.decode_encode [of n rest] by (simp add: MQTTPacket_decodeBuf_def)

lemma encode_bytes_le: 
  assumes "0 \<le> n" "n < 268435456"
  shows "1 + int (length (MQTTPacket_encode n)) + n \<le> MQTTPacket_len n"
proof -
  consider "n < 128" | "128 \<le> n" "n < 16384" | "16384 \<le> n" "n < 2097152" | "2097152 \<le> n"
    by linarith
  then show ?thesis using assms
    by cases (simp_all add: length_encode MQTTPacket_len_def Let_def)
qed

lemma len_encode_le:
  assumes "0 \<le> n" "n < 268435456"
  shows "MQTTPacket_len n \<le> 2 + int (length (MQTTPacket_encode n)) + n"
proof -
  consider "n < 128" | "128 \<le> n" "n < 16384" | "16384 \<le> n" "n < 2097152" | "2097152 \<le> n"
    by linarith
  then show ?thesis using assms
    by cases (simp_all add: length_encode MQTTPacket_len_def Let_def)
qed

text \<open>
  The variable length field: a length below 2 to the power of 28 takes at most four bytes, is
  read back from the bytes that \<open>MQTTPacket_encode\<close> wrote for it, whatever follows them, and
  \<open>MQTTPacket_len\<close> is the size of the whole packet or one more, never less.
\<close>

theorem remaining_length_roundtrip:
  assumes "0 \<le> n" "n < 268435456"
  shows "MQTTPacket_decodeBuf (MQTTPacket_encode n @ rest) = Some (length (MQTTPacket_encode n), n)
    \<and> length (MQTTPacket_encode n) \<le> 4
    \<and> 1 + int (length (MQTTPacket_encode n)) + n \<le> MQTTPacket_len n
    \<and> MQTTPacket_len n \<le> 2 + int (length (MQTTPacket_encode n)) + n"
  using assms by (simp add: decodeBuf_encode encode_bytes_le len_encode_le length_encode_le)

lemma remaining_length_witness:
  "MQTTPacket_decodeBuf (MQTTPacket_encode 127 @ [7]) = Some (length (MQTTPacket_encode 127), 127)
    \<and> length (MQTTPacket_encode 127) \<le> 4
    \<and> 1 + int (length (MQTTPacket_encode 127)) + 127 \<le> MQTTPacket_len 127
    \<and> MQTTPacket_len 127 \<le> 2 + int (length (MQTTPacket_encode 127)) + 127"
  by (rule remaining_length_roundtrip) simp_all

section \<open>The fields of the header byte\<close>

lemma masks: "(w::byte) AND 15 = take_bit 4 w" "w AND 3 = take_bit 2 w" "w AND 1 = take_bit (Suc 0) w"
  by (simp_all add: take_bit_eq_mask mask_eq_exp_minus_1)

lemma bit_header_byte: "bit (header_byte t d q r) n \<longleftrightarrow> n < 8 \<and> (if n = 0 then bit r 0
    else if n < 3 then bit q (n - 1) else if n = 3 then bit d 0 else bit t (n - 4))"
  unfolding header_byte_def masks One_nat_def
  by (simp only: bit_take_bit_iff bit_push_bit_iff bit_or_iff) (auto simp: less_Suc_eq numeral_eq_Suc)

lemma header_bits:
  "header_type (header_byte t d q r) = take_bit 4 t"
  "header_dup (header_byte t d q r) = take_bit 1 d"
  "header_qos (header_byte t d q r) = take_bit 2 q"
  "header_retain (header_byte t d q r) = take_bit 1 r"
  unfolding header_type_def header_dup_def header_qos_def header_retain_def masks One_nat_def
  by (rule bit_eqI; simp only: bit_take_bit_iff bit_drop_bit_eq bit_header_byte o_def;
      auto simp: less_Suc_eq numeral_eq_Suc)+

lemma take_bit_bool [simp]: "take_bit (Suc 0) (of_bool b :: byte) = of_bool b"
  by simp

section \<open>Integers and strings written and read back\<close>

lemma sdiv_256: "0 \<le> n \<Longrightarrow> n sdiv 256 = n div (256 :: int)" "0 \<le> n \<Longrightarrow> n smod 256 = n mod (256 :: int)"
  by (simp_all add: signed_divide_int_def signed_modulo_int_def sgn_if
      minus_div_mult_eq_mod [symmetric])

lemma length_writeInt [simp]: "length (writeInt n) = 2"
  by (simp add: writeInt_def)

lemma readInt_writeInt: "0 \<le> n \<Longrightarrow> n < 65536 \<Longrightarrow> readInt (writeInt n @ m) = Some (n, m)"
proof -
  assume n: "0 \<le> n" "n < 65536"
  then have "n div 256 < 256" "0 \<le> n div 256" by linarith+
  then have "(n div 256) mod 256 = n div 256" by simp
  with n show ?thesis by (simp add: writeInt_def sdiv_256 uint_word_of_int)
qed

text \<open>
  The characters of a string, and the strings whose two lengths do not contradict each other: a
  C string without a counted one, or a counted one without a C string.
\<close>

definition string_bytes :: "mqtt_string \<Rightarrow> bytes" where
  "string_bytes s =
     (if lenstring_len s > 0 then take (nat (lenstring_len s)) (the (lenstring_data s))
      else case cstring s of Some c \<Rightarrow> cstr c | None \<Rightarrow> [])"

definition wf_string :: "mqtt_string \<Rightarrow> bool" where
  "wf_string s \<longleftrightarrow>
     (case cstring s of
        Some c \<Rightarrow> lenstring_len s = 0 \<and> length (cstr c) < 65536
      | None \<Rightarrow> 0 \<le> lenstring_len s \<and> lenstring_len s < 65536 \<and>
          (lenstring_len s > 0 \<longrightarrow>
             (\<exists>d. lenstring_data s = Some d \<and> lenstring_len s \<le> int (length d))))"

lemma wf_string_facts:
  assumes "wf_string s"
  shows "writeMQTTString s = Some (writeInt (int (length (string_bytes s))) @ string_bytes s)"
    and "MQTTstrlen s = int (length (string_bytes s))"
    and "length (string_bytes s) < 65536"
  using assms
  by (auto simp: wf_string_def writeMQTTString_def string_bytes_def MQTTstrlen_def copy_from_def
      writeCString_def split: option.splits)

lemma readMQTTLenString_written: "length x < 65536 \<Longrightarrow> 2 + int (length x) \<le> n \<Longrightarrow>
    readMQTTLenString s (writeInt (int (length x)) @ x @ m) n =
      Some (True, \<lparr>cstring = None, lenstring_len = int (length x), lenstring_data = Some (x @ m)\<rparr>,
        m, n - 2 - int (length x))"
  by (simp add: readMQTTLenString_def readInt_writeInt)

lemma readMQTTLenString_short: "n \<le> 1 \<Longrightarrow>
    readMQTTLenString s m n = Some (False, s\<lparr>cstring := None\<rparr>, m, n)"
  by (simp add: readMQTTLenString_def)

text \<open>A string as it is on the wire, and the structure that reading it gives.\<close>

definition counted :: "bytes \<Rightarrow> bytes" where "counted x = writeInt (int (length x)) @ x"

lemma length_counted [simp]: "length (counted x) = 2 + length x"
  by (simp add: counted_def)

abbreviation received :: "bytes \<Rightarrow> bytes \<Rightarrow> mqtt_string" where
  "received x m \<equiv> \<lparr>cstring = None, lenstring_len = int (length x), lenstring_data = Some (x @ m)\<rparr>"

lemma string_bytes_received [simp]: "string_bytes (received x m) = x"
  by (simp add: string_bytes_def)

lemma writeMQTTString_counted: "wf_string s \<Longrightarrow> writeMQTTString s = Some (counted (string_bytes s))"
  by (simp add: counted_def wf_string_facts(1))

lemma readMQTTLenString_counted: "length x < 65536 \<Longrightarrow> 2 + int (length x) \<le> n \<Longrightarrow>
    readMQTTLenString s (counted x @ m) n = Some (True, received x m, m, n - (2 + int (length x)))"
  by (simp add: counted_def readMQTTLenString_written)

section \<open>Blocking and non-blocking reading\<close>

text \<open>A transport that has all the bytes already: it delivers what is asked for.\<close>

definition list_getfn :: "bytes getfn" where
  "list_getfn s n = (int (length (take n s)), take n s, drop n s)"

interpretation listed: byte_source list_getfn "\<lambda>m. m"
  by unfold_locales (simp add: list_getfn_def)

definition start_transport :: "'s \<Rightarrow> 's transport" where
  "start_transport s = \<lparr>sck = s, tr_multiplier = 0, tr_rem_len = 0, tr_len = 0, tr_state = 0\<rparr>"

lemma read_packet:
  assumes "length d < 268435456"
    "1 + int (length (MQTTPacket_encode (int (length d)))) + int (length d) \<le> buflen"
  shows "MQTTPacket_read buflen list_getfn (h # MQTTPacket_encode (int (length d)) @ d @ rest)
    = (uint (header_type h), h # MQTTPacket_encode (int (length d)) @ d, rest)"
  using assms listed.decode_encode [of "int (length d)" "d @ rest"]
  by (simp add: MQTTPacket_read_def list_getfn_def Let_def)

lemma put_twice: "length e = k \<Longrightarrow> 0 < length buf \<Longrightarrow>
    put (put (put buf 0 [h]) 1 e) (1 + int k) d = h # e @ d @ drop (1 + k + length d) buf"
  by (cases buf) (simp_all add: put_def nat_add_distrib add.commute)

lemma readnb_packet:
  fixes d rest buf :: bytes and h :: byte and buflen :: int
  defines "e \<equiv> MQTTPacket_encode (int (length d))"
  defines "r \<equiv> MQTTPacket_readnb buflen list_getfn (start_transport (h # e @ d @ rest)) buf"
  assumes "length d < 268435456" "1 + int (length e) + int (length d) \<le> buflen" "0 < length buf"
  shows "d \<noteq> [] \<Longrightarrow> \<exists>trp. r = (uint (header_type h), trp,
      h # e @ d @ drop (1 + length e + length d) buf) \<and> sck trp = rest \<and> tr_state trp = 0"
    and "d = [] \<Longrightarrow> \<exists>trp. r = (0, trp, h # e @ drop (1 + length e) buf) \<and> sck trp = rest \<and>
      tr_state trp = 2 \<and> tr_rem_len trp = 0"
proof -
  let ?t = "(start_transport (h # e @ d @ rest))\<lparr>sck := e @ d @ rest, tr_state := 0, tr_len := 0,
    tr_state := 1\<rparr>"
  obtain mult where "MQTTPacket_decodenb list_getfn ?t = (int (length e),
      ?t\<lparr>sck := d @ rest, tr_multiplier := mult, tr_rem_len := int (length d), tr_len := int (length e)\<rparr>)"
    using listed.decodenb_encode [of "int (length d)" ?t "d @ rest"] assms(3)
    by (auto simp: e_def start_transport_def)
  moreover have "e \<noteq> []" "int (length e) \<noteq> -1" using encode_last [of "int (length d)"] by (simp_all add: e_def)
  moreover have "d = [] \<Longrightarrow> MQTTPacket_encode 0 = e" by (simp add: e_def)
  ultimately show "d \<noteq> [] \<Longrightarrow> \<exists>trp. r = (uint (header_type h), trp,
      h # e @ d @ drop (1 + length e + length d) buf) \<and> sck trp = rest \<and> tr_state trp = 0"
    and "d = [] \<Longrightarrow> \<exists>trp. r = (0, trp, h # e @ drop (1 + length e) buf) \<and> sck trp = rest \<and>
      tr_state trp = 2 \<and> tr_rem_len trp = 0"
    using assms(3-5) put_twice [of e "length e" buf h d]
    by (auto simp: r_def MQTTPacket_readnb_def readnb_length_def readnb_data_def Let_def
        start_transport_def list_getfn_def MQTTPACKET_READ_ERROR_def simp flip: e_def)
qed

text \<open>
  When the whole packet is there, \<open>MQTTPacket_readnb\<close> does what \<open>MQTTPacket_read\<close> does: the
  same packet type, the packet in the buffer, the rest of the source untouched, and the
  transport ready for the next packet.  The exception is a packet without a body, such as
  PINGRESP: reading its zero bytes looks like no data, so \<open>readnb\<close> asks to be called again, and
  every further call changes nothing and asks again, whatever follows in the source.
\<close>

theorem readnb_agrees_with_read:
  fixes d rest buf :: bytes and h :: byte and buflen :: int
  defines "packet \<equiv> h # MQTTPacket_encode (int (length d)) @ d"
  assumes "length d < 268435456" "int (length packet) \<le> buflen" "0 < length buf"
  shows "MQTTPacket_read buflen list_getfn (packet @ rest) = (uint (header_type h), packet, rest) \<and>
    (\<exists>rc trp. MQTTPacket_readnb buflen list_getfn (start_transport (packet @ rest)) buf
        = (rc, trp, packet @ drop (length packet) buf) \<and> sck trp = rest \<and>
      (if d = []
       then rc = 0 \<and> (\<forall>buf'. MQTTPacket_readnb buflen list_getfn trp buf' = (0, trp, buf'))
       else rc = uint (header_type h) \<and> tr_state trp = 0))"
proof (cases "d = []")
  case True
  then obtain trp where "MQTTPacket_readnb buflen list_getfn (start_transport (packet @ rest)) buf
        = (0, trp, packet @ drop (length packet) buf)"
      and trp: "sck trp = rest" "tr_state trp = 2" "tr_rem_len trp = 0"
    using readnb_packet(2) [of d buflen buf h rest] assms by auto
  moreover have "trp\<lparr>sck := rest\<rparr> = trp" using trp(1) by simp
  then have "MQTTPacket_readnb buflen list_getfn trp buf' = (0, trp, buf')" for buf'
    using trp by (simp add: MQTTPacket_readnb_def readnb_data_def list_getfn_def put_def)
  ultimately show ?thesis
    using True trp read_packet [of d buflen h rest] assms by auto
next
  case False
  then show ?thesis
    using readnb_packet(1) [of d buflen buf h rest] read_packet [of d buflen h rest] assms
    by auto
qed

lemma readnb_agrees_with_read_witness:
  "\<exists>rc trp. MQTTPacket_readnb 10 list_getfn (start_transport ((0xD0 # MQTTPacket_encode (int (length [])) @ []) @ [1, 2])) [0, 0, 0]
      = (rc, trp, (0xD0 # MQTTPacket_encode (int (length [])) @ []) @ drop (length (0xD0 # MQTTPacket_encode (int (length [])) @ [])) [0, 0, 0]) \<and> rc = 0"
  using readnb_agrees_with_read [of "[]" "0xD0" 10 "[0, 0, 0]" "[1, 2]"]
  by (auto simp: encode_small)

end
