(* ===== verification/MqttPublish.thy ===== *)
theory MqttPublish
  imports MqttPacket
begin

text \<open>
  PUBLISH and the acknowledgements: \<open>MQTTPacket/src/MQTTSerializePublish.c\<close> and
  \<open>MQTTPacket/src/MQTTDeserializePublish.c\<close>.  A serializer gives its return code and the bytes it
  writes to the buffer; \<open>None\<close> is a read behind an object.
\<close>

section \<open>Serializers\<close>

definition MQTTSerialize_publishLength :: "int \<Rightarrow> mqtt_string \<Rightarrow> int \<Rightarrow> int" where
  "MQTTSerialize_publishLength qos topicName payloadlen =
     2 + MQTTstrlen topicName + payloadlen + (if qos > 0 then 2 else 0)"

text \<open>The return code of a serializer that went through is the number of bytes written.\<close>

definition packet_written :: "bytes \<Rightarrow> int \<times> bytes" where
  "packet_written w = (int (length w), w)"

definition MQTTSerialize_publish :: "int \<Rightarrow> byte \<Rightarrow> int \<Rightarrow> byte \<Rightarrow> u16 \<Rightarrow> mqtt_string \<Rightarrow> bytes \<Rightarrow> int \<Rightarrow>
    (int \<times> bytes) option" where
  "MQTTSerialize_publish buflen dup qos retained packetid topicName payload payloadlen =
     (let rem_len = MQTTSerialize_publishLength qos topicName payloadlen in
      if MQTTPacket_len rem_len > buflen then Some (MQTTPACKET_BUFFER_TOO_SHORT, [])
      else do {
        topic \<leftarrow> writeMQTTString topicName;
        data \<leftarrow> copy_from payload payloadlen;
        Some (packet_written ([header_byte PUBLISH dup (of_int qos) retained]
          @ MQTTPacket_encode rem_len @ topic
          @ (if qos > 0 then writeInt (uint packetid) else []) @ data))
      })"

definition MQTTSerialize_ack :: "int \<Rightarrow> byte \<Rightarrow> byte \<Rightarrow> u16 \<Rightarrow> int \<times> bytes" where
  "MQTTSerialize_ack buflen packettype dup packetid =
     (if buflen < 4 then (MQTTPACKET_BUFFER_TOO_SHORT, [])
      else packet_written ([header_byte packettype dup (if packettype = PUBREL then 1 else 0) 0]
        @ MQTTPacket_encode 2 @ writeInt (uint packetid)))"

definition MQTTSerialize_puback :: "int \<Rightarrow> u16 \<Rightarrow> int \<times> bytes" where
  "MQTTSerialize_puback buflen packetid = MQTTSerialize_ack buflen PUBACK 0 packetid"

definition MQTTSerialize_pubrel :: "int \<Rightarrow> byte \<Rightarrow> u16 \<Rightarrow> int \<times> bytes" where
  "MQTTSerialize_pubrel buflen dup packetid = MQTTSerialize_ack buflen PUBREL dup packetid"

definition MQTTSerialize_pubcomp :: "int \<Rightarrow> u16 \<Rightarrow> int \<times> bytes" where
  "MQTTSerialize_pubcomp buflen packetid = MQTTSerialize_ack buflen PUBCOMP 0 packetid"

section \<open>Deserializers\<close>

text \<open>
  The out-parameters: \<open>None\<close> is a parameter the function has not written.  The topic name is a
  structure of the caller that the function may fill in part.
\<close>

record publish_out =
  po_dup :: "byte option"
  po_qos :: "int option"
  po_retained :: "byte option"
  po_packetid :: "u16 option"
  po_topicName :: mqtt_string
  po_payload :: "bytes option"
  po_payloadlen :: "int option"

definition no_publish :: "mqtt_string \<Rightarrow> publish_out" where
  "no_publish topicName = \<lparr>po_dup = None, po_qos = None, po_retained = None, po_packetid = None,
     po_topicName = topicName, po_payload = None, po_payloadlen = None\<rparr>"

text \<open>\<open>rc\<close> holds the number of length bytes when the function leaves at \<open>readMQTTLenString\<close>.\<close>

definition MQTTDeserialize_publish :: "mqtt_string \<Rightarrow> bytes \<Rightarrow> (int \<times> publish_out) option" where
  "MQTTDeserialize_publish topicName buf = do {
     (h, m) \<leftarrow> readChar buf;
     if header_type h \<noteq> PUBLISH then Some (0, no_publish topicName)
     else do {
       let qos = uint (header_qos h);
       let out = (no_publish topicName)\<lparr>po_dup := Some (header_dup h), po_qos := Some qos,
                   po_retained := Some (header_retain h)\<rparr>;
       (rc, mylen) \<leftarrow> MQTTPacket_decodeBuf m;
       (ok, topic, m, n) \<leftarrow> readMQTTLenString topicName (drop rc m) mylen;
       let out = out\<lparr>po_topicName := topic\<rparr>;
       if \<not> ok \<or> n < 0 then Some (int rc, out)
       else if qos > 0 then do {
         (i, m) \<leftarrow> readInt m;
         Some (1, out\<lparr>po_packetid := Some (of_int i), po_payload := Some m,
                      po_payloadlen := Some (n - 2)\<rparr>)
       }
       else Some (1, out\<lparr>po_payload := Some m, po_payloadlen := Some n\<rparr>)
     }
   }"

record ack_out =
  ao_packettype :: byte
  ao_dup :: byte
  ao_packetid :: "u16 option"

definition MQTTDeserialize_ack :: "bytes \<Rightarrow> (int \<times> ack_out) option" where
  "MQTTDeserialize_ack buf = do {
     (h, m) \<leftarrow> readChar buf;
     let out = \<lparr>ao_packettype = header_type h, ao_dup = header_dup h, ao_packetid = None\<rparr>;
     (rc, mylen) \<leftarrow> MQTTPacket_decodeBuf m;
     if mylen < 2 then Some (int rc, out)
     else do {
       (i, m) \<leftarrow> readInt (drop rc m);
       Some (1, out\<lparr>ao_packetid := Some (of_int i)\<rparr>)
     }
   }"

section \<open>Round trips\<close>

lemma take_bit_id: "w < 2 ^ n \<Longrightarrow> n < 8 \<Longrightarrow> take_bit n w = (w :: byte)"
  using word_2p_lem [of n w]
  by (simp add: word_size word_uint_eq_iff unsigned_take_bit_eq take_bit_int_eq_self)

lemma readInt_packetid: "readInt (writeInt (uint (p :: u16)) @ m) = Some (uint p, m)"
  using uint_lt2p [of p] by (intro readInt_writeInt) simp_all

lemma qos_byte: "0 \<le> qos \<Longrightarrow> qos \<le> 3 \<Longrightarrow> uint (take_bit 2 (of_int qos :: byte)) = qos"
proof -
  assume q: "0 \<le> qos" "qos \<le> 3"
  then have "uint (of_int qos :: byte) = qos" by (simp add: uint_word_of_int)
  then show ?thesis using q by (simp only: unsigned_take_bit_eq) (simp add: take_bit_eq_mod)
qed

lemma deserialize_publish_body:
  assumes "0 \<le> rem" "rem < 268435456" "0 \<le> qos" "qos \<le> 3" "dup < 2" "retained < 2"
    and "length x < 65536" "rem = 2 + int (length x) + int (length pid) + int (length d)"
    and "pid = (if qos > 0 then writeInt (uint (packetid :: u16)) else [])"
  shows "MQTTDeserialize_publish t ([header_byte PUBLISH dup (of_int qos) retained]
      @ MQTTPacket_encode rem @ (writeInt (int (length x)) @ x) @ pid @ d @ rest) =
    Some (1, \<lparr>po_dup = Some dup, po_qos = Some qos, po_retained = Some retained,
      po_packetid = (if qos > 0 then Some packetid else None),
      po_topicName = \<lparr>cstring = None, lenstring_len = int (length x),
        lenstring_data = Some (x @ pid @ d @ rest)\<rparr>,
      po_payload = Some (d @ rest), po_payloadlen = Some (int (length d))\<rparr>)"
proof -
  have t: "take_bit 4 PUBLISH = PUBLISH" by (simp add: PUBLISH_def)
  have b: "take_bit 1 dup = dup" "take_bit 1 retained = retained"
    using assms by (simp_all only: take_bit_id power_one_right)
  have n: "2 + int (length x) \<le> rem" using assms(8) by simp
  show ?thesis
    unfolding MQTTDeserialize_publish_def append_Cons append_Nil readChar.simps bind.simps
      prod.case header_bits t b qos_byte [OF assms(3,4)] decodeBuf_encode [OF assms(1,2)]
    using assms(7,8,9) n
    by (simp add: readMQTTLenString_written readInt_packetid no_publish_def)
qed


text \<open>
  C37: A publish that fits the buffer is serialized without an overrun, the return code is the
  number of bytes written, and deserializing these bytes, whatever follows them, gives back the
  flags, the quality of service, the packet id (for a quality of service above 0 only), the
  topic name and the payload.
\<close>

theorem publish_roundtrip:
  assumes topic: "wf_string topicName"
    and hdr: "dup < 2" "0 \<le> qos" "qos \<le> 3" "retained < 2"
    and payload: "0 \<le> payloadlen" "payloadlen \<le> int (length payload)"
    and fits: "MQTTSerialize_publishLength qos topicName payloadlen < 268435456"
      "MQTTPacket_len (MQTTSerialize_publishLength qos topicName payloadlen) \<le> buflen"
  shows "\<exists>w out. MQTTSerialize_publish buflen dup qos retained packetid topicName payload payloadlen
        = Some (int (length w), w) \<and> int (length w) \<le> buflen \<and>
      MQTTDeserialize_publish t (w @ rest) = Some (1, out) \<and>
      po_dup out = Some dup \<and> po_qos out = Some qos \<and> po_retained out = Some retained \<and>
      po_packetid out = (if qos > 0 then Some packetid else None) \<and>
      string_bytes (po_topicName out) = string_bytes topicName \<and>
      po_payload out = Some (take (nat payloadlen) payload @ rest) \<and>
      po_payloadlen out = Some payloadlen"
proof -
  define x where "x = string_bytes topicName"
  define pid where "pid = (if qos > 0 then writeInt (uint packetid) else [])"
  define d where "d = take (nat payloadlen) payload"
  define rem where "rem = MQTTSerialize_publishLength qos topicName payloadlen"
  note str = wf_string_facts [OF topic, folded x_def]
  have d: "int (length d) = payloadlen" using payload by (simp add: d_def)
  have rem: "rem = 2 + int (length x) + int (length pid) + int (length d)"
    by (simp add: rem_def MQTTSerialize_publishLength_def str pid_def d)
  define w where "w = [header_byte PUBLISH dup (of_int qos) retained] @ MQTTPacket_encode rem
    @ (writeInt (int (length x)) @ x) @ pid @ d"
  have ser: "MQTTSerialize_publish buflen dup qos retained packetid topicName payload payloadlen
      = Some (int (length w), w)"
    using fits payload
    by (simp add: MQTTSerialize_publish_def packet_written_def str copy_from_def w_def d_def pid_def
        flip: rem_def)
  have r: "0 \<le> rem" "rem < 268435456" using rem fits by (simp_all flip: rem_def)
  have "int (length w) \<le> buflen"
    using encode_bytes_le [OF r] fits(2) rem by (simp add: w_def flip: rem_def)
  moreover have "string_bytes \<lparr>cstring = None, lenstring_len = int (length x),
      lenstring_data = Some (x @ m)\<rparr> = x" for m
    by (simp add: string_bytes_def)
  ultimately show ?thesis
    using ser deserialize_publish_body [OF r hdr(2,3,1,4) str(3) rem pid_def, of t rest] d
    by (simp add: w_def flip: x_def d_def)
qed

lemma publish_roundtrip_witness:
  "\<exists>w out. MQTTSerialize_publish 32 0 1 1 7 \<lparr>cstring = Some [97, 0], lenstring_len = 0,
      lenstring_data = None\<rparr> [1, 2, 3] 3 = Some (int (length w), w) \<and> int (length w) \<le> 32 \<and>
    MQTTDeserialize_publish MQTTString_initializer (w @ [9]) = Some (1, out) \<and>
    po_dup out = Some 0 \<and> po_qos out = Some 1 \<and> po_retained out = Some 1 \<and>
    po_packetid out = Some 7 \<and> string_bytes (po_topicName out) = [97] \<and>
    po_payload out = Some [1, 2, 3, 9] \<and> po_payloadlen out = Some 3"
  using publish_roundtrip [of "\<lparr>cstring = Some [97, 0], lenstring_len = 0, lenstring_data = None\<rparr>"
      0 1 1 3 "[1, 2, 3]" 32 7 MQTTString_initializer "[9]"]
  by (simp add: wf_string_def string_bytes_def cstr_def MQTTSerialize_publishLength_def
      MQTTstrlen_def MQTTPacket_len_def Let_def)

text \<open>
  A PUBLISH packet whose remaining length is 0 or 1 has no room for a topic name, and
  \<open>MQTTDeserialize_publish\<close> leaves early, but with the return code 1 of success and the payload
  and its length unwritten: \<open>rc\<close> still holds the number of length bytes.
\<close>

theorem publish_truncated_reported_as_success:
  assumes "header_type h = PUBLISH" "n < 2"
  shows "\<exists>out. MQTTDeserialize_publish t (h # of_nat n # m) = Some (1, out) \<and>
    po_payload out = None \<and> po_payloadlen out = None \<and> po_packetid out = None"
  using assms decodeBuf_encode [of "int n" m]
  by (simp add: MQTTDeserialize_publish_def encode_small readMQTTLenString_short no_publish_def)

lemma publish_truncated_witness:
  "\<exists>out. MQTTDeserialize_publish MQTTString_initializer [0x30, 0] = Some (1, out) \<and>
    po_payload out = None \<and> po_payloadlen out = None"
proof -
  have "header_type 0x30 = PUBLISH" unfolding header_type_def PUBLISH_def by simp
  then show ?thesis
    using publish_truncated_reported_as_success [of "0x30" 0 MQTTString_initializer "[]"] by auto
qed

text \<open>
  An acknowledgement is four bytes long, and deserializing it gives back the packet type, the
  dup flag and the packet id.
\<close>

theorem ack_roundtrip:
  assumes "packettype < 16" "dup < 2" "4 \<le> buflen"
  shows "\<exists>w. MQTTSerialize_ack buflen packettype dup packetid = (4, w) \<and> length w = 4 \<and>
    MQTTDeserialize_ack (w @ rest) =
      Some (1, \<lparr>ao_packettype = packettype, ao_dup = dup, ao_packetid = Some packetid\<rparr>)"
proof -
  have t: "take_bit 4 packettype = packettype" "take_bit 1 dup = dup"
    using assms take_bit_id [of packettype 4] take_bit_id [of dup 1] by simp_all
  define w where "w = [header_byte packettype dup (if packettype = PUBREL then 1 else 0) 0]
    @ MQTTPacket_encode 2 @ writeInt (uint packetid)"
  have "MQTTSerialize_ack buflen packettype dup packetid = (4, w)"
    using assms by (simp add: MQTTSerialize_ack_def packet_written_def w_def encode_small)
  moreover have "MQTTDeserialize_ack (w @ rest) =
      Some (1, \<lparr>ao_packettype = packettype, ao_dup = dup, ao_packetid = Some packetid\<rparr>)"
    unfolding w_def MQTTDeserialize_ack_def append_assoc append_Cons append_Nil readChar.simps
      bind.simps prod.case header_bits t
    by (subst decodeBuf_encode) (simp_all add: readInt_packetid)
  ultimately show ?thesis by (simp add: w_def encode_small)
qed

lemma ack_roundtrip_witness:
  "\<exists>w. MQTTSerialize_ack 4 PUBREL 1 513 = (4, w) \<and> length w = 4 \<and>
    MQTTDeserialize_ack (w @ [1]) =
      Some (1, \<lparr>ao_packettype = PUBREL, ao_dup = 1, ao_packetid = Some 513\<rparr>)"
  by (rule ack_roundtrip) (simp_all add: PUBREL_def)

end
