(* ===== verification/MqttConnect.thy ===== *)
theory MqttConnect
  imports MqttPublish
begin

text \<open>
  CONNECT, CONNACK and the packets without a body: \<open>MQTTPacket/src/MQTTConnectClient.c\<close>,
  \<open>MQTTPacket/src/MQTTConnectServer.c\<close> and the types of \<open>MQTTConnect.h\<close>.
\<close>

section \<open>Flags\<close>

definition connect_flags :: "byte \<Rightarrow> byte \<Rightarrow> byte \<Rightarrow> byte \<Rightarrow> bool \<Rightarrow> bool \<Rightarrow> byte" where
  "connect_flags cleansession will willQoS willRetain password username =
     push_bit 1 (cleansession AND 1) OR push_bit 2 (will AND 1) OR push_bit 3 (willQoS AND 3)
     OR push_bit 5 (willRetain AND 1) OR push_bit 6 (of_bool password)
     OR push_bit 7 (of_bool username)"

definition flag_cleansession :: "byte \<Rightarrow> byte" where "flag_cleansession f = drop_bit 1 f AND 1"
definition flag_will :: "byte \<Rightarrow> byte" where "flag_will f = drop_bit 2 f AND 1"
definition flag_willQoS :: "byte \<Rightarrow> byte" where "flag_willQoS f = drop_bit 3 f AND 3"
definition flag_willRetain :: "byte \<Rightarrow> byte" where "flag_willRetain f = drop_bit 5 f AND 1"
definition flag_password :: "byte \<Rightarrow> byte" where "flag_password f = drop_bit 6 f AND 1"
definition flag_username :: "byte \<Rightarrow> byte" where "flag_username f = drop_bit 7 f AND 1"

text \<open>\<open>MQTTConnackFlags\<close> has seven unused bits before \<open>sessionpresent\<close>, which is so bit 7.\<close>

definition connack_flags :: "byte \<Rightarrow> byte" where
  "connack_flags sessionpresent = push_bit 7 (sessionpresent AND 1)"

definition flag_sessionpresent :: "byte \<Rightarrow> byte" where "flag_sessionpresent f = drop_bit 7 f AND 1"

section \<open>Connect options\<close>

record will_options =
  wo_topicName :: mqtt_string
  wo_message :: mqtt_string
  wo_retained :: byte
  wo_qos :: byte

record connect_data =
  cd_MQTTVersion :: byte
  cd_clientID :: mqtt_string
  cd_keepAliveInterval :: u16
  cd_cleansession :: byte
  cd_willFlag :: byte
  cd_will :: will_options
  cd_username :: mqtt_string
  cd_password :: mqtt_string

definition MQTTPacket_willOptions_initializer :: will_options where
  "MQTTPacket_willOptions_initializer = \<lparr>wo_topicName = MQTTString_initializer,
     wo_message = MQTTString_initializer, wo_retained = 0, wo_qos = 0\<rparr>"

definition MQTTPacket_connectData_initializer :: connect_data where
  "MQTTPacket_connectData_initializer = \<lparr>cd_MQTTVersion = 4, cd_clientID = MQTTString_initializer,
     cd_keepAliveInterval = 60, cd_cleansession = 1, cd_willFlag = 0,
     cd_will = MQTTPacket_willOptions_initializer, cd_username = MQTTString_initializer,
     cd_password = MQTTString_initializer\<rparr>"

definition string_given :: "mqtt_string \<Rightarrow> bool" where
  "string_given s \<longleftrightarrow> cstring s \<noteq> None \<or> lenstring_data s \<noteq> None"

section \<open>The client's side\<close>

definition MQTTSerialize_connectLength :: "connect_data \<Rightarrow> int" where
  "MQTTSerialize_connectLength options =
     (if cd_MQTTVersion options = 3 then 12 else if cd_MQTTVersion options = 4 then 10 else 0)
     + (MQTTstrlen (cd_clientID options) + 2)
     + (if cd_willFlag options \<noteq> 0
        then MQTTstrlen (wo_topicName (cd_will options)) + 2
           + (MQTTstrlen (wo_message (cd_will options)) + 2) else 0)
     + (if string_given (cd_username options) then MQTTstrlen (cd_username options) + 2 else 0)
     + (if string_given (cd_password options) then MQTTstrlen (cd_password options) + 2 else 0)"

text \<open>The optional strings of the payload.\<close>

definition write_if :: "bool \<Rightarrow> mqtt_string \<Rightarrow> bytes option" where
  "write_if b s = (if b then writeMQTTString s else Some [])"

definition options_flags :: "connect_data \<Rightarrow> byte" where
  "options_flags options =
     (let will = cd_willFlag options \<noteq> 0 in
      connect_flags (cd_cleansession options) (of_bool will)
        (if will then wo_qos (cd_will options) else 0)
        (if will then wo_retained (cd_will options) else 0)
        (string_given (cd_password options)) (string_given (cd_username options)))"

definition MQTTSerialize_connect :: "int \<Rightarrow> connect_data \<Rightarrow> (int \<times> bytes) option" where
  "MQTTSerialize_connect buflen options =
     (let len = MQTTSerialize_connectLength options; will = cd_willFlag options \<noteq> 0 in
      if MQTTPacket_len len > buflen then Some (MQTTPACKET_BUFFER_TOO_SHORT, [])
      else do {
        clientID \<leftarrow> writeMQTTString (cd_clientID options);
        topicName \<leftarrow> write_if will (wo_topicName (cd_will options));
        message \<leftarrow> write_if will (wo_message (cd_will options));
        username \<leftarrow> write_if (string_given (cd_username options)) (cd_username options);
        password \<leftarrow> write_if (string_given (cd_password options)) (cd_password options);
        Some (packet_written ([header_byte CONNECT 0 0 0] @ MQTTPacket_encode len
          @ (if cd_MQTTVersion options = 4 then writeCString (str ''MQTT'') @ [4]
             else writeCString (str ''MQIsdp'') @ [3])
          @ [options_flags options] @ writeInt (uint (cd_keepAliveInterval options))
          @ clientID @ topicName @ message @ username @ password))
      })"

text \<open>The session-present flag and the return code of the connack, or nothing written.\<close>

definition MQTTDeserialize_connack :: "bytes \<Rightarrow> (int \<times> (byte \<times> byte) option) option" where
  "MQTTDeserialize_connack buf = do {
     (h, m) \<leftarrow> readChar buf;
     if header_type h \<noteq> CONNACK then Some (0, None)
     else do {
       (rc, mylen) \<leftarrow> MQTTPacket_decodeBuf m;
       if mylen < 2 then Some (int rc, None)
       else do {
         (f, m) \<leftarrow> readChar (drop rc m);
         (connack_rc, m) \<leftarrow> readChar m;
         Some (1, Some (flag_sessionpresent f, connack_rc))
       }
     }
   }"

definition MQTTSerialize_zero :: "int \<Rightarrow> byte \<Rightarrow> int \<times> bytes" where
  "MQTTSerialize_zero buflen packettype =
     (if buflen < 2 then (MQTTPACKET_BUFFER_TOO_SHORT, [])
      else packet_written ([header_byte packettype 0 0 0] @ MQTTPacket_encode 0))"

definition MQTTSerialize_disconnect :: "int \<Rightarrow> int \<times> bytes" where
  "MQTTSerialize_disconnect buflen = MQTTSerialize_zero buflen DISCONNECT"

definition MQTTSerialize_pingreq :: "int \<Rightarrow> int \<times> bytes" where
  "MQTTSerialize_pingreq buflen = MQTTSerialize_zero buflen PINGREQ"

section \<open>The server's side\<close>

text \<open>\<open>memcmp\<close> compares at most the first \<open>lenstring.len\<close> bytes of the name.\<close>

definition MQTTPacket_checkVersion :: "mqtt_string \<Rightarrow> int \<Rightarrow> bool option" where
  "MQTTPacket_checkVersion protocol version = do {
     data \<leftarrow> lenstring_data protocol;
     if version = 3 then do {
       p \<leftarrow> copy_from data (min 6 (lenstring_len protocol));
       Some (p = take (length p) (str ''MQIsdp''))
     } else if version = 4 then do {
       p \<leftarrow> copy_from data (min 4 (lenstring_len protocol));
       Some (p = take (length p) (str ''MQTT''))
     } else Some False
   }"

definition read_will_options :: "connect_data \<Rightarrow> byte \<Rightarrow> bytes \<Rightarrow> int \<Rightarrow>
    (bool \<times> connect_data \<times> bytes \<times> int) option" where
  "read_will_options data flags m n = do {
     let w = (cd_will data)\<lparr>wo_qos := flag_willQoS flags, wo_retained := flag_willRetain flags\<rparr>;
     (ok, t, m, n) \<leftarrow> readMQTTLenString (wo_topicName w) m n;
     let w = w\<lparr>wo_topicName := t\<rparr>;
     if \<not> ok then Some (False, data\<lparr>cd_will := w\<rparr>, m, n)
     else do {
       (ok, t, m, n) \<leftarrow> readMQTTLenString (wo_message w) m n;
       Some (ok, data\<lparr>cd_will := w\<lparr>wo_message := t\<rparr>\<rparr>, m, n)
     }
   }"

text \<open>\<open>enddata - curdata < 3 || !readMQTTLenString(...)\<close> is a failure.\<close>

definition read_credential :: "mqtt_string \<Rightarrow> bytes \<Rightarrow> int \<Rightarrow>
    (bool \<times> mqtt_string \<times> bytes \<times> int) option" where
  "read_credential s m n = (if n < 3 then Some (False, s, m, n) else readMQTTLenString s m n)"

definition MQTTDeserialize_connect :: "connect_data \<Rightarrow> bytes \<Rightarrow> int \<Rightarrow>
    (int \<times> connect_data) option" where
  "MQTTDeserialize_connect data buf len = do {
     (h, m) \<leftarrow> readChar buf;
     if header_type h \<noteq> CONNECT then Some (0, data)
     else do {
       (k, _) \<leftarrow> MQTTPacket_decodeBuf m;
       (ok, Protocol, m, n) \<leftarrow> readMQTTLenString MQTTString_initializer (drop k m) (len - 1 - int k);
       if \<not> ok \<or> n < 0 then Some (0, data)
       else do {
         (v, m) \<leftarrow> readChar m;
         known \<leftarrow> MQTTPacket_checkVersion Protocol (sint v);
         if \<not> known then Some (0, data)
         else do {
           (flags, m) \<leftarrow> readChar m;
           (keepAlive, m) \<leftarrow> readInt m;
           (ok, s, m, n) \<leftarrow> readMQTTLenString (cd_clientID data) m (n - 4);
           let data = data\<lparr>cd_cleansession := flag_cleansession flags,
                           cd_keepAliveInterval := of_int keepAlive, cd_clientID := s\<rparr>;
           if \<not> ok then Some (0, data)
           else do {
             let data = data\<lparr>cd_willFlag := flag_will flags\<rparr>;
             (ok, data, m, n) \<leftarrow> (if flag_will flags \<noteq> 0 then read_will_options data flags m n
                                  else Some (True, data, m, n));
             if \<not> ok then Some (0, data)
             else if flag_username flags \<noteq> 0 then do {
               (ok, s, m, n) \<leftarrow> read_credential (cd_username data) m n;
               let data = data\<lparr>cd_username := s\<rparr>;
               if \<not> ok then Some (0, data)
               else if flag_password flags \<noteq> 0 then do {
                 (ok, s, m, n) \<leftarrow> read_credential (cd_password data) m n;
                 Some (of_bool ok, data\<lparr>cd_password := s\<rparr>)
               } else Some (1, data)
             }
             else if flag_password flags \<noteq> 0 then Some (0, data)
             else Some (1, data)
           }
         }
       }
     }
   }"

definition MQTTSerialize_connack :: "int \<Rightarrow> byte \<Rightarrow> byte \<Rightarrow> int \<times> bytes" where
  "MQTTSerialize_connack buflen connack_rc sessionPresent =
     (if buflen < 2 then (MQTTPACKET_BUFFER_TOO_SHORT, [])
      else packet_written ([header_byte CONNACK 0 0 0] @ MQTTPacket_encode 2
        @ [connack_flags sessionPresent, connack_rc]))"

section \<open>The flags read back\<close>

lemma mask_byte: "(w::byte) AND 3 = take_bit 2 w" "w AND 1 = take_bit (Suc 0) w"
  using masks by simp_all

lemma bit_connect_flags: "bit (connect_flags c w q r p u) n \<longleftrightarrow> n < 8 \<and> (if n = 0 then False
    else if n = 1 then bit c 0 else if n = 2 then bit w 0 else if n < 5 then bit q (n - 3)
    else if n = 5 then bit r 0 else if n = 6 then p else u)"
  unfolding connect_flags_def mask_byte One_nat_def
  by (simp only: bit_take_bit_iff bit_push_bit_iff bit_or_iff bit_of_bool_iff)
    (auto simp: less_Suc_eq numeral_eq_Suc)

lemma connect_flags_bits:
  "flag_cleansession (connect_flags c w q r p u) = take_bit 1 c"
  "flag_will (connect_flags c w q r p u) = take_bit 1 w"
  "flag_willQoS (connect_flags c w q r p u) = take_bit 2 q"
  "flag_willRetain (connect_flags c w q r p u) = take_bit 1 r"
  "flag_password (connect_flags c w q r p u) = of_bool p"
  "flag_username (connect_flags c w q r p u) = of_bool u"
  unfolding flag_cleansession_def flag_will_def flag_willQoS_def flag_willRetain_def
    flag_password_def flag_username_def mask_byte One_nat_def
  by (rule bit_eqI; simp only: bit_take_bit_iff bit_drop_bit_eq bit_connect_flags bit_of_bool_iff o_def;
      auto simp: less_Suc_eq numeral_eq_Suc)+

lemma flag_sessionpresent_connack: "flag_sessionpresent (connack_flags s) = take_bit 1 s"
  unfolding flag_sessionpresent_def connack_flags_def mask_byte One_nat_def
  by (rule bit_eqI; simp only: bit_take_bit_iff bit_drop_bit_eq bit_push_bit_iff o_def;
      auto simp: less_Suc_eq numeral_eq_Suc)

text \<open>
  Options that the round trip is about: a version the library knows, flags of one bit, strings
  without contradiction, no empty user name or password and no password without a user name.
\<close>

definition wf_options :: "connect_data \<Rightarrow> bool" where
  "wf_options d \<longleftrightarrow> (cd_MQTTVersion d = 3 \<or> cd_MQTTVersion d = 4) \<and> cd_cleansession d \<in> {0, 1} \<and>
     cd_willFlag d \<in> {0, 1} \<and> wf_string (cd_clientID d) \<and>
     (cd_willFlag d \<noteq> 0 \<longrightarrow> wo_qos (cd_will d) \<in> {0, 1, 2, 3} \<and> wo_retained (cd_will d) \<in> {0, 1} \<and>
        wf_string (wo_topicName (cd_will d)) \<and> wf_string (wo_message (cd_will d))) \<and>
     (string_given (cd_username d) \<longrightarrow> wf_string (cd_username d) \<and> string_bytes (cd_username d) \<noteq> []) \<and>
     (string_given (cd_password d) \<longrightarrow> wf_string (cd_password d) \<and> string_bytes (cd_password d) \<noteq> [] \<and>
        string_given (cd_username d))"


definition opt_bytes :: "bool \<Rightarrow> bytes \<Rightarrow> bytes" where "opt_bytes b x = (if b then counted x else [])"

lemma length_opt_bytes: "length (opt_bytes b x) = (if b then 2 + length x else 0)"
  by (simp add: opt_bytes_def)

lemma read_credential_counted: "length x < 65536 \<Longrightarrow> x \<noteq> [] \<Longrightarrow> 2 + int (length x) \<le> n \<Longrightarrow>
    read_credential s (counted x @ m) n = Some (True, received x m, m, n - (2 + int (length x)))"
  by (cases x) (simp_all add: read_credential_def readMQTTLenString_counted)

lemma read_will_counted: "length x < 65536 \<Longrightarrow> length y < 65536 \<Longrightarrow>
    4 + int (length x) + int (length y) \<le> n \<Longrightarrow>
    read_will_options d f (counted x @ counted y @ m) n =
      Some (True, d\<lparr>cd_will := \<lparr>wo_topicName = received x (counted y @ m),
        wo_message = received y m, wo_retained = flag_willRetain f, wo_qos = flag_willQoS f\<rparr>\<rparr>,
        m, n - (4 + int (length x) + int (length y)))"
  by (simp add: read_will_options_def readMQTTLenString_counted)

lemma checkVersion_received:
  "MQTTPacket_checkVersion (received (str ''MQTT'') m) 4 = Some True"
  "MQTTPacket_checkVersion (received (str ''MQIsdp'') m) 3 = Some True"
  by (simp_all add: MQTTPacket_checkVersion_def copy_from_def)

text \<open>The body of a CONNECT packet after the protocol name and version.\<close>

lemma deserialize_connect_body:
  assumes len: "length c < 65536" "length t < 65536" "length msg < 65536" "length u < 65536"
      "length p < 65536"
    and creds: "hu \<Longrightarrow> u \<noteq> []" "hp \<Longrightarrow> p \<noteq> []" "hp \<Longrightarrow> hu"
    and proto: "(proto, v) = (str ''MQTT'', 4) \<or> (proto, v) = (str ''MQIsdp'', 3)"
    and body: "body = counted proto @ [v] @ [connect_flags cs (of_bool hw) q r hp hu]
      @ writeInt (uint (ka :: u16)) @ counted c @ opt_bytes hw t @ opt_bytes hw msg @ opt_bytes hu u
      @ opt_bytes hp p"
    and rem: "rem = int (length body)" "rem < 268435456"
    and w: "w = [header_byte CONNECT 0 0 0] @ MQTTPacket_encode rem @ body"
  shows "\<exists>out. MQTTDeserialize_connect d (w @ rest) (int (length w)) = Some (1, out) \<and>
    cd_cleansession out = take_bit 1 cs \<and> cd_keepAliveInterval out = ka \<and>
    string_bytes (cd_clientID out) = c \<and> cd_willFlag out = of_bool hw \<and>
    (hw \<longrightarrow> string_bytes (wo_topicName (cd_will out)) = t \<and>
      string_bytes (wo_message (cd_will out)) = msg \<and> wo_qos (cd_will out) = take_bit 2 q \<and>
      wo_retained (cd_will out) = take_bit 1 r) \<and>
    (hu \<longrightarrow> string_bytes (cd_username out) = u) \<and> (hp \<longrightarrow> string_bytes (cd_password out) = p) \<and>
    (\<not> hw \<longrightarrow> cd_will out = cd_will d) \<and> (\<not> hu \<longrightarrow> cd_username out = cd_username d) \<and>
    (\<not> hp \<longrightarrow> cd_password out = cd_password d)"
proof -
  have ka: "readInt (writeInt (uint ka) @ m) = Some (uint ka, m)" for m by (rule readInt_packetid)
  have ty: "header_type (header_byte CONNECT 0 0 0) = CONNECT"
    by (simp only: header_bits) (simp add: CONNECT_def)
  have pl: "length proto < 65536" "2 + int (length proto) \<le> rem" and pv: "sint v = (if v = 4 then 4 else 3)"
    and ver: "MQTTPacket_checkVersion (received proto m) (sint v) = Some True" for m
    using proto rem(1) body by (auto simp: MQTTPacket_checkVersion_def copy_from_def)
  have lw: "int (length w) - 1 - int (length (MQTTPacket_encode rem)) = rem"
    using rem w by simp
  have r0: "0 \<le> rem" using rem by simp
  have lens: "rem = 2 + int (length proto) + 4 + 2 + int (length c) + (if hw then 4 + int (length t) + int (length msg) else 0)
     + (if hu then 2 + int (length u) else 0) + (if hp then 2 + int (length p) else 0)"
    using rem(1) body by (simp add: length_opt_bytes)
  have start: "MQTTDeserialize_connect d (w @ rest) (int (length w)) =
    (do { (ok, s, m, n) \<leftarrow> readMQTTLenString (cd_clientID d) (counted c @ opt_bytes hw t @ opt_bytes hw msg @ opt_bytes hu u
      @ opt_bytes hp p @ rest) (rem - 2 - int (length proto) - 4); 
           let data = d\<lparr>cd_cleansession := take_bit 1 cs,
                           cd_keepAliveInterval := ka, cd_clientID := s\<rparr>;
           if \<not> ok then Some (0, data)
           else do {
             let data = data\<lparr>cd_willFlag := of_bool hw\<rparr>;
             (ok, data, m, n) \<leftarrow> (if hw then read_will_options data (connect_flags cs (of_bool hw) q r hp hu) m n
                                  else Some (True, data, m, n));
             if \<not> ok then Some (0, data)
             else if hu then do {
               (ok, s, m, n) \<leftarrow> read_credential (cd_username data) m n;
               let data = data\<lparr>cd_username := s\<rparr>;
               if \<not> ok then Some (0, data)
               else if hp then do {
                 (ok, s, m, n) \<leftarrow> read_credential (cd_password data) m n;
                 Some (of_bool ok, data\<lparr>cd_password := s\<rparr>)
               } else Some (1, data)
             }
             else if hp then Some (0, data)
             else Some (1, data)
           }})"
    unfolding w body append_assoc append_Cons append_Nil MQTTDeserialize_connect_def readChar.simps bind.simps prod.case ty
       decodeBuf_encode [OF r0 rem(2)]
    using pl lw[unfolded w body]
    by (simp add: readMQTTLenString_counted ver ka connect_flags_bits Let_def cong: if_cong)
  show ?thesis
    unfolding start
    using len creds lens
    by (cases hw; cases hu; cases hp) (simp_all add: readMQTTLenString_counted read_will_counted read_credential_counted opt_bytes_def connect_flags_bits)
qed

lemma write_if_counted: "(b \<Longrightarrow> wf_string s) \<Longrightarrow> write_if b s = Some (opt_bytes b (string_bytes s))"
  by (simp add: write_if_def opt_bytes_def counted_def wf_string_facts(1))

lemma string_bytes_short: "wf_string s \<Longrightarrow> length (string_bytes s) < 65536"
  by (rule wf_string_facts(3))

text \<open>
  C38: Connection options with or without will, user name and password, of MQTT version 3 or 4, with
  flags of one bit, strings shorter than 65536 bytes, neither an empty user name nor an empty
  password and no password without a user name, that fit the buffer of the caller, are serialized
  into at most \<open>buflen\<close> bytes, and \<open>MQTTDeserialize_connect\<close> reads every one of them back.
\<close>

theorem connect_roundtrip:
  assumes wf: "wf_options options"
    and fits: "MQTTSerialize_connectLength options < 268435456"
      "MQTTPacket_len (MQTTSerialize_connectLength options) \<le> buflen"
  shows "\<exists>w out. MQTTSerialize_connect buflen options = Some (int (length w), w) \<and>
    int (length w) \<le> buflen \<and>
    MQTTDeserialize_connect d (w @ rest) (int (length w)) = Some (1, out) \<and>
    cd_cleansession out = cd_cleansession options \<and>
    cd_keepAliveInterval out = cd_keepAliveInterval options \<and>
    string_bytes (cd_clientID out) = string_bytes (cd_clientID options) \<and>
    cd_willFlag out = cd_willFlag options \<and>
    (cd_willFlag options \<noteq> 0 \<longrightarrow>
      string_bytes (wo_topicName (cd_will out)) = string_bytes (wo_topicName (cd_will options)) \<and>
      string_bytes (wo_message (cd_will out)) = string_bytes (wo_message (cd_will options)) \<and>
      wo_qos (cd_will out) = wo_qos (cd_will options) \<and>
      wo_retained (cd_will out) = wo_retained (cd_will options)) \<and>
    (string_given (cd_username options) \<longrightarrow>
      string_bytes (cd_username out) = string_bytes (cd_username options)) \<and>
    (string_given (cd_password options) \<longrightarrow>
      string_bytes (cd_password out) = string_bytes (cd_password options))"
proof -
  let ?o = options and ?hw = "cd_willFlag options \<noteq> 0" and ?sb = string_bytes
  define hw hu hp where "hw = ?hw" "hu = string_given (cd_username ?o)" "hp = string_given (cd_password ?o)"
  note opts = wf [unfolded wf_options_def, folded hw_hu_hp_def]
  define t msg u p where "t = (if hw then ?sb (wo_topicName (cd_will ?o)) else [])"
    and "msg = (if hw then ?sb (wo_message (cd_will ?o)) else [])"
    and "u = (if hu then ?sb (cd_username ?o) else [])"
    and "p = (if hp then ?sb (cd_password ?o) else [])"
  define q r where "q = (if hw then wo_qos (cd_will ?o) else 0)"
    and "r = (if hw then wo_retained (cd_will ?o) else 0)"
  define proto v where "proto = (if cd_MQTTVersion ?o = 4 then str ''MQTT'' else str ''MQIsdp'')"
    and "v = (if cd_MQTTVersion ?o = 4 then 4 else 3 :: byte)"
  define body where "body = counted proto @ [v] @ [connect_flags (cd_cleansession ?o) (of_bool hw) q r hp hu]
      @ writeInt (uint (cd_keepAliveInterval ?o)) @ counted (?sb (cd_clientID ?o))
      @ opt_bytes hw t @ opt_bytes hw msg @ opt_bytes hu u @ opt_bytes hp p"
  define rem where "rem = MQTTSerialize_connectLength ?o"
  define w where "w = [header_byte CONNECT 0 0 0] @ MQTTPacket_encode rem @ body"
  have len: "length (?sb (cd_clientID ?o)) < 65536" "length t < 65536" "length msg < 65536"
      "length u < 65536" "length p < 65536"
    using opts by (auto simp: t_def msg_def u_def p_def string_bytes_short)
  have rem: "rem = int (length body)"
    using opts unfolding rem_def MQTTSerialize_connectLength_def body_def hw_hu_hp_def [symmetric]
    by (auto simp: wf_string_facts(2) proto_def length_opt_bytes t_def msg_def u_def p_def)
  have r0: "0 \<le> rem" "rem < 268435456" using rem fits by (simp_all flip: rem_def)
  have le: "int (length w) \<le> buflen"
    using encode_bytes_le [OF r0] fits(2) rem by (simp add: w_def flip: rem_def)
  have fl: "options_flags ?o = connect_flags (cd_cleansession ?o) (of_bool hw) q r hp hu"
    by (simp add: options_flags_def Let_def q_def r_def hw_hu_hp_def)
  have pr: "(if cd_MQTTVersion ?o = 4 then writeCString (str ''MQTT'') @ [4]
      else writeCString (str ''MQIsdp'') @ [3]) = counted proto @ [v]"
    by (simp add: proto_def v_def writeCString_def counted_def)
  have wr: "writeMQTTString (cd_clientID ?o) = Some (counted (?sb (cd_clientID ?o)))"
    "write_if hw (wo_topicName (cd_will ?o)) = Some (opt_bytes hw t)"
    "write_if hw (wo_message (cd_will ?o)) = Some (opt_bytes hw msg)"
    "write_if hu (cd_username ?o) = Some (opt_bytes hu u)"
    "write_if hp (cd_password ?o) = Some (opt_bytes hp p)"
    using opts
    by (auto simp: wf_string_facts(1) write_if_def opt_bytes_def counted_def t_def msg_def u_def p_def)
  have ser: "MQTTSerialize_connect buflen ?o = Some (int (length w), w)"
    using fits unfolding MQTTSerialize_connect_def Let_def hw_hu_hp_def [symmetric] wr fl pr
    by (simp add: packet_written_def w_def body_def flip: rem_def)
  have given: "hu \<Longrightarrow> u \<noteq> []" "hp \<Longrightarrow> p \<noteq> []" "hp \<Longrightarrow> hu" using opts by (simp_all add: u_def p_def)
  have version: "(proto, v) = (str ''MQTT'', 4) \<or> (proto, v) = (str ''MQIsdp'', 3)"
    by (simp add: proto_def v_def)
  note des = deserialize_connect_body [OF len given version body_def rem r0(2) w_def, of d rest]
  have fb: "take_bit 1 (cd_cleansession ?o) = cd_cleansession ?o" "of_bool hw = cd_willFlag ?o"
    "hw \<Longrightarrow> take_bit 2 q = wo_qos (cd_will ?o)" "hw \<Longrightarrow> take_bit 1 r = wo_retained (cd_will ?o)"
    using opts by (auto simp: q_def r_def hw_hu_hp_def)
  obtain out where "MQTTDeserialize_connect d (w @ rest) (int (length w)) = Some (1, out)"
    and out: "cd_cleansession out = take_bit 1 (cd_cleansession ?o)"
      "cd_keepAliveInterval out = cd_keepAliveInterval ?o"
      "string_bytes (cd_clientID out) = string_bytes (cd_clientID ?o)"
      "cd_willFlag out = of_bool hw"
      "hw \<Longrightarrow> string_bytes (wo_topicName (cd_will out)) = t"
      "hw \<Longrightarrow> string_bytes (wo_message (cd_will out)) = msg"
      "hw \<Longrightarrow> wo_qos (cd_will out) = take_bit 2 q"
      "hw \<Longrightarrow> wo_retained (cd_will out) = take_bit 1 r"
      "hu \<Longrightarrow> string_bytes (cd_username out) = u" "hp \<Longrightarrow> string_bytes (cd_password out) = p"
    using des by blast
  moreover have "hw \<Longrightarrow> t = string_bytes (wo_topicName (cd_will ?o))"
      "hw \<Longrightarrow> msg = string_bytes (wo_message (cd_will ?o))"
      "hu \<Longrightarrow> u = string_bytes (cd_username ?o)" "hp \<Longrightarrow> p = string_bytes (cd_password ?o)"
    by (simp_all add: t_def msg_def u_def p_def)
  ultimately show ?thesis using ser le fb unfolding hw_hu_hp_def by metis
qed

definition sample_string :: "byte \<Rightarrow> mqtt_string" where
  "sample_string c = \<lparr>cstring = Some [c, 0], lenstring_len = 0, lenstring_data = None\<rparr>"

definition sample_options :: connect_data where
  "sample_options = \<lparr>cd_MQTTVersion = 4, cd_clientID = sample_string 103,
     cd_keepAliveInterval = 60, cd_cleansession = 1, cd_willFlag = 1,
     cd_will = \<lparr>wo_topicName = sample_string 116, wo_message = sample_string 109, wo_retained = 1,
       wo_qos = 2\<rparr>, cd_username = sample_string 117, cd_password = sample_string 112\<rparr>"

lemma connect_roundtrip_witness:
  "\<exists>w out. MQTTSerialize_connect 64 sample_options = Some (int (length w), w) \<and>
    MQTTDeserialize_connect MQTTPacket_connectData_initializer (w @ []) (int (length w)) = Some (1, out) \<and>
    string_bytes (wo_message (cd_will out)) = [109] \<and> string_bytes (cd_password out) = [112]"
proof -
  have s: "wf_string (sample_string c)" "string_bytes (sample_string c) = [c]"
      "string_given (sample_string c)" "MQTTstrlen (sample_string c) = 1" if "c \<noteq> 0" for c
    using that by (simp_all add: sample_string_def wf_string_def string_bytes_def cstr_def
        string_given_def MQTTstrlen_def)
  have "wf_options sample_options" "MQTTSerialize_connectLength sample_options = 25"
    by (simp_all add: wf_options_def sample_options_def s MQTTSerialize_connectLength_def)
  then show ?thesis
    using connect_roundtrip [of sample_options 64 MQTTPacket_connectData_initializer "[]"]
    by (auto simp: MQTTPacket_len_def sample_options_def s)
qed

text \<open>
  Of the version, \<open>MQTTSerialize_connectLength\<close> knows 3 and 4, while \<open>MQTTSerialize_connect\<close> writes
  protocol name and level for every version: options that are as above but for another version
  pass the check of the buffer and are written at least 11 bytes behind the smallest buffer that
  passes it.
\<close>

theorem unknown_version_overruns:
  assumes wf: "wf_options (options\<lparr>cd_MQTTVersion := 4\<rparr>)"
    and version: "cd_MQTTVersion options \<notin> {3, 4}"
    and short: "MQTTSerialize_connectLength options < 268435456"
  shows "\<exists>w. MQTTSerialize_connect (MQTTPacket_len (MQTTSerialize_connectLength options)) options
      = Some (int (length w), w) \<and>
    MQTTPacket_len (MQTTSerialize_connectLength options) + 11 \<le> int (length w)"
proof -
  let ?o = options and ?sb = string_bytes
  define rem where "rem = MQTTSerialize_connectLength ?o"
  define hw hu hp where "hw = (cd_willFlag ?o \<noteq> 0)" "hu = string_given (cd_username ?o)"
    "hp = string_given (cd_password ?o)"
  note opts = wf [unfolded wf_options_def, simplified, folded hw_hu_hp_def]
  define strings where "strings = counted (?sb (cd_clientID ?o))
    @ opt_bytes hw (?sb (wo_topicName (cd_will ?o))) @ opt_bytes hw (?sb (wo_message (cd_will ?o)))
    @ opt_bytes hu (?sb (cd_username ?o)) @ opt_bytes hp (?sb (cd_password ?o))"
  have rem: "rem = int (length strings)"
    using opts version unfolding rem_def MQTTSerialize_connectLength_def hw_hu_hp_def [symmetric]
    by (auto simp: strings_def wf_string_facts(2) length_opt_bytes)
  then have r: "0 \<le> rem" "rem < 268435456" using short by (simp_all flip: rem_def)
  have wr: "writeMQTTString (cd_clientID ?o) = Some (counted (?sb (cd_clientID ?o)))"
    "write_if hw (wo_topicName (cd_will ?o)) = Some (opt_bytes hw (?sb (wo_topicName (cd_will ?o))))"
    "write_if hw (wo_message (cd_will ?o)) = Some (opt_bytes hw (?sb (wo_message (cd_will ?o))))"
    "write_if hu (cd_username ?o) = Some (opt_bytes hu (?sb (cd_username ?o)))"
    "write_if hp (cd_password ?o) = Some (opt_bytes hp (?sb (cd_password ?o)))"
    using opts by (auto simp: wf_string_facts(1) write_if_def opt_bytes_def counted_def)
  define w where "w = [header_byte CONNECT 0 0 0] @ MQTTPacket_encode rem @ writeCString (str ''MQIsdp'')
    @ [3, options_flags ?o] @ writeInt (uint (cd_keepAliveInterval ?o)) @ strings"
  have "MQTTSerialize_connect (MQTTPacket_len rem) ?o = Some (int (length w), w)"
    using version unfolding MQTTSerialize_connect_def Let_def hw_hu_hp_def [symmetric] wr rem_def
    by (simp add: packet_written_def w_def strings_def rem_def)
  moreover have "int (length w) = 13 + int (length (MQTTPacket_encode rem)) + rem"
    by (simp add: w_def rem writeCString_def)
  ultimately show ?thesis using len_encode_le [OF r] unfolding rem_def by auto
qed

lemma unknown_version_overruns_witness:
  "\<exists>w. MQTTSerialize_connect (MQTTPacket_len 15) (sample_options\<lparr>cd_MQTTVersion := 5\<rparr>)
      = Some (int (length w), w) \<and> MQTTPacket_len 15 + 11 \<le> int (length w)"
proof -
  have s: "wf_string (sample_string c)" "string_bytes (sample_string c) = [c]"
      "string_given (sample_string c)" "MQTTstrlen (sample_string c) = 1" if "c \<noteq> 0" for c
    using that by (simp_all add: sample_string_def wf_string_def string_bytes_def cstr_def
        string_given_def MQTTstrlen_def)
  have "wf_options (sample_options\<lparr>cd_MQTTVersion := 4\<rparr>)"
      "MQTTSerialize_connectLength (sample_options\<lparr>cd_MQTTVersion := 5\<rparr>) = 15"
    by (simp_all add: wf_options_def sample_options_def s MQTTSerialize_connectLength_def)
  then show ?thesis
    using unknown_version_overruns [of "sample_options\<lparr>cd_MQTTVersion := 5\<rparr>"] by simp
qed

section \<open>Connection acknowledgements\<close>

lemma zero_header: "header_type (header_byte CONNACK 0 0 0) = CONNACK"
  by (simp only: header_bits) (simp add: CONNACK_def)

text \<open>
  The session-present flag of a CONNACK is bit 0 of its flags byte in MQTT 3.1.1, but
  \<open>MQTTConnackFlags\<close> takes bit 7: the library reads back what it writes itself, and reads every
  flags byte below 128, with the standard's bit set or not, as an absent session.
\<close>

theorem connack_session_present:
  assumes "sp < 2"
  shows "(\<exists>w. MQTTSerialize_connack 4 rc sp = (4, w) \<and>
      MQTTDeserialize_connack (w @ rest) = Some (1, Some (sp, rc))) \<and>
    (\<forall>f < 128. MQTTDeserialize_connack ([header_byte CONNACK 0 0 0, 2, f, rc] @ rest)
      = Some (1, Some (0, rc)))"
proof -
  have des: "MQTTDeserialize_connack ([header_byte CONNACK 0 0 0, 2, f, rc] @ rest)
      = Some (1, Some (flag_sessionpresent f, rc))" for f
    using decodeBuf_encode [of 2 "f # rc # rest"]
    by (simp add: MQTTDeserialize_connack_def zero_header encode_small)
  have low: "flag_sessionpresent f = 0" if "f < 128" for f
  proof -
    have "take_bit 7 f = f" using take_bit_id [of f 7] that by simp
    then have "drop_bit 7 f = 0" by (metis drop_bit_take_bit diff_self_eq_0 take_bit_0)
    then show ?thesis by (simp add: flag_sessionpresent_def)
  qed
  have "MQTTSerialize_connack 4 rc sp = (4, [header_byte CONNACK 0 0 0, 2, connack_flags sp, rc])"
    by (simp add: MQTTSerialize_connack_def packet_written_def encode_small)
  moreover have "flag_sessionpresent (connack_flags sp) = sp"
    using assms take_bit_id [of sp 1] by (simp add: flag_sessionpresent_connack)
  ultimately show ?thesis using des low by simp
qed

lemma connack_session_present_witness:
  "MQTTDeserialize_connack [header_byte CONNACK 0 0 0, 2, 1, 0] = Some (1, Some (0, 0))"
  using connack_session_present [of 1 0 "[]"] by auto

end
