(* ===== verification/MqttSubscribe.thy ===== *)
theory MqttSubscribe
  imports MqttPublish
begin

text \<open>
  SUBSCRIBE, SUBACK, UNSUBSCRIBE and UNSUBACK: \<open>MQTTPacket/src/MQTTSubscribeClient.c\<close>,
  \<open>MQTTSubscribeServer.c\<close>, \<open>MQTTUnsubscribeClient.c\<close> and \<open>MQTTUnsubscribeServer.c\<close>.  An array
  parameter with its \<open>count\<close> is a list.  The arrays that a deserializer fills belong to the
  caller and have \<open>maxcount\<close> places.  The deserializers of SUBSCRIBE and UNSUBSCRIBE do not look at
  \<open>maxcount\<close>: writing behind these arrays is the result \<open>None\<close>.  The deserializer of SUBACK does, one
  element too late: there the model gives all elements that are written, at most one more than the
  array has.
\<close>

section \<open>Subscribing, the client's side\<close>

definition MQTTSerialize_subscribeLength :: "mqtt_string list \<Rightarrow> int" where
  "MQTTSerialize_subscribeLength topicFilters =
     2 + sum_list (map (\<lambda>t. 2 + MQTTstrlen t + 1) topicFilters)"

text \<open>The loop over the filters and the requested qualities of service.\<close>

fun write_filters :: "(mqtt_string \<times> int) list \<Rightarrow> bytes option" where
  "write_filters [] = Some []"
| "write_filters ((t, q) # r) = do {
     s \<leftarrow> writeMQTTString t;
     w \<leftarrow> write_filters r;
     Some (s @ [of_int q] @ w)
   }"

definition MQTTSerialize_subscribe :: "int \<Rightarrow> byte \<Rightarrow> u16 \<Rightarrow> (mqtt_string \<times> int) list \<Rightarrow>
    (int \<times> bytes) option" where
  "MQTTSerialize_subscribe buflen dup packetid filters =
     (let rem_len = MQTTSerialize_subscribeLength (map fst filters) in
      if MQTTPacket_len rem_len > buflen then Some (MQTTPACKET_BUFFER_TOO_SHORT, [])
      else do {
        w \<leftarrow> write_filters filters;
        Some (packet_written ([header_byte SUBSCRIBE dup 1 0] @ MQTTPacket_encode rem_len
          @ writeInt (uint packetid) @ w))
      })"

text \<open>
  The \<open>while\<close> loop of \<open>MQTTDeserialize_suback\<close>, with \<open>n\<close> bytes up to \<open>enddata\<close>: the return code
  (1 at the end of the data) and the elements of \<open>grantedQoSs\<close>.  A \<open>char\<close> is signed.
\<close>

function read_granted :: "int \<Rightarrow> bytes \<Rightarrow> int \<Rightarrow> int list \<Rightarrow> (int \<times> int list) option" where
  "read_granted maxcount m n granted =
     (if n > 0 then
        if int (length granted) > maxcount then Some (-1, granted)
        else do { (c, m) \<leftarrow> readChar m; read_granted maxcount m (n - 1) (granted @ [sint c]) }
      else Some (1, granted))"
  by pat_completeness auto
termination
  by (relation "measure (\<lambda>(mc, m, n, g). nat n)") auto

declare read_granted.simps [simp del]

definition MQTTDeserialize_suback :: "int \<Rightarrow> bytes \<Rightarrow> (int \<times> (u16 \<times> int list) option) option" where
  "MQTTDeserialize_suback maxcount buf = do {
     (h, m) \<leftarrow> readChar buf;
     if header_type h \<noteq> SUBACK then Some (0, None)
     else do {
       (rc, mylen) \<leftarrow> MQTTPacket_decodeBuf m;
       if mylen < 2 then Some (int rc, None)
       else do {
         (packetid, m) \<leftarrow> readInt (drop rc m);
         (rc, granted) \<leftarrow> read_granted maxcount m (mylen - 2) [];
         Some (rc, Some (of_int packetid, granted))
       }
     }
   }"

section \<open>Subscribing, the server's side\<close>

text \<open>
  The loops that read topic filters: the filters so far (with their quality of service for
  SUBSCRIBE) and whether the loop reached the end of the data.  Every round writes to the element
  of index \<open>count\<close>, a failing one too (\<open>readMQTTLenString\<close> sets \<open>cstring\<close>); without such an
  element the array of the caller is overrun.
\<close>

lemma readInt_nonneg: "readInt m = Some (len, m') \<Longrightarrow> 0 \<le> len"
  by (cases m rule: readInt.cases) auto

lemma readMQTTLenString_decr:
  assumes "readMQTTLenString s m n = Some (True, t, m', n')"
  shows "n' < n \<and> 1 < n"
proof (cases "readInt m")
  case (Some p)
  then obtain len q where "readInt m = Some (len, q)" "0 \<le> len"
    using readInt_nonneg by (cases p) auto
  then show ?thesis using assms by (simp add: readMQTTLenString_def split: if_splits)
qed (use assms in \<open>simp add: readMQTTLenString_def split: if_splits\<close>)

function read_subscribe_filters :: "int \<Rightarrow> bytes \<Rightarrow> int \<Rightarrow> (mqtt_string \<times> int) list \<Rightarrow>
    (bool \<times> (mqtt_string \<times> int) list) option" where
  "read_subscribe_filters maxcount m n filters =
     (if n > 0 then if int (length filters) \<ge> maxcount then None
      else case readMQTTLenString MQTTString_initializer m n of
        None \<Rightarrow> None
      | Some (False, t, m, n) \<Rightarrow> Some (False, filters)
      | Some (True, t, m, n) \<Rightarrow>
          if n \<le> 0 then Some (False, filters)
          else case readChar m of
            None \<Rightarrow> None
          | Some (c, m) \<Rightarrow> read_subscribe_filters maxcount m (n - 1) (filters @ [(t, sint c)])
      else Some (True, filters))"
  by pat_completeness auto
termination
  by (relation "measure (\<lambda>(mc, m, n, f). nat n)") (auto dest: readMQTTLenString_decr)

declare read_subscribe_filters.simps [simp del]

function read_unsubscribe_filters :: "int \<Rightarrow> bytes \<Rightarrow> int \<Rightarrow> mqtt_string list \<Rightarrow>
    (bool \<times> mqtt_string list) option" where
  "read_unsubscribe_filters maxcount m n filters =
     (if n > 0 then if int (length filters) \<ge> maxcount then None
      else case readMQTTLenString MQTTString_initializer m n of
        None \<Rightarrow> None
      | Some (False, t, m, n) \<Rightarrow> Some (False, filters)
      | Some (True, t, m, n) \<Rightarrow> read_unsubscribe_filters maxcount m n (filters @ [t])
      else Some (True, filters))"
  by pat_completeness auto
termination
  by (relation "measure (\<lambda>(mc, m, n, f). nat n)") (auto dest: readMQTTLenString_decr)

declare read_unsubscribe_filters.simps [simp del]

text \<open>
  The results: the return code, and the dup flag, the packet id and the filters read.  A filter
  that does not end within the packet leaves \<open>rc\<close> at the number of length bytes.
\<close>

definition MQTTDeserialize_subscribe :: "int \<Rightarrow> bytes \<Rightarrow>
    (int \<times> (byte \<times> u16 \<times> (mqtt_string \<times> int) list) option) option" where
  "MQTTDeserialize_subscribe maxcount buf = do {
     (h, m) \<leftarrow> readChar buf;
     if header_type h \<noteq> SUBSCRIBE then Some (-1, None)
     else do {
       (rc, mylen) \<leftarrow> MQTTPacket_decodeBuf m;
       (packetid, m) \<leftarrow> readInt (drop rc m);
       (ok, filters) \<leftarrow> read_subscribe_filters maxcount m (mylen - 2) [];
       Some (if ok then 1 else int rc, Some (header_dup h, of_int packetid, filters))
     }
   }"

definition MQTTSerialize_suback :: "int \<Rightarrow> u16 \<Rightarrow> int list \<Rightarrow> int \<times> bytes" where
  "MQTTSerialize_suback buflen packetid grantedQoSs =
     (let count = int (length grantedQoSs) in
      if buflen < 2 + count then (MQTTPACKET_BUFFER_TOO_SHORT, [])
      else packet_written ([header_byte SUBACK 0 0 0] @ MQTTPacket_encode (2 + count)
        @ writeInt (uint packetid) @ map of_int grantedQoSs))"

section \<open>Unsubscribing\<close>

definition MQTTSerialize_unsubscribeLength :: "mqtt_string list \<Rightarrow> int" where
  "MQTTSerialize_unsubscribeLength topicFilters =
     2 + sum_list (map (\<lambda>t. 2 + MQTTstrlen t) topicFilters)"

fun write_strings :: "mqtt_string list \<Rightarrow> bytes option" where
  "write_strings [] = Some []"
| "write_strings (t # r) = do { s \<leftarrow> writeMQTTString t; w \<leftarrow> write_strings r; Some (s @ w) }"

definition MQTTSerialize_unsubscribe :: "int \<Rightarrow> byte \<Rightarrow> u16 \<Rightarrow> mqtt_string list \<Rightarrow>
    (int \<times> bytes) option" where
  "MQTTSerialize_unsubscribe buflen dup packetid filters =
     (let rem_len = MQTTSerialize_unsubscribeLength filters in
      if MQTTPacket_len rem_len > buflen then Some (MQTTPACKET_BUFFER_TOO_SHORT, [])
      else do {
        w \<leftarrow> write_strings filters;
        Some (packet_written ([header_byte UNSUBSCRIBE dup 1 0] @ MQTTPacket_encode rem_len
          @ writeInt (uint packetid) @ w))
      })"

text \<open>The return code is also 1 when \<open>MQTTDeserialize_ack\<close> has failed on a packet of this type.\<close>

definition MQTTDeserialize_unsuback :: "bytes \<Rightarrow> (int \<times> u16 option) option" where
  "MQTTDeserialize_unsuback buf = do {
     (rc, out) \<leftarrow> MQTTDeserialize_ack buf;
     Some (if ao_packettype out = UNSUBACK then 1 else rc, ao_packetid out)
   }"

definition MQTTDeserialize_unsubscribe :: "int \<Rightarrow> bytes \<Rightarrow>
    (int \<times> (byte \<times> u16 \<times> mqtt_string list) option) option" where
  "MQTTDeserialize_unsubscribe maxcount buf = do {
     (h, m) \<leftarrow> readChar buf;
     if header_type h \<noteq> UNSUBSCRIBE then Some (0, None)
     else do {
       (rc, mylen) \<leftarrow> MQTTPacket_decodeBuf m;
       (packetid, m) \<leftarrow> readInt (drop rc m);
       (ok, filters) \<leftarrow> read_unsubscribe_filters maxcount m (mylen - 2) [];
       Some (if ok then 1 else int rc, Some (header_dup h, of_int packetid, filters))
     }
   }"

definition MQTTSerialize_unsuback :: "int \<Rightarrow> u16 \<Rightarrow> int \<times> bytes" where
  "MQTTSerialize_unsuback buflen packetid =
     (if buflen < 2 then (MQTTPACKET_BUFFER_TOO_SHORT, [])
      else packet_written ([header_byte UNSUBACK 0 0 0] @ MQTTPacket_encode 2
        @ writeInt (uint packetid)))"

section \<open>Round trips\<close>

definition filter_bytes :: "(mqtt_string \<times> int) list \<Rightarrow> bytes" where
  "filter_bytes fs = concat (map (\<lambda>(t, q). counted (string_bytes t) @ [of_int q]) fs)"

definition wf_filters :: "(mqtt_string \<times> int) list \<Rightarrow> bool" where
  "wf_filters fs \<longleftrightarrow> list_all (\<lambda>(t, q). wf_string t \<and> 0 \<le> q \<and> q \<le> 2) fs"

lemma filter_bytes_simps [simp]: "filter_bytes [] = []"
  "filter_bytes ((t, q) # fs) = counted (string_bytes t) @ [of_int q] @ filter_bytes fs"
  by (simp_all add: filter_bytes_def)

lemma write_filters_eq: "wf_filters fs \<Longrightarrow> write_filters fs = Some (filter_bytes fs)"
  by (induction fs) (auto simp: wf_filters_def writeMQTTString_counted)

lemma length_filter_bytes: "wf_filters fs \<Longrightarrow>
    2 + int (length (filter_bytes fs)) = MQTTSerialize_subscribeLength (map fst fs)"
  by (induction fs)
    (auto simp: wf_filters_def MQTTSerialize_subscribeLength_def wf_string_facts(2))

lemma sint_qos: "0 \<le> q \<Longrightarrow> q \<le> 2 \<Longrightarrow> sint (of_int q :: byte) = q"
proof -
  assume "0 \<le> q" "q \<le> 2"
  then consider "q = 0" | "q = 1" | "q = 2" by linarith
  then show ?thesis by cases simp_all
qed

definition filter_texts :: "(mqtt_string \<times> int) list \<Rightarrow> (bytes \<times> int) list" where
  "filter_texts fs = map (\<lambda>(t, q). (string_bytes t, q)) fs"

text \<open>
  Reading filters: all of them with enough places in the arrays, and without, an overrun.
\<close>

lemma read_filter_bytes: "wf_filters fs \<Longrightarrow>
    \<exists>gs. filter_texts gs = filter_texts fs \<and>
      read_subscribe_filters maxcount (filter_bytes fs @ rest) (int (length (filter_bytes fs))) acc
        = (if fs = [] \<or> int (length acc + length fs) \<le> maxcount then Some (True, acc @ gs) else None)"
proof (induction fs arbitrary: acc)
  case Nil
  then show ?case by (simp add: read_subscribe_filters.simps [of _ _ 0] filter_texts_def)
next
  case (Cons f fs)
  obtain t q where f: "f = (t, q)" by (cases f)
  with Cons.prems have wf: "wf_string t" "0 \<le> q" "q \<le> 2" "wf_filters fs"
    by (simp_all add: wf_filters_def)
  define x where "x = string_bytes t"
  let ?m = "of_int q # filter_bytes fs @ rest" and ?n = "int (length (filter_bytes (f # fs)))"
  let ?acc = "acc @ [(received x ?m, q)]"
  have "length x < 65536" using wf by (simp add: x_def wf_string_facts(3))
  then have "readMQTTLenString MQTTString_initializer (counted x @ ?m) ?n
      = Some (True, received x ?m, ?m, 1 + int (length (filter_bytes fs)))"
    by (simp add: readMQTTLenString_counted f flip: x_def)
  moreover have "0 < ?n" by (simp add: f)
  ultimately have step: "read_subscribe_filters maxcount (filter_bytes (f # fs) @ rest) ?n acc
      = (if int (length acc) \<ge> maxcount then None
         else read_subscribe_filters maxcount (filter_bytes fs @ rest)
          (int (length (filter_bytes fs))) ?acc)"
    by (subst read_subscribe_filters.simps) (simp add: f wf sint_qos flip: x_def)
  obtain gs where gs: "filter_texts gs = filter_texts fs"
      "read_subscribe_filters maxcount (filter_bytes fs @ rest) (int (length (filter_bytes fs))) ?acc
        = (if fs = [] \<or> int (length ?acc + length fs) \<le> maxcount then Some (True, ?acc @ gs) else None)"
    using Cons.IH [OF wf(4)] by blast
  show ?case
    by (rule exI [of _ "(received x ?m, q) # gs"], unfold step gs(2))
      (use gs(1) in \<open>auto simp: filter_texts_def f x_def\<close>)
qed

text \<open>
  C39: A SUBSCRIBE packet for a list of topic filters that fits its buffer is serialized into at
  most \<open>buflen\<close> bytes.  Deserializing it gives the dup flag, the packet id and the same filters with
  the same qualities of service in the same order if the arrays of the caller have a place for each
  of them (\<open>maxcount\<close>); if they have not, the call writes behind these arrays, which the comment on
  \<open>maxcount\<close> rules out and the code does not check.  The filters are shorter than 65536 bytes and
  their qualities of service are 0, 1 or 2.
\<close>

theorem subscribe_roundtrip:
  assumes wf: "wf_filters fs" and dup: "dup < 2"
    and fits: "MQTTSerialize_subscribeLength (map fst fs) < 268435456"
      "MQTTPacket_len (MQTTSerialize_subscribeLength (map fst fs)) \<le> buflen"
  shows "\<exists>w gs. MQTTSerialize_subscribe buflen dup packetid fs = Some (int (length w), w) \<and>
    int (length w) \<le> buflen \<and>
    MQTTDeserialize_subscribe maxcount (w @ rest) =
      (if fs = [] \<or> int (length fs) \<le> maxcount then Some (1, Some (dup, packetid, gs)) else None) \<and>
    filter_texts gs = filter_texts fs"
proof -
  define rem where "rem = MQTTSerialize_subscribeLength (map fst fs)"
  define w where "w = [header_byte SUBSCRIBE dup 1 0] @ MQTTPacket_encode rem
    @ writeInt (uint packetid) @ filter_bytes fs"
  have rem: "rem = 2 + int (length (filter_bytes fs))"
    using length_filter_bytes [OF wf] by (simp add: rem_def)
  then have r: "0 \<le> rem" "rem < 268435456" using fits by (simp_all flip: rem_def)
  have ser: "MQTTSerialize_subscribe buflen dup packetid fs = Some (int (length w), w)"
    using fits by (simp add: MQTTSerialize_subscribe_def packet_written_def write_filters_eq wf
        w_def flip: rem_def)
  have le: "int (length w) \<le> buflen"
    using encode_bytes_le [OF r] fits(2) rem by (simp add: w_def flip: rem_def)
  obtain gs where gs: "filter_texts gs = filter_texts fs"
      "read_subscribe_filters maxcount (filter_bytes fs @ rest) (int (length (filter_bytes fs))) []
        = (if fs = [] \<or> int (length fs) \<le> maxcount then Some (True, gs) else None)"
    using read_filter_bytes [OF wf, of maxcount rest "[]"] by auto
  have t: "take_bit 4 SUBSCRIBE = SUBSCRIBE" "take_bit 1 dup = dup"
    using take_bit_id [of dup 1] dup by (simp_all add: SUBSCRIBE_def)
  have "MQTTDeserialize_subscribe maxcount (w @ rest) =
      (if fs = [] \<or> int (length fs) \<le> maxcount then Some (1, Some (dup, packetid, gs)) else None)"
    unfolding w_def MQTTDeserialize_subscribe_def append_assoc append_Cons append_Nil
      readChar.simps bind.simps prod.case header_bits t decodeBuf_encode [OF r]
    using gs(2) by (simp add: readInt_packetid rem)
  with ser le gs(1) show ?thesis by blast
qed

lemma subscribe_roundtrip_witness:
  "let fs = [(\<lparr>cstring = Some [97, 0], lenstring_len = 0, lenstring_data = None\<rparr>, 1),
      (\<lparr>cstring = None, lenstring_len = 1, lenstring_data = Some [98]\<rparr>, 2)] in
    (\<exists>w gs. MQTTSerialize_subscribe 16 0 5 fs = Some (int (length w), w) \<and> int (length w) \<le> 16 \<and>
      MQTTDeserialize_subscribe 2 (w @ []) = Some (1, Some (0, 5, gs)) \<and>
      filter_texts gs = [([97], 1), ([98], 2)]) \<and>
    (\<exists>w. MQTTSerialize_subscribe 16 0 5 fs = Some (int (length w), w) \<and>
      MQTTDeserialize_subscribe 1 (w @ []) = None)"
proof -
  let ?fs = "[(\<lparr>cstring = Some [97, 0], lenstring_len = 0, lenstring_data = None\<rparr>, 1),
      (\<lparr>cstring = None, lenstring_len = 1, lenstring_data = Some [98]\<rparr>, 2)]"
  have "wf_filters ?fs" "MQTTSerialize_subscribeLength (map fst ?fs) = 10" "MQTTPacket_len 10 = 12"
      "filter_texts ?fs = [([97], 1), ([98], 2)]"
    by (simp_all add: wf_filters_def wf_string_def filter_texts_def string_bytes_def cstr_def
        MQTTSerialize_subscribeLength_def MQTTstrlen_def MQTTPacket_len_def Let_def)
  then show ?thesis
    using subscribe_roundtrip [of ?fs 0 16 5 2 "[]"] subscribe_roundtrip [of ?fs 0 16 5 1 "[]"]
    by (auto simp: Let_def)
qed

section \<open>Buffer checks of the server's side\<close>

text \<open>
  \<open>MQTTSerialize_suback\<close> and \<open>MQTTSerialize_unsuback\<close> check less than they write: with the
  smallest buffer that passes the check, the suback is two bytes longer than the buffer for up
  to 125 qualities of service, and so is the unsuback.
\<close>

theorem server_serializers_overrun:
  "length granted < 126 \<Longrightarrow>
    fst (MQTTSerialize_suback (2 + int (length granted)) packetid granted)
      = 4 + int (length granted) \<and>
    fst (MQTTSerialize_unsuback 2 packetid) = 4"
  by (simp add: MQTTSerialize_suback_def MQTTSerialize_unsuback_def packet_written_def
      length_encode_small Let_def)

lemma server_serializers_overrun_witness:
  "fst (MQTTSerialize_suback 3 9 [1]) = 5 \<and> fst (MQTTSerialize_unsuback 2 9) = 4"
  using server_serializers_overrun [of "[1]" 9] by simp

lemma read_granted_stops:
  "int (length granted) = maxcount + 1 \<Longrightarrow> 0 < n \<Longrightarrow>
    read_granted maxcount m n granted = Some (-1, granted)"
  by (subst read_granted.simps) simp

text \<open>
  \<open>MQTTDeserialize_suback\<close> compares \<open>*count > maxcount\<close>: given more return codes than the
  caller's array has places, it stores one element more than the array holds before it fails.
\<close>

theorem suback_array_overrun:
  assumes "length cs = maxcount" "0 < k"
  shows "read_granted (int maxcount) (cs @ c # m) (int maxcount + 1 + int k) []
    = Some (-1, map sint (cs @ [c]))"
proof -
  have "read_granted (int maxcount) (cs @ c # m) (int (length cs) + 1 + int k) acc
      = read_granted (int maxcount) m (int k) (acc @ map sint (cs @ [c]))"
    if "length acc + length cs = maxcount" for acc
    using that
  proof (induction cs arbitrary: acc)
    case Nil
    then show ?case by (subst read_granted.simps) simp
  next
    case (Cons a cs)
    then have "read_granted (int maxcount) (cs @ c # m) (int (length cs) + 1 + int k) (acc @ [sint a])
        = read_granted (int maxcount) m (int k) ((acc @ [sint a]) @ map sint (cs @ [c]))"
      by (intro Cons.IH) simp
    then show ?case using Cons.prems by (subst read_granted.simps) (simp add: algebra_simps)
  qed
  from this [of "[]"] show ?thesis
    using assms by (simp add: read_granted_stops)
qed

lemma suback_array_overrun_witness:
  "read_granted 1 [0, 1, 2] 3 [] = Some (-1, [0, 1])"
  using suback_array_overrun [of "[0]" 1 1 1 "[2]"] by simp

end
