(* ===== verification/Sessions.thy ===== *)
theory Sessions
  imports Transactions
begin

text \<open>
  Transactions by device address, on the list of entries that the registry holds.  The abstract
  registry maps an address to the first entry with it (\<open>session\<close>); an operation on the client of
  a transaction updates this entry (\<open>update_first\<close>) and nothing else.  The lemmas give the
  state after each step exactly.
\<close>

section \<open>Looking up a device\<close>

definition session :: "entry_client list \<Rightarrow> device_address \<Rightarrow> entry_client option" where
  "session rs a = List.find (\<lambda>e. ec_client_address e = a) rs"

fun update_first :: "('a \<Rightarrow> bool) \<Rightarrow> ('a \<Rightarrow> 'a) \<Rightarrow> 'a list \<Rightarrow> 'a list" where
  "update_first P f [] = []"
| "update_first P f (x # xs) = (if P x then f x # xs else x # update_first P f xs)"

lemma update_first_at: "i < length xs \<Longrightarrow> Q (xs ! i) \<Longrightarrow> (\<And>j. j < i \<Longrightarrow> \<not> Q (xs ! j)) \<Longrightarrow>
    update_first Q f xs = xs[i := f (xs ! i)]"
proof (induction xs arbitrary: i)
  case (Cons x xs)
  then show ?case
  proof (cases i)
    case (Suc k)
    have "\<not> Q (xs ! j)" if "j < k" for j using Cons.prems(3) [of "Suc j"] that Suc by simp
    then show ?thesis using Cons Suc Cons.prems(3) [of 0] by simp
  qed simp
qed simp

abbreviation at_address :: "device_address \<Rightarrow> entry_client \<Rightarrow> bool" where
  "at_address a \<equiv> (\<lambda>e. ec_client_address e = a)"

lemma find_first_cases:
  obtains (none) "List.find P rs = None" "\<And>e. e \<in> set rs \<Longrightarrow> \<not> P e" "update_first P f rs = rs"
  | (some) i where "i < length rs" "P (rs ! i)" "\<And>j. j < i \<Longrightarrow> \<not> P (rs ! j)"
      "List.find P rs = Some (rs ! i)" "update_first P f rs = rs[i := f (rs ! i)]"
proof (cases "List.find P rs")
  case None
  then have no: "\<And>e. e \<in> set rs \<Longrightarrow> \<not> P e" by (auto simp: find_None_iff)
  moreover have "update_first P f qs = qs" if "set qs \<subseteq> set rs" for qs
    using that no by (induction qs) auto
  ultimately show ?thesis using None by (intro none) auto
next
  case (Some e)
  then obtain i where i: "i < length rs" "P (rs ! i)" "e = rs ! i" "\<And>j. j < i \<Longrightarrow> \<not> P (rs ! j)"
    by (auto simp: find_Some_iff)
  then show ?thesis using Some by (intro some [of i]) (auto intro: update_first_at)
qed

lemma session_cases:
  obtains (none) "session rs a = None" "a \<notin> ec_client_address ` set rs"
      "update_first (at_address a) f rs = rs"
  | (some) i where "i < length rs" "ec_client_address (rs ! i) = a"
      "\<And>j. j < i \<Longrightarrow> ec_client_address (rs ! j) \<noteq> a" "session rs a = Some (rs ! i)"
      "update_first (at_address a) f rs = rs[i := f (rs ! i)]"
  by (rule find_first_cases [of "at_address a" rs f]) (auto simp: session_def)

lemma short_ids: "registry_ok rs \<Longrightarrow> i < length rs \<Longrightarrow>
    length (id_of (rs ! i)) < MAXIMUM_CLIENT_ID_LENGTH"
  using registry_ok_slot [of rs i] by (auto simp: live_def MAXIMUM_CLIENT_ID_LENGTH_def)

lemma empty_client_dec: "dec_client (replicate sizeof_entry_client 0) = empty_client"
  by (simp add: empty_client_def sizeof_entry_client_def)

definition open_transaction :: "entry_client option \<Rightarrow> 'z persistent_scheme \<Rightarrow> 'z persistent_scheme"
  where
  "open_transaction e s = s\<lparr>transaction_started := True, error := False,
     not_in_client_registry := (e = None), entry := (case e of None \<Rightarrow> empty_client | Some x \<Rightarrow> x)\<rparr>"

text \<open>The loop over the registry, on any list of entries with terminated client ids.\<close>

definition registry_file :: "'z persistent_scheme \<Rightarrow> entry_client list \<Rightarrow> bool" where
  "registry_file s rs \<longleftrightarrow> client.holds s client_registry rs \<and> length rs \<le> 65536 \<and>
     (\<forall>e \<in> set rs. length (id_of e) < MAXIMUM_CLIENT_ID_LENGTH)"

lemma reg_file_of: "reg s rs \<Longrightarrow> registry_file s rs"
  using short_ids [of rs] registry_ok_length [of rs]
  by (auto simp: reg_def registry_file_def in_set_conv_nth)

lemma registry_file_members: "files t = files s \<Longrightarrow> rootPath t = rootPath s \<Longrightarrow>
    registry_file s rs \<Longrightarrow> registry_file t rs"
  by (simp add: registry_file_def client.holds_def path_in_def)

lemma find_client_cases:
  assumes "registry_file s rs"
  obtains (found) i where "i < length rs" "P (rs ! i)" "\<And>j. j < i \<Longrightarrow> \<not> P (rs ! j)"
      "List.find P rs = Some (rs ! i)" "\<And>f. update_first P f rs = rs[i := f (rs ! i)]"
      "run_state (find_client P) s = (Returned (rs ! i, of_nat i), s)"
  | (none) "\<And>e. e \<in> set rs \<Longrightarrow> \<not> P e" "List.find P rs = None" "\<And>f. update_first P f rs = rs"
      "run_state (find_client P) s = (Done (of_nat (length rs) + 1) [] (), s)"
proof -
  have h: "client.holds s client_registry rs"
    and short: "\<And>e. e \<in> set rs \<Longrightarrow> length (id_of e) < MAXIMUM_CLIENT_ID_LENGTH"
    using assms by (auto simp: registry_file_def)
  have same: "rec_loop (\<lambda>e n a. if length (id_of e) < MAXIMUM_CLIENT_ID_LENGTH \<and> P e then Inl (e, n)
      else Inr a) qs n () = rec_loop (\<lambda>e n a. if P e then Inl (e, n) else Inr a) qs n ()"
    if "set qs \<subseteq> set rs" for qs and n :: u32
    using that short by (induction qs arbitrary: n) auto
  have run: "run_state (find_client P) s =
      (rec_loop (\<lambda>e n a. if P e then Inl (e, n) else Inr a) rs 0 (), s)"
    using same [of rs 0]
    by (simp add: find_client_def FILE_READ_def client.holds_open [OF h] client.holds_loop [OF h]
        flip: id_of_def)
  show ?thesis
  proof (cases rule: rec_loop_find_cases [of rs P "\<lambda>e n. (e, n)" "0 :: u32" "()"])
    case (found i)
    have "List.find P rs = Some (rs ! i)"
      using found(1-3) by (auto simp: find_Some_iff)
    then show ?thesis
      using found run by (intro that(1) [of i]) (auto intro: update_first_at)
  next
    case none
    have "update_first P f qs = qs" if "set qs \<subseteq> set rs" for f qs
      using that none(1) by (induction qs) auto
    moreover have "List.find P rs = None" using none(1) by (auto simp: find_None_iff)
    ultimately show ?thesis using none run by (intro that(2)) auto
  qed
qed

lemma run_start_address_file:
  assumes "registry_file s rs" "\<not> transaction_started s"
  shows "run_state (start_client_transaction_address a) s = ((), open_transaction (session rs a) s)"
proof -
  let ?s = "s\<lparr>transaction_started := True, error := False, not_in_client_registry := False\<rparr>"
  have "registry_file ?s rs" by (rule registry_file_members [OF _ _ assms(1)]) simp_all
  then show ?thesis
    using assms(2)
    by (cases rule: find_client_cases [where P = "at_address a"])
      (simp_all add: start_client_transaction_address_def open_transaction_def session_def
        empty_client_dec)
qed

lemma run_start_address: "reg s rs \<Longrightarrow> \<not> transaction_started s \<Longrightarrow>
    run_state (start_client_transaction_address a) s = ((), open_transaction (session rs a) s)"
  by (rule run_start_address_file [OF reg_file_of])

definition client_of :: "entry_client list \<Rightarrow> bytes \<Rightarrow> entry_client option" where
  "client_of rs cid = List.find (\<lambda>e. id_of e = cid) rs"

lemma run_start_id:
  assumes "registry_file s rs" "\<not> transaction_started s" "length (cstr cid) < MAXIMUM_CLIENT_ID_LENGTH"
  shows "run_state (start_client_transaction_id cid) s =
    ((), open_transaction (client_of rs (cstr cid)) s)"
proof -
  let ?s = "s\<lparr>transaction_started := True, error := False, not_in_client_registry := True\<rparr>"
  have "registry_file ?s rs" by (rule registry_file_members [OF _ _ assms(1)]) simp_all
  then show ?thesis
    using assms(2,3)
    by (cases rule: find_client_cases [where P = "\<lambda>e. id_of e = cstr cid"])
      (simp_all add: start_client_transaction_id_def open_transaction_def client_of_def
        empty_client_dec id_of_def)
qed

definition close_transaction :: "'z persistent_scheme \<Rightarrow> 'z persistent_scheme" where
  "close_transaction s =
     s\<lparr>error := False, transaction_started := False, not_in_client_registry := False\<rparr>"

lemma run_apply: "run_state apply_transaction s =
    (if transaction_started s then if error s then 0 else if not_in_client_registry s then -1 else 1
     else 0, close_transaction s)"
  by (simp add: apply_transaction_def close_transaction_def State_Monad.return_def)

lemma open_close_simps [simp]:
  "transaction_started (open_transaction e s)" "\<not> error (open_transaction e s)"
  "not_in_client_registry (open_transaction e s) \<longleftrightarrow> e = None"
  "entry (open_transaction (Some x) s) = x"
  "files (open_transaction e s) = files s" "rootPath (open_transaction e s) = rootPath s"
  "cwd (open_transaction e s) = cwd s" "indet_bool (open_transaction e s) = indet_bool s"
  "\<not> transaction_started (close_transaction s)" "\<not> error (close_transaction s)" "entry (close_transaction s) = entry s"
  "files (close_transaction s) = files s" "rootPath (close_transaction s) = rootPath s"
  "cwd (close_transaction s) = cwd s" "indet_bool (close_transaction s) = indet_bool s"
  by (simp_all add: open_transaction_def close_transaction_def)

lemma no_client_open [simp]: "no_client (open_transaction e s) \<longleftrightarrow> e = None"
  "\<not> no_transaction (open_transaction e s)"
  by (simp_all add: no_client_def no_transaction_def)

lemma path_in_open [simp]: "path_in (open_transaction e s) n = path_in s n"
  "path_in (close_transaction s) n = path_in s n"
  by (simp_all add: path_in_def)

lemma reg_open_close [simp]: "reg (open_transaction e s) rs \<longleftrightarrow> reg s rs"
  "reg (close_transaction s) rs \<longleftrightarrow> reg s rs"
  by (simp_all add: reg_def client.holds_def)

section \<open>Updating the entry of the client\<close>

definition with_registry :: "entry_client list \<Rightarrow> 'z persistent_scheme \<Rightarrow> 'z persistent_scheme" where
  "with_registry rs s = set_file (path_in s client_registry) (client.file_of rs) s"

lemma with_registry_simps [simp]:
  "transaction_started (with_registry rs s) = transaction_started s"
  "error (with_registry rs s) = error s"
  "not_in_client_registry (with_registry rs s) = not_in_client_registry s"
  "entry (with_registry rs s) = entry s" "rootPath (with_registry rs s) = rootPath s"
  "cwd (with_registry rs s) = cwd s" "path_in (with_registry rs s) n = path_in s n"
  "files (with_registry rs s) p =
    (if p = path_in s client_registry then Some (client.file_of rs) else files s p)"
  by (simp_all add: with_registry_def set_file_def path_in_def)

lemma reg_with_registry: "registry_ok rs \<Longrightarrow> reg (with_registry rs s) rs"
  by (auto simp: reg_def client.holds_def list_all_length dest: registry_ok_slot live_wf)

lemma registry_ok_update:
  assumes "registry_ok rs" "keeps_key f" "i < length rs" "live i (rs ! i)"
  shows "registry_ok (rs[i := f (rs ! i)])"
proof (rule registry_ok_set [OF assms(1,3)])
  show "live i (f (rs ! i))" using assms by (simp add: live_keeps_key)
  fix j
  assume "j < length rs" "j \<noteq> i"
  then show "id_of (rs ! j) \<noteq> id_of (f (rs ! i))"
    using registry_ok_same_id [OF assms(1), of i j] assms
    by (auto simp: id_of_keeps_key [OF assms(2)] live_def)
qed

lemma run_update_entry:
  assumes "reg s rs" "i < length rs" "live i (rs ! i)" "keeps_key f" "entry s = rs ! i"
    "\<not> no_client s"
  shows "run_state (update_entry f) s =
    ((), with_registry (rs[i := f (rs ! i)]) (s\<lparr>entry := f (rs ! i)\<rparr>))"
proof -
  have ok: "registry_ok rs" and h: "client.holds s client_registry rs"
    using assms(1) by (simp_all add: reg_def)
  have i16: "i < 65536" using registry_ok_length [OF ok] assms(2) by simp
  let ?s = "s\<lparr>entry := f (rs ! i)\<rparr>"
  have live: "live i (f (rs ! i))" using assms by (simp add: live_keeps_key)
  have "client.holds ?s client_registry rs" using h by (simp add: client.holds_def path_in_def)
  moreover have "i * sizeof_entry_client < 2 ^ 32" using i16 by (simp add: sizeof_entry_client_def)
  ultimately have "run_state (write_entry (int i)) ?s = ((), with_registry (rs[i := f (rs ! i)]) ?s)"
    using client.holds_write(1) [of ?s client_registry rs "f (rs ! i)" i] live_wf [OF live] assms(2)
    by (simp add: write_entry_def with_registry_def)
  then show ?thesis
    using assms(5,6) file_number_live [OF live i16]
    by (simp add: update_entry_def no_client_def)
qed

text \<open>A transaction that updates the client of an address.\<close>

lemma run_update_session:
  assumes "reg s rs" "\<not> transaction_started s" "a \<noteq> empty_address" "keeps_key f"
  shows "run_state (do { start_client_transaction_address a; update_entry f; apply_transaction }) s
    = (if session rs a = None then -1 else 1,
       close_transaction (if session rs a = None then open_transaction None s
         else with_registry (update_first (at_address a) f rs)
           (open_transaction (map_option f (session rs a)) s)))
    \<and> registry_ok (update_first (at_address a) f rs)"
proof -
  have ok: "registry_ok rs" using assms by (simp add: reg_def)
  show ?thesis
  proof (cases rule: session_cases [of rs a f])
    case none
    then show ?thesis
      using ok by (simp add: run_start_address [OF assms(1,2)] run_apply update_entry_def
          State_Monad.return_def)
  next
    case (some i)
    then have live: "live i (rs ! i)" using registry_ok_live_address [OF ok] assms(3) by auto
    have "run_state (update_entry f) (open_transaction (Some (rs ! i)) s) =
        ((), with_registry (rs[i := f (rs ! i)])
          ((open_transaction (Some (rs ! i)) s)\<lparr>entry := f (rs ! i)\<rparr>))"
      by (rule run_update_entry) (use assms some live in simp_all)
    moreover have "(open_transaction (Some (rs ! i)) s)\<lparr>entry := f (rs ! i)\<rparr>
        = open_transaction (Some (f (rs ! i))) s"
      by (simp add: open_transaction_def)
    ultimately show ?thesis
      using some registry_ok_update [OF ok assms(4) some(1) live]
      by (simp add: run_start_address [OF assms(1,2)] run_apply)
  qed
qed

end
