(* ===== verification/ClientTables.thy ===== *)
theory ClientTables
  imports Sessions
begin

text \<open>
  The tables of a client: its topics, its subscriptions and the publishes that wait for it.  Each
  is a file of records whose name is the file number of the client of the transaction and an
  ending.  The locale extends a struct layout by the ending; its lemmas give the state after a
  loop over the table, a read and a write of a slot, on the list of records the file holds.
\<close>

locale client_table = record_codec sz enc dec wf
  for sz :: nat
    and enc :: "'r \<Rightarrow> bytes"
    and dec :: "bytes \<Rightarrow> 'r"
    and wf :: "'r \<Rightarrow> bool" +
  fixes ending :: bytes
  assumes ending_other: "client_file e ending \<noteq> client_registry" "client_file e ending \<noteq> []"
    and size_small: "sz < 65536"
begin

definition table_file :: "'z persistent_scheme \<Rightarrow> bytes" where
  "table_file s = client_file (entry s) ending"

text \<open>The table of the client of the transaction holds \<open>es\<close>; the slot counters do not wrap.\<close>

definition table :: "'z persistent_scheme \<Rightarrow> 'r list \<Rightarrow> bool" where
  "table s es \<longleftrightarrow> holds s (table_file s) es \<and> length es < 65535"

definition with_table :: "'r list \<Rightarrow> 'z persistent_scheme \<Rightarrow> 'z persistent_scheme" where
  "with_table es s = put (table_file s) es s"

lemma with_table_simps [simp]:
  "transaction_started (with_table es s) = transaction_started s"
  "error (with_table es s) = error s"
  "not_in_client_registry (with_table es s) = not_in_client_registry s"
  "entry (with_table es s) = entry s" "rootPath (with_table es s) = rootPath s"
  "cwd (with_table es s) = cwd s" "indet_bool (with_table es s) = indet_bool s"
  "path_in (with_table es s) n = path_in s n"
  "table_file (with_table es s) = table_file s" "no_client (with_table es s) = no_client s"
  "no_transaction (with_table es s) = no_transaction s"
  by (simp_all add: with_table_def put_def set_file_def path_in_def table_file_def no_client_def
      no_transaction_def)

lemma with_table_files: "files (with_table es s) =
    (files s)(path_in s (table_file s) := Some (file_of es))"
  by (simp add: with_table_def put_def)

lemma with_table_twice [simp]: "with_table es (with_table ds s) = with_table es s"
  by (simp add: with_table_def put_def set_file_def table_file_def path_in_def)

lemma table_with: "list_all wf es \<Longrightarrow> length es < 65535 \<Longrightarrow> table (with_table es s) es"
  unfolding table_def by (simp add: with_table_def holds_put table_file_def put_def set_file_def
      holds_def path_in_def)

lemma table_wf: "table s es \<Longrightarrow> list_all wf es"
  by (simp add: table_def holds_def)

lemma table_same: "table s es \<Longrightarrow> with_table es s = s"
  by (simp add: table_def with_table_def put_same)

text \<open>The registry is another file.\<close>

lemma holds_with_table [simp]: "client.holds (with_table es s) client_registry rs \<longleftrightarrow>
    client.holds s client_registry rs"
  using ending_other(1) [of "entry s"]
  by (simp add: client.holds_def with_table_files table_file_def)

lemma reg_with_table [simp]: "reg (with_table es s) rs \<longleftrightarrow> reg s rs"
  by (simp add: reg_def)

lemma table_members: "files t = files s \<Longrightarrow> rootPath t = rootPath s \<Longrightarrow> entry t = entry s \<Longrightarrow>
    table s es \<Longrightarrow> table t es"
  by (simp add: table_def holds_def path_in_def table_file_def)

lemma table_loop:
  assumes "table s es"
  shows "run_state (sd_open (table_file s) FILE_READ) s =
      (\<lparr>full_path = path_in s (table_file s), read_mode = True, position = 0, closed = False\<rparr>, s)"
    "file_loop sz (on_full sz dec brk f) s
      \<lparr>full_path = path_in s (table_file s), read_mode = True, position = 0, closed = False\<rparr> n a
      = rec_loop f es n a"
proof -
  have h: "holds s (table_file s) es" using assms by (simp add: table_def)
  show "run_state (sd_open (table_file s) FILE_READ) s =
      (\<lparr>full_path = path_in s (table_file s), read_mode = True, position = 0, closed = False\<rparr>, s)"
    using holds_open [OF h, of FILE_READ] by (simp add: FILE_READ_def)
  show "file_loop sz (on_full sz dec brk f) s
      \<lparr>full_path = path_in s (table_file s), read_mode = True, position = 0, closed = False\<rparr> n a
      = rec_loop f es n a"
    by (rule holds_loop [OF h]) simp_all
qed

text \<open>The records of the table, read from the file.\<close>

definition entries :: "'z persistent_scheme \<Rightarrow> 'r list" where
  "entries s = (let bs = content s (path_in s (table_file s)) in
     map (\<lambda>k. dec (take sz (drop (k * sz) bs))) [0..<length bs div sz])"

lemma entries_table: "table s es \<Longrightarrow> entries s = es"
proof -
  assume t: "table s es"
  then have wf: "list_all wf es" and c: "content s (path_in s (table_file s)) = file_of es"
    by (simp_all add: table_def holds_def content_def)
  show ?thesis
  proof (rule nth_equalityI)
    show "length (entries s) = length es"
      using wf size_pos by (simp add: entries_def c length_file_of)
    show "entries s ! k = es ! k" if "k < length (entries s)" for k
      using that wf size_pos read_slot [OF wf, of k]
      by (simp add: entries_def c length_file_of dec_enc list_all_length)
  qed
qed

lemma slot_bound: "k < 65536 \<Longrightarrow> k * sz < 2 ^ 32"
proof -
  assume "k < 65536"
  then have "k * sz \<le> 65535 * 65535" using size_small by (intro mult_le_mono) simp_all
  then show ?thesis by simp
qed

lemma table_read:
  assumes "table s es" "k < 65536"
  shows "fst (file_read s (file_seek \<lparr>full_path = path_in s (table_file s), read_mode = True,
      position = 0, closed = False\<rparr> (int k * int sz)) sz) = (if k < length es then enc (es ! k) else [])"
proof -
  have h: "holds s (table_file s) es" using assms by (simp add: table_def)
  have "nat (int k * int sz mod 2 ^ 32) = k * sz"
    using slot_bound [OF assms(2)] nat_int_mod32 [of "k * sz"] by simp
  then show ?thesis by (intro holds_read [OF h]) (simp_all add: file_seek_def)
qed

lemma run_write_table:
  assumes "table s es" "wf e" "k \<le> length es"
  shows "run_state (write_at (table_file s) (int k * int sz) (enc e)) s
    = ((), with_table (if k < length es then es[k := e] else es @ [e]) s)"
  using assms slot_bound [of k] run_write_slot [of s "table_file s" es e k]
  by (simp add: table_def with_table_def)

lemma wf_write_table: "table s es \<Longrightarrow> wf e \<Longrightarrow>
    list_all wf (if k < length es then es[k := e] else es @ [e])"
  by (rule wf_write_slot [of s "table_file s"]) (simp_all add: table_def)

end

section \<open>The tables of the gateway\<close>

text \<open>Topic ids and publish ids are positions plus one.\<close>

definition slot_id :: "nat \<Rightarrow> u16" where
  "slot_id i = of_nat (Suc i)"

lemma unat_slot_id [simp]: "i < 65535 \<Longrightarrow> unat (slot_id i) = Suc i"
  unfolding slot_id_def by (simp only: unat_of_nat) simp

lemma slot_id_nonzero [simp]: "i < 65535 \<Longrightarrow> slot_id i \<noteq> 0"
  using unat_slot_id [of i] by force

lemma slot_id_eq: "i < 65535 \<Longrightarrow> slot_id i = t \<longleftrightarrow> unat t = Suc i"
  using unat_slot_id [of i] by (metis word_unat_eq_iff)

lemma uint_slot_id [simp]: "i < 65535 \<Longrightarrow> uint (slot_id i) = int i + 1"
  using unat_slot_id [of i] by (metis of_nat_Suc add.commute uint_nat)

lemma slot_id_plus: "(of_nat k + 1 :: u16) = slot_id k"
  by (simp add: slot_id_def)

lemmas table_sizes = sizeof_entry_registration_def sizeof_entry_subscription_def
  sizeof_entry_publish_def

interpretation topics: client_table sizeof_entry_registration enc_registration dec_registration
  wf_registration REGISTRATION_FILE_ENDING
  by unfold_locales (simp_all add: table_sizes)

interpretation subs: client_table sizeof_entry_subscription enc_subscription dec_subscription
  wf_subscription SUBSCRIBE_FILE_ENDING
  by unfold_locales (simp_all add: table_sizes)

interpretation pubs: client_table sizeof_entry_publish enc_publish dec_publish wf_publish
  PUBLISH_FILE_ENDING
  by unfold_locales (simp_all add: table_sizes)

lemma table_files [simp]: "reg_file s = topics.table_file s" "sub_file s = subs.table_file s"
  "pub_file s = pubs.table_file s"
  by (simp_all add: reg_file_def sub_file_def pub_file_def topics.table_file_def
      subs.table_file_def pubs.table_file_def)

text \<open>No table of a client is another one of it.\<close>

lemma endings_distinct [simp]: "topics.table_file s \<noteq> subs.table_file s"
  "topics.table_file s \<noteq> pubs.table_file s" "subs.table_file s \<noteq> pubs.table_file s"
  "subs.table_file s \<noteq> topics.table_file s"
  "pubs.table_file s \<noteq> topics.table_file s" "pubs.table_file s \<noteq> subs.table_file s"
  unfolding topics.table_file_def subs.table_file_def pubs.table_file_def client_file_def
  by (simp_all add: REGISTRATION_FILE_ENDING_def SUBSCRIBE_FILE_ENDING_def PUBLISH_FILE_ENDING_def)

lemma no_client_split: "no_client s \<longleftrightarrow> no_transaction s \<or> not_in_client_registry s"
  by (simp add: no_client_def)

end
