(* ===== verification/TopicTables.thy ===== *)
theory TopicTables
  imports ClientTables
begin

text \<open>
  The topic registrations of a client (\<open>PersistTopics\<close>) as a list of topic names: the id of a name
  is its position plus one.  Registering a name puts it behind the others unless it is in the
  list; a lookup of an id gives the name at its position.
\<close>

section \<open>The list of names\<close>

abbreviation topic_id :: "nat \<Rightarrow> u16" where
  "topic_id \<equiv> slot_id"

definition topic_entry :: "nat \<Rightarrow> bytes \<Rightarrow> entry_registration" where
  "topic_entry i n = \<lparr>er_topic_id = topic_id i, er_topic_name = padz 255 n, er_known = True\<rparr>"

definition topic_entries :: "bytes list \<Rightarrow> entry_registration list" where
  "topic_entries ns = map (\<lambda>i. topic_entry i (ns ! i)) [0..<length ns]"

definition topic_name_ok :: "bytes \<Rightarrow> bool" where
  "topic_name_ok n \<longleftrightarrow> no_nul n \<and> length n < 255"

definition topics_of :: "'z persistent_scheme \<Rightarrow> bytes list \<Rightarrow> bool" where
  "topics_of s ns \<longleftrightarrow> topics.table s (topic_entries ns) \<and> distinct ns \<and> list_all topic_name_ok ns"

definition with_topics :: "bytes list \<Rightarrow> 'z persistent_scheme \<Rightarrow> 'z persistent_scheme" where
  "with_topics ns s = topics.with_table (topic_entries ns) s"

definition topic_index :: "bytes \<Rightarrow> bytes list \<Rightarrow> nat" where
  "topic_index n ns = length (takeWhile (\<lambda>m. m \<noteq> n) ns)"

definition register_name :: "bytes \<Rightarrow> bytes list \<Rightarrow> bytes list" where
  "register_name n ns = (if n \<in> set ns then ns else ns @ [n])"

definition name_of_id :: "u16 \<Rightarrow> bytes list \<Rightarrow> bytes option" where
  "name_of_id t ns = (if 0 < unat t \<and> unat t \<le> length ns then Some (ns ! (unat t - 1)) else None)"

lemma length_topic_entries [simp]: "length (topic_entries ns) = length ns"
  by (simp add: topic_entries_def)

lemma nth_topic_entries [simp]: "i < length ns \<Longrightarrow> topic_entries ns ! i = topic_entry i (ns ! i)"
  by (simp add: topic_entries_def)

lemma topic_entries_snoc: "topic_entries (ns @ [n]) = topic_entries ns @ [topic_entry (length ns) n]"
  by (rule nth_equalityI) (auto simp: nth_append less_Suc_eq)

lemma topic_entry_simps [simp]: "er_topic_id (topic_entry i n) = topic_id i"
  "er_known (topic_entry i n)" "wf_registration (topic_entry i n)"
  "topic_name_ok n \<Longrightarrow> cstr (er_topic_name (topic_entry i n)) = n"
  by (simp_all add: topic_entry_def wf_registration_def topic_name_ok_def)

lemma topic_name_okD: "topic_name_ok n \<Longrightarrow> cstr n = n \<and> length n < MAXIMUM_TOPIC_NAME_LENGTH"
  by (simp add: topic_name_ok_def MAXIMUM_TOPIC_NAME_LENGTH_def)

lemma topic_index_nth: "distinct ns \<Longrightarrow> i < length ns \<Longrightarrow> topic_index (ns ! i) ns = i"
proof -
  assume "distinct ns" "i < length ns"
  then have "takeWhile (\<lambda>m. m \<noteq> ns ! i) ns = take i ns"
    by (intro takeWhile_eq_take_P_nth) (auto simp: nth_eq_iff_index_eq)
  then show ?thesis using \<open>i < length ns\<close> by (simp add: topic_index_def)
qed

lemma topic_index_absent: "n \<notin> set ns \<Longrightarrow> topic_index n ns = length ns"
  unfolding topic_index_def by (subst takeWhile_eq_all_conv [THEN iffD2]) auto

lemma topics_ofD:
  assumes "topics_of s ns"
  shows "topics.table s (topic_entries ns)" "distinct ns" "length ns < 65535"
    "\<And>i. i < length ns \<Longrightarrow> topic_name_ok (ns ! i)"
  using assms by (simp_all add: topics_of_def topics.table_def list_all_length)

lemma topics_of_with: "distinct ns \<Longrightarrow> list_all topic_name_ok ns \<Longrightarrow> length ns < 65535 \<Longrightarrow>
    topics_of (with_topics ns s) ns"
  by (simp add: topics_of_def with_topics_def topics.table_with list_all_length)

lemma topics_of_register: "topics_of s ns \<Longrightarrow> topic_name_ok n \<Longrightarrow> length ns < 65534 \<Longrightarrow>
    topics_of (with_topics (register_name n ns) s) (register_name n ns)"
  by (rule topics_of_with) (auto simp: topics_of_def register_name_def)

section \<open>Registering and looking up\<close>

lemma run_add_registration:
  assumes "topics_of s ns" "\<not> no_client s" "topic_name_ok n" "length ns < 65534"
  shows "run_state (add_client_registration n d) s =
    (topic_id (topic_index n ns), with_topics (register_name n ns) s)"
proof -
  note ns = topics_ofD [OF assms(1)]
  have c: "cstr n = n" and n: "length n \<le> MAXIMUM_TOPIC_NAME_LENGTH" "length n < MAXIMUM_TOPIC_NAME_LENGTH"
    using topic_name_okD [OF assms(3)] by simp_all
  have short: "length (topic_entries ns) < 65536" using ns(3) by simp
  have nz: "er_topic_id (topic_entries ns ! i) \<noteq> 0" if "i < length ns" for i
    using that ns(3) by simp
  have cs: "cstr (er_topic_name (topic_entries ns ! i)) = ns ! i" if "i < length ns" for i
    using that ns(4) by simp
  let ?Q = "\<lambda>e. er_topic_id e \<noteq> 0 \<and> length (cstr (er_topic_name e)) < MAXIMUM_TOPIC_NAME_LENGTH \<and>
    cstr (er_topic_name e) = n"
  show ?thesis
  proof (cases rule: rec_loop_scan_cases [OF short, where Q = ?Q and g = "\<lambda>e n. er_topic_id e" and
        E = "\<lambda>e. er_topic_id e = 0 \<and> cstr (er_topic_name e) = []", case_names found none])
    case (found i)
    then have i: "i < length ns" "ns ! i = n" using cs by auto
    then have "topic_index n ns = i" "register_name n ns = ns"
      using topic_index_nth [OF ns(2) i(1)] by (auto simp: register_name_def)
    then show ?thesis
      unfolding add_client_registration_def c
      using found(5) i assms(2) n ns(1) topics.table_same [OF ns(1)]
      by (simp add: no_client_split topics.table_loop
          State_Monad.return_def with_topics_def)
  next
    case none
    have absent: "n \<notin> set ns"
    proof
      assume "n \<in> set ns"
      then obtain i where "i < length ns" "ns ! i = n" by (auto simp: in_set_conv_nth)
      then show False using none(1) [of i] nz [of i] cs [of i] n by auto
    qed
    have "last_upto (\<lambda>e. er_topic_id e = 0 \<and> cstr (er_topic_name e) = []) (topic_entries ns)
        (length ns) = -1"
      by (cases rule: last_upto_cases [of "\<lambda>e. er_topic_id e = 0 \<and> cstr (er_topic_name e) = []"
            "topic_entries ns" "length ns"]) (use nz in auto)
    moreover have "of_nat (length ns) + 1 = topic_id (length ns)" by (simp add: slot_id_def)
    moreover have "uint (topic_id (length ns)) = int (length ns) + 1"
      using ns(3) by simp
    moreover have "dec_registration (replicate sizeof_entry_registration 0) =
        \<lparr>er_topic_id = 0, er_topic_name = replicate 255 0, er_known = False\<rparr>"
      by (simp add: dec_registration_def sizeof_entry_registration_def)
    moreover have "strcpy (replicate 255 0) n = padz 255 n"
      using assms(3) by (intro strcpy_zeros) (simp add: topic_name_ok_def)
    moreover have "run_state (write_at (topics.table_file s)
        (int (length ns) * int sizeof_entry_registration) (enc_registration (topic_entry (length ns) n))) s
        = ((), topics.with_table (topic_entries (ns @ [n])) s)"
      using topics.run_write_table [OF ns(1), of "topic_entry (length ns) n" "length ns"]
      by (simp add: topic_entries_snoc)
    ultimately show ?thesis
      unfolding add_client_registration_def c
      using none(2) absent assms(2) n
      by (simp add: no_client_split topics.table_loop [OF ns(1)]
          State_Monad.return_def with_topics_def topic_index_absent register_name_def topic_entry_def
          add.commute)
  qed
qed

lemma run_get_topic_name:
  assumes "topics_of s ns" "\<not> no_transaction s"
  shows "run_state (get_topic_name t) s = (name_of_id t ns, s)"
proof (cases "t = 0")
  case True
  then show ?thesis using assms(2) by (simp add: get_topic_name_def name_of_id_def State_Monad.return_def)
next
  case False
  note ns = topics_ofD [OF assms(1)]
  have pos: "0 < unat t" using False by (simp add: unat_gt_0)
  let ?P = "\<lambda>e. er_topic_id e = t \<and> length (cstr (er_topic_name e)) < MAXIMUM_TOPIC_NAME_LENGTH"
  have P: "?P (topic_entries ns ! i) \<longleftrightarrow> Suc i = unat t" if "i < length ns" for i
    using that ns(3) ns(4) [OF that] topic_name_okD [of "ns ! i"]
    by (auto simp: slot_id_eq)
  have "List.find ?P (topic_entries ns) =
      (if unat t \<le> length ns then Some (topic_entries ns ! (unat t - 1)) else None)"
  proof (cases "unat t \<le> length ns")
    case True
    then have "unat t - 1 < length ns" using pos by simp
    moreover have "?P (topic_entries ns ! (unat t - 1))" "\<And>j. j < unat t - 1 \<Longrightarrow> \<not> ?P (topic_entries ns ! j)"
      using P calculation pos by auto
    ultimately show ?thesis using True by (auto simp: find_Some_iff simp del: nth_topic_entries)
  next
    case False
    then show ?thesis using P by (auto simp: find_None_iff in_set_conv_nth simp del: nth_topic_entries)
  qed
  moreover have "cstr (er_topic_name (topic_entries ns ! (unat t - 1))) = ns ! (unat t - 1)"
    if "unat t \<le> length ns"
    using that pos ns(4) by simp
  ultimately show ?thesis
    using False assms(2) pos
    by (simp add: get_topic_name_def topics.table_loop [OF ns(1)] rec_loop_find name_of_id_def
        State_Monad.return_def)
qed

end
