(* ===== verification/SubscriptionTables.thy ===== *)
theory SubscriptionTables
  imports TopicTables
begin

text \<open>
  The subscriptions of a client (\<open>PersistSubscriptions\<close>) as operations on the list of entries that
  its \<open>.SUB\<close> file holds.
\<close>

section \<open>Reading\<close>

lemma run_find_subscription: "subs.table s es \<Longrightarrow> run_state (find_subscription tn) s =
    (List.find (\<lambda>e. names_topic (es_topic_name e) tn) es, s)"
  by (simp add: find_subscription_def table_files subs.table_loop rec_loop_find State_Monad.return_def
      split: option.split)

definition subscribed_to :: "entry_subscription list \<Rightarrow> bytes \<Rightarrow> bool" where
  "subscribed_to es tn \<longleftrightarrow> list_ex (\<lambda>e. names_topic (es_topic_name e) tn) es"

lemma find_subscribed: "List.find (\<lambda>e. names_topic (es_topic_name e) tn) es = None \<longleftrightarrow>
    \<not> subscribed_to es tn"
  by (induction es) (auto simp: subscribed_to_def)

lemma run_is_subscribed: "subs.table s es \<Longrightarrow> \<not> no_client s \<Longrightarrow>
    run_state (is_subscribed tn) s = (\<not> bad_topic_name tn \<and> subscribed_to es (the tn), s)"
  by (simp add: is_subscribed_def run_find_subscription State_Monad.return_def find_subscribed
      del: not_None_eq)

definition active_subscriptions :: "entry_subscription list \<Rightarrow> nat" where
  "active_subscriptions es = length (filter (\<lambda>e. es_topic_id e \<noteq> 0) es)"

lemma run_subscription_count:
  assumes "subs.table s es" "\<not> no_client s"
  shows "run_state get_client_subscription_count s = (of_nat (active_subscriptions es), s)"
proof -
  have "rec_loop (\<lambda>e n a. Inr (if es_topic_id e \<noteq> 0 then a + 1 else a)) ds (n :: u16) c
      = (Done (n + of_nat (length ds) + 1) [] (c + of_nat (active_subscriptions ds))
         :: (u16, u16, u16) loop_result)" for ds n c
    by (induction ds arbitrary: n c) (simp_all add: active_subscriptions_def add.assoc)
  then show ?thesis
    using assms by (simp add: get_client_subscription_count_def table_files subs.table_loop no_client_split
        State_Monad.return_def)
qed

lemma run_nth_subscribed:
  assumes "subs.table s es" "\<not> no_client s"
  shows "run_state (get_nth_subscribed_topic_id n) s =
    (if unat n < length es then es_topic_id (es ! unat n) else 0, s)"
proof -
  have "wf_subscription (es ! unat n)" if "unat n < length es"
    using subs.table_wf [OF assms(1)] that by (simp add: list_all_length)
  moreover have "sizeof_entry_subscription \<noteq> 0" by (simp add: sizeof_entry_subscription_def)
  ultimately show ?thesis
    using assms subs.table_read [OF assms(1), of "unat n"] unat_u16_bound [of n]
    by (simp add: get_nth_subscribed_topic_id_def table_files subs.table_loop(1) no_client_split
        Let_def subs.length_enc subs.dec_enc State_Monad.return_def)
qed

section \<open>Deleting\<close>

lemma run_delete_subscription:
  assumes "subs.table s es" "\<not> no_client s" "t \<noteq> 0"
  shows "run_state (delete_subscription t) s =
    ((), if t \<in> es_topic_id ` set es
         then subs.with_table (update_first (\<lambda>e. es_topic_id e = t) (\<lambda>e. empty_subscription) es) s
         else s\<lparr>error := True\<rparr>)"
proof -
  have len: "length es < 65535" using assms by (simp add: subs.table_def)
  show ?thesis
  proof (cases rule: rec_loop_find_cases [of es "\<lambda>e. es_topic_id e = t" "\<lambda>e n. n" "0 :: u16" "()"])
    case (found i)
    then have "uint (of_nat i :: u16) = int i" using len by simp
    then have "run_state (write_at (subs.table_file s) (uint (of_nat i :: u16) * int sizeof_entry_subscription)
        (enc_subscription empty_subscription)) s = ((), subs.with_table (es[i := empty_subscription]) s)"
      using subs.run_write_table [OF assms(1), of empty_subscription i] found(1) by simp
    moreover have "update_first (\<lambda>e. es_topic_id e = t) (\<lambda>e. empty_subscription) es
        = es[i := empty_subscription]"
      using found by (intro update_first_at) auto
    moreover have "t \<in> es_topic_id ` set es" using found(1,2) by force
    ultimately show ?thesis
      using assms found(4) by (simp add: delete_subscription_def table_files subs.table_loop no_client_split)
  next
    case none
    then show ?thesis
      using assms by (auto simp: delete_subscription_def table_files subs.table_loop no_client_split set_error_def)
  qed
qed

section \<open>Adding\<close>

definition new_subscription :: "u16 \<Rightarrow> byte \<Rightarrow> bytes \<Rightarrow> entry_subscription" where
  "new_subscription i q n = \<lparr>es_topic_id = i, es_qos = q, es_topic_name = padz 255 n\<rparr>"

lemma names_new_subscription: "topic_name_ok n \<Longrightarrow> names_topic (es_topic_name (new_subscription i q n)) k \<longleftrightarrow> cstr k = n"
  using topic_name_okD [of n] by (auto simp: new_subscription_def names_topic_def topic_name_ok_def)

lemma run_add_subscription:
  assumes "subs.table s es" "\<not> no_client s" "topic_name_ok n" "n \<noteq> []" "i \<noteq> 0" "length es < 65534"
    and "\<not> subscribed_to es n"
  obtains es' where "run_state (add_subscription (Some n) i q) s = ((), subs.with_table es' s)"
    "subs.table (subs.with_table es' s) es'"
    "\<And>k. cstr k \<noteq> [] \<Longrightarrow> subscribed_to es' k \<longleftrightarrow> cstr k = n \<or> subscribed_to es k"
proof -
  have n: "cstr n = n" "\<not> bad_topic_name (Some n)"
    using topic_name_okD [OF assms(3)] assms(4) by (simp_all add: bad_topic_name_def)
  let ?E = "\<lambda>e. es_topic_id e = 0 \<and> cstr (es_topic_name e) = []"
  let ?Q = "\<lambda>e. es_topic_id e = i \<and> names_topic (es_topic_name e) n"
  have no: "\<not> ?Q (es ! j)" if "j < length es" for j
    using assms(7) that by (auto simp: subscribed_to_def list_ex_length)
  have short: "length es < 65536" using assms(6) by simp
  let ?e = "new_subscription i q n"
  define k where "k = (if last_upto ?E es (length es) = -1 then length es
    else nat (last_upto ?E es (length es)))"
  define es' where "es' = (if k < length es then es[k := ?e] else es @ [?e])"
  have len: "uint (of_nat (length es) + 1 :: u16) - 1 = int (length es)"
    using assms(6) uint_of_nat_u16 [of "Suc (length es)"] by (simp add: add.commute)
  have k: "k \<le> length es" "k < length es \<Longrightarrow> ?E (es ! k)"
    "(if last_upto ?E es (length es) = -1 then uint (of_nat (length es) + 1 :: u16) - 1
      else last_upto ?E es (length es)) = int k"
    unfolding k_def len
    by (cases rule: last_upto_cases [of ?E es "length es"]; simp)+
  have wf: "wf_subscription ?e" by (simp add: new_subscription_def wf_subscription_def)
  have loop: "rec_loop (\<lambda>e n' a. if ?E e then Inr (uint n') else if ?Q e then Inl () else Inr a) es
      (0 :: u16) (-1) = Done (of_nat (length es) + 1) [] (last_upto ?E es (length es))"
    by (cases rule: rec_loop_scan_cases [OF short, where Q = ?Q and E = ?E and g = "\<lambda>e n'. ()"])
      (use no in auto)
  have "run_state (add_subscription (Some n) i q) s = ((), subs.with_table es' s)"
    unfolding add_subscription_def option.sel n(1)
    using subs.run_write_table [OF assms(1) wf k(1)] assms(2,5) n k(3) loop
    by (simp add: subs.table_loop [OF assms(1)] es'_def new_subscription_def)
  moreover have "subs.table (subs.with_table es' s) es'"
    using subs.wf_write_table [OF assms(1) wf, of k] assms(6) by (intro subs.table_with) (simp_all add: es'_def)
  moreover have "subscribed_to es' m \<longleftrightarrow> cstr m = n \<or> subscribed_to es m" if "cstr m \<noteq> []" for m
  proof (cases "k < length es")
    case True
    have "\<not> names_topic (es_topic_name (es ! k)) m" using k(2) [OF True] that by (auto simp: names_topic_def)
    then show ?thesis
      using True names_new_subscription [OF assms(3), of i q m]
      by (auto simp: es'_def subscribed_to_def list_ex_length nth_list_update)
  next
    case False
    then show ?thesis
      using names_new_subscription [OF assms(3), of i q m] by (auto simp: es'_def subscribed_to_def)
  qed
  ultimately show ?thesis by (rule that)
qed

end
