(* ===== verification/DeviceStates.thy ===== *)
theory DeviceStates
  imports Sessions
begin

text \<open>
  The operations of the core that change the state of a client, as operations on the abstract
  registry: what they answer and which entry they update.
\<close>

lemma outside_simps [simp]:
  "sent (open_transaction e s) = sent s" "broker_calls (open_transaction e s) = broker_calls s"
  "mqtt_online (open_transaction e s) = mqtt_online s"
  "socket_fd (open_transaction e s) = socket_fd s" "client_rc (open_transaction e s) = client_rc s"
  "sent (close_transaction s) = sent s" "broker_calls (close_transaction s) = broker_calls s"
  "mqtt_online (close_transaction s) = mqtt_online s"
  "socket_fd (close_transaction s) = socket_fd s" "client_rc (close_transaction s) = client_rc s"
  "sent (with_registry rs s) = sent s" "broker_calls (with_registry rs s) = broker_calls s"
  "mqtt_online (with_registry rs s) = mqtt_online s"
  "socket_fd (with_registry rs s) = socket_fd s" "client_rc (with_registry rs s) = client_rc s"
  "sent (set_file p c s) = sent s" "broker_calls (set_file p c s) = broker_calls s"
  "mqtt_online (set_file p c s) = mqtt_online s"
  "socket_fd (set_file p c s) = socket_fd s" "client_rc (set_file p c s) = client_rc s"
  by (simp_all add: open_transaction_def close_transaction_def with_registry_def set_file_def)

text \<open>\<open>t\<close> is \<open>s\<close> with the first entry of the address updated in the registry.\<close>

definition updates_session :: "gateway \<Rightarrow> entry_client list \<Rightarrow> device_address \<Rightarrow>
    (entry_client \<Rightarrow> entry_client) \<Rightarrow> gateway \<Rightarrow> bool" where
  "updates_session s rs a f t \<longleftrightarrow> reg t (update_first (at_address a) f rs) \<and>
     \<not> transaction_started t \<and> (\<forall>p. p \<noteq> path_in s client_registry \<longrightarrow> files t p = files s p) \<and>
     sent t = sent s \<and> broker_calls t = broker_calls s \<and> mqtt_online t = mqtt_online s \<and>
     socket_fd t = socket_fd s \<and> rootPath t = rootPath s"

definition session_result :: "entry_client list \<Rightarrow> device_address \<Rightarrow> core_result" where
  "session_result rs a = (if session rs a = None then ZERO else SUCCESS)"

lemma update_session_steps:
  fixes s :: gateway
  assumes "reg s rs" "\<not> transaction_started s" "a \<noteq> empty_address" "keeps_key f"
  shows "\<exists>r t. run_state (do { start_client_transaction_address a; update_entry f; apply_transaction }) s
      = (r, t) \<and> result_client r = session_result rs a \<and> result_full r = session_result rs a \<and>
      updates_session s rs a f t"
proof -
  note run = run_update_session [OF assms]
  have "reg (with_registry (update_first (at_address a) f rs) u) (update_first (at_address a) f rs)"
    for u :: gateway
    using run by (intro reg_with_registry) blast
  moreover have "session rs a = None \<Longrightarrow> update_first (at_address a) f rs = rs"
    by (cases rule: session_cases [of rs a f]) auto
  ultimately show ?thesis
    using run assms(1)
    by (simp add: result_client_def result_full_def session_result_def updates_session_def)
qed

text \<open>The shape that the state-changing operations of the core share.\<close>

lemma run_session_op:
  fixes s :: gateway
  assumes "reg s rs" "\<not> transaction_started s" "a \<noteq> empty_address" "keeps_key f"
  shows "fst (run_state (do { start_client_transaction_address a; update_entry f;
      r \<leftarrow> apply_transaction; ret (result_client r) }) s) = session_result rs a"
    "updates_session s rs a f (snd (run_state (do { start_client_transaction_address a; update_entry f;
      r \<leftarrow> apply_transaction; ret (result_client r) }) s))"
    "fst (run_state (do { start_client_transaction_address a; update_entry f;
      r \<leftarrow> apply_transaction; ret (result_full r) }) s) = session_result rs a"
    "updates_session s rs a f (snd (run_state (do { start_client_transaction_address a; update_entry f;
      r \<leftarrow> apply_transaction; ret (result_full r) }) s))"
proof -
  obtain r t where *: "run_state (do { start_client_transaction_address a; update_entry f;
      apply_transaction }) s = (r, t)" "result_client r = session_result rs a"
      "result_full r = session_result rs a" "updates_session s rs a f t"
    using update_session_steps [OF assms] by blast
  have "run_state (do { start_client_transaction_address a; update_entry f;
      r \<leftarrow> apply_transaction; ret (g r) }) s = (g r, t)" for g :: "byte \<Rightarrow> core_result"
    using *(1) by (auto simp: State_Monad.return_def split: prod.splits)
  then show "fst (run_state (do { start_client_transaction_address a; update_entry f;
      r \<leftarrow> apply_transaction; ret (result_client r) }) s) = session_result rs a"
    "updates_session s rs a f (snd (run_state (do { start_client_transaction_address a; update_entry f;
      r \<leftarrow> apply_transaction; ret (result_client r) }) s))"
    "fst (run_state (do { start_client_transaction_address a; update_entry f;
      r \<leftarrow> apply_transaction; ret (result_full r) }) s) = session_result rs a"
    "updates_session s rs a f (snd (run_state (do { start_client_transaction_address a; update_entry f;
      r \<leftarrow> apply_transaction; ret (result_full r) }) s))"
    using *(2-4) by simp_all
qed

lemma keeps_key_setters [simp]: "keeps_key (\<lambda>e. e\<lparr>ec_client_status := st\<rparr>)"
  "keeps_key (\<lambda>e. e\<lparr>ec_await_message := m\<rparr>)" "keeps_key (\<lambda>e. e\<lparr>ec_timeout := d\<rparr>)"
  by (simp_all add: keeps_key_def)

lemma set_state_refines:
  fixes s :: gateway
  assumes "reg s rs" "\<not> transaction_started s" "a \<noteq> empty_address"
  defines "st x \<equiv> \<lambda>e. e\<lparr>ec_client_status := x\<rparr>"
  shows "fst (run_state (set_disconnected a) s) = session_result rs a"
    "updates_session s rs a (st DISCONNECTED) (snd (run_state (set_disconnected a) s))"
    "fst (run_state (set_awake a) s) = session_result rs a"
    "updates_session s rs a (st AWAKE) (snd (run_state (set_awake a) s))"
    "fst (run_state (await_message a m) s) = session_result rs a"
    "updates_session s rs a (\<lambda>e. e\<lparr>ec_await_message := m\<rparr>) (snd (run_state (await_message a m) s))"
  unfolding set_disconnected_def set_awake_def await_message_def set_client_state_def
    set_client_await_message_def st_def
  by (rule run_session_op [OF assms(1-3)]; simp)+

lemma set_asleep_refines:
  fixes s :: gateway
  assumes "reg s rs" "\<not> transaction_started s" "a \<noteq> empty_address" "mqtt_online s"
  shows "fst (run_state (set_asleep_duration a d) s) = session_result rs a"
    "updates_session s rs a (\<lambda>e. e\<lparr>ec_client_status := ASLEEP\<rparr>)
      (snd (run_state (set_asleep_duration a d) s))"
    "fst (run_state (set_asleep a) s) = session_result rs a"
    "updates_session s rs a (\<lambda>e. e\<lparr>ec_client_status := ASLEEP\<rparr>) (snd (run_state (set_asleep a) s))"
proof -
  note * = run_session_op [OF assms(1-3), of "\<lambda>e. e\<lparr>ec_client_status := ASLEEP\<rparr>"]
  have "run_state (set_asleep_duration a d) s = run_state (set_asleep a) s"
    by (simp add: set_asleep_duration_def set_asleep_def set_client_duration_def split_beta
        State_Monad.return_def)
  moreover have "run_state (set_asleep a) s = run_state (do { start_client_transaction_address a;
      update_entry (\<lambda>e. e\<lparr>ec_client_status := ASLEEP\<rparr>);
      r \<leftarrow> apply_transaction; ret (result_client r) }) s"
    using assms(4) by (simp add: set_asleep_def is_mqtt_online_def set_client_state_def)
  ultimately show "fst (run_state (set_asleep_duration a d) s) = session_result rs a"
    "updates_session s rs a (\<lambda>e. e\<lparr>ec_client_status := ASLEEP\<rparr>)
      (snd (run_state (set_asleep_duration a d) s))"
    "fst (run_state (set_asleep a) s) = session_result rs a"
    "updates_session s rs a (\<lambda>e. e\<lparr>ec_client_status := ASLEEP\<rparr>) (snd (run_state (set_asleep a) s))"
    using * by simp_all
qed

text \<open>The session after its entry has been updated.\<close>

lemma session_update_first: "(\<And>e. ec_client_address (f e) = ec_client_address e) \<Longrightarrow>
    session (update_first (at_address a) f rs) a = map_option f (session rs a)"
  by (induction rs) (auto simp: session_def)

lemma update_first_update_first: "(\<And>e. ec_client_address (f e) = ec_client_address e) \<Longrightarrow>
    update_first (at_address a) g (update_first (at_address a) f rs) = update_first (at_address a) (\<lambda>e. g (f e)) rs"
  by (induction rs) auto

lemma update_first_same [simp]: "update_first P (\<lambda>e. e) rs = rs"
  by (induction rs) auto

lemma keeps_key_address: "keeps_key f \<Longrightarrow> ec_client_address (f e) = ec_client_address e"
  by (simp add: keeps_key_def)

text \<open>One update inside a transaction on the session of an address.\<close>

lemma open_with_registry [simp]: "with_registry rs (open_transaction e s) = open_transaction e (with_registry rs s)"
  by (simp add: with_registry_def open_transaction_def set_file_def path_in_def)

lemma with_registry_twice [simp]: "with_registry qs (with_registry rs s) = with_registry qs s"
  by (simp add: with_registry_def)

lemma run_update_open:
  assumes "reg s rs" "session rs a = Some e" "a \<noteq> empty_address" "keeps_key f"
  defines "qs \<equiv> update_first (at_address a) f rs"
  shows "run_state (update_entry f) (open_transaction (Some e) s) =
      ((), open_transaction (Some (f e)) (with_registry qs s))"
    "reg (with_registry qs s) qs" "session qs a = Some (f e)"
proof -
  have ok: "registry_ok rs" using assms(1) by (simp add: reg_def)
  obtain i where i: "i < length rs" "ec_client_address (rs ! i) = a" "e = rs ! i" "qs = rs[i := f (rs ! i)]"
    unfolding qs_def using assms(2) by (cases rule: session_cases [of rs a f]) auto
  then have live: "live i (rs ! i)" using registry_ok_live_address [OF ok] assms(3) by auto
  have "(open_transaction (Some e) s)\<lparr>entry := f e\<rparr> = open_transaction (Some (f e)) s"
    by (simp add: open_transaction_def)
  then show "run_state (update_entry f) (open_transaction (Some e) s) =
      ((), open_transaction (Some (f e)) (with_registry qs s))"
    using run_update_entry [of "open_transaction (Some e) s" rs i f] assms(1,4) i live by simp
  show "reg (with_registry qs s) qs"
    using registry_ok_update [OF ok assms(4) i(1) live] i(4) by (simp add: reg_with_registry)
  show "session qs a = Some (f e)"
    using assms(2) by (simp add: qs_def session_update_first keeps_key_address [OF assms(4)])
qed

end
