(* ===== verification/Samples.thy ===== *)
theory Samples
  imports GatewaySteps DeviceStates
begin

text \<open>
  A small gateway for the witnesses of the properties: started on an empty card and connected to
  the broker, with the client \<open>A\<close> in the first slot of the registry.
\<close>

definition alice_address :: device_address where
  "alice_address = [10, 0, 0, 1, 34, 184]"

definition alice :: entry_client where
  "alice = \<lparr>ec_client_id = padz 24 (str ''A''), ec_file_number = padz 9 (fmt08 0),
     ec_client_address = alice_address, ec_client_status = ACTIVE, ec_duration = 60000,
     ec_timeout = 0, ec_await_message_id = 0, ec_await_message = MQTTSN_PINGREQ\<rparr>"

definition online :: gateway where
  "online = begun\<lparr>mqtt_online := True\<rparr>"

definition with_alice :: gateway where
  "with_alice = with_registry [alice] online"

lemma id_of_alice [simp]: "id_of alice = str ''A''"
  by (simp add: id_of_def alice_def padz_def cstr_def)

lemma live_alice [simp]: "live 0 alice"
  unfolding live_def by (simp add: wf_client_def MAXIMUM_CLIENT_ID_LENGTH_def)
    (simp add: alice_def alice_address_def empty_address_def eval_nat_numeral)

lemma alice_simps [simp]: "ec_client_address alice = alice_address"
  "ec_client_status alice = ACTIVE" "alice_address \<noteq> empty_address" "length alice_address = 6"
  by (simp_all add: alice_def alice_address_def empty_address_def eval_nat_numeral)

lemma online_simps [simp]: "socket_fd online = 3" "mqtt_online online" "sent online = []"
  "broker_calls online = []" "\<not> transaction_started online" "\<not> error online"
  "\<not> diverged online" "client_rc online cs = 0" "\<not> not_in_client_registry online"
  "mqttsn_online online"
  by (simp_all add: online_def begun_eq new_gateway_def)

lemma with_alice_simps [simp]: "socket_fd with_alice = 3" "mqtt_online with_alice"
  "sent with_alice = []" "broker_calls with_alice = []" "\<not> transaction_started with_alice"
  "client_rc with_alice cs = 0"
  by (simp_all add: with_alice_def)

lemma registry_alice: "registry_ok [alice]"
  by (rule registry_okI) simp_all

lemma reg_with_alice [simp]: "reg with_alice [alice]"
  unfolding with_alice_def by (rule reg_with_registry [OF registry_alice])

lemma reg_online [simp]: "reg online []"
proof -
  have "files online (path_in online client_registry) = Some []"
    by (simp add: online_def begun_eq path_in_def new_gateway_def client_registry_def slash_def)
  then show ?thesis by (simp add: reg_def client.holds_def registry_ok_def)
qed

lemma session_alice [simp]: "session [alice] alice_address = Some alice"
  by (simp add: session_def)

text \<open>Inside a transaction on \<open>A\<close>.\<close>

definition in_alice :: gateway where
  "in_alice = open_transaction (Some alice) with_alice"

lemma in_alice_simps [simp]: "entry in_alice = alice" "\<not> no_client in_alice"
  "\<not> no_transaction in_alice"
  by (simp_all add: in_alice_def)

lemma file_number_alice: "cstr (ec_file_number alice) = replicate 8 48"
proof -
  have "digits_fixed k 0 = replicate k 48" for k
    by (induction k) (simp_all add: digit_def flip: replicate_append_same)
  then show ?thesis by (simp add: alice_def fmt08_def no_nul_def)
qed

lemma mqtt_sub_other: "mqtt_sub \<noteq> client_file alice e"
proof -
  have "hd (client_file alice e) = 48"
    by (simp add: client_file_def file_number_alice)
  moreover have "hd mqtt_sub = 77" by (simp add: mqtt_sub_def)
  ultimately show ?thesis by auto
qed

end
