(* ===== verification/SubscriptionRemoval.thy ===== *)
theory SubscriptionRemoval
  imports SubscriptionTables Samples
begin

text \<open>
  Termination of \<open>CoreImpl::remove_client_subscriptions\<close>: the loop takes the entry at the index
  \<open>count - 1\<close> of the table, not the last one in use.  It ends when the entries in use are the
  first ones of the table, and runs for ever when there is a cleared entry at that index.
\<close>

section \<open>Counting\<close>

lemma active_bound: "active_subscriptions es \<le> length es"
  by (simp add: active_subscriptions_def)

lemma run_count_positive:
  assumes "subs.table s es" "\<not> no_client s" "0 < active_subscriptions es"
  shows "run_state get_client_subscription_count s = (of_nat (active_subscriptions es), s)"
    "(of_nat (active_subscriptions es) :: u16) > 0"
    "unat ((of_nat (active_subscriptions es) :: u16) - 1) = active_subscriptions es - 1"
proof -
  let ?c = "active_subscriptions es"
  have c: "?c < 65536" using assms(1) active_bound [of es] by (simp add: subs.table_def)
  then have u: "unat (of_nat ?c :: u16) = ?c" by (simp add: unat_of_nat)
  show "run_state get_client_subscription_count s = (of_nat ?c, s)"
    by (rule run_subscription_count [OF assms(1,2)])
  show "(of_nat ?c :: u16) > 0" using u assms(3) by (simp add: word_less_nat_alt)
  then show "unat ((of_nat ?c :: u16) - 1) = ?c - 1"
    using u assms(3) by (simp add: unat_sub word_le_nat_alt)
qed

text \<open>
  In the stuck state the slot whose index is the number of subscriptions minus one holds a cleared
  entry: the topic id that the round reads is 0, nothing is deleted, and the count stays.
\<close>

lemma stuck_round:
  fixes s :: gateway
  assumes "subs.table s es" "\<not> no_client s" "0 < active_subscriptions es"
    and "es_topic_id (es ! (active_subscriptions es - 1)) = 0"
  shows "run_state (remove_subscriptions_loop (Suc fuel)) s = run_state (remove_subscriptions_loop fuel) s"
proof -
  have n: "run_state (get_nth_subscribed_topic_id ((of_nat (active_subscriptions es) :: u16) - 1)) s = (0, s)"
    using assms active_bound [of es]
    by (simp add: run_nth_subscribed [OF assms(1,2)] run_count_positive(3) [OF assms(1-3)])
  have "run_state (get_topic_name 0) s = (None, s)"
    by (simp add: get_topic_name_def State_Monad.return_def)
  moreover have "run_state (delete_subscription 0) s = ((), s)"
    by (simp add: delete_subscription_def State_Monad.return_def)
  moreover have "run_state (decrement_global_subscription_count None) s = (False, s)"
    "run_state (get_global_topic_subscription_count None) s = (0, s)"
    by (simp_all add: decrement_global_subscription_count_def
        get_global_topic_subscription_count_def bad_topic_name_def State_Monad.return_def)
  moreover have "run_state (mqtt_unsubscribe None) s = (True, s)"
    by (simp add: mqtt_unsubscribe_def State_Monad.return_def)
  ultimately show ?thesis
    using n run_count_positive(1,2) [OF assms(1-3)] by (simp add: State_Monad.return_def)
qed

text \<open>The client \<open>A\<close> with the given subscriptions.\<close>

definition alice_subscribed :: "entry_subscription list \<Rightarrow> gateway" where
  "alice_subscribed es = subs.with_table es in_alice"

definition sample_subscription :: entry_subscription where
  "sample_subscription = \<lparr>es_topic_id = 1, es_qos = 0, es_topic_name = padz 255 (str ''t'')\<rparr>"

lemma alice_subscribed_simps:
  assumes "list_all wf_subscription es" "length es < 65535"
  shows "subs.table (alice_subscribed es) es" "\<not> no_client (alice_subscribed es)"
    "mqtt_sub \<noteq> sub_file (alice_subscribed es)"
proof -
  show "subs.table (alice_subscribed es) es"
    using assms by (simp add: alice_subscribed_def subs.table_with)
  show "\<not> no_client (alice_subscribed es)" by (simp add: alice_subscribed_def)
  have "sub_file (alice_subscribed es) = client_file alice SUBSCRIBE_FILE_ENDING"
    by (simp add: alice_subscribed_def subs.table_file_def)
  then show "mqtt_sub \<noteq> sub_file (alice_subscribed es)" using mqtt_sub_other by simp
qed

lemma wf_sample_subscription [simp]: "wf_subscription sample_subscription"
  "es_topic_id sample_subscription = 1"
  by (simp_all add: sample_subscription_def wf_subscription_def)

section \<open>Entries in use in front\<close>

definition packed :: "nat \<Rightarrow> entry_subscription list \<Rightarrow> bool" where
  "packed c es \<longleftrightarrow> c \<le> length es \<and> (\<forall>i < length es. es_topic_id (es ! i) \<noteq> 0 \<longleftrightarrow> i < c) \<and>
     distinct (map es_topic_id (take c es))"

lemma packed_active: "packed c es \<Longrightarrow> active_subscriptions es = c"
proof -
  assume p: "packed c es"
  have "{i. i < length es \<and> es_topic_id (es ! i) \<noteq> 0} = {..<c}"
    using p by (auto simp: packed_def intro: less_le_trans)
  then show ?thesis by (simp add: active_subscriptions_def length_filter_conv_card)
qed

lemma packed_clear:
  assumes "packed (Suc c) es"
  defines "es' \<equiv> update_first (\<lambda>e. es_topic_id e = es_topic_id (es ! c)) (\<lambda>e. empty_subscription) es"
  shows "packed c es'" "length es' = length es" "list_all wf_subscription es \<Longrightarrow> list_all wf_subscription es'"
proof -
  have c: "c < length es" using assms(1) by (simp add: packed_def)
  have other: "es_topic_id (es ! i) \<noteq> es_topic_id (es ! c)" if "i < c" for i
    using assms(1) that c
    by (auto simp: packed_def distinct_conv_nth dest!: spec [of _ i] spec [of _ c])
  have es': "es' = es[c := empty_subscription]"
    unfolding es'_def by (rule update_first_at) (use c other in auto)
  show "length es' = length es" by (simp add: es')
  show "packed c es'"
    using assms(1) c by (auto simp: packed_def es' nth_list_update distinct_map take_Suc_conv_app_nth)
  show "list_all wf_subscription es \<Longrightarrow> list_all wf_subscription es'"
    using c by (auto simp: es' list_all_length nth_list_update)
qed

text \<open>What the steps between two deletions leave alone.\<close>

definition sub_frame :: "gateway \<Rightarrow> gateway \<Rightarrow> bool" where
  "sub_frame s t \<longleftrightarrow> files t (path_in s (sub_file s)) = files s (path_in s (sub_file s)) \<and>
     rootPath t = rootPath s \<and> entry t = entry s \<and> no_client t = no_client s \<and>
     error t = error s \<and> diverged t = diverged s"

lemma sub_frame_refl [simp]: "sub_frame s s"
  by (simp add: sub_frame_def)

lemma sub_frame_sub_file: "sub_frame s t \<Longrightarrow> subs.table_file t = subs.table_file s \<and> path_in t n = path_in s n"
  by (simp add: sub_frame_def subs.table_file_def path_in_def)

lemma sub_frame_trans: "sub_frame s t \<Longrightarrow> sub_frame t u \<Longrightarrow> sub_frame s u"
  using sub_frame_sub_file [of s t] by (simp add: sub_frame_def)

lemma sub_frame_table: "sub_frame s t \<Longrightarrow> subs.table s es \<Longrightarrow> subs.table t es"
  using sub_frame_sub_file [of s t]
  by (simp add: subs.table_def subs.holds_def sub_frame_def)

lemma sub_frame_file: "p \<noteq> path_in s (sub_file s) \<Longrightarrow> sub_frame s (set_file p c s)"
  by (simp add: sub_frame_def set_file_def no_client_def no_transaction_def)

lemma sub_frame_global: "mqtt_sub \<noteq> sub_file s \<Longrightarrow> sub_frame s (set_file (path_in s mqtt_sub) c s)"
  by (rule sub_frame_file) simp

lemma reg_not_sub: "reg_file s \<noteq> sub_file s"
  by simp

lemma sub_frame_steps:
  assumes "mqtt_sub \<noteq> sub_file s"
  shows "sub_frame s (snd (run_state (get_topic_name t) s))"
    "sub_frame s (snd (run_state (decrement_global_subscription_count tn) s))"
    "sub_frame s (snd (run_state (get_global_topic_subscription_count tn) s))"
    "sub_frame s (snd (run_state (mqtt_unsubscribe tn) s))"
proof -
  note other = sub_frame_file [of "path_in s (reg_file s)" s, simplified path_in_inject, OF reg_not_sub]
  show "sub_frame s (snd (run_state (get_topic_name t) s))"
    using other by (auto simp: get_topic_name_def run_sd_open State_Monad.return_def
        split: loop_result.split)
  have glob: "snd (run_state (find_global n) s) = set_file (path_in s mqtt_sub) (content s (path_in s mqtt_sub)) s"
    for n by (simp add: find_global_def run_sd_open)
  show "sub_frame s (snd (run_state (decrement_global_subscription_count tn) s))"
    using sub_frame_global [OF assms] glob
    by (auto simp: decrement_global_subscription_count_def write_global_def run_write_at Let_def
        State_Monad.return_def split_beta split: loop_result.split prod.split)
  show "sub_frame s (snd (run_state (get_global_topic_subscription_count tn) s))"
    using sub_frame_global [OF assms]
    by (auto simp: get_global_topic_subscription_count_def run_sd_open State_Monad.return_def
        split: loop_result.split)
  show "sub_frame s (snd (run_state (mqtt_unsubscribe tn) s))"
    by (auto simp: mqtt_unsubscribe_def call_broker_def State_Monad.return_def sub_frame_def
        no_client_def no_transaction_def split: option.split)
qed

lemma cleared_wf: "list_all wf_subscription es \<Longrightarrow>
    list_all wf_subscription (update_first P (\<lambda>e. empty_subscription) es)"
  and cleared_length: "length (update_first P (\<lambda>e. empty_subscription) es) = length es"
  by (induction es) auto

text \<open>A round that finds a subscription clears the first entry with its topic id.\<close>

lemma remove_round:
  assumes "subs.table s es" "\<not> no_client s" "active_subscriptions es = Suc c"
    and "es_topic_id (es ! c) \<noteq> 0" "mqtt_sub \<noteq> sub_file s"
  defines "es' \<equiv> update_first (\<lambda>e. es_topic_id e = es_topic_id (es ! c)) (\<lambda>e. empty_subscription) es"
  shows "\<exists>t. run_state (remove_subscriptions_loop (Suc fuel)) s =
      run_state (remove_subscriptions_loop fuel) t \<and> subs.table t es' \<and>
      \<not> no_client t \<and> mqtt_sub \<noteq> sub_file t \<and> diverged t = diverged s"
proof -
  let ?id = "es_topic_id (es ! c)"
  note pos = run_count_positive [OF assms(1,2), unfolded assms(3), simplified]
  have c: "c < length es" "?id \<noteq> 0" using active_bound [of es] assms(3,4) by simp_all
  have nth: "run_state (get_nth_subscribed_topic_id (of_nat (Suc c) - 1)) s = (?id, s)"
    using c pos(3) by (simp add: run_nth_subscribed [OF assms(1,2)])
  obtain tn s1 where s1: "run_state (get_topic_name ?id) s = (tn, s1)" by fastforce
  have f1: "sub_frame s s1" using sub_frame_steps(1) [OF assms(5), of ?id] s1 by simp
  have t1: "subs.table s1 es" "\<not> no_client s1"
    using sub_frame_table [OF f1 assms(1)] f1 assms(2) by (simp_all add: sub_frame_def)
  have "?id \<in> es_topic_id ` set es" using c by auto
  then have del: "run_state (delete_subscription ?id) s1 = ((), subs.with_table es' s1)"
    using run_delete_subscription [OF t1 c(2)] by (simp add: es'_def)
  let ?s2 = "subs.with_table es' s1"
  have s2: "subs.table ?s2 es'" "\<not> no_client ?s2" "mqtt_sub \<noteq> sub_file ?s2"
      "diverged ?s2 = diverged s"
  proof -
    show "subs.table ?s2 es'"
      by (rule subs.table_with) (use cleared_wf [of es] cleared_length [of _ es] subs.table_wf [OF assms(1)] assms(1)
          in \<open>simp_all add: subs.table_def es'_def\<close>)
    show "diverged ?s2 = diverged s"
      using f1 by (simp add: sub_frame_def subs.with_table_def subs.put_def set_file_def)
  qed (use t1 f1 assms(5) sub_frame_sub_file [OF f1] in simp_all)
  obtain b s3 where s3: "run_state (decrement_global_subscription_count tn) ?s2 = (b, s3)" by fastforce
  have f3: "sub_frame ?s2 s3" using sub_frame_steps(2) [OF s2(3), of tn] s3 by simp
  then have m3: "mqtt_sub \<noteq> sub_file s3" using s2(3) sub_frame_sub_file by simp
  obtain n s4 where s4: "run_state (get_global_topic_subscription_count tn) s3 = (n, s4)" by fastforce
  have f4: "sub_frame s3 s4" using sub_frame_steps(3) [OF m3, of tn] s4 by simp
  then have m4: "mqtt_sub \<noteq> sub_file s4" using m3 sub_frame_sub_file by simp
  define t where "t = (if n = 0 then snd (run_state (mqtt_unsubscribe tn) s4) else s4)"
  have "sub_frame s4 t" using sub_frame_steps(4) [OF m4, of tn] by (simp add: t_def)
  then have ft: "sub_frame ?s2 t" using f3 f4 sub_frame_trans by blast
  have "run_state (remove_subscriptions_loop (Suc fuel)) s = run_state (remove_subscriptions_loop fuel) t"
    using pos(1,2) nth s1 del s3 s4
    by (simp add: t_def State_Monad.return_def split_beta)
  moreover have "subs.table t es'" using sub_frame_table [OF ft s2(1)] .
  moreover have "\<not> no_client t" "mqtt_sub \<noteq> sub_file t" "diverged t = diverged s"
    using ft s2 sub_frame_sub_file [OF ft] by (simp_all add: sub_frame_def)
  ultimately show ?thesis by blast
qed

text \<open>
  C31: When the subscriptions of a client occupy the first slots of its table, each with a topic id
  of its own, and the table is another file than that of the counts, the removal loop deletes them all and ends: it needs one round more than there are
  subscriptions, and the table it leaves has none in use.
\<close>

theorem remove_subscriptions_completes:
  fixes s :: gateway
  assumes "subs.table s es" "\<not> no_client s" "packed c es" "mqtt_sub \<noteq> sub_file s" "c < fuel"
  shows "\<exists>t es'. run_state (remove_subscriptions_loop fuel) s = ((), t) \<and> subs.table t es' \<and>
    length es' = length es \<and> active_subscriptions es' = 0 \<and> diverged t = diverged s"
  using assms
proof (induction c arbitrary: s es fuel)
  case 0
  then obtain k where k: "fuel = Suc k" by (cases fuel) auto
  have "run_state (remove_subscriptions_loop fuel) s = ((), s)"
    using run_subscription_count [OF 0(1,2)] packed_active [OF 0(3)]
    by (simp add: k State_Monad.return_def)
  then show ?case using 0 packed_active [OF 0(3)] by blast
next
  case (Suc c)
  then obtain k where k: "fuel = Suc k" "c < k" by (cases fuel) auto
  let ?es = "update_first (\<lambda>e. es_topic_id e = es_topic_id (es ! c)) (\<lambda>e. empty_subscription) es"
  have c: "es_topic_id (es ! c) \<noteq> 0" using Suc.prems(3) by (simp add: packed_def)
  obtain t where t: "run_state (remove_subscriptions_loop fuel) s =
      run_state (remove_subscriptions_loop k) t" "subs.table t ?es" "\<not> no_client t"
      "mqtt_sub \<noteq> sub_file t" "diverged t = diverged s"
    using remove_round [OF Suc.prems(1,2) packed_active [OF Suc.prems(3)] c Suc.prems(4), of k] k(1)
    by blast
  then show ?case
    using Suc.IH [OF t(2,3) packed_clear(1) [OF Suc.prems(3)] t(4) k(2)] packed_clear(2) [OF Suc.prems(3)]
    by simp
qed

lemma remove_subscriptions_completes_witness:
  "\<not> diverged (snd (run_state (remove_subscriptions_loop 2) (alice_subscribed [sample_subscription])))"
proof -
  have "packed 1 [sample_subscription]" by (simp add: packed_def)
  moreover have "\<not> diverged (alice_subscribed [sample_subscription])"
    by (simp add: alice_subscribed_def subs.with_table_def subs.put_def set_file_def in_alice_def
        open_transaction_def with_alice_def with_registry_def)
  ultimately show ?thesis
    using remove_subscriptions_completes [OF alice_subscribed_simps(1,2) _ alice_subscribed_simps(3),
        of "[sample_subscription]" 1 2]
    by auto
qed

section \<open>A cleared entry in front of one in use, in any table\<close>

definition gap :: "entry_subscription list \<Rightarrow> bool" where
  "gap es \<longleftrightarrow> (\<exists>i j. i < j \<and> j < length es \<and> es_topic_id (es ! i) = 0 \<and> es_topic_id (es ! j) \<noteq> 0)"

lemma gap_positive: "gap es \<Longrightarrow> 0 < active_subscriptions es"
  by (auto simp: gap_def active_subscriptions_def filter_empty_conv dest: nth_mem)

text \<open>With a gap there is an entry in use whose index is the number of entries in use, or more.\<close>

lemma gap_active:
  assumes "gap es"
  obtains j where "active_subscriptions es \<le> j" "j < length es" "es_topic_id (es ! j) \<noteq> 0"
proof (rule ccontr)
  assume none: "\<not> thesis"
  let ?A = "{i. i < length es \<and> es_topic_id (es ! i) \<noteq> 0}"
  have card: "card ?A = active_subscriptions es"
    by (simp add: active_subscriptions_def length_filter_conv_card)
  have "?A \<subseteq> {..<active_subscriptions es}" using none that by (force simp: not_le)
  then have "?A = {..<active_subscriptions es}" by (intro card_subset_eq) (simp_all add: card)
  then have all: "i < length es \<and> es_topic_id (es ! i) \<noteq> 0 \<longleftrightarrow> i < active_subscriptions es" for i
    by auto
  obtain i j where "i < j" "j < length es" "es_topic_id (es ! i) = 0" "es_topic_id (es ! j) \<noteq> 0"
    using assms by (auto simp: gap_def)
  then show False using all [of i] all [of j] by simp
qed

lemma gap_cleared:
  assumes "gap es" "active_subscriptions es = Suc c" "es_topic_id (es ! c) \<noteq> 0"
  shows "gap (update_first (\<lambda>e. es_topic_id e = es_topic_id (es ! c)) (\<lambda>e. empty_subscription) es)"
proof -
  obtain j where j: "Suc c \<le> j" "j < length es" "es_topic_id (es ! j) \<noteq> 0"
    using gap_active [OF assms(1)] assms(2) by metis
  let ?P = "\<lambda>k. k < length es \<and> es_topic_id (es ! k) = es_topic_id (es ! c)"
  define k where "k = (LEAST k. ?P k)"
  have c: "?P c" using j by simp
  have k: "?P k" unfolding k_def by (rule LeastI [of ?P, OF c])
  have le: "k \<le> c" unfolding k_def by (rule Least_le [of ?P, OF c])
  have first: "es_topic_id (es ! i) \<noteq> es_topic_id (es ! c)" if "i < k" for i
    using not_less_Least [of i ?P] that k unfolding k_def [symmetric] by simp
  have "update_first (\<lambda>e. es_topic_id e = es_topic_id (es ! c)) (\<lambda>e. empty_subscription) es
      = es[k := empty_subscription]"
    by (rule update_first_at) (use k first in auto)
  then show ?thesis
    unfolding gap_def using j le k by (intro exI [of _ k] exI [of _ j]) simp
qed

text \<open>
  C32: When a cleared entry precedes one in use in the subscription table of a client, the removal
  loop does not come to its end, whatever the fuel: it may delete some subscriptions, but every
  round leaves a table with a cleared entry before one in use, in the end one that the rounds no
  longer change.  (The table of the client is another file than that of the counts.)
\<close>

theorem remove_subscriptions_endless:
  fixes s :: gateway
  assumes "subs.table s es" "\<not> no_client s" "mqtt_sub \<noteq> sub_file s"
    and "i < j" "j < length es" "es_topic_id (es ! i) = 0" "es_topic_id (es ! j) \<noteq> 0"
  shows "diverged (snd (run_state (remove_subscriptions_loop fuel) s))"
proof -
  have "gap es" using assms(4-) by (auto simp: gap_def)
  with assms(1-3) show ?thesis
  proof (induction fuel arbitrary: s es)
    case (Suc fuel)
    obtain c where c: "active_subscriptions es = Suc c"
      using gap_positive [OF Suc.prems(4)] by (cases "active_subscriptions es") simp_all
    show ?case
    proof (cases "es_topic_id (es ! c) = 0")
      case True
      then show ?thesis using stuck_round [OF Suc.prems(1,2), of fuel] Suc.IH [OF Suc.prems] c by simp
    next
      case False
      let ?es = "update_first (\<lambda>e. es_topic_id e = es_topic_id (es ! c)) (\<lambda>e. empty_subscription) es"
      obtain t where "run_state (remove_subscriptions_loop (Suc fuel)) s =
          run_state (remove_subscriptions_loop fuel) t" "subs.table t ?es" "\<not> no_client t"
          "mqtt_sub \<noteq> sub_file t"
        using remove_round [OF Suc.prems(1,2) c False Suc.prems(3), of fuel] by blast
      then show ?thesis using Suc.IH [of t ?es] gap_cleared [OF Suc.prems(4) c False] by simp
    qed
  qed simp
qed

text \<open>Two rounds with a cleared entry and three in use: the second slot is cleared, then the loop is stuck.\<close>

lemma remove_subscriptions_endless_witness:
  "diverged (snd (run_state (remove_subscriptions_loop 65536)
     (alice_subscribed [empty_subscription, sample_subscription, sample_subscription\<lparr>es_topic_id := 2\<rparr>])))"
proof -
  let ?es = "[empty_subscription, sample_subscription, sample_subscription\<lparr>es_topic_id := 2\<rparr>]"
  have "list_all wf_subscription ?es"
    by (simp add: wf_subscription_def sample_subscription_def)
  then show ?thesis
    by (intro remove_subscriptions_endless [of _ ?es 0 1] alice_subscribed_simps) simp_all
qed

end
