(* ===== verification/Connecting.thy ===== *)
theory Connecting
  imports Samples
begin

text \<open>
  CONNECT on the abstract registry: a known client id gets its entry reset in place, a new one
  gets the first free slot or a new one behind the last.
\<close>

section \<open>The abstract operation\<close>

definition reconnected :: "bytes \<Rightarrow> device_address \<Rightarrow> u32 \<Rightarrow> entry_client \<Rightarrow> entry_client" where
  "reconnected cid a d e = e\<lparr>ec_client_address := a, ec_client_id := padz 24 cid, ec_duration := d,
     ec_timeout := 0, ec_client_status := ACTIVE, ec_await_message_id := 0,
     ec_await_message := MQTTSN_PINGREQ\<rparr>"

definition new_client :: "bytes \<Rightarrow> device_address \<Rightarrow> u32 \<Rightarrow> nat \<Rightarrow> entry_client" where
  "new_client cid a d i = \<lparr>ec_client_id = padz 24 cid, ec_file_number = padz 9 (fmt08 i),
     ec_client_address = a, ec_client_status = ACTIVE, ec_duration = d, ec_timeout = 0,
     ec_await_message_id = 0, ec_await_message = MQTTSN_PINGREQ\<rparr>"

definition store_at :: "nat \<Rightarrow> 'a \<Rightarrow> 'a list \<Rightarrow> 'a list" where
  "store_at i x xs = (if i < length xs then xs[i := x] else xs @ [x])"

definition connect_spec :: "bytes \<Rightarrow> device_address \<Rightarrow> u32 \<Rightarrow> entry_client list \<Rightarrow> entry_client list"
  where
  "connect_spec cid a d rs =
     (if client_of rs cid = None then store_at (free_slot rs) (new_client cid a d (free_slot rs)) rs
      else update_first (\<lambda>e. id_of e = cid) (reconnected cid a d) rs)"

section \<open>The steps\<close>

lemma run_write_entry:
  assumes "registry_file s rs" "i \<le> length rs" "i < 65536" "wf_client (entry s)"
  shows "run_state (write_entry (int i)) s = ((), with_registry (store_at i (entry s) rs) s)"
proof -
  have h: "client.holds s client_registry rs" using assms by (simp add: registry_file_def)
  have "i * sizeof_entry_client < 2 ^ 32" using assms(3) by (simp add: sizeof_entry_client_def)
  from client.holds_write(1) [OF h assms(4,2) this] show ?thesis
    by (simp add: write_entry_def with_registry_def store_at_def)
qed

lemma run_reset_client:
  assumes "registry_file s rs" "client_of rs cid = Some e" "entry s = e" "\<not> no_client s"
    "length cid < 24" "no_nul cid" "length a = 6" "wf_client e"
  shows "run_state (reset_client cid a d) s = ((),
    (with_registry (update_first (\<lambda>e. id_of e = cid) (reconnected cid a d) rs)
      (s\<lparr>entry := reconnected cid a d e\<rparr>))\<lparr>not_in_client_registry := False\<rparr>)"
  using assms(1)
proof (cases rule: find_client_cases [where P = "\<lambda>e. id_of e = cid"])
  case (found i)
  have e: "e = rs ! i" using found(4) assms(2) by (simp add: client_of_def)
  have i: "i < 65536" using found(1) assms(1) by (simp add: registry_file_def)
  have wf: "wf_client (reconnected cid a d e)" using assms(7,8) by (simp add: reconnected_def wf_client_def)
  have "registry_file (s\<lparr>entry := reconnected cid a d e\<rparr>) rs"
    by (rule registry_file_members [OF _ _ assms(1)]) simp_all
  from run_write_entry [OF this, of i] have "run_state (write_entry (int i))
      (s\<lparr>entry := reconnected cid a d e\<rparr>) = ((), with_registry (rs[i := reconnected cid a d e])
        (s\<lparr>entry := reconnected cid a d e\<rparr>))"
    using found(1) i wf by (simp add: store_at_def)
  moreover have "uint (of_nat i :: u32) = int i" using i by (simp add: uint_nat unat_of_nat)
  ultimately show ?thesis
    using assms found(1,2,5,6) e
    by (simp add: reset_client_def MAXIMUM_CLIENT_ID_LENGTH_def
        reconnected_def id_of_def no_client_def)
next
  case none
  then show ?thesis using assms(2) by (simp add: client_of_def)
qed

lemma run_create_file: "run_state (create_file n) s =
    ((), set_file (path_in s n) (content s (path_in s n)) s)"
  by (simp add: create_file_def run_sd_open State_Monad.return_def)

text \<open>The files of a new client, created if they are missing.\<close>

definition touch :: "bytes \<Rightarrow> 'z persistent_scheme \<Rightarrow> 'z persistent_scheme" where
  "touch n s = set_file (path_in s n) (content s (path_in s n)) s"

definition touch_files :: "entry_client \<Rightarrow> 'z persistent_scheme \<Rightarrow> 'z persistent_scheme" where
  "touch_files e s = touch (client_file e PUBLISH_FILE_ENDING) (touch (client_file e WILL_FILE_ENDING)
     (touch (client_file e SUBSCRIBE_FILE_ENDING) (touch (client_file e REGISTRATION_FILE_ENDING) s)))"

lemma touch_simps [simp]: "path_in (touch n s) m = path_in s m" "rootPath (touch n s) = rootPath s"
  "entry (touch n s) = entry s" "transaction_started (touch n s) = transaction_started s"
  "error (touch n s) = error s" "not_in_client_registry (touch n s) = not_in_client_registry s"
  "content (touch n s) p = content s p"
  "files (touch n s) p = (if p = path_in s n then Some (content s p) else files s p)"
  by (simp_all add: touch_def set_file_def path_in_def content_def)

lemma touch_outside [simp]: "sent (touch n s) = sent s" "broker_calls (touch n s) = broker_calls s"
  "mqtt_online (touch n s) = mqtt_online s" "socket_fd (touch n s) = socket_fd s"
  by (simp_all add: touch_def)

lemma registry_file_touch: "n \<noteq> client_registry \<Longrightarrow> registry_file (touch n s) rs \<longleftrightarrow> registry_file s rs"
  by (simp add: registry_file_def client.holds_def)

lemma touch_files_simps [simp]: "entry (touch_files e s) = entry s"
  "transaction_started (touch_files e s) = transaction_started s"
  "error (touch_files e s) = error s" "path_in (touch_files e s) m = path_in s m"
  "not_in_client_registry (touch_files e s) = not_in_client_registry s"
  "registry_file (touch_files e s) rs \<longleftrightarrow> registry_file s rs"
  by (simp_all add: touch_files_def registry_file_touch)

lemma touch_files_outside [simp]: "sent (touch_files e s) = sent s"
  "broker_calls (touch_files e s) = broker_calls s" "mqtt_online (touch_files e s) = mqtt_online s"
  "socket_fd (touch_files e s) = socket_fd s"
  by (simp_all add: touch_files_def)

lemma wf_new_client: "length a = 6 \<Longrightarrow> wf_client (new_client cid a d i)"
  by (simp add: new_client_def wf_client_def)

lemma run_add_client:
  fixes cid :: bytes and a :: device_address and d :: u32
  assumes "registry_file s rs" "length rs < 65536" "transaction_started s" "\<not> error s"
    "not_in_client_registry s" "length cid < 24" "no_nul cid" "length a = 6"
  defines "e \<equiv> new_client cid a d (free_slot rs)"
  shows "run_state (add_client cid a d) s = ((),
    (with_registry (store_at (free_slot rs) e rs) (touch_files e (s\<lparr>entry := e\<rparr>)))
      \<lparr>not_in_client_registry := False\<rparr>)"
proof -
  have i: "free_slot rs \<le> length rs" "free_slot rs < 65536" using free_slot_le [of rs] assms(2) by simp_all
  then have u: "unat (of_nat (free_slot rs) :: u16) = free_slot rs" by (simp add: unat_of_nat)
  have h: "client.holds s client_registry rs" using assms by (simp add: registry_file_def)
  have "registry_file (s\<lparr>entry := e\<rparr>) rs" by (rule registry_file_members [OF _ _ assms(1)]) simp_all
  then have "run_state (write_entry (int (free_slot rs))) (touch_files e (s\<lparr>entry := e\<rparr>)) =
      ((), with_registry (store_at (free_slot rs) e rs) (touch_files e (s\<lparr>entry := e\<rparr>)))"
    using run_write_entry [of "touch_files e (s\<lparr>entry := e\<rparr>)" rs "free_slot rs"] i
      wf_new_client [OF assms(8)]
    by (simp add: e_def)
  then show ?thesis
    using assms(3-7) i u
    by (simp add: add_client_def run_find_empty [OF h] run_create_file MAXIMUM_CLIENT_ID_LENGTH_def
        e_def new_client_def touch_files_def flip: touch_def)
qed

section \<open>The registry stays consistent\<close>

lemma id_of_connected: "no_nul cid \<Longrightarrow> length cid < 24 \<Longrightarrow> id_of (reconnected cid a d e) = cid"
  "no_nul cid \<Longrightarrow> length cid < 24 \<Longrightarrow> id_of (new_client cid a d i) = cid"
  by (simp_all add: reconnected_def new_client_def id_of_def)

lemma live_connected:
  assumes "no_nul cid" "length cid < 24" "cid \<noteq> []" "a \<noteq> empty_address" "length a = 6"
  shows "live i e \<Longrightarrow> live i (reconnected cid a d e)" "live i (new_client cid a d i)"
proof -
  note id = id_of_connected [OF assms(1,2)]
  show "live i e \<Longrightarrow> live i (reconnected cid a d e)" "live i (new_client cid a d i)"
    unfolding live_def id using assms
    by (simp_all add: reconnected_def new_client_def wf_client_def MAXIMUM_CLIENT_ID_LENGTH_def)
qed

lemma registry_ok_connect:
  assumes "registry_ok rs" "length rs < 65536"
    and key: "no_nul cid" "length cid < 24" "cid \<noteq> []" "a \<noteq> empty_address" "length a = 6"
  shows "registry_ok (connect_spec cid a d rs)"
proof (cases rule: find_first_cases [of "\<lambda>e. id_of e = cid" rs "reconnected cid a d"])
  case none
  let ?i = "free_slot rs" and ?e = "new_client cid a d (free_slot rs)"
  have fresh: "id_of (rs ! j) \<noteq> id_of ?e" if "j < length rs" for j
    using none(2) [of "rs ! j"] that id_of_connected(2) [OF key(1,2)] by simp
  have "registry_ok (store_at ?i ?e rs)"
  proof (cases "?i < length rs")
    case True
    then show ?thesis
      using registry_ok_set [OF assms(1) True live_connected(2) [OF key], of d] fresh
      by (simp add: store_at_def)
  next
    case False
    then have "?i = length rs" using free_slot_le [of rs] by simp
    moreover have "id_of ?e \<notin> id_of ` set rs" using fresh by (metis image_iff in_set_conv_nth)
    ultimately show ?thesis
      using registry_ok_append [OF assms(1,2), of ?e] live_connected(2) [OF key] False
      by (simp add: store_at_def)
  qed
  then show ?thesis using none(1) by (simp add: connect_spec_def client_of_def)
next
  case (some i)
  then have live: "live i (rs ! i)" using registry_ok_live [OF assms(1) some(1)] key(3) by simp
  have "registry_ok (rs[i := reconnected cid a d (rs ! i)])"
  proof (rule registry_ok_set [OF assms(1) some(1) live_connected(1) [OF key live]])
    fix j
    assume "j < length rs" "j \<noteq> i"
    then show "id_of (rs ! j) \<noteq> id_of (reconnected cid a d (rs ! i))"
      using registry_ok_same_id [OF assms(1) some(1), of j] some(2) key(3)
      by (auto simp: id_of_connected [OF key(1,2)])
  qed
  then show ?thesis using some by (simp add: connect_spec_def client_of_def)
qed

section \<open>CONNECT in the core\<close>

definition connects :: "gateway \<Rightarrow> entry_client list \<Rightarrow> bytes \<Rightarrow> device_address \<Rightarrow> u32 \<Rightarrow> gateway \<Rightarrow> bool"
  where
  "connects s rs cid a d t \<longleftrightarrow> reg t (connect_spec cid a d rs) \<and> \<not> transaction_started t \<and>
     sent t = sent s \<and> broker_calls t = broker_calls s \<and> mqtt_online t = mqtt_online s \<and>
     socket_fd t = socket_fd s"

text \<open>The entries keep their widths, with an empty client id too.\<close>

lemma wf_connect:
  assumes "list_all wf_client rs" "length a = 6"
  shows "list_all wf_client (connect_spec cid a d rs)"
proof (cases rule: find_first_cases [of "\<lambda>e. id_of e = cid" rs "reconnected cid a d"])
  case none
  then show ?thesis
    using assms wf_new_client [OF assms(2)]
    by (auto simp: connect_spec_def client_of_def store_at_def list_all_length nth_list_update nth_append)
next
  case (some i)
  moreover have "wf_client (reconnected cid a d (rs ! i))"
    using assms some(1) by (simp add: reconnected_def wf_client_def list_all_length)
  ultimately show ?thesis
    using assms(1) by (auto simp: connect_spec_def client_of_def list_all_length nth_list_update)
qed

lemma core_add_client_file:
  fixes s :: gateway
  assumes "registry_file s rs" "\<not> transaction_started s" "mqtt_online s" "length rs < 65536"
    and key: "no_nul cid" "length cid < 24" "length a = 6"
    and kept: "\<not> clean \<or> client_of rs cid = None"
  shows "\<exists>t. run_state (core_add_client cid dur clean a) s = (SUCCESS, t) \<and>
    client.holds t client_registry (connect_spec cid a (ucast dur * 1000) rs) \<and>
    \<not> transaction_started t \<and> sent t = sent s \<and> broker_calls t = broker_calls s \<and>
    mqtt_online t = mqtt_online s \<and> socket_fd t = socket_fd s"
proof -
  let ?d = "ucast dur * 1000 :: u32"
  note f = assms(1)
  have wfs: "list_all wf_client rs" using f by (simp add: registry_file_def client.holds_def)
  have stored: "client.holds (with_registry (connect_spec cid a ?d rs) u) client_registry
      (connect_spec cid a ?d rs)" for u :: gateway
    using wf_connect [OF wfs key(3)] by (simp add: client.holds_def)
  have fo: "registry_file (open_transaction x s) rs" for x
    by (rule registry_file_members [OF _ _ f]) simp_all
  have start: "run_state (start_client_transaction_id cid) s = ((), open_transaction (client_of rs cid) s)"
    using run_start_id [OF f assms(2), of cid] key by (simp add: MAXIMUM_CLIENT_ID_LENGTH_def)
  have exist: "run_state client_exist (open_transaction x s) = (x \<noteq> None, open_transaction x s)" for x
    by (simp add: client_exist_def)
  have h: "client.holds (u\<lparr>not_in_client_registry := b\<rparr>) n qs \<longleftrightarrow> client.holds u n qs"
    "client.holds (close_transaction u) n qs \<longleftrightarrow> client.holds u n qs" for u :: gateway and b n qs
    by (simp_all add: client.holds_def path_in_def close_transaction_def)
  show ?thesis
  proof (cases "client_of rs cid")
    case None
    let ?e = "new_client cid a ?d (free_slot rs)"
    define u where "u = with_registry (store_at (free_slot rs) ?e rs)
      (touch_files ?e ((open_transaction None s)\<lparr>entry := ?e\<rparr>))"
    have add: "run_state (add_client cid a ?d) (open_transaction None s) =
        ((), u\<lparr>not_in_client_registry := False\<rparr>)"
      unfolding u_def by (rule run_add_client [OF fo assms(4)]) (use key in simp_all)
    have "client.holds u client_registry (connect_spec cid a ?d rs)"
      using stored None by (simp add: u_def connect_spec_def)
    moreover have "transaction_started u" "\<not> error u" by (simp_all add: u_def)
    moreover have "sent u = sent s" "broker_calls u = broker_calls s" "mqtt_online u = mqtt_online s"
      "socket_fd u = socket_fd s"
      by (simp_all add: u_def)
    ultimately show ?thesis
      using None assms(3) add
      by (simp add: core_add_client_def is_mqtt_online_def start exist run_apply result_full_def h)
  next
    case (Some e)
    define u where "u = with_registry (update_first (\<lambda>e. id_of e = cid) (reconnected cid a ?d) rs)
      ((open_transaction (Some e) s)\<lparr>entry := reconnected cid a ?d e\<rparr>)"
    have "e \<in> set rs" using Some by (auto simp: client_of_def find_Some_iff)
    then have wf: "wf_client e" using wfs by (auto simp: list_all_iff)
    have reset: "run_state (reset_client cid a ?d) (open_transaction (Some e) s) =
        ((), u\<lparr>not_in_client_registry := False\<rparr>)"
      unfolding u_def by (rule run_reset_client [OF fo Some]) (use key wf in simp_all)
    have "client.holds u client_registry (connect_spec cid a ?d rs)"
      using stored Some by (simp add: u_def connect_spec_def)
    moreover have "transaction_started u" "\<not> error u" by (simp_all add: u_def)
    moreover have "sent u = sent s" "broker_calls u = broker_calls s" "mqtt_online u = mqtt_online s"
      "socket_fd u = socket_fd s"
      by (simp_all add: u_def)
    ultimately show ?thesis
      using Some assms(3) kept reset
      by (simp add: core_add_client_def is_mqtt_online_def start exist run_apply result_full_def h)
  qed
qed

lemma core_add_client_spec:
  fixes s :: gateway
  assumes "reg s rs" "\<not> transaction_started s" "mqtt_online s" "length rs < 65536"
    and key: "no_nul cid" "length cid < 24" "cid \<noteq> []" "a \<noteq> empty_address" "length a = 6"
    and kept: "\<not> clean \<or> client_of rs cid = None"
  shows "\<exists>t. run_state (core_add_client cid dur clean a) s = (SUCCESS, t) \<and>
    connects s rs cid a (ucast dur * 1000) t"
proof -
  have "registry_ok (connect_spec cid a (ucast dur * 1000) rs)"
    by (rule registry_ok_connect [OF _ assms(4) key]) (use assms(1) in \<open>simp add: reg_def\<close>)
  then show ?thesis
    using core_add_client_file [OF reg_file_of [OF assms(1)] assms(2-4) key(1,2,5) kept]
    by (simp add: connects_def reg_def)
qed

end
