(* ===== verification/DeviceMessages.thy ===== *)
theory DeviceMessages
  imports Samples
begin

text \<open>
  What the gateway answers to the messages PINGREQ and DISCONNECT and to messages it does not
  handle, and what they change in the registry.
\<close>

section \<open>Running the handlers\<close>

lemma run_send_or_notify: "0 \<le> socket_fd s \<Longrightarrow> run_state (send_or_notify a img n) s =
    (True, s\<lparr>sent := sent s @ [(a, take n (img @ unwritten n))]\<rparr>)"
  by (simp add: send_or_notify_def socket_send_def State_Monad.return_def)

lemma run_send_headers:
  assumes "0 \<le> socket_fd s"
  shows "run_state (send_pingresp a) s = (True, s\<lparr>sent := sent s @ [(a, written [2, MQTTSN_PINGRESP])]\<rparr>)"
    "run_state (send_disconnect a) s = (True, s\<lparr>sent := sent s @ [(a, written [2, MQTTSN_DISCONNECT])]\<rparr>)"
    "run_state (send_disconnect_duration a d) s =
      (True, s\<lparr>sent := sent s @ [(a, written [4, MQTTSN_DISCONNECT])]\<rparr>)"
  using assms
  by (simp_all add: send_pingresp_def send_disconnect_def send_disconnect_duration_def
      run_send_or_notify header_msg_def msg_disconnect_def written_def)

lemma byte_at_padz: "byte_at i (padz n xs) = (if i < n \<and> i < length xs then xs ! i else 0)"
  unfolding byte_at_def length_padz by (simp add: padz_def nth_append)

lemma updates_sent: "updates_session s rs a f t \<Longrightarrow>
    reg (t\<lparr>sent := d\<rparr>) (update_first (at_address a) f rs) \<and> \<not> transaction_started (t\<lparr>sent := d\<rparr>)"
  unfolding updates_session_def by (simp add: reg_def client.holds_def path_in_def) metis

section \<open>PINGREQ and DISCONNECT\<close>

text \<open>
  C29: A DISCONNECT without a duration sets the entry of the device in the registry to
  DISCONNECTED, changes no other entry and no other field, and is answered with a DISCONNECT;
  from a device that is not in the registry it is ignored.
\<close>

theorem disconnect_refines:
  fixes s :: gateway
  assumes "reg s rs" "\<not> transaction_started s" "a \<noteq> empty_address" "0 \<le> socket_fd s"
  defines "t \<equiv> snd (run_state (receive_datagram a [2, MQTTSN_DISCONNECT]) s)"
  shows "reg t (update_first (at_address a) (\<lambda>e. e\<lparr>ec_client_status := DISCONNECTED\<rparr>) rs) \<and>
    \<not> transaction_started t \<and>
    sent t = sent s @ (if session rs a = None then [] else [(a, written [2, MQTTSN_DISCONNECT])])"
proof -
  obtain r u where ru: "run_state (set_disconnected a) s = (r, u)" by fastforce
  note st = set_state_refines(1,2) [OF assms(1-3), unfolded ru fst_conv snd_conv]
  have t: "t = snd (run_state (handle_disconnect a) s)"
    by (simp add: t_def receive_datagram_def receiveData_def parse_disconnect_def byte_at_padz
        BUFLEN_def enum_defs)
  have fd: "0 \<le> socket_fd u" "sent u = sent s"
    using st(2) assms(4) by (simp_all add: updates_session_def)
  show ?thesis
  proof (cases "session rs a = None")
    case True
    then have "t = u" using ru st(1) by (simp add: t handle_disconnect_def session_result_def
        State_Monad.return_def)
    then show ?thesis using st(2) fd True by (simp add: updates_session_def)
  next
    case False
    then have "t = u\<lparr>sent := sent u @ [(a, written [2, MQTTSN_DISCONNECT])]\<rparr>"
      using ru st(1) fd by (simp add: t handle_disconnect_def session_result_def
          run_send_headers State_Monad.return_def)
    then show ?thesis using updates_sent [OF st(2)] fd False by simp
  qed
qed

text \<open>
  A DISCONNECT with a duration puts the device's entry to ASLEEP, but the duration is lost:
  the entry keeps the one of its CONNECT, whatever two bytes the message holds.  The answer is
  the two bytes 4 and DISCONNECT, so its length field promises two bytes that are not sent.
\<close>

theorem sleep_duration_lost:
  fixes s :: gateway and d0 d1 :: byte
  assumes "reg s rs" "\<not> transaction_started s" "a \<noteq> empty_address" "0 \<le> socket_fd s" "mqtt_online s"
  defines "t \<equiv> snd (run_state (receive_datagram a [4, MQTTSN_DISCONNECT, d0, d1]) s)"
  shows "reg t (update_first (at_address a) (\<lambda>e. e\<lparr>ec_client_status := ASLEEP\<rparr>) rs) \<and>
    \<not> transaction_started t \<and>
    sent t = sent s @ [(a, written [if session rs a = None then 2 else 4, MQTTSN_DISCONNECT])]"
proof -
  let ?d = "u16_at 2 (padz BUFLEN [4, MQTTSN_DISCONNECT, d0, d1])"
  obtain r u where ru: "run_state (set_asleep_duration a ?d) s = (r, u)" by fastforce
  note st = set_asleep_refines(1,2) [OF assms(1-3,5), of ?d, unfolded ru fst_conv snd_conv]
  have "t = snd (run_state (handle_disconnect_duration a ?d) s)"
    unfolding t_def receive_datagram_def receiveData_def parse_disconnect_def
    by (simp add: byte_at_padz BUFLEN_def enum_defs)
  moreover have fd: "0 \<le> socket_fd u" "sent u = sent s"
    using st(2) assms(4) by (simp_all add: updates_session_def)
  ultimately have "t = u\<lparr>sent := sent u @
      [(a, written [if session rs a = None then 2 else 4, MQTTSN_DISCONNECT])]\<rparr>"
    using ru st(1) by (simp add: handle_disconnect_duration_def session_result_def
        run_send_headers State_Monad.return_def)
  then show ?thesis using updates_sent [OF st(2)] fd by simp
qed

text \<open>
  A PINGREQ without a client id is answered with exactly one PINGRESP to its sender, whether
  or not the sender is connected, and changes nothing else.
\<close>

theorem pingreq_answered:
  fixes s :: gateway
  assumes "0 \<le> socket_fd s"
  shows "snd (run_state (receive_datagram a [2, MQTTSN_PINGREQ]) s) =
    s\<lparr>sent := sent s @ [(a, written [2, MQTTSN_PINGRESP])]\<rparr>"
  using assms
  by (simp add: receive_datagram_def receiveData_def parse_pingreq_def handle_pingreq_def
      byte_at_padz BUFLEN_def enum_defs run_send_headers State_Monad.return_def)

text \<open>
  C30: A PINGREQ with a client id of up to 23 bytes wakes the device up: its entry becomes AWAKE,
  whatever client id the message names, and nothing is sent yet.  A device that is not in the
  registry is told to disconnect.
\<close>

theorem pingreq_wakes:
  fixes s :: gateway and cid :: bytes
  assumes "reg s rs" "\<not> transaction_started s" "a \<noteq> empty_address" "0 \<le> socket_fd s"
    and "no_nul cid" "length cid < 24" "cid \<noteq> []"
  defines "t \<equiv> snd (run_state (receive_datagram a ([of_nat (length cid) + 3, MQTTSN_PINGREQ] @ cid)) s)"
  shows "reg t (update_first (at_address a) (\<lambda>e. e\<lparr>ec_client_status := AWAKE\<rparr>) rs) \<and>
    \<not> transaction_started t \<and>
    sent t = sent s @ (if session rs a = None then [(a, written [2, MQTTSN_DISCONNECT])] else [])"
proof -
  define bs where "bs = padz BUFLEN ([of_nat (length cid) + 3, MQTTSN_PINGREQ] @ cid)"
  have t: "t = snd (run_state (receiveData a bs) s)"
    by (simp only: t_def receive_datagram_def bs_def)
  obtain r u where ru: "run_state (set_awake a) s = (r, u)" by fastforce
  note st = set_state_refines(3,4) [OF assms(1-3), unfolded ru fst_conv snd_conv]
  have len: "unat (of_nat (length cid) + 3 :: byte) = length cid + 3"
  proof -
    have "(of_nat (length cid) + 3 :: byte) = of_nat (length cid + 3)" by simp
    moreover have "length cid + 3 < 256" using assms(6) by simp
    ultimately show ?thesis by (simp only: unat_of_nat) simp
  qed
  have name: "cstr (drop 2 bs) = cid"
    using assms(5,6) cstr_padz [of cid 253] by (simp add: bs_def padz_eq BUFLEN_def)
  have b: "byte_at 0 bs = of_nat (length cid) + 3" "byte_at (Suc 0) bs = MQTTSN_PINGREQ"
    by (simp_all add: bs_def byte_at_padz BUFLEN_def)
  have "byte_at 0 bs \<noteq> 2" "byte_at 0 bs > 2" "\<not> byte_at 0 bs < 2"
    "uint (byte_at 0 bs) = int (length cid) + 3"
  proof -
    define l :: byte where "l = of_nat (length cid) + 3"
    have l: "unat l = length cid + 3" using len by (simp add: l_def)
    have "l \<noteq> 2" "2 < l" "\<not> l < 2" using l by (auto simp: word_less_nat_alt)
    moreover have "uint l = int (unat l)" by simp
    moreover have "byte_at 0 bs = l" by (simp only: b l_def)
    ultimately show "byte_at 0 bs \<noteq> 2" "byte_at 0 bs > 2" "\<not> byte_at 0 bs < 2"
      "uint (byte_at 0 bs) = int (length cid) + 3"
      using l by simp_all
  qed
  then have "t = snd (run_state (handle_pingreq_id a cid) s)"
    using assms(6) name
    by (simp add: t receiveData_def parse_pingreq_def b(2))
  moreover have fd: "0 \<le> socket_fd u" "sent u = sent s"
    using st(2) assms(4) by (simp_all add: updates_session_def)
  ultimately have "t = (if session rs a = None
      then u\<lparr>sent := sent u @ [(a, written [2, MQTTSN_DISCONNECT])]\<rparr> else u)"
    using ru st(1) by (simp add: handle_pingreq_id_def session_result_def
        run_send_headers State_Monad.return_def)
  then show ?thesis using updates_sent [OF st(2)] fd st(2) by (simp add: updates_session_def)
qed

section \<open>Witnesses\<close>

lemma disconnect_refines_witness:
  "sent (snd (run_state (receive_datagram alice_address [2, MQTTSN_DISCONNECT]) with_alice))
    = [(alice_address, written [2, MQTTSN_DISCONNECT])]"
  using disconnect_refines [of with_alice "[alice]" alice_address] by simp

lemma sleep_duration_lost_witness:
  "sent (snd (run_state (receive_datagram alice_address [4, MQTTSN_DISCONNECT, 60, 0]) with_alice))
    = [(alice_address, written [4, MQTTSN_DISCONNECT])]"
  using sleep_duration_lost [of with_alice "[alice]" alice_address 60 0] by simp

lemma pingreq_answered_witness:
  "sent (snd (run_state (receive_datagram [1, 2, 3, 4, 5, 6] [2, MQTTSN_PINGREQ]) with_alice))
    = [([1, 2, 3, 4, 5, 6], written [2, MQTTSN_PINGRESP])]"
  using pingreq_answered [of with_alice "[1, 2, 3, 4, 5, 6]"] by simp

lemma pingreq_wakes_witness:
  "\<exists>t. reg t [alice\<lparr>ec_client_status := AWAKE\<rparr>] \<and>
    t = snd (run_state (receive_datagram alice_address [4, MQTTSN_PINGREQ, 65]) with_alice)"
  using pingreq_wakes [of with_alice "[alice]" alice_address "[65]"] by simp

end
