(* ===== verification/ConnectClaims.thy ===== *)
theory ConnectClaims
  imports Connecting DeviceMessages
begin

text \<open>
  The message CONNECT: what the gateway stores and answers.
\<close>

lemma run_send_connect:
  assumes "0 \<le> socket_fd s"
  shows "run_state (send_connack a c) s = (True, s\<lparr>sent := sent s @ [(a, written [3, MQTTSN_CONNACK, c])]\<rparr>)"
    "run_state (send_willtopicreq a) s =
      (True, s\<lparr>sent := sent s @ [(a, written [2, MQTTSN_WILLTOPICREQ])]\<rparr>)"
  using assms
  by (simp_all add: send_connack_def send_willtopicreq_def run_send_or_notify msg_connack_def
      header_msg_def written_def)

lemma connects_sent: "connects s rs cid a d t \<Longrightarrow>
    reg (t\<lparr>sent := x\<rparr>) (connect_spec cid a d rs) \<and> \<not> transaction_started (t\<lparr>sent := x\<rparr>)"
  by (simp add: connects_def reg_def client.holds_def path_in_def)

lemma connect_spec_address:
  "client_of rs cid \<noteq> None \<or> free_slot rs \<le> length rs \<Longrightarrow> session (connect_spec cid a d rs) a \<noteq> None"
proof -
  have "\<exists>e \<in> set (connect_spec cid a d rs). ec_client_address e = a"
  proof (cases rule: find_first_cases [of "\<lambda>e. id_of e = cid" rs "reconnected cid a d"])
    case none
    have "new_client cid a d (free_slot rs) \<in> set (connect_spec cid a d rs)"
      using none(1) by (auto simp: connect_spec_def client_of_def store_at_def intro: set_update_memI)
    then show ?thesis by (rule bexI [rotated]) (simp add: new_client_def)
  next
    case (some i)
    have "reconnected cid a d (rs ! i) \<in> set (connect_spec cid a d rs)"
      using some by (auto simp: connect_spec_def client_of_def intro: set_update_memI)
    then show ?thesis by (rule bexI [rotated]) (simp add: reconnected_def)
  qed
  then show ?thesis by (auto simp: session_def find_None_iff)
qed

text \<open>
  C7: While the gateway counts as online, CONNECT with a client id of 1 to 23 bytes, without a clean
  session or with a client id that is not known yet, does what the abstract operation \<open>connect_spec\<close> says: the entry of the client id is reset to the new address
  and duration, or a new entry is put into the first free slot or behind the last one.  The
  answer is a CONNACK, or a WILLTOPICREQ if the will flag is set, in which case the entry of the
  device then awaits the WILLTOPIC message.
\<close>

theorem connect_refines:
  fixes s :: gateway and cid :: bytes and a :: device_address and dur :: u16 and will clean :: bool
  assumes "reg s rs" "\<not> transaction_started s" "mqtt_online s" "length rs < 65536" "0 \<le> socket_fd s"
    and "no_nul cid" "length cid < 24" "cid \<noteq> []" "a \<noteq> empty_address" "length a = 6"
    and "\<not> clean \<or> client_of rs cid = None"
  defines "t \<equiv> snd (run_state (handle_connect a cid dur will clean) s)"
    and "qs \<equiv> connect_spec cid a (ucast dur * 1000) rs"
  shows "reg t (if will then update_first (at_address a) (\<lambda>e. e\<lparr>ec_await_message := MQTTSN_WILLTOPIC\<rparr>) qs
      else qs) \<and> \<not> transaction_started t \<and>
    sent t = sent s @ [(a, written (if will then [2, MQTTSN_WILLTOPICREQ]
      else [3, MQTTSN_CONNACK, ACCEPTED]))]"
proof -
  obtain u where u: "run_state (core_add_client cid dur clean a) s = (SUCCESS, u)"
      "connects s rs cid a (ucast dur * 1000) u"
    using core_add_client_spec [OF assms(1-4) assms(6-11)] by blast
  have fd: "0 \<le> socket_fd u" "sent u = sent s" "reg u qs" "\<not> transaction_started u"
    using u(2) assms(5) by (simp_all add: connects_def qs_def)
  show ?thesis
  proof (cases will)
    case False
    have "t = u\<lparr>sent := sent u @ [(a, written [3, MQTTSN_CONNACK, ACCEPTED])]\<rparr>"
      using u(1) False fd(1) by (simp add: t_def handle_connect_def run_send_connect State_Monad.return_def)
    then show ?thesis using connects_sent [OF u(2)] fd False by (simp add: qs_def)
  next
    case True
    obtain r v where v: "run_state (await_message a MQTTSN_WILLTOPIC) u = (r, v)" by fastforce
    note st = set_state_refines(5,6) [OF fd(3,4) assms(9), of MQTTSN_WILLTOPIC, unfolded v fst_conv snd_conv]
    have "session qs a \<noteq> None" unfolding qs_def by (rule connect_spec_address) (simp add: free_slot_le)
    then have "r = SUCCESS" using st(1) by (simp add: session_result_def)
    moreover have "0 \<le> socket_fd v" "sent v = sent u" using st(2) fd(1) by (simp_all add: updates_session_def)
    ultimately have "t = v\<lparr>sent := sent u @ [(a, written [2, MQTTSN_WILLTOPICREQ])]\<rparr>"
      using u(1) True v by (simp add: t_def handle_connect_def run_send_connect State_Monad.return_def)
    then show ?thesis using updates_sent [OF st(2)] fd True by simp
  qed
qed

lemma connect_refines_witness:
  "\<exists>t :: gateway. reg t [alice, new_client [66] [10, 0, 0, 2, 34, 184] 30000 1] \<and>
    sent t = [([10, 0, 0, 2, 34, 184], written [3, MQTTSN_CONNACK, ACCEPTED])]"
proof -
  have n: "client_of [alice] [66] = None" "free_slot [alice] = 1" by (simp_all add: client_of_def)
  have e: "[10, 0, 0, 2, 34, 184] \<noteq> empty_address" by (simp add: empty_address_def eval_nat_numeral)
  have c: "connect_spec [66] [10, 0, 0, 2, 34, 184] (ucast (30::u16) * 1000) [alice] =
      [alice, new_client [66] [10, 0, 0, 2, 34, 184] 30000 1]"
    using n by (simp add: connect_spec_def store_at_def)
  have p: "reg with_alice [alice]" "\<not> transaction_started with_alice" "mqtt_online with_alice"
      "length [alice] < 65536" "0 \<le> socket_fd with_alice" "no_nul [66]" "length [66::byte] < 24"
      "[66::byte] \<noteq> []" "length [10, 0, 0, 2, 34, 184::byte] = 6"
      "\<not> True \<or> client_of [alice] [66] = None"
    using n by (simp_all add: no_nul_def)
  show ?thesis
    by (rule exI [of _ "snd (run_state (handle_connect [10, 0, 0, 2, 34, 184] [66] 30 False True) with_alice)"])
      (use connect_refines [OF p(1-8) e p(9-10), of 30 False, unfolded c if_False] in simp)
qed

end
