(* ===== verification/Directory.thy ===== *)
theory Directory
  imports TopicTables Samples
begin

text \<open>
  The interface of a directory that hands out an id for each name entered: ids resolve to their
  names for ever after, and a name has one id.  The topic registrations of a client are such a
  directory, so that an id from a REGACK can be used in every later PUBLISH or SUBSCRIBE.
\<close>

section \<open>Directories\<close>

primrec run_all :: "('n \<Rightarrow> 's \<Rightarrow> 'i \<times> 's) \<Rightarrow> 'n list \<Rightarrow> 's \<Rightarrow> 'i list \<times> 's" where
  "run_all f [] s = ([], s)"
| "run_all f (n # ns) s = (let (i, t) = f n s; (is, u) = run_all f ns t in (i # is, u))"

text \<open>\<open>room k s\<close>: \<open>s\<close> is a directory with room for \<open>k\<close> more names.\<close>

locale directory =
  fixes enter :: "'n \<Rightarrow> 's \<Rightarrow> 'i \<times> 's"
    and look :: "'i \<Rightarrow> 's \<Rightarrow> 'n option"
    and name_ok :: "'n \<Rightarrow> bool"
    and room :: "nat \<Rightarrow> 's \<Rightarrow> bool"
  assumes enter_room: "room (Suc k) s \<Longrightarrow> name_ok n \<Longrightarrow> room k (snd (enter n s))"
    and look_entered: "room (Suc k) s \<Longrightarrow> name_ok n \<Longrightarrow> look (fst (enter n s)) (snd (enter n s)) = Some n"
    and look_kept: "room (Suc k) s \<Longrightarrow> name_ok n \<Longrightarrow> look i s = Some m \<Longrightarrow>
      look i (snd (enter n s)) = Some m"
    and look_one: "room k s \<Longrightarrow> look i s = Some m \<Longrightarrow> look j s = Some m \<Longrightarrow> i = j"
begin

lemma all_kept: "room (length ns) s \<Longrightarrow> list_all name_ok ns \<Longrightarrow> look i s = Some m \<Longrightarrow>
    look i (snd (run_all enter ns s)) = Some m"
proof (induction ns arbitrary: s)
  case (Cons n ns)
  then show ?case
    using enter_room [of "length ns" s n] look_kept [of "length ns" s n i m]
    by (simp add: split_beta Let_def)
qed simp

lemma all_room: "room (length ns) s \<Longrightarrow> list_all name_ok ns \<Longrightarrow> room 0 (snd (run_all enter ns s))"
proof (induction ns arbitrary: s)
  case (Cons n ns)
  then show ?case using enter_room [of "length ns" s n] by (simp add: split_beta Let_def)
qed simp

lemma all_resolve: "room (length ns) s \<Longrightarrow> list_all name_ok ns \<Longrightarrow>
    list_all2 (\<lambda>i n. look i (snd (run_all enter ns s)) = Some n) (fst (run_all enter ns s)) ns"
proof (induction ns arbitrary: s)
  case (Cons n ns)
  then show ?case
    using enter_room [of "length ns" s n] look_entered [of "length ns" s n]
      all_kept [of ns "snd (enter n s)" "fst (enter n s)" n]
    by (simp add: split_beta Let_def)
qed simp

lemma all_one:
  assumes "room (length ns) s" "list_all name_ok ns" "j < length ns" "k < length ns"
  shows "fst (run_all enter ns s) ! j = fst (run_all enter ns s) ! k \<longleftrightarrow> ns ! j = ns ! k"
  using all_resolve [OF assms(1,2)] look_one [OF all_room [OF assms(1,2)]] assms(3,4)
  by (auto simp: list_all2_conv_all_nth) (metis option.inject)

end

section \<open>The topics of a client\<close>

definition topic_room :: "nat \<Rightarrow> 'z persistent_scheme \<Rightarrow> bool" where
  "topic_room k s \<longleftrightarrow> \<not> no_client s \<and> (\<exists>ns. topics_of s ns \<and> length ns + k < 65535)"

definition enter_topic :: "bytes \<Rightarrow> gateway \<Rightarrow> u16 \<times> gateway" where
  "enter_topic n s = run_state (add_client_registration n 0) s"

definition topic_named :: "u16 \<Rightarrow> gateway \<Rightarrow> bytes option" where
  "topic_named i s = fst (run_state (get_topic_name i) s)"

lemma name_of_register: "topics_of s ns \<Longrightarrow> name_of_id i ns = Some m \<Longrightarrow>
    name_of_id i (register_name n ns) = Some m"
  by (auto simp: name_of_id_def register_name_def nth_append split: if_splits)

lemma name_of_new: "topics_of s ns \<Longrightarrow> length ns < 65534 \<Longrightarrow>
    name_of_id (topic_id (topic_index n ns)) (register_name n ns) = Some n"
proof (cases "n \<in> set ns")
  case True
  assume ns: "topics_of s ns" "length ns < 65534"
  obtain i where "i < length ns" "ns ! i = n" using True by (auto simp: in_set_conv_nth)
  then show ?thesis
    using ns True topics_ofD(2) [OF ns(1)] topic_index_nth [of ns i]
    by (auto simp: name_of_id_def register_name_def)
next
  case False
  assume ns: "topics_of s ns" "length ns < 65534"
  then show ?thesis
    using False by (simp add: topic_index_absent name_of_id_def register_name_def)
qed

lemma name_of_one: "topics_of s ns \<Longrightarrow> name_of_id i ns = Some m \<Longrightarrow> name_of_id j ns = Some m \<Longrightarrow> i = j"
  using topics_ofD(2) [of s ns]
  by (auto simp: name_of_id_def nth_eq_iff_index_eq word_unat_eq_iff split: if_splits)

interpretation topic_directory: directory enter_topic topic_named topic_name_ok topic_room
proof unfold_locales
  fix k and s :: gateway and n i m j
  show "topic_room k (snd (enter_topic n s))"
    "topic_named (fst (enter_topic n s)) (snd (enter_topic n s)) = Some n"
    "topic_named i s = Some m \<Longrightarrow> topic_named i (snd (enter_topic n s)) = Some m"
    if r: "topic_room (Suc k) s" and n: "topic_name_ok n"
  proof -
    obtain ns where ns: "topics_of s ns" "length ns + Suc k < 65535" "\<not> no_client s"
      using r by (auto simp: topic_room_def)
    let ?t = "with_topics (register_name n ns) s"
    have e: "enter_topic n s = (topic_id (topic_index n ns), ?t)"
      unfolding enter_topic_def by (rule run_add_registration) (use ns n in simp_all)
    have t: "topics_of ?t (register_name n ns)" "\<not> no_client ?t" "\<not> no_transaction ?t"
      using topics_of_register [OF ns(1) n] ns(2,3)
      by (simp_all add: with_topics_def no_client_split)
    show "topic_room k (snd (enter_topic n s))"
      using e t ns(2) by (auto simp: topic_room_def register_name_def split: if_splits)
    show "topic_named (fst (enter_topic n s)) (snd (enter_topic n s)) = Some n"
      using name_of_new [OF ns(1)] ns(2)
      by (simp add: e topic_named_def run_get_topic_name [OF t(1,3)])
    show "topic_named i (snd (enter_topic n s)) = Some m" if "topic_named i s = Some m"
      using that name_of_register [OF ns(1), of i m n] run_get_topic_name [OF ns(1)] ns(3)
      by (simp add: e topic_named_def run_get_topic_name [OF t(1,3)] no_client_split)
  qed
  show "i = j" if "topic_room k s" "topic_named i s = Some m" "topic_named j s = Some m"
    using that name_of_one [of s _ i m j]
    by (auto simp: topic_room_def topic_named_def run_get_topic_name no_client_split)
qed

text \<open>
  C19: Registering any list of topic names for a client hands out ids that resolve to their names
  at the end, equal ids exactly for equal names; and an id that resolved to a name before still
  does, as long as the client has fewer than 65535 topics.
\<close>

theorem topic_ids_resolve:
  fixes s :: gateway
  assumes "topics_of s ns" "\<not> no_client s" "list_all topic_name_ok names"
    and "length ns + length names < 65535"
  defines "ids \<equiv> fst (run_all (\<lambda>n. run_state (add_client_registration n 0)) names s)"
    and "t \<equiv> snd (run_all (\<lambda>n. run_state (add_client_registration n 0)) names s)"
  shows "list_all2 (\<lambda>i n. fst (run_state (get_topic_name i) t) = Some n) ids names \<and>
    (\<forall>i m. fst (run_state (get_topic_name i) s) = Some m \<longrightarrow> fst (run_state (get_topic_name i) t) = Some m) \<and>
    (\<forall>j < length names. \<forall>k < length names. ids ! j = ids ! k \<longleftrightarrow> names ! j = names ! k)"
proof -
  have room: "topic_room (length names) s" using assms(1,2,4) by (auto simp: topic_room_def)
  have e: "(\<lambda>n. run_state (add_client_registration n 0)) = enter_topic"
    by (simp add: fun_eq_iff enter_topic_def)
  show ?thesis
    unfolding ids_def t_def e
    using topic_directory.all_resolve [OF room assms(3)] topic_directory.all_kept [OF room assms(3)]
      topic_directory.all_one [OF room assms(3)]
    by (simp add: topic_named_def)
qed

lemma topic_ids_resolve_witness:
  "case run_state (add_client_registration (str ''t'') 0) (with_topics [] in_alice) of (i, t) \<Rightarrow>
     fst (run_state (get_topic_name i) t) = Some (str ''t'')"
proof -
  have "topics_of (with_topics [] in_alice) []" by (rule topics_of_with) simp_all
  moreover have "\<not> no_client (with_topics [] in_alice)" by (simp add: with_topics_def)
  ultimately show ?thesis
    using topic_ids_resolve [of "with_topics [] in_alice" "[]" "[str ''t'']"]
    by (auto simp: topic_name_ok_def split_beta Let_def no_nul_def)
qed

end
