(* ===== verification/TopicMessages.thy ===== *)
theory TopicMessages
  imports Directory DeviceMessages
begin

text \<open>
  The messages REGISTER, PUBLISH and SUBSCRIBE on the topic list of the device's session.
\<close>

section \<open>Reading datagrams\<close>

lemma datagram_rest: "length h = k \<Longrightarrow> k \<le> n \<Longrightarrow> drop k (padz n (h @ r)) = padz (n - k) r"
  by (simp add: padz_def)

lemma datagram_name: "length h = k \<Longrightarrow> no_nul n \<Longrightarrow> k + length n < 255 \<Longrightarrow>
    cstr (drop k (padz BUFLEN (h @ n))) = n"
  by (simp add: datagram_rest BUFLEN_def)

lemma datagram_u16: "length h = k \<Longrightarrow> k + 2 \<le> 255 \<Longrightarrow>
    u16_at k (padz BUFLEN (h @ u16_bytes m @ r)) = m"
proof -
  assume "length h = k" "k + 2 \<le> 255"
  then have "fld k 2 (padz BUFLEN (h @ u16_bytes m @ r)) = u16_bytes m"
    by (simp add: fld_def datagram_rest BUFLEN_def) (simp add: padz_def)
  then show ?thesis by (simp add: u16_at_def)
qed

lemma unat_length_byte: "k + n < 256 \<Longrightarrow> unat (of_nat (k + n) :: byte) = k + n"
  by (simp only: unat_of_nat) simp

section \<open>The topics of a session\<close>

definition device_topics :: "gateway \<Rightarrow> entry_client \<Rightarrow> bytes list \<Rightarrow> bool" where
  "device_topics s e ns \<longleftrightarrow> topics_of (open_transaction (Some e) s) ns"

lemma topics_of_members: "files t = files s \<Longrightarrow> rootPath t = rootPath s \<Longrightarrow> entry t = entry s \<Longrightarrow>
    topics_of s ns \<Longrightarrow> topics_of t ns"
  unfolding topics_of_def using topics.table_members by blast

lemma reg_outside [simp]: "reg (s\<lparr>sent := x\<rparr>) rs \<longleftrightarrow> reg s rs"
  "reg (s\<lparr>broker_calls := cs\<rparr>) rs \<longleftrightarrow> reg s rs"
  by (simp_all add: reg_def client.holds_def path_in_def)

lemma device_topics_outside [simp]: "device_topics (s\<lparr>sent := x\<rparr>) e ns \<longleftrightarrow> device_topics s e ns"
  "device_topics (s\<lparr>broker_calls := cs\<rparr>) e ns \<longleftrightarrow> device_topics s e ns"
  "device_topics (open_transaction e' s) e ns \<longleftrightarrow> device_topics s e ns"
  "device_topics (close_transaction s) e ns \<longleftrightarrow> device_topics s e ns"
  unfolding device_topics_def
  by (auto elim!: topics_of_members [rotated 3])

lemma run_send_regack: "0 \<le> socket_fd s \<Longrightarrow> run_state (send_regack a t m c) s =
    (True, s\<lparr>sent := sent s @ [(a, written ([7, MQTTSN_REGACK] @ u16_bytes t @ u16_bytes m @ [c]))]\<rparr>)"
  by (simp add: send_regack_def run_send_or_notify msg_regack_def)

lemma with_topics_simps [simp]:
  "transaction_started (with_topics ns s) = transaction_started s"
  "error (with_topics ns s) = error s"
  "not_in_client_registry (with_topics ns s) = not_in_client_registry s"
  "entry (with_topics ns s) = entry s" "rootPath (with_topics ns s) = rootPath s"
  "no_client (with_topics ns s) = no_client s" "no_transaction (with_topics ns s) = no_transaction s"
  "reg (with_topics ns s) rs \<longleftrightarrow> reg s rs"
  by (simp_all add: with_topics_def)

lemma with_topics_outside [simp]:
  "sent (with_topics ns s) = sent s" "socket_fd (with_topics ns s) = socket_fd s"
  "mqtt_online (with_topics ns s) = mqtt_online s" "broker_calls (with_topics ns s) = broker_calls s"
  "client_rc (with_topics ns s) = client_rc s"
  by (simp_all add: with_topics_def topics.with_table_def reg.put_def)

section \<open>REGISTER\<close>

text \<open>What \<open>register_topic\<close> does for a session, and for an address without one.\<close>

definition topics_changed :: "gateway \<Rightarrow> entry_client list \<Rightarrow> entry_client \<Rightarrow> bytes list \<Rightarrow> gateway \<Rightarrow> bool" where
  "topics_changed s rs e ns t \<longleftrightarrow> reg t rs \<and> \<not> transaction_started t \<and> device_topics t e ns \<and>
     sent t = sent s \<and> broker_calls t = broker_calls s \<and> mqtt_online t = mqtt_online s \<and>
     socket_fd t = socket_fd s"

lemma run_register_topic:
  fixes s :: gateway
  assumes "reg s rs" "\<not> transaction_started s" "mqtt_online s" "session rs a = Some e"
    and "device_topics s e ns" "topic_name_ok n" "length ns < 65534"
  defines "t \<equiv> close_transaction (with_topics (register_name n ns) (open_transaction (Some e) s))"
  shows "run_state (register_topic a n d) s = ((SUCCESS, topic_id (topic_index n ns)), t)"
    "topics_changed s rs e (register_name n ns) t"
proof -
  let ?s = "open_transaction (Some e) s"
  have ns: "topics_of ?s ns" using assms(5) by (simp add: device_topics_def)
  note add = run_add_registration [OF ns _ assms(6,7), simplified, of d]
  show "run_state (register_topic a n d) s = ((SUCCESS, topic_id (topic_index n ns)), t)"
    using assms(3) add
    by (simp add: register_topic_def is_mqtt_online_def run_start_address [OF assms(1,2)] assms(4)
        run_apply State_Monad.return_def t_def)
  have "topics_of (open_transaction (Some e) t) (register_name n ns)"
    by (rule topics_of_members [OF _ _ _ topics_of_register [OF ns assms(6,7)]]) (simp_all add: t_def)
  then show "topics_changed s rs e (register_name n ns) t"
    using assms(1) by (simp add: topics_changed_def device_topics_def t_def)
qed

lemma topics_changed_sent: "topics_changed s rs e ns t \<Longrightarrow>
    reg (t\<lparr>sent := x\<rparr>) rs \<and> \<not> transaction_started (t\<lparr>sent := x\<rparr>) \<and> device_topics (t\<lparr>sent := x\<rparr>) e ns"
  by (simp add: topics_changed_def)

definition register_datagram :: "u16 \<Rightarrow> bytes \<Rightarrow> bytes" where
  "register_datagram m n = [of_nat (7 + length n), MQTTSN_REGISTER, 0, 0] @ u16_bytes m @ n"

lemma receive_register:
  assumes "no_nul n" "length n < 249"
  shows "receive_datagram a (register_datagram m n) = handle_register a m n"
proof -
  define bs where "bs = padz BUFLEN (register_datagram m n)"
  have rd: "register_datagram m n = ([of_nat (7 + length n), MQTTSN_REGISTER, 0, 0] @ u16_bytes m) @ n"
      "register_datagram m n = [of_nat (7 + length n), MQTTSN_REGISTER] @ u16_bytes 0 @ u16_bytes m @ n"
      "register_datagram m n = [of_nat (7 + length n), MQTTSN_REGISTER, 0, 0] @ u16_bytes m @ n"
    by (simp_all add: register_datagram_def u16_bytes_def numeral_2_eq_2)
  have "cstr (drop 6 bs) = n" unfolding bs_def rd(1) by (rule datagram_name) (use assms in simp_all)
  moreover have "u16_at 2 bs = 0" unfolding bs_def rd(2) by (rule datagram_u16) simp_all
  moreover have "u16_at 4 bs = m" unfolding bs_def rd(3) by (rule datagram_u16) simp_all
  moreover have b: "byte_at 0 bs = of_nat (7 + length n)" "byte_at 1 bs = MQTTSN_REGISTER"
    by (simp_all add: bs_def rd(3) byte_at_padz BUFLEN_def)
  moreover have l: "unat (byte_at 0 bs) = 7 + length n"
    unfolding b(1) by (rule unat_length_byte) (use assms(2) in simp)
  moreover have "byte_at 0 bs > 6" "\<not> byte_at 0 bs < 2"
    using l by (simp_all add: word_less_nat_alt)
  ultimately have "receiveData a bs = handle_register a m n"
    by (simp add: receiveData_def parse_register_def enum_defs)
  then show ?thesis by (simp add: receive_datagram_def bs_def)
qed

text \<open>
  C16: REGISTER is answered with one REGACK.  To a device with a session it carries the position
  plus one of the topic name in the session's list of names, to which the name is appended if it
  is new, and the code ACCEPTED; to a device without a session it carries the topic id 0 and the
  code NOT_SUPPORTED.  The registry is left as it is.
\<close>

theorem register_refines:
  fixes s :: gateway and a :: device_address and m :: u16 and n :: bytes
  assumes "reg s rs" "\<not> transaction_started s" "mqtt_online s" "0 \<le> socket_fd s"
    and "no_nul n" "length n < 249"
  defines "t \<equiv> snd (run_state (receive_datagram a (register_datagram m n)) s)"
    and "regack \<equiv> \<lambda>i c. (a, written ([7, MQTTSN_REGACK] @ u16_bytes i @ u16_bytes m @ [c]))"
  shows "case session rs a of
      None \<Rightarrow> reg t rs \<and> \<not> transaction_started t \<and>
        sent t = sent s @ [regack 0 REJECTED_NOT_SUPPORTED]
    | Some e \<Rightarrow> \<forall>ns. device_topics s e ns \<and> length ns < 65534 \<longrightarrow>
        reg t rs \<and> \<not> transaction_started t \<and> device_topics t e (register_name n ns) \<and>
        sent t = sent s @ [regack (topic_id (topic_index n ns)) ACCEPTED]"
proof -
  have t: "t = snd (run_state (handle_register a m n) s)"
    by (simp add: t_def receive_register [OF assms(5,6)])
  show ?thesis
  proof (cases "session rs a")
    case None
    then have "run_state (register_topic a n 0) s = ((ZERO, 0), close_transaction (open_transaction None s))"
      using assms(3)
      by (simp add: register_topic_def is_mqtt_online_def run_start_address [OF assms(1,2)]
          add_client_registration_def run_apply State_Monad.return_def)
    then show ?thesis
      using None assms(1,4) by (simp add: t handle_register_def run_send_regack regack_def
          State_Monad.return_def)
  next
    case (Some e)
    have "reg t rs \<and> \<not> transaction_started t \<and> device_topics t e (register_name n ns) \<and>
        sent t = sent s @ [regack (topic_id (topic_index n ns)) ACCEPTED]"
      if ns: "device_topics s e ns" "length ns < 65534" for ns
    proof -
      have ok: "topic_name_ok n" using assms(5,6) by (simp add: topic_name_ok_def)
      obtain u where u: "run_state (register_topic a n 0) s = ((SUCCESS, topic_id (topic_index n ns)), u)"
          "topics_changed s rs e (register_name n ns) u"
        using run_register_topic [OF assms(1-3) Some ns(1) ok ns(2)] by metis
      then have "0 \<le> socket_fd u" "sent u = sent s" using assms(4) by (simp_all add: topics_changed_def)
      then show ?thesis
        using u(1) topics_changed_sent [OF u(2)]
        by (simp add: t handle_register_def run_send_regack regack_def State_Monad.return_def)
    qed
    then show ?thesis using Some by auto
  qed
qed

definition alice_with_topics :: "bytes list \<Rightarrow> gateway" where
  "alice_with_topics ns = close_transaction (with_topics ns in_alice)"

lemma alice_with_topics_simps [simp]: "reg (alice_with_topics ns) [alice]"
  "mqtt_online (alice_with_topics ns)" "socket_fd (alice_with_topics ns) = 3"
  "sent (alice_with_topics ns) = []" "\<not> transaction_started (alice_with_topics ns)"
  "broker_calls (alice_with_topics ns) = []" "client_rc (alice_with_topics ns) cs = 0"
  by (simp_all add: alice_with_topics_def in_alice_def)

lemma alice_topics: "distinct ns \<Longrightarrow> list_all topic_name_ok ns \<Longrightarrow> length ns < 65535 \<Longrightarrow>
    device_topics (alice_with_topics ns) alice ns"
  unfolding device_topics_def
  by (rule topics_of_members [OF _ _ _ topics_of_with [of ns in_alice]]) (simp_all add: alice_with_topics_def)

lemma register_refines_witness:
  "sent (snd (run_state (receive_datagram alice_address (register_datagram 9 (str ''t'')))
      (alice_with_topics [str ''u'']))) =
    [(alice_address, written ([7, MQTTSN_REGACK] @ u16_bytes (topic_id 1) @ u16_bytes 9 @ [ACCEPTED]))]"
proof -
  have u: "device_topics (alice_with_topics [str ''u'']) alice [str ''u'']"
    by (rule alice_topics) (simp_all add: topic_name_ok_def)
  have i: "topic_index (str ''t'') [str ''u''] = 1"
      "register_name (str ''t'') [str ''u''] = [str ''u'', str ''t'']"
    by (simp_all add: register_name_def topic_index_def)
  have "\<forall>ns. device_topics (alice_with_topics [str ''u'']) alice ns \<and> length ns < 65534 \<longrightarrow> P ns \<Longrightarrow>
      P [str ''u'']" for P
    using u by simp
  note this [OF register_refines [of "alice_with_topics [str ''u'']" "[alice]" "str ''t''" alice_address 9,
      simplified session_alice option.case]]
  then show ?thesis unfolding i by simp
qed

end
