(* ===== verification/PublishMessages.thy ===== *)
theory PublishMessages
  imports TopicMessages
begin

text \<open>
  The message PUBLISH: which calls of the MQTT client library it leads to and what the device is
  answered.
\<close>

section \<open>Parsing\<close>

definition publish_datagram :: "byte \<Rightarrow> u16 \<Rightarrow> u16 \<Rightarrow> bytes \<Rightarrow> bytes" where
  "publish_datagram flags i m data =
     [of_nat (7 + length data), MQTTSN_PUBLISH, flags, 0] @ u16_bytes i @ u16_bytes m @ data"

lemma receive_publish_datagram:
  fixes a :: device_address and i m :: u16
  assumes "length data < 248" "data \<noteq> []" "qos = parse_qos flags" "m = 0 \<or> qos = 1 \<or> qos = 2"
  defines "h \<equiv> handle_publish a data m i (flags AND FLAG_TOPIC_SHORT_NAME \<noteq> 0)
    (flags AND FLAG_RETAIN \<noteq> 0) qos (flags AND FLAG_DUP \<noteq> 0)"
  shows "receive_datagram a (publish_datagram flags i m data) =
    (if flags AND FLAG_TOPIC_SHORT_NAME = 0 \<and> flags AND 1 = 0 then do { h; h } else h)"
proof -
  define bs where "bs = padz BUFLEN (publish_datagram flags i m data)"
  have pd: "publish_datagram flags i m data =
        [of_nat (7 + length data), MQTTSN_PUBLISH, flags, 0] @ u16_bytes i @ (u16_bytes m @ data)"
      "publish_datagram flags i m data =
        ([of_nat (7 + length data), MQTTSN_PUBLISH, flags, 0] @ u16_bytes i) @ u16_bytes m @ data"
      "publish_datagram flags i m data =
        ([of_nat (7 + length data), MQTTSN_PUBLISH, flags, 0] @ u16_bytes i @ u16_bytes m) @ data"
    by (simp_all add: publish_datagram_def)
  have i: "u16_at 4 bs = i" unfolding bs_def pd(1) by (rule datagram_u16) simp_all
  have m: "u16_at 6 bs = m" unfolding bs_def pd(2) by (rule datagram_u16) simp_all
  have "drop 8 bs = padz 247 data"
    unfolding bs_def pd(3) BUFLEN_def by (subst datagram_rest) simp_all
  then have d: "take (length data) (drop 8 bs) = data" using assms(1) by (simp add: padz_eq)
  have b: "byte_at 0 bs = of_nat (7 + length data)" "byte_at (Suc 0) bs = MQTTSN_PUBLISH"
      "byte_at 2 bs = flags"
    by (simp_all add: bs_def pd(1) byte_at_padz BUFLEN_def numeral_2_eq_2)
  have l: "unat (byte_at 0 bs) = 7 + length data"
    unfolding b(1) by (rule unat_length_byte) (use assms(1) in simp)
  have "byte_at 0 bs > 7" "\<not> byte_at 0 bs < 2"
    using l assms(2) by (simp_all add: word_less_nat_alt)
  then have "receiveData a bs = (if flags AND FLAG_TOPIC_SHORT_NAME = 0 \<and> flags AND 1 = 0
      then do { h; h } else h)"
    using assms(3,4) i m d l b(2,3)
    by (auto simp: receiveData_def parse_publish_def has_flag_def h_def Let_def enum_defs)
  then show ?thesis by (simp add: receive_datagram_def bs_def)
qed

section \<open>Publishing on a registered topic\<close>

lemma run_send_puback: "0 \<le> socket_fd s \<Longrightarrow> run_state (send_puback a m i c) s =
    (True, s\<lparr>sent := sent s @
      [(a, written ([7, MQTTSN_PUBACK] @ u16_bytes i @ u16_bytes m @ [c]) @ unwritten 1)]\<rparr>)"
  by (simp add: send_puback_def run_send_or_notify msg_puback_def)

definition connected :: "entry_client \<Rightarrow> bool" where
  "connected e \<longleftrightarrow> ec_client_status e \<noteq> DISCONNECTED \<and> ec_client_status e \<noteq> LOST"

lemma run_publish_client:
  assumes "reg s rs" "\<not> transaction_started s" "mqtt_online s" "session rs a = Some e" "connected e"
    and "device_topics s e ns" "qos = 0 \<or> qos = 1 \<or> qos = 2"
  defines "u \<equiv> close_transaction (open_transaction (Some e) s)"
  shows "run_state (core_publish_client a data m i True r qos d) s = (case name_of_id i ns of
      None \<Rightarrow> (TOPICIDNONEXISTENCE, u)
    | Some n \<Rightarrow> let cs = broker_calls s @ [CallPublish n data qos r] in
        (if client_rc s cs = 0 then SUCCESS else ZERO, u\<lparr>broker_calls := cs\<rparr>))"
proof -
  have "run_state (get_topic_name i) (open_transaction (Some e) s) = (name_of_id i ns, open_transaction (Some e) s)"
    by (rule run_get_topic_name) (use assms(6) in \<open>simp_all add: device_topics_def\<close>)
  moreover have "qos \<noteq> 255" using assms(7) by auto
  ultimately show ?thesis
    using assms(3,5,7)
    by (simp add: core_publish_client_def is_mqtt_online_def run_start_address [OF assms(1,2)] assms(4)
        client_exist_def get_client_status_def connected_def run_apply u_def mqtt_publish_def
        call_broker_def Let_def State_Monad.return_def no_client_split split: option.split)
qed

text \<open>
  C9: A PUBLISH with the short-topic flag and QoS 1 from a connected device is passed to the
  broker once, with the name that the device registered for the topic id and with its payload and
  retain flag, and is answered with one PUBACK: ACCEPTED if the client library took it,
  NOT_SUPPORTED if not.  If the device has no topic of this id, nothing is passed on and the
  PUBACK says INVALID_TOPIC_ID.  Registry and topics stay as they are.
\<close>

theorem publish_relayed:
  fixes s :: gateway and a :: device_address and i m :: u16 and data :: bytes and r :: bool
  assumes "reg s rs" "\<not> transaction_started s" "mqtt_online s" "0 \<le> socket_fd s"
    and "session rs a = Some e" "connected e" "device_topics s e ns"
    and "data \<noteq> []" "length data < 248"
  defines "flags \<equiv> FLAG_TOPIC_SHORT_NAME OR FLAG_QOS_1 OR (if r then FLAG_RETAIN else 0)"
  defines "t \<equiv> snd (run_state (receive_datagram a (publish_datagram flags i m data)) s)"
    and "puback \<equiv> \<lambda>c. (a, written ([7, MQTTSN_PUBACK] @ u16_bytes i @ u16_bytes m @ [c]) @ unwritten 1)"
  shows "reg t rs \<and> \<not> transaction_started t \<and> device_topics t e ns \<and> (case name_of_id i ns of
      None \<Rightarrow> broker_calls t = broker_calls s \<and> sent t = sent s @ [puback REJECTED_INVALID_TOPIC_ID]
    | Some n \<Rightarrow> broker_calls t = broker_calls s @ [CallPublish n data 1 r] \<and>
        sent t = sent s @ [puback (if client_rc s (broker_calls t) = 0 then ACCEPTED
          else REJECTED_NOT_SUPPORTED)])"
proof -
  let ?u = "close_transaction (open_transaction (Some e) s)"
  have flags: "parse_qos flags = 1" "flags AND FLAG_TOPIC_SHORT_NAME \<noteq> 0"
      "flags AND FLAG_RETAIN \<noteq> 0 \<longleftrightarrow> r" "flags AND FLAG_DUP = 0"
    by (simp_all add: flags_def parse_qos_def enum_defs)
  have rec: "receive_datagram a (publish_datagram flags i m data) = handle_publish a data m i True r 1 False"
    using receive_publish_datagram [OF assms(9,8), of 1 flags m] flags by simp
  note run = run_publish_client [OF assms(1-3,5-7), of 1 data m i r False, simplified]
  show ?thesis
  proof (cases "name_of_id i ns")
    case None
    then have "t = ?u\<lparr>sent := sent s @ [puback REJECTED_INVALID_TOPIC_ID]\<rparr>"
      using run assms(4) by (simp add: t_def rec handle_publish_def run_send_puback puback_def
          State_Monad.return_def)
    then show ?thesis using None assms(1,7) by simp
  next
    case (Some n)
    then have "t = ?u\<lparr>broker_calls := broker_calls s @ [CallPublish n data 1 r],
        sent := sent s @ [puback (if client_rc s (broker_calls s @ [CallPublish n data 1 r]) = 0
          then ACCEPTED else REJECTED_NOT_SUPPORTED)]\<rparr>"
      using run assms(4) by (simp add: t_def rec handle_publish_def run_send_puback puback_def
          State_Monad.return_def Let_def)
    then show ?thesis using Some assms(1,7) by simp
  qed
qed

lemma publish_relayed_witness:
  "broker_calls (snd (run_state (receive_datagram alice_address (publish_datagram
      (FLAG_TOPIC_SHORT_NAME OR FLAG_QOS_1 OR (if False then FLAG_RETAIN else 0)) (topic_id 0) 9 [42]))
      (alice_with_topics [str ''t'']))) = [CallPublish (str ''t'') [42] 1 False]"
proof -
  have "device_topics (alice_with_topics [str ''t'']) alice [str ''t'']"
    by (rule alice_topics) (simp_all add: topic_name_ok_def)
  moreover have "connected alice" by (simp add: connected_def enum_defs)
  moreover have "name_of_id (topic_id 0) [str ''t''] = Some (str ''t'')" by (simp add: name_of_id_def)
  ultimately show ?thesis
    using publish_relayed [of "alice_with_topics [str ''t'']" "[alice]" alice_address alice
        "[str ''t'']" "[42]" False "topic_id 0" 9]
    by simp
qed

section \<open>Publishing on other topics\<close>

lemma parse_qos_range: "parse_qos flags \<in> {0, 1, 2, 255}"
  by (simp add: parse_qos_def)

text \<open>Without an acknowledgement there is no message id, or the message is ignored.\<close>

lemma receive_publish_ignored:
  fixes a :: device_address and i m :: u16
  assumes "length data < 248" "m \<noteq> 0" "parse_qos flags = 0 \<or> parse_qos flags = 255"
  shows "run_state (receive_datagram a (publish_datagram flags i m data)) s = ((), s)"
proof -
  define bs where "bs = padz BUFLEN (publish_datagram flags i m data)"
  have pd: "publish_datagram flags i m data =
        ([of_nat (7 + length data), MQTTSN_PUBLISH, flags, 0] @ u16_bytes i) @ u16_bytes m @ data"
    by (simp add: publish_datagram_def)
  have m: "u16_at 6 bs = m" unfolding bs_def pd by (rule datagram_u16) simp_all
  have b: "byte_at 0 bs = of_nat (7 + length data)" "byte_at (Suc 0) bs = MQTTSN_PUBLISH"
      "byte_at 2 bs = flags"
    by (simp_all add: bs_def pd byte_at_padz BUFLEN_def numeral_2_eq_2)
  have l: "unat (byte_at 0 bs) = 7 + length data"
    unfolding b(1) by (rule unat_length_byte) (use assms(1) in simp)
  have "\<not> byte_at 0 bs < 2" using l by (simp add: word_less_nat_alt)
  then have "receiveData a bs = ret ()"
    using assms(2,3) m b(2,3) by (auto simp: receiveData_def parse_publish_def Let_def enum_defs)
  then show ?thesis by (simp add: receive_datagram_def bs_def State_Monad.return_def)
qed

lemma run_predefined:
  assumes "files s (path_in s predefined_topic) = Some c" "\<not> error s"
    and "find_predefined i (read_lines 262 c) = Found n"
  shows "run_state (get_predefined_topic_name i) s = (Some n, s)"
proof -
  have "set_file (path_in s predefined_topic) (content s (path_in s predefined_topic)) s = s"
    using assms(1) by (simp add: set_file_def content_def fun_upd_idem)
  then show ?thesis
    using assms by (simp add: get_predefined_topic_name_def lines_of_file_def run_sd_open content_def
        State_Monad.return_def)
qed

text \<open>One call of \<open>handle_publish\<close>, for a device without a session and for a connected one.\<close>

lemma publish_no_session:
  assumes "reg s rs" "\<not> transaction_started s" "mqtt_online s" "0 \<le> socket_fd s" "session rs a = None"
    and "qos \<in> {0, 1, 2}"
  shows "run_state (handle_publish a data m i False r qos d) s =
    ((), (close_transaction (open_transaction None s))\<lparr>sent := sent s @ [(a, if qos = 1
      then written ([7, MQTTSN_PUBACK] @ u16_bytes i @ u16_bytes m @ [REJECTED_NOT_SUPPORTED]) @ unwritten 1
      else written [2, MQTTSN_DISCONNECT])]\<rparr>)"
  using assms(3-6)
  by (auto simp: handle_publish_def core_publish_client_def is_mqtt_online_def
      run_start_address [OF assms(1,2)] client_exist_def get_client_status_def run_apply
      run_send_puback run_send_headers State_Monad.return_def)

lemma publish_predefined:
  assumes "reg s rs" "\<not> transaction_started s" "mqtt_online s" "0 \<le> socket_fd s"
    and "session rs a = Some e" "connected e" "qos \<in> {0, 1}"
    and "files s (path_in s predefined_topic) = Some c" "find_predefined i (read_lines 262 c) = Found n"
  shows "\<exists>x. run_state (handle_publish a data m i False r qos d) s =
    ((), (close_transaction (open_transaction (Some e) s))\<lparr>
      broker_calls := broker_calls s @ [CallPublish n data qos r], sent := x\<rparr>)"
proof -
  let ?o = "open_transaction (Some e) s"
  have qos: "qos = 0 \<or> qos = 1" "qos \<noteq> 255" "qos = 0 \<or> qos = 1 \<or> qos = 2" using assms(7) by auto
  have "run_state (get_predefined_topic_name i) ?o = (Some n, ?o)"
    by (rule run_predefined) (use assms(8,9) in simp_all)
  then have core: "run_state (core_publish_client a data m i False r qos d) s =
      (let cs = broker_calls s @ [CallPublish n data qos r] in
        (if client_rc s cs = 0 then SUCCESS else ZERO, (close_transaction ?o)\<lparr>broker_calls := cs\<rparr>))"
    using assms(3,6) qos(2,3)
    by (simp add: core_publish_client_def is_mqtt_online_def run_start_address [OF assms(1,2)] assms(5)
        client_exist_def get_client_status_def connected_def run_apply mqtt_publish_def
        call_broker_def Let_def State_Monad.return_def no_client_split)
  define u where "u = (close_transaction ?o)\<lparr>broker_calls := broker_calls s @ [CallPublish n data qos r]\<rparr>"
  define ok where "ok \<longleftrightarrow> client_rc s (broker_calls s @ [CallPublish n data qos r]) = 0"
  have core: "run_state (core_publish_client a data m i False r qos d) s = (if ok then SUCCESS else ZERO, u)"
    using core by (simp add: u_def ok_def Let_def)
  have sock: "0 \<le> socket_fd u" using assms(4) by (simp add: u_def)
  have "\<exists>x. run_state (handle_publish a data m i False r qos d) s = ((), u\<lparr>sent := x\<rparr>)"
    using qos(1)
  proof
    assume "qos = 1"
    then show ?thesis using core
      by (cases ok) (auto simp: handle_publish_def run_send_puback [OF sock] State_Monad.return_def)
  next
    assume "qos = 0"
    moreover have "\<exists>x. u = u\<lparr>sent := x\<rparr>" by (rule exI [of _ "sent u"]) simp
    ultimately show ?thesis using core
      by (cases ok) (auto simp: handle_publish_def run_send_headers [OF sock] State_Monad.return_def)
  qed
  then show ?thesis by (simp add: u_def)
qed

text \<open>
  C27: A PUBLISH whose flags say neither short topic name nor predefined topic id is ignored if its
  QoS is 0 or -1 and it has a message id; every other one is handled twice.  So a connected device
  that publishes with QoS 0 or 1 under an id of the predefined topics has its message published
  twice at the broker, and a device without a session gets two equal answers, PUBACKs for QoS 1
  and DISCONNECTs for QoS 0 and 2.
\<close>

theorem publish_handled_twice:
  fixes s :: gateway and a :: device_address and i m :: u16 and data :: bytes
  assumes "data \<noteq> []" "length data < 248"
    and "flags AND FLAG_TOPIC_SHORT_NAME = 0" "flags AND FLAG_TOPIC_PREDEFINED_ID = 0"
  defines "t \<equiv> snd (run_state (receive_datagram a (publish_datagram flags i m data)) s)"
    and "qos \<equiv> parse_qos flags" and "r \<equiv> flags AND FLAG_RETAIN \<noteq> 0"
  defines "h \<equiv> handle_publish a data m i False r qos (flags AND FLAG_DUP \<noteq> 0)"
    and "answer \<equiv> (a, if qos = 1
      then written ([7, MQTTSN_PUBACK] @ u16_bytes i @ u16_bytes m @ [REJECTED_NOT_SUPPORTED]) @ unwritten 1
      else written [2, MQTTSN_DISCONNECT])"
  shows "if m \<noteq> 0 \<and> qos \<in> {0, 255} then t = s
    else t = snd (run_state h (snd (run_state h s))) \<and>
      (reg s rs \<and> \<not> transaction_started s \<and> mqtt_online s \<and> 0 \<le> socket_fd s \<longrightarrow>
        (session rs a = None \<and> qos \<noteq> 255 \<longrightarrow> sent t = sent s @ [answer, answer]) \<and>
        (\<forall>e c n. session rs a = Some e \<and> connected e \<and> qos \<in> {0, 1} \<and>
          files s (path_in s predefined_topic) = Some c \<and> find_predefined i (read_lines 262 c) = Found n \<longrightarrow>
          broker_calls t = broker_calls s @ [CallPublish n data qos r, CallPublish n data qos r]))"
proof (cases "m \<noteq> 0 \<and> qos \<in> {0, 255}")
  case True
  then show ?thesis
    using receive_publish_ignored [OF assms(2), of m flags a i s] by (auto simp: t_def qos_def)
next
  case False
  then have "m = 0 \<or> qos = 1 \<or> qos = 2" using parse_qos_range [of flags] by (auto simp: qos_def)
  then have "receive_datagram a (publish_datagram flags i m data) = do { h; h }"
    using receive_publish_datagram [OF assms(2,1) qos_def [THEN meta_eq_to_obj_eq], of m a i] assms(3,4)
    by (simp add: h_def r_def enum_defs)
  then have twice: "t = snd (run_state h (snd (run_state h s)))" by (simp add: t_def split_beta)
  show ?thesis
  proof (unfold if_not_P [OF False], intro conjI twice impI allI)
    assume s: "reg s rs \<and> \<not> transaction_started s \<and> mqtt_online s \<and> 0 \<le> socket_fd s"
    show "sent t = sent s @ [answer, answer]" if "session rs a = None \<and> qos \<noteq> 255"
    proof -
      have "qos \<in> {0, 1, 2}" using that parse_qos_range [of flags] by (auto simp: qos_def)
      then show ?thesis
        using s that by (simp add: twice h_def answer_def publish_no_session [of _ rs])
    qed
    fix e c n
    assume e: "session rs a = Some e \<and> connected e \<and> qos \<in> {0, 1} \<and>
      files s (path_in s predefined_topic) = Some c \<and> find_predefined i (read_lines 262 c) = Found n"
    obtain x where x: "run_state h s = ((), (close_transaction (open_transaction (Some e) s))\<lparr>
        broker_calls := broker_calls s @ [CallPublish n data qos r], sent := x\<rparr>)" (is "_ = (_, ?u)")
      using publish_predefined [of s rs a e qos c i n] s e unfolding h_def by blast
    have "reg ?u rs" "\<not> transaction_started ?u" "mqtt_online ?u" "0 \<le> socket_fd ?u"
        "files ?u (path_in ?u predefined_topic) = Some c"
      using s e by (simp_all add: path_in_def)
    then obtain y where "run_state h ?u = ((), (close_transaction (open_transaction (Some e) ?u))\<lparr>
        broker_calls := broker_calls ?u @ [CallPublish n data qos r], sent := y\<rparr>)"
      using publish_predefined [of ?u rs a e qos c i n] e unfolding h_def by blast
    then show "broker_calls t = broker_calls s @ [CallPublish n data qos r, CallPublish n data qos r]"
      by (simp add: twice x)
  qed
qed

text \<open>A device without a session, and the client \<open>A\<close> with the topic \<open>tt\<close> predefined.\<close>

lemma publish_handled_twice_witness:
  "let s = set_file (path_in with_alice predefined_topic) (str ''1 tt'' @ [10]) with_alice;
     t = \<lambda>a. snd (run_state (receive_datagram a (publish_datagram FLAG_QOS_1 1 9 [42])) s) in
   map fst (sent (t [10, 0, 0, 9, 34, 184])) = [[10, 0, 0, 9, 34, 184], [10, 0, 0, 9, 34, 184]] \<and>
   broker_calls (t alice_address) = [CallPublish (str ''tt'') [42] 1 False, CallPublish (str ''tt'') [42] 1 False]"
proof -
  let ?s = "set_file (path_in with_alice predefined_topic) (str ''1 tt'' @ [10]) with_alice"
  have "predefined_topic \<noteq> client_registry" by (simp add: client_registry_def predefined_topic_def str_def)
  moreover have "client.holds with_alice client_registry [alice]" using reg_with_alice by (simp only: reg_def)
  ultimately have reg: "reg ?s [alice]"
    using registry_alice by (simp add: reg_def client.holds_other del: str_simps)
  have s: "\<not> transaction_started ?s" "mqtt_online ?s" "0 \<le> socket_fd ?s" "sent ?s = []" "broker_calls ?s = []"
      "files ?s (path_in ?s predefined_topic) = Some (str ''1 tt'' @ [10])"
    by (simp_all add: set_file_def path_in_def)
  have topic: "find_predefined 1 (read_lines 262 (str ''1 tt'' @ [10])) = Found (str ''tt'')"
  proof -
    have n: "262 = Suc (Suc (Suc (Suc (Suc 257))))" by simp
    have "take_line (Suc (Suc (Suc (Suc (Suc k))))) (str ''1 tt'' @ [10]) = (str ''1 tt'', [])"
        "take_line (Suc k) [] = ([], [])" for k by (simp_all add: newline_def)
    then have l: "take_line 262 (str ''1 tt'' @ [10]) = (str ''1 tt'', [])" "take_line 262 [] = ([], [])"
      unfolding n by blast+
    have "read_lines 262 (str ''1 tt'' @ [10]) = [str ''1 tt'']"
      unfolding read_lines.simps [of 262 "str ''1 tt'' @ [10]"] l(1) prod.sel
      by (simp add: read_lines.simps [of 262 "[]"] l(2) del: take_line.simps)
    then show ?thesis
      by (simp add: strtok_def space_def cstr_def atoi_def is_blank_def is_digit_def digits_val_def
          MAXIMUM_TOPIC_NAME_LENGTH_def)
  qed
  have q: "parse_qos FLAG_QOS_1 = 1" "FLAG_QOS_1 AND FLAG_TOPIC_SHORT_NAME = 0"
      "FLAG_QOS_1 AND FLAG_TOPIC_PREDEFINED_ID = 0" "FLAG_QOS_1 AND FLAG_RETAIN = 0"
    by (simp_all add: enum_defs parse_qos_def)
  have none: "session [alice] [10, 0, 0, 9, 34, 184] = None"
    by (simp add: session_def alice_address_def)
  have on: "connected alice" by (simp add: connected_def enum_defs)
  have acked: "\<not> ((9 :: u16) \<noteq> 0 \<and> (1 :: byte) \<in> {0, 255})" by simp
  have start: "reg ?s [alice] \<and> \<not> transaction_started ?s \<and> mqtt_online ?s \<and> 0 \<le> socket_fd ?s"
    using reg s by blast
  note twice = publish_handled_twice [where data = "[42]" and flags = FLAG_QOS_1 and m = 9 and s = ?s
      and rs = "[alice]" and i = 1, unfolded q if_not_P [OF acked]]
  have "sent (snd (run_state (receive_datagram [10, 0, 0, 9, 34, 184] (publish_datagram FLAG_QOS_1 1 9 [42])) ?s))
      = [([10, 0, 0, 9, 34, 184], written ([7, MQTTSN_PUBACK] @ u16_bytes 1 @ u16_bytes 9 @
          [REJECTED_NOT_SUPPORTED]) @ unwritten 1),
         ([10, 0, 0, 9, 34, 184], written ([7, MQTTSN_PUBACK] @ u16_bytes 1 @ u16_bytes 9 @
          [REJECTED_NOT_SUPPORTED]) @ unwritten 1)]"
    using conjunct1 [OF mp [OF conjunct2 [OF twice [where a = "[10, 0, 0, 9, 34, 184]"]] start]] s(4) none
    by (simp del: str_simps)
  moreover have "\<forall>e c n. session [alice] alice_address = Some e \<and> connected e \<and>
      files ?s (path_in ?s predefined_topic) = Some c \<and> find_predefined 1 (read_lines 262 c) = Found n \<longrightarrow>
      broker_calls (snd (run_state (receive_datagram alice_address (publish_datagram FLAG_QOS_1 1 9 [42])) ?s))
        = [CallPublish n [42] 1 False, CallPublish n [42] 1 False]"
    using conjunct2 [OF mp [OF conjunct2 [OF twice [where a = alice_address]] start]] s(5)
    by (simp del: str_simps session_alice)
  then have "broker_calls (snd (run_state (receive_datagram alice_address
      (publish_datagram FLAG_QOS_1 1 9 [42])) ?s))
      = [CallPublish (str ''tt'') [42] 1 False, CallPublish (str ''tt'') [42] 1 False]"
    using s(6) topic on session_alice by blast
  ultimately show ?thesis by (simp only: Let_def list.map fst_conv)
qed

end
