(* ===== verification/GlobalCounts.thy ===== *)
theory GlobalCounts
  imports TopicTables
begin

text \<open>
  The file \<open>MQTT.SUB\<close> (\<open>PersistSubscriptions\<close>): how many clients have subscribed to each topic
  name.  The gateway subscribes to a topic at the broker when its count becomes one and
  unsubscribes when it becomes zero, so the counts decide which messages it gets.
\<close>

section \<open>The table\<close>

definition cleared_count :: "entry_mqtt_subscription \<Rightarrow> bool" where
  "cleared_count e \<longleftrightarrow> em_client_subscription_count e = 0 \<and> cstr (em_topic_name e) = []"

definition counts_name :: "bytes \<Rightarrow> entry_mqtt_subscription \<Rightarrow> bool" where
  "counts_name n e \<longleftrightarrow> em_client_subscription_count e \<noteq> 0 \<and> cstr (em_topic_name e) = n"

text \<open>An entry is cleared or counts a name, and no two count the same.\<close>

definition count_entry_ok :: "entry_mqtt_subscription \<Rightarrow> bool" where
  "count_entry_ok e \<longleftrightarrow> cleared_count e \<or> (em_client_subscription_count e \<noteq> 0 \<and>
     cstr (em_topic_name e) \<noteq> [] \<and> topic_name_ok (cstr (em_topic_name e)))"

definition count_table_ok :: "entry_mqtt_subscription list \<Rightarrow> bool" where
  "count_table_ok gs \<longleftrightarrow> list_all count_entry_ok gs \<and>
     (\<forall>i < length gs. \<forall>j < length gs. \<forall>n. counts_name n (gs ! i) \<and> counts_name n (gs ! j) \<longrightarrow> i = j)"

definition counts_of :: "'z persistent_scheme \<Rightarrow> entry_mqtt_subscription list \<Rightarrow> bool" where
  "counts_of s gs \<longleftrightarrow> msub.holds s mqtt_sub gs \<and> length gs < 65535 \<and> count_table_ok gs"

definition count_of :: "entry_mqtt_subscription list \<Rightarrow> bytes \<Rightarrow> u32" where
  "count_of gs n = (case List.find (counts_name n) gs of None \<Rightarrow> 0
     | Some e \<Rightarrow> em_client_subscription_count e)"

definition with_counts :: "entry_mqtt_subscription list \<Rightarrow> 'z persistent_scheme \<Rightarrow> 'z persistent_scheme" where
  "with_counts gs s = msub.put mqtt_sub gs s"

definition global_name :: "bytes \<Rightarrow> bool" where
  "global_name n \<longleftrightarrow> topic_name_ok n \<and> n \<noteq> []"

lemma with_counts_simps [simp]:
  "transaction_started (with_counts gs s) = transaction_started s"
  "error (with_counts gs s) = error s" "entry (with_counts gs s) = entry s"
  "not_in_client_registry (with_counts gs s) = not_in_client_registry s"
  "rootPath (with_counts gs s) = rootPath s" "cwd (with_counts gs s) = cwd s"
  "no_client (with_counts gs s) = no_client s" "no_transaction (with_counts gs s) = no_transaction s"
  "path_in (with_counts gs s) n = path_in s n"
  by (simp_all add: with_counts_def msub.put_def set_file_def path_in_def no_client_def no_transaction_def)

lemma holds_with_counts: "list_all wf_mqtt_subscription gs \<Longrightarrow> msub.holds (with_counts gs s) mqtt_sub gs"
  unfolding with_counts_def msub.put_def by (simp add: msub.holds_def set_file_def path_in_def)

lemma count_table_unique: "count_table_ok gs \<Longrightarrow> i < length gs \<Longrightarrow> j < length gs \<Longrightarrow>
    counts_name n (gs ! i) \<Longrightarrow> counts_name n (gs ! j) \<Longrightarrow> i = j"
  unfolding count_table_ok_def by blast

lemma count_of_at:
  assumes "count_table_ok gs" "i < length gs" "counts_name n (gs ! i)"
  shows "count_of gs n = em_client_subscription_count (gs ! i)"
proof -
  have "\<not> counts_name n (gs ! j)" if "j < i" for j
    using count_table_unique [OF assms(1), of i j n] assms that by auto
  then have "List.find (counts_name n) gs = Some (gs ! i)"
    using assms by (auto simp: find_Some_iff)
  then show ?thesis by (simp add: count_of_def)
qed

lemma count_of_none: "(\<And>i. i < length gs \<Longrightarrow> \<not> counts_name n (gs ! i)) \<Longrightarrow> count_of gs n = 0"
proof -
  assume "\<And>i. i < length gs \<Longrightarrow> \<not> counts_name n (gs ! i)"
  then have "List.find (counts_name n) gs = None" by (auto simp: find_None_iff in_set_conv_nth)
  then show ?thesis by (simp add: count_of_def)
qed

lemma count_of_zero: "count_of gs n = 0 \<longleftrightarrow> (\<forall>i < length gs. \<not> counts_name n (gs ! i))"
proof -
  have "List.find (counts_name n) gs = None \<longleftrightarrow> (\<forall>i < length gs. \<not> counts_name n (gs ! i))"
    by (auto simp: find_None_iff in_set_conv_nth)
  moreover have "List.find (counts_name n) gs = Some e \<Longrightarrow> em_client_subscription_count e \<noteq> 0" for e
    by (auto simp: find_Some_iff counts_name_def)
  ultimately show ?thesis unfolding count_of_def by (cases "List.find (counts_name n) gs") auto
qed

text \<open>Writing to slot \<open>k\<close>, the only one that may count \<open>n\<close>, an entry that counts \<open>n\<close> or nothing.\<close>

lemma count_table_write:
  assumes "count_table_ok gs" "k \<le> length gs" "count_entry_ok e"
    and "cleared_count e \<or> counts_name n e"
    and other: "\<And>j. j < length gs \<Longrightarrow> j \<noteq> k \<Longrightarrow> \<not> counts_name n (gs ! j)"
    and slot: "\<And>m. k < length gs \<Longrightarrow> counts_name m (gs ! k) \<Longrightarrow> m = n"
  defines "gs' \<equiv> if k < length gs then gs[k := e] else gs @ [e]"
  shows "count_table_ok gs'"
    "count_of gs' m = (if m = n then em_client_subscription_count e else count_of gs m)"
proof -
  have len: "k < length gs'" "\<And>j. j < length gs' \<longleftrightarrow> j < length gs \<or> j = k"
    using assms(2) by (auto simp: gs'_def)
  have at: "gs' ! k = e" "\<And>j. j < length gs' \<Longrightarrow> j \<noteq> k \<Longrightarrow> j < length gs \<and> gs' ! j = gs ! j"
    using assms(2) by (auto simp: gs'_def nth_append split: if_splits)
  have e: "counts_name m e \<Longrightarrow> m = n" for m
    using assms(4) by (auto simp: cleared_count_def counts_name_def)
  have new: "counts_name m (gs' ! j) \<longleftrightarrow> (if m = n then j = k \<and> counts_name n e
      else j < length gs \<and> counts_name m (gs ! j))" if "j < length gs'" for m j
  proof (cases "j = k")
    case True
    then show ?thesis using at(1) e [of m] slot [of m] by auto
  next
    case False
    then show ?thesis using at(2) [OF that] other [of j] by auto
  qed
  show ok: "count_table_ok gs'"
    unfolding count_table_ok_def
  proof (intro conjI allI impI)
    show "list_all count_entry_ok gs'"
      using assms(1-3) by (auto simp: count_table_ok_def gs'_def list_all_length nth_list_update nth_append less_Suc_eq)
    fix i j m
    assume "i < length gs'" "j < length gs'" "counts_name m (gs' ! i) \<and> counts_name m (gs' ! j)"
    then show "i = j"
      using new [of i m] new [of j m] count_table_unique [OF assms(1), of i j m]
      by (auto split: if_splits)
  qed
  show "count_of gs' m = (if m = n then em_client_subscription_count e else count_of gs m)"
  proof (cases "m = n")
    case True
    show ?thesis
    proof (cases "counts_name n e")
      case n: True
      then show ?thesis using count_of_at [OF ok len(1), of n] at(1) True by simp
    next
      case no: False
      then have "em_client_subscription_count e = 0" using assms(4) by (simp add: cleared_count_def)
      then show ?thesis using count_of_none [of gs' n] new [of _ n] no True by auto
    qed
  next
    case False
    show ?thesis
    proof (cases "\<exists>j < length gs. counts_name m (gs ! j)")
      case True
      then obtain j where j: "j < length gs" "counts_name m (gs ! j)" by blast
      then have "j \<noteq> k" using slot [of m] False by auto
      then have "counts_name m (gs' ! j)" "gs' ! j = gs ! j" "j < length gs'"
        using j new [of j m] at(2) [of j] len(2) False by auto
      then show ?thesis
        using count_of_at [OF ok, of j m] count_of_at [OF assms(1) j] False by simp
    next
      case no: False
      then have "count_of gs m = 0" "count_of gs' m = 0"
        using count_of_none [of gs m] count_of_none [of gs' m] new [of _ m] False by auto
      then show ?thesis using False by simp
    qed
  qed
qed

section \<open>Counting up and down\<close>

lemma counts_name_body: "global_name n \<Longrightarrow>
    em_client_subscription_count e \<noteq> 0 \<and> names_topic (em_topic_name e) n \<longleftrightarrow> counts_name n e"
  using topic_name_okD [of n] by (auto simp: counts_name_def names_topic_def global_name_def)

lemma not_bad_name: "global_name n \<Longrightarrow> \<not> bad_topic_name (Some n)"
  using topic_name_okD [of n] by (simp add: bad_topic_name_def global_name_def)

lemma run_find_global:
  assumes "counts_of s gs" "global_name n"
  obtains (found) i where "i < length gs" "counts_name n (gs ! i)" "count_of gs n = em_client_subscription_count (gs ! i)"
      "run_state (find_global n) s = (Returned (of_nat i, gs ! i), s)"
  | (none) "\<And>i. i < length gs \<Longrightarrow> \<not> counts_name n (gs ! i)" "count_of gs n = 0"
      "run_state (find_global n) s = (Done (of_nat (length gs) + 1) []
        (last_upto cleared_count gs (length gs)), s)"
proof -
  have gs: "msub.holds s mqtt_sub gs" "length gs < 65536" "count_table_ok gs"
    using assms(1) by (simp_all add: counts_of_def)
  let ?f = "\<lambda>e n' a. if cleared_count e then Inr (uint n')
      else if counts_name n e then Inl (n', e) else Inr a"
  have body: "(\<lambda>e n' a. if em_client_subscription_count e = 0 \<and> cstr (em_topic_name e) = [] then Inr (uint n')
      else if em_client_subscription_count e \<noteq> 0 \<and> names_topic (em_topic_name e) n
      then Inl (n', e) else Inr a) = ?f"
    by (intro ext if_cong refl) (simp_all add: cleared_count_def counts_name_body [OF assms(2)])
  have run: "run_state (find_global n) s = (rec_loop ?f gs (0 :: u16) (-1), s)"
    unfolding find_global_def body
    by (simp add: FILE_READ_def msub.holds_open [OF gs(1)] msub.holds_loop [OF gs(1)])
  show ?thesis
  proof (cases rule: rec_loop_scan_cases [OF gs(2), where Q = "counts_name n" and E = cleared_count and
        g = "\<lambda>e n'. (n', e)", case_names found none])
    case (found i)
    then show ?thesis using run count_of_at [OF gs(3), of i n] by (intro that(1) [of i]) simp_all
  next
    case none
    have no: "\<not> counts_name n (gs ! i)" if "i < length gs" for i
      using none(1) [OF that] by (auto simp: cleared_count_def counts_name_def)
    then show ?thesis using run none(2) by (intro that(2) count_of_none) simp_all
  qed
qed

text \<open>The state after a write to a slot of the table.\<close>

lemma run_write_global:
  assumes "counts_of s gs" "wf_mqtt_subscription e" "k \<le> length gs"
  shows "run_state (write_global (int k) e) s =
    ((), with_counts (if k < length gs then gs[k := e] else gs @ [e]) s)"
proof -
  have "k * sizeof_entry_mqtt_subscription < 2 ^ 32"
    using assms(1,3) by (simp add: counts_of_def sizeof_entry_mqtt_subscription_def)
  then show ?thesis
    using msub.run_write_slot [of s mqtt_sub gs e k] assms
    by (simp add: write_global_def counts_of_def with_counts_def)
qed

lemma counts_of_write:
  assumes "counts_of s gs" "wf_mqtt_subscription e" "count_table_ok gs'" "length gs' < 65535"
    and "gs' = (if k < length gs then gs[k := e] else gs @ [e])"
  shows "counts_of (with_counts gs' s) gs'"
  using assms msub.wf_write_slot [of s mqtt_sub gs e k] holds_with_counts [of gs' s]
  by (auto simp: counts_of_def)

definition new_count :: "bytes \<Rightarrow> u32 \<Rightarrow> entry_mqtt_subscription" where
  "new_count n c = \<lparr>em_client_subscription_count = c, em_topic_name = padz 255 n\<rparr>"

lemma new_count_ok: "global_name n \<Longrightarrow> c \<noteq> 0 \<Longrightarrow> count_entry_ok (new_count n c) \<and>
    counts_name n (new_count n c) \<and> wf_mqtt_subscription (new_count n c)"
  by (simp add: new_count_def count_entry_ok_def counts_name_def wf_mqtt_subscription_def global_name_def
      topic_name_ok_def)

lemma run_increment:
  assumes "counts_of s gs" "\<not> error s" "global_name n" "count_of gs n + 1 \<noteq> 0" "length gs < 65534"
  obtains gs' where "run_state (increment_global_subscription_count (Some n)) s = (True, with_counts gs' s)"
    "counts_of (with_counts gs' s) gs'" "length gs' \<le> Suc (length gs)"
    "\<And>m. count_of gs' m = (if m = n then count_of gs n + 1 else count_of gs m)"
proof -
  have ok: "count_table_ok gs" "list_all wf_mqtt_subscription gs"
    using assms(1) by (simp_all add: counts_of_def msub.holds_def)
  have name: "cstr n = n" using assms(3) by (simp add: global_name_def topic_name_ok_def)
  show ?thesis
  proof (cases rule: run_find_global [OF assms(1,3), case_names found none])
    case (found i)
    let ?e = "(gs ! i)\<lparr>em_client_subscription_count := em_client_subscription_count (gs ! i) + 1\<rparr>"
    have e: "count_entry_ok ?e" "counts_name n ?e" "wf_mqtt_subscription ?e"
      using found(1-3) assms(3,4) ok(2)
      by (simp_all add: count_entry_ok_def counts_name_def global_name_def wf_mqtt_subscription_def
          list_all_length)
    have other: "\<not> counts_name n (gs ! j)" if "j < length gs" "j \<noteq> i" for j
      using count_table_unique [OF ok(1) that(1) found(1)] found(2) that(2) by blast
    have slot: "i < length gs \<Longrightarrow> counts_name m (gs ! i) \<Longrightarrow> m = n" for m
      using found(2) by (simp add: counts_name_def)
    have w: "count_table_ok (gs[i := ?e])"
      "count_of (gs[i := ?e]) m = (if m = n then count_of gs n + 1 else count_of gs m)" for m
      using count_table_write [OF ok(1) less_imp_le [OF found(1)] e(1) disjI2 [OF e(2)] other slot] found(1,3)
      by simp_all
    have "run_state (increment_global_subscription_count (Some n)) s = (True, with_counts (gs[i := ?e]) s)"
      using run_write_global [OF assms(1) e(3), of i] found assms(1,2) not_bad_name [OF assms(3)]
      by (simp add: increment_global_subscription_count_def State_Monad.return_def counts_of_def)
    then show ?thesis
      using w counts_of_write [OF assms(1) e(3) w(1), of i] found(1) assms(5)
      by (intro that [of "gs[i := ?e]"]) simp_all
  next
    case none
    let ?e = "new_count n 1"
    define k where "k = (if last_upto cleared_count gs (length gs) = -1 then length gs
      else nat (last_upto cleared_count gs (length gs)))"
    define gs' where "gs' = (if k < length gs then gs[k := ?e] else gs @ [?e])"
    have e: "count_entry_ok ?e" "counts_name n ?e" "wf_mqtt_subscription ?e"
      using new_count_ok [OF assms(3), of 1] by simp_all
    have k: "k \<le> length gs" "k < length gs \<Longrightarrow> cleared_count (gs ! k)"
      "(if last_upto cleared_count gs (length gs) = -1 then uint (of_nat (length gs) + 1 :: u16) - 1
        else last_upto cleared_count gs (length gs)) = int k"
    proof -
      have len: "uint (of_nat (length gs) + 1 :: u16) - 1 = int (length gs)"
        using assms(5) uint_of_nat_u16 [of "Suc (length gs)"] by (simp add: add.commute)
      show "k \<le> length gs" "k < length gs \<Longrightarrow> cleared_count (gs ! k)"
        "(if last_upto cleared_count gs (length gs) = -1 then uint (of_nat (length gs) + 1 :: u16) - 1
          else last_upto cleared_count gs (length gs)) = int k"
        unfolding k_def len
        by (cases rule: last_upto_cases [of cleared_count gs "length gs"]; simp)+
    qed
    have slot: "k < length gs \<Longrightarrow> counts_name m (gs ! k) \<Longrightarrow> m = n" for m
      using k(2) by (simp add: cleared_count_def counts_name_def)
    have w: "count_table_ok gs'"
      "count_of gs' m = (if m = n then count_of gs n + 1 else count_of gs m)" for m
      using count_table_write [OF ok(1) k(1) e(1) disjI2 [OF e(2)] none(1) slot] none(2)
      by (simp_all add: gs'_def new_count_def)
    have "run_state (increment_global_subscription_count (Some n)) s = (True, with_counts gs' s)"
      using run_write_global [OF assms(1) e(3) k(1)] none(3) assms(2) not_bad_name [OF assms(3)] k(3)
        strcpy_zeros [of n 255] assms(3)
      by (simp add: increment_global_subscription_count_def State_Monad.return_def gs'_def new_count_def
          dec_mqtt_subscription_def sizeof_entry_mqtt_subscription_def name global_name_def topic_name_ok_def)
    then show ?thesis
      using w counts_of_write [OF assms(1) e(3) w(1) _ gs'_def] assms(5)
      by (intro that [of gs']) (simp_all add: gs'_def)
  qed
qed

lemma run_decrement:
  assumes "counts_of s gs" "\<not> error s" "global_name n"
  obtains gs' where "run_state (decrement_global_subscription_count (Some n)) s = (True, with_counts gs' s)"
    "counts_of (with_counts gs' s) gs'" "length gs' = length gs"
    "\<And>m. count_of gs' m = (if m = n \<and> count_of gs n \<noteq> 0 then count_of gs n - 1 else count_of gs m)"
proof -
  have ok: "count_table_ok gs" "list_all wf_mqtt_subscription gs" "msub.holds s mqtt_sub gs"
    using assms(1) by (simp_all add: counts_of_def msub.holds_def)
  show ?thesis
  proof (cases rule: run_find_global [OF assms(1,3), case_names found none])
    case (found i)
    let ?c = "em_client_subscription_count (gs ! i) - 1"
    define e where "e = (if ?c = 0 then empty_mqtt_subscription
      else (gs ! i)\<lparr>em_client_subscription_count := ?c\<rparr>)"
    have e: "count_entry_ok e" "cleared_count e \<or> counts_name n e" "wf_mqtt_subscription e"
        "em_client_subscription_count e = ?c"
      using found(1-3) assms(3) ok(2)
      by (auto simp: e_def count_entry_ok_def counts_name_def global_name_def wf_mqtt_subscription_def
          list_all_length cleared_count_def)
    have other: "\<not> counts_name n (gs ! j)" if "j < length gs" "j \<noteq> i" for j
      using count_table_unique [OF ok(1) that(1) found(1)] found(2) that(2) by blast
    have slot: "i < length gs \<Longrightarrow> counts_name m (gs ! i) \<Longrightarrow> m = n" for m
      using found(2) by (simp add: counts_name_def)
    have w: "count_table_ok (gs[i := e])"
      "count_of (gs[i := e]) m = (if m = n then count_of gs n - 1 else count_of gs m)" for m
      using count_table_write [OF ok(1) less_imp_le [OF found(1)] e(1,2) other slot] found(1,3) e(4)
      by simp_all
    have "run_state (decrement_global_subscription_count (Some n)) s = (True, with_counts (gs[i := e]) s)"
      using run_write_global [OF assms(1) e(3), of i] found assms(1,2) not_bad_name [OF assms(3)]
      by (simp add: decrement_global_subscription_count_def State_Monad.return_def counts_of_def e_def)
    then show ?thesis
      using w counts_of_write [OF assms(1) e(3) w(1), of i] found(1-3) assms(1)
      by (intro that [of "gs[i := e]"]) (simp_all add: counts_of_def counts_name_def)
  next
    case none
    have "with_counts gs s = s" using msub.put_same [OF ok(3)] by (simp add: with_counts_def)
    then show ?thesis
      using none(2,3) assms(1,2) not_bad_name [OF assms(3)]
      by (intro that [of gs]) (simp_all add: decrement_global_subscription_count_def State_Monad.return_def)
  qed
qed

lemma run_global_count:
  assumes "counts_of s gs" "\<not> error s" "global_name n"
  shows "run_state (get_global_topic_subscription_count (Some n)) s = (count_of gs n, s)"
proof -
  have gs: "msub.holds s mqtt_sub gs" using assms(1) by (simp add: counts_of_def)
  show ?thesis
    using assms(2) not_bad_name [OF assms(3)]
    by (simp add: get_global_topic_subscription_count_def FILE_READ_def msub.holds_open [OF gs]
        msub.holds_loop [OF gs] counts_name_body [OF assms(3)] rec_loop_find count_of_def
        State_Monad.return_def split: option.split)
qed

end
