(* ===== verification/Counters.thy ===== *)
theory Counters
  imports GlobalCounts Samples
begin

text \<open>
  The interface of a family of counters, one for each key, and its client: a history of changes.
  The subscription counts of the gateway are such a family, on the entries of \<open>MQTT.SUB\<close>.
\<close>

section \<open>Families of counters\<close>

datatype 'k change = Up 'k | Down 'k

primrec key_of :: "'k change \<Rightarrow> 'k" where
  "key_of (Up n) = n"
| "key_of (Down n) = n"

text \<open>The counters as a function to natural numbers; none goes below zero.\<close>

primrec change_number :: "'k change \<Rightarrow> ('k \<Rightarrow> nat) \<Rightarrow> 'k \<Rightarrow> nat" where
  "change_number (Up n) c = c(n := c n + 1)"
| "change_number (Down n) c = c(n := c n - 1)"

text \<open>\<open>room k s\<close>: \<open>s\<close> is a family of counters with room for \<open>k\<close> more steps up.\<close>

locale counters =
  fixes up :: "'k \<Rightarrow> 's \<Rightarrow> 's"
    and down :: "'k \<Rightarrow> 's \<Rightarrow> 's"
    and count :: "'k \<Rightarrow> 's \<Rightarrow> nat"
    and key_ok :: "'k \<Rightarrow> bool"
    and room :: "nat \<Rightarrow> 's \<Rightarrow> bool"
  assumes up_room: "room (Suc k) s \<Longrightarrow> key_ok n \<Longrightarrow> room k (up n s)"
    and down_room: "room (Suc k) s \<Longrightarrow> key_ok n \<Longrightarrow> room k (down n s)"
    and count_up: "room (Suc k) s \<Longrightarrow> key_ok n \<Longrightarrow> key_ok m \<Longrightarrow>
      count m (up n s) = (if m = n then count n s + 1 else count m s)"
    and count_down: "room (Suc k) s \<Longrightarrow> key_ok n \<Longrightarrow> key_ok m \<Longrightarrow>
      count m (down n s) = (if m = n then count n s - 1 else count m s)"
begin

primrec change :: "'k change \<Rightarrow> 's \<Rightarrow> 's" where
  "change (Up n) s = up n s"
| "change (Down n) s = down n s"

lemma change_room: "room (Suc k) s \<Longrightarrow> key_ok (key_of c) \<Longrightarrow> room k (change c s)"
  by (cases c) (simp_all add: up_room down_room)

lemma count_change: "room (Suc k) s \<Longrightarrow> key_ok (key_of c) \<Longrightarrow> key_ok m \<Longrightarrow>
    count m (change c s) = change_number c (\<lambda>n. count n s) m"
  by (cases c) (simp_all add: count_up count_down)

lemma change_number_cong: "key_ok (key_of c) \<Longrightarrow> (\<And>n. key_ok n \<Longrightarrow> f n = g n) \<Longrightarrow> key_ok m \<Longrightarrow>
    change_number c f m = change_number c g m"
  by (cases c) simp_all

lemma fold_number_cong: "list_all (\<lambda>c. key_ok (key_of c)) cs \<Longrightarrow> (\<And>n. key_ok n \<Longrightarrow> f n = g n) \<Longrightarrow>
    key_ok m \<Longrightarrow> fold change_number cs f m = fold change_number cs g m"
proof (induction cs arbitrary: f g)
  case (Cons c cs)
  then have c: "key_ok (key_of c)" "list_all (\<lambda>c. key_ok (key_of c)) cs" by simp_all
  have "fold change_number cs (change_number c f) m = fold change_number cs (change_number c g) m"
    by (rule Cons.IH [OF c(2) change_number_cong [OF c(1) Cons.prems(2)] Cons.prems(3)])
  then show ?case by simp
qed simp

lemma count_history: "room (length cs) s \<Longrightarrow> list_all (\<lambda>c. key_ok (key_of c)) cs \<Longrightarrow> key_ok m \<Longrightarrow>
    count m (fold change cs s) = fold change_number cs (\<lambda>n. count n s) m"
proof (induction cs arbitrary: s)
  case (Cons c cs)
  have "count m (fold change cs (change c s)) = fold change_number cs (\<lambda>n. count n (change c s)) m"
    using Cons.prems change_room [of "length cs" s c] by (intro Cons.IH) simp_all
  also have "\<dots> = fold change_number cs (change_number c (\<lambda>n. count n s)) m"
    using Cons.prems count_change [of "length cs" s c] by (intro fold_number_cong) simp_all
  finally show ?case by simp
qed simp

end

section \<open>The subscription counts of the gateway\<close>

definition count_up :: "bytes \<Rightarrow> gateway \<Rightarrow> gateway" where
  "count_up n s = snd (run_state (increment_global_subscription_count (Some n)) s)"

definition count_down :: "bytes \<Rightarrow> gateway \<Rightarrow> gateway" where
  "count_down n s = snd (run_state (decrement_global_subscription_count (Some n)) s)"

definition subscribers :: "bytes \<Rightarrow> gateway \<Rightarrow> nat" where
  "subscribers n s = unat (fst (run_state (get_global_topic_subscription_count (Some n)) s))"

definition count_room :: "nat \<Rightarrow> 'z persistent_scheme \<Rightarrow> bool" where
  "count_room k s \<longleftrightarrow> \<not> error s \<and> (\<exists>gs. counts_of s gs \<and> length gs + k < 65535 \<and>
     (\<forall>n. unat (count_of gs n) + k < 2 ^ 32))"

lemma unat_count_up: "unat (c :: u32) + Suc k < 2 ^ 32 \<Longrightarrow> unat (c + 1) = unat c + 1 \<and> c + 1 \<noteq> 0"
  by (auto simp: unat_word_ariths word_unat_eq_iff)

lemma unat_count_down: "(c :: u32) \<noteq> 0 \<Longrightarrow> unat (c - 1) = unat c - 1"
  by (simp add: unat_minus_one)

interpretation subscription_counts: counters count_up count_down subscribers global_name count_room
proof unfold_locales
  fix k and s :: gateway and n m
  assume r: "count_room (Suc k) s" and n: "global_name n"
  obtain gs where gs: "counts_of s gs" "\<not> error s" "length gs < 65534" "length gs + Suc k < 65535"
      "\<And>m. unat (count_of gs m) + Suc k < 2 ^ 32"
    using r by (auto simp: count_room_def)
  have get: "subscribers m u = unat (count_of hs m)" if "counts_of u hs" "\<not> error u" "global_name m" for m u hs
    using run_global_count [OF that] by (simp add: subscribers_def)
  obtain us where us: "run_state (increment_global_subscription_count (Some n)) s = (True, with_counts us s)"
      "counts_of (with_counts us s) us" "length us \<le> Suc (length gs)"
      "\<And>m. count_of us m = (if m = n then count_of gs n + 1 else count_of gs m)"
    using run_increment [OF gs(1,2) n _ gs(3)] unat_count_up [OF gs(5) [of n]] by blast
  then have up: "count_up n s = with_counts us s" by (simp add: count_up_def)
  obtain ds where ds: "run_state (decrement_global_subscription_count (Some n)) s = (True, with_counts ds s)"
      "counts_of (with_counts ds s) ds" "length ds = length gs"
      "\<And>m. count_of ds m = (if m = n \<and> count_of gs n \<noteq> 0 then count_of gs n - 1 else count_of gs m)"
    using run_decrement [OF gs(1,2) n] by blast
  then have down: "count_down n s = with_counts ds s" by (simp add: count_down_def)
  have k: "unat (count_of us m) + k < 2 ^ 32" "unat (count_of ds m) + k < 2 ^ 32" for m
    using gs(5) [of m] us(4) [of m] ds(4) [of m] unat_count_up [OF gs(5) [of n]]
      unat_count_down [of "count_of gs n"]
    by (auto split: if_splits)
  show "count_room k (count_up n s)"
    unfolding up count_room_def using us(2,3) gs(2,4) k(1) by (auto intro!: exI [of _ us])
  show "count_room k (count_down n s)"
    unfolding down count_room_def using ds(2,3) gs(2,4) k(2) by (auto intro!: exI [of _ ds])
  assume m: "global_name m"
  show "subscribers m (count_up n s) = (if m = n then subscribers n s + 1 else subscribers m s)"
    using get [OF us(2) _ m] get [OF gs(1,2)] m n gs(2) us(4) up unat_count_up [OF gs(5) [of n]] by simp
  show "subscribers m (count_down n s) = (if m = n then subscribers n s - 1 else subscribers m s)"
    using get [OF ds(2) _ m] get [OF gs(1,2)] m n gs(2) ds(4) down unat_count_down [of "count_of gs n"] by simp
qed

text \<open>
  C20: After any history of subscriptions and unsubscriptions, the file \<open>MQTT.SUB\<close> counts for every
  topic name what natural-number counters would: one more for each increment of the name, one
  less for each decrement, never below zero, and no other name's count changes; as long as the
  file has room for the names and no count reaches \<open>2\<^sup>3\<^sup>2\<close>.
\<close>

theorem subscription_counts_refine:
  fixes s :: gateway and cs :: "bytes change list" and m :: bytes
  assumes "counts_of s gs" "\<not> error s" "length gs + length cs < 65535"
    and "\<And>n. unat (count_of gs n) + length cs < 2 ^ 32"
    and "list_all (\<lambda>c. global_name (key_of c)) cs" "global_name m"
  defines "step \<equiv> \<lambda>c s. snd (run_state (case c of Up n \<Rightarrow> increment_global_subscription_count (Some n)
    | Down n \<Rightarrow> decrement_global_subscription_count (Some n)) s)"
  shows "unat (fst (run_state (get_global_topic_subscription_count (Some m)) (fold step cs s))) =
    fold change_number cs (\<lambda>n. unat (count_of gs n)) m"
proof -
  have room: "count_room (length cs) s" using assms(1-4) by (auto simp: count_room_def)
  have step: "step = subscription_counts.change"
    by (simp add: fun_eq_iff step_def count_up_def count_down_def split: change.split)
  have now: "global_name n \<Longrightarrow> subscribers n s = unat (count_of gs n)" for n
    using run_global_count [OF assms(1,2)] by (simp add: subscribers_def)
  have "subscribers m (fold step cs s) = fold change_number cs (\<lambda>n. subscribers n s) m"
    unfolding step by (rule subscription_counts.count_history [OF room assms(5,6)])
  also have "\<dots> = fold change_number cs (\<lambda>n. unat (count_of gs n)) m"
    by (rule subscription_counts.fold_number_cong [OF assms(5) now assms(6)])
  finally show ?thesis by (simp add: subscribers_def)
qed

lemma subscription_counts_refine_witness:
  "fst (run_state (get_global_topic_subscription_count (Some (str ''t'')))
     (snd (run_state (increment_global_subscription_count (Some (str ''t'')))
       (snd (run_state (increment_global_subscription_count (Some (str ''t''))) (with_counts [] online)))))) = 2"
proof -
  have "counts_of (with_counts [] online) []"
    by (simp add: counts_of_def holds_with_counts count_table_ok_def)
  moreover have "global_name (str ''t'')" by (simp add: global_name_def topic_name_ok_def)
  ultimately have "unat (fst (run_state (get_global_topic_subscription_count (Some (str ''t'')))
     (snd (run_state (increment_global_subscription_count (Some (str ''t'')))
       (snd (run_state (increment_global_subscription_count (Some (str ''t''))) (with_counts [] online))))))) = 2"
    using subscription_counts_refine [of "with_counts [] online" "[]"
        "[Up (str ''t''), Up (str ''t'')]" "str ''t''"]
    by (simp add: count_of_def)
  then show ?thesis by (simp add: word_unat_eq_iff)
qed

end
