(* ===== verification/SessionTables.thy ===== *)
theory SessionTables
  imports SubscriptionTables TopicMessages Counters
begin

text \<open>
  The files behind a session: the topics and the subscriptions of its client and the counts of
  \<open>MQTT.SUB\<close>, and what an operation on one of them leaves of the others.
\<close>

section \<open>Different files\<close>

lemma counts_file_other: "live i e \<Longrightarrow> mqtt_sub \<noteq> client_file e ending"
proof
  assume l: "live i e" and eq: "mqtt_sub = client_file e ending"
  have "cstr (ec_file_number e) = fmt08 i"
    using l cstr_padz [of "fmt08 i" 9] by (simp add: live_def)
  moreover have ne: "fmt08 i \<noteq> []" using length_fmt08 [of i] by (metis list.size(3) zero_neq_numeral)
  ultimately have "hd mqtt_sub = hd (fmt08 i)"
    using arg_cong [OF eq, of hd] by (cases "fmt08 i") (simp_all add: client_file_def)
  moreover have "hd (fmt08 i) \<in> set (fmt08 i)" using ne by (rule hd_in_set)
  then have "is_digit (hd (fmt08 i))" unfolding fmt08_def by (rule digits_fixed_all)
  ultimately show False by (simp add: mqtt_sub_def is_digit_def word_le_nat_alt)
qed

lemma session_live: "reg s rs \<Longrightarrow> session rs a = Some e \<Longrightarrow> a \<noteq> empty_address \<Longrightarrow> \<exists>i < 65536. live i e"
proof -
  assume r: "reg s rs" "session rs a = Some e" "a \<noteq> empty_address"
  then have ok: "registry_ok rs" by (simp add: reg_def)
  show ?thesis
    using r registry_ok_live_address [OF ok] registry_ok_length [OF ok]
    by (cases rule: session_cases [of rs a id]) (auto intro: less_le_trans)
qed

lemma session_counts_file: "reg s rs \<Longrightarrow> session rs a = Some e \<Longrightarrow> a \<noteq> empty_address \<Longrightarrow>
    mqtt_sub \<noteq> client_file e ending"
  using session_live counts_file_other by blast

section \<open>Counts\<close>

lemma counts_of_members: "files t = files s \<Longrightarrow> rootPath t = rootPath s \<Longrightarrow> counts_of s gs \<Longrightarrow> counts_of t gs"
  by (simp add: counts_of_def msub.holds_def path_in_def)

lemma counts_of_outside [simp]: "counts_of (s\<lparr>sent := x\<rparr>) gs \<longleftrightarrow> counts_of s gs"
  "counts_of (s\<lparr>broker_calls := cs\<rparr>) gs \<longleftrightarrow> counts_of s gs"
  "counts_of (open_transaction e s') gs \<longleftrightarrow> counts_of s' gs"
  "counts_of (close_transaction s') gs \<longleftrightarrow> counts_of s' gs"
  by (auto elim!: counts_of_members [rotated 2])

lemma with_counts_outside [simp]:
  "sent (with_counts gs s) = sent s" "socket_fd (with_counts gs s) = socket_fd s"
  "mqtt_online (with_counts gs s) = mqtt_online s" "broker_calls (with_counts gs s) = broker_calls s"
  "client_rc (with_counts gs s) = client_rc s"
  by (simp_all add: with_counts_def msub.put_def)

lemma with_counts_files: "files (with_counts gs s) = (files s)(path_in s mqtt_sub := Some (msub.file_of gs))"
  by (simp add: with_counts_def msub.put_def)

lemma reg_with_counts [simp]: "reg (with_counts gs s) rs \<longleftrightarrow> reg s rs"
  using mqtt_sub_not_registry [symmetric] by (simp add: reg_def client.holds_def with_counts_files)

section \<open>Subscriptions of a session\<close>

definition device_subs :: "gateway \<Rightarrow> entry_client \<Rightarrow> entry_subscription list \<Rightarrow> bool" where
  "device_subs s e es \<longleftrightarrow> subs.table (open_transaction (Some e) s) es"

lemma subs_table_file: "subs.table s es \<longleftrightarrow> files s (path_in s (client_file (entry s) SUBSCRIBE_FILE_ENDING)) =
    Some (subs.file_of es) \<and> list_all wf_subscription es \<and> length es < 65535"
  by (simp add: subs.table_def subs.holds_def subs.table_file_def)

lemma device_subs_outside [simp]: "device_subs (s\<lparr>sent := x\<rparr>) e es \<longleftrightarrow> device_subs s e es"
  "device_subs (s\<lparr>broker_calls := cs\<rparr>) e es \<longleftrightarrow> device_subs s e es"
  "device_subs (open_transaction e' s) e es \<longleftrightarrow> device_subs s e es"
  "device_subs (close_transaction s) e es \<longleftrightarrow> device_subs s e es"
  by (simp_all add: device_subs_def subs_table_file path_in_def)

lemma device_subs_counts [simp]: "mqtt_sub \<noteq> client_file e SUBSCRIBE_FILE_ENDING \<Longrightarrow>
    device_subs (with_counts gs s) e es \<longleftrightarrow> device_subs s e es"
  by (simp add: device_subs_def subs_table_file with_counts_files)

lemma topics_table_file: "topics.table s ns \<longleftrightarrow> files s (path_in s (client_file (entry s) REGISTRATION_FILE_ENDING)) =
    Some (reg.file_of ns) \<and> list_all wf_registration ns \<and> length ns < 65535"
  by (simp add: topics.table_def reg.holds_def topics.table_file_def)

lemma device_topics_counts [simp]: "mqtt_sub \<noteq> client_file e REGISTRATION_FILE_ENDING \<Longrightarrow>
    device_topics (with_counts gs s) e ns \<longleftrightarrow> device_topics s e ns"
  by (simp add: device_topics_def topics_of_def topics_table_file with_counts_files)

end
