(* ===== verification/Unsubscribing.thy ===== *)
theory Unsubscribing
  imports SessionTables
begin

text \<open>
  The message UNSUBSCRIBE.
\<close>

definition named_datagram :: "byte \<Rightarrow> byte \<Rightarrow> u16 \<Rightarrow> bytes \<Rightarrow> bytes" where
  "named_datagram type flags m n = [of_nat (6 + length n), type, flags, 0] @ u16_bytes m @ n"

text \<open>What the parsers of SUBSCRIBE and UNSUBSCRIBE find in such a datagram.\<close>

lemma named_datagram_fields:
  fixes type flags :: byte and m :: u16
  assumes "no_nul n" "length n < 249" "n \<noteq> []"
  defines "bs \<equiv> padz BUFLEN (named_datagram type flags m n)"
  shows "byte_at 0 bs > 6" "byte_at 0 bs > 3" "\<not> byte_at 0 bs < 2" "byte_at (Suc 0) bs = type"
    "byte_at 2 bs = flags" "u16_at 4 bs = m" "cstr (drop 6 bs) = n"
proof -
  have nd: "named_datagram type flags m n = ([of_nat (6 + length n), type, flags, 0] @ u16_bytes m) @ n"
      "named_datagram type flags m n = [of_nat (6 + length n), type, flags, 0] @ u16_bytes m @ n"
    by (simp_all add: named_datagram_def)
  show "cstr (drop 6 bs) = n" unfolding bs_def nd(1) by (rule datagram_name) (use assms in simp_all)
  show "u16_at 4 bs = m" unfolding bs_def nd(2) by (rule datagram_u16) simp_all
  show "byte_at (Suc 0) bs = type" "byte_at 2 bs = flags"
    by (simp_all add: bs_def nd(2) byte_at_padz BUFLEN_def numeral_2_eq_2)
  have b: "byte_at 0 bs = of_nat (6 + length n)" by (simp add: bs_def nd(2) byte_at_padz BUFLEN_def)
  have "unat (byte_at 0 bs) = 6 + length n"
    unfolding b by (rule unat_length_byte) (use assms(2) in simp)
  then show "byte_at 0 bs > 6" "byte_at 0 bs > 3" "\<not> byte_at 0 bs < 2"
    using assms(3) by (simp_all add: word_less_nat_alt)
qed

lemma receive_unsubscribe:
  assumes "no_nul n" "length n < 249" "n \<noteq> []"
  shows "receive_datagram a (named_datagram MQTTSN_UNSUBSCRIBE 0 m n) = handle_unsubscribe_name a n m False"
  using named_datagram_fields [OF assms, of MQTTSN_UNSUBSCRIBE 0 m]
  by (simp add: receive_datagram_def receiveData_def parse_unsubscribe_def short_or_predefined_def
      has_flag_def enum_defs)

lemma run_send_unsuback: "0 \<le> socket_fd s \<Longrightarrow> run_state (send_unsuback a m) s =
    (True, s\<lparr>sent := sent s @ [(a, written ([4, MQTTSN_UNSUBACK] @ u16_bytes m))]\<rparr>)"
  by (simp add: send_unsuback_def run_send_or_notify msg_unsuback_def)

text \<open>
  C25: UNSUBSCRIBE with a topic name does the opposite of what it should.  If the device has a
  subscription of the name, nothing changes: its subscription stays, the count stays, and the
  broker is not told.  If it has none, the count of the other subscribers is decremented, and if
  it is then zero the gateway unsubscribes at the broker.  Either way the device gets its UNSUBACK.
\<close>

theorem unsubscribe_inverted:
  fixes s :: gateway and a :: device_address and n :: bytes and m :: u16
  assumes "reg s rs" "\<not> transaction_started s" "0 \<le> socket_fd s" "a \<noteq> empty_address"
    and "session rs a = Some e" "device_subs s e es" "counts_of s gs" "global_name n" "length n < 249"
  defines "t \<equiv> snd (run_state (receive_datagram a (named_datagram MQTTSN_UNSUBSCRIBE 0 m n)) s)"
  shows "reg t rs \<and> \<not> transaction_started t \<and> device_subs t e es \<and>
    sent t = sent s @ [(a, written ([4, MQTTSN_UNSUBACK] @ u16_bytes m))] \<and>
    (if subscribed_to es n then counts_of t gs \<and> broker_calls t = broker_calls s
     else \<exists>gs'. counts_of t gs' \<and>
       (\<forall>k. count_of gs' k = (if k = n \<and> count_of gs n \<noteq> 0 then count_of gs n - 1 else count_of gs k)) \<and>
       broker_calls t = broker_calls s @ (if count_of gs' n = 0 then [CallUnsubscribe n] else []))"
proof -
  have n: "no_nul n" "n \<noteq> []" "cstr n = n" using assms(8) by (simp_all add: global_name_def topic_name_ok_def)
  let ?o = "open_transaction (Some e) s"
  have o: "subs.table ?o es" "counts_of ?o gs" "\<not> no_client ?o" "\<not> error ?o" "reg ?o rs"
    using assms(1,6,7) by (simp_all add: device_subs_def)
  have t: "t = snd (run_state (handle_unsubscribe_name a n m False) s)"
    unfolding t_def by (subst receive_unsubscribe) (use n assms(9) in simp_all)
  have sub: "run_state (is_subscribed (Some n)) ?o = (subscribed_to es n, ?o)"
    using run_is_subscribed [OF o(1,3), of "Some n"] not_bad_name [OF assms(8)] by simp
  have noop: "run_state (delete_subscription 0) ?o = ((), ?o)"
    by (simp add: delete_subscription_def State_Monad.return_def)
  show ?thesis
  proof (cases "subscribed_to es n")
    case True
    then have "t = (close_transaction ?o)\<lparr>sent := sent s @ [(a, written ([4, MQTTSN_UNSUBACK] @ u16_bytes m))]\<rparr>"
      using sub assms(3,5)
      by (simp add: t handle_unsubscribe_name_def core_delete_subscription_name_def get_topic_id_def
          finish_delete_subscription_def run_start_address [OF assms(1,2)] run_apply
          answer_unsubscribe_def run_send_unsuback State_Monad.return_def)
    then show ?thesis using True assms(1,6,7) by simp
  next
    case False
    obtain gs' where gs': "run_state (decrement_global_subscription_count (Some n)) ?o = (True, with_counts gs' ?o)"
        "counts_of (with_counts gs' ?o) gs'" "\<And>k. count_of gs' k =
          (if k = n \<and> count_of gs n \<noteq> 0 then count_of gs n - 1 else count_of gs k)"
      using run_decrement [OF o(2,4) assms(8)] by blast
    have count: "run_state (get_global_topic_subscription_count (Some n)) (with_counts gs' ?o) =
        (count_of gs' n, with_counts gs' ?o)"
      by (rule run_global_count [OF gs'(2) _ assms(8)]) simp
    let ?c = "if count_of gs' n = 0 then [CallUnsubscribe n] else []"
    have "t = (close_transaction (with_counts gs' ?o))\<lparr>broker_calls := broker_calls s @ ?c,
        sent := sent s @ [(a, written ([4, MQTTSN_UNSUBACK] @ u16_bytes m))]\<rparr>"
      using sub False gs'(1) count assms(3,5) n
      by (simp add: noop t handle_unsubscribe_name_def core_delete_subscription_name_def get_topic_id_def
          finish_delete_subscription_def run_start_address [OF assms(1,2)] run_apply
          answer_unsubscribe_def run_send_unsuback State_Monad.return_def mqtt_unsubscribe_def call_broker_def)
    moreover have "mqtt_sub \<noteq> client_file e SUBSCRIBE_FILE_ENDING"
      by (rule session_counts_file [OF assms(1,5,4)])
    ultimately have "reg t rs" "\<not> transaction_started t" "device_subs t e es" "counts_of t gs'"
        "sent t = sent s @ [(a, written ([4, MQTTSN_UNSUBACK] @ u16_bytes m))]"
        "broker_calls t = broker_calls s @ ?c"
      using gs'(2) assms(1,6) by simp_all
    then show ?thesis unfolding if_not_P [OF False] using gs'(3) by blast
  qed
qed

text \<open>The client \<open>A\<close> without subscriptions, and one subscriber of the topic \<open>t\<close> somewhere else.\<close>

definition alice_counted :: gateway where
  "alice_counted = close_transaction (with_counts [new_count [116] 1] (subs.with_table [] in_alice))"

lemma alice_counted_simps [simp]: "reg alice_counted [alice]" "\<not> transaction_started alice_counted"
  "socket_fd alice_counted = 3" "device_subs alice_counted alice []"
  "counts_of alice_counted [new_count [116] 1]" "broker_calls alice_counted = []"
proof -
  have n: "global_name [116]" by (simp add: global_name_def topic_name_ok_def)
  note e = new_count_ok [OF n, of 1, simplified]
  show "counts_of alice_counted [new_count [116] 1]"
    unfolding alice_counted_def counts_of_outside
    using e holds_with_counts [of "[new_count [116] 1]" "subs.with_table [] in_alice"]
    by (simp add: counts_of_def count_table_ok_def)
  have "subs.table (subs.with_table [] in_alice) []" by (rule subs.table_with) simp_all
  then have "device_subs (subs.with_table [] in_alice) alice []"
    unfolding device_subs_def by (rule subs.table_members [rotated 3]) simp_all
  moreover have "mqtt_sub \<noteq> client_file alice SUBSCRIBE_FILE_ENDING" by (rule mqtt_sub_other)
  ultimately show "device_subs alice_counted alice []" by (simp add: alice_counted_def)
  show "reg alice_counted [alice]" by (simp add: alice_counted_def in_alice_def)
qed (simp_all add: alice_counted_def in_alice_def subs.with_table_def subs.put_def)

lemma unsubscribe_inverted_witness:
  "broker_calls (snd (run_state (receive_datagram alice_address
     (named_datagram MQTTSN_UNSUBSCRIBE 0 7 [116])) alice_counted)) = [CallUnsubscribe [116]]"
proof -
  have n: "global_name [116]" by (simp add: global_name_def topic_name_ok_def)
  then have c: "count_of [new_count [116] 1] [116] = 1"
    using count_of_at [of "[new_count [116] 1]" 0 "[116]"] new_count_ok [OF n, of 1]
      alice_counted_simps(5) by (simp add: counts_of_def new_count_def)
  show ?thesis
    using unsubscribe_inverted [of alice_counted "[alice]" alice_address alice "[]"
        "[new_count [116] 1]" "[116]" 7] n c
    by (auto simp: subscribed_to_def)
qed

end
