(* ===== verification/Subscribing.thy ===== *)
theory Subscribing
  imports Unsubscribing
begin

text \<open>
  The message SUBSCRIBE with a topic name, on the topics and subscriptions of the session and the
  counts of the gateway.
\<close>

section \<open>The files do not interfere\<close>

lemma topics_file_other: "client_file e REGISTRATION_FILE_ENDING \<noteq> client_file e' SUBSCRIBE_FILE_ENDING"
  "client_file e REGISTRATION_FILE_ENDING \<noteq> mqtt_sub"
proof -
  have "last (client_file e REGISTRATION_FILE_ENDING) = 71" "last (client_file e' SUBSCRIBE_FILE_ENDING) = 66"
    by (simp_all add: client_file_def REGISTRATION_FILE_ENDING_def SUBSCRIBE_FILE_ENDING_def)
  moreover have "last mqtt_sub = 66" by (simp add: mqtt_sub_def)
  ultimately show "client_file e REGISTRATION_FILE_ENDING \<noteq> client_file e' SUBSCRIBE_FILE_ENDING"
    "client_file e REGISTRATION_FILE_ENDING \<noteq> mqtt_sub" by auto
qed

lemmas topics_files = topics_file_other topics_file_other [symmetric]

lemma subs_table_outside [simp]:
  "sent (subs.with_table es s) = sent s" "socket_fd (subs.with_table es s) = socket_fd s"
  "mqtt_online (subs.with_table es s) = mqtt_online s"
  "broker_calls (subs.with_table es s) = broker_calls s"
  "client_rc (subs.with_table es s) = client_rc s"
  by (simp_all add: subs.with_table_def subs.put_def)

lemma subs_keeps_topics [simp]: "device_topics (subs.with_table es s) e ns \<longleftrightarrow> device_topics s e ns"
  by (simp add: device_topics_def topics_of_def topics_table_file subs.with_table_files
      subs.table_file_def topics_files)

lemma topics_keep_subs [simp]: "device_subs (with_topics ns s) e es \<longleftrightarrow> device_subs s e es"
  by (simp add: device_subs_def subs_table_file with_topics_def topics.with_table_files
      topics.table_file_def topics_files path_in_def)

lemma topics_keep_counts [simp]: "counts_of (with_topics ns s) gs \<longleftrightarrow> counts_of s gs"
  by (simp add: counts_of_def msub.holds_def with_topics_def topics.with_table_files
      topics.table_file_def topics_files path_in_def)

lemma subs_keep_counts: "mqtt_sub \<noteq> client_file (entry s) SUBSCRIBE_FILE_ENDING \<Longrightarrow>
    counts_of (subs.with_table es s) gs \<longleftrightarrow> counts_of s gs"
  by (simp add: counts_of_def msub.holds_def subs.with_table_files subs.table_file_def path_in_def)

lemma device_subs_with: "subs.table (subs.with_table es' s) es' \<Longrightarrow> entry s = e \<Longrightarrow>
    device_subs (subs.with_table es' s) e es'"
  unfolding device_subs_def by (erule subs.table_members [rotated 3]) simp_all

section \<open>Adding a subscription\<close>

text \<open>
  \<open>t\<close> is \<open>s\<close> after a subscription of \<open>n\<close> has been added: the broker is asked to subscribe when the
  count of the name was zero, and when it refuses, the count is as before, but the client's
  subscription stays.
\<close>

definition subscribed :: "gateway \<Rightarrow> entry_client list \<Rightarrow> entry_client \<Rightarrow> bytes list \<Rightarrow>
    entry_subscription list \<Rightarrow> entry_mqtt_subscription list \<Rightarrow> bytes \<Rightarrow> bool \<Rightarrow> gateway \<Rightarrow> bool" where
  "subscribed s rs e ns es gs n ok t \<longleftrightarrow> reg t rs \<and> \<not> transaction_started t \<and> device_topics t e ns \<and>
     (\<exists>es'. device_subs t e es' \<and> (\<forall>k. global_name k \<longrightarrow> (subscribed_to es' k \<longleftrightarrow> k = n \<or> subscribed_to es k))) \<and>
     (\<exists>gs'. counts_of t gs' \<and> (\<forall>k. count_of gs' k = (if k = n \<and> ok then count_of gs n + 1 else count_of gs k))) \<and>
     sent t = sent s \<and> socket_fd t = socket_fd s \<and>
     broker_calls t = broker_calls s @ (if count_of gs n = 0 then [CallSubscribe n 1] else [])"

lemma run_new_subscription:
  fixes s :: gateway
  assumes "reg s rs" "\<not> transaction_started s" "mqtt_online s" "a \<noteq> empty_address" "session rs a = Some e"
    and "device_topics s e ns" "name_of_id i ns = Some n" "global_name n"
    and "device_subs s e es" "\<not> subscribed_to es n" "length es < 65534"
    and "counts_of s gs" "count_of gs n + 1 \<noteq> 0" "length gs < 65534"
  defines "ok \<equiv> count_of gs n = 0 \<longrightarrow> client_rc s (broker_calls s @ [CallSubscribe n 1]) = 0"
  shows "\<exists>t. run_state (core_add_subscription a i m True q d i g) s =
      ((if ok then SUCCESS else ZERO, i, if q \<ge> 1 then 1 else 0), t) \<and>
    subscribed s rs e ns es gs n ok t"
proof -
  let ?o = "open_transaction (Some e) s"
  let ?q = "if q \<ge> 1 then 1 else 0 :: byte"
  have o: "subs.table ?o es" "topics_of ?o ns" "\<not> no_client ?o"
    using assms(6,9) by (simp_all add: device_subs_def device_topics_def)
  have n: "topic_name_ok n" "n \<noteq> []" using assms(8) by (simp_all add: global_name_def)
  have i: "i \<noteq> 0" using assms(7) by (auto simp: name_of_id_def split: if_splits)
  have other: "mqtt_sub \<noteq> client_file e SUBSCRIBE_FILE_ENDING" "mqtt_sub \<noteq> client_file e REGISTRATION_FILE_ENDING"
    using session_counts_file [OF assms(1,5,4)] by simp_all
  have name: "run_state (get_topic_name i) ?o = (Some n, ?o)"
    using run_get_topic_name [OF o(2), of i] assms(7) by simp
  have sub: "run_state (is_subscribed (Some n)) ?o = (False, ?o)"
    using run_is_subscribed [OF o(1,3), of "Some n"] assms(10) by simp
  obtain es' where es': "run_state (add_subscription (Some n) i ?q) ?o = ((), subs.with_table es' ?o)"
      "subs.table (subs.with_table es' ?o) es'"
      "\<And>k. cstr k \<noteq> [] \<Longrightarrow> subscribed_to es' k \<longleftrightarrow> cstr k = n \<or> subscribed_to es k"
    using run_add_subscription [OF o(1,3) n i assms(11,10), of ?q] by blast
  let ?u = "subs.with_table es' ?o"
  have u: "counts_of ?u gs" "\<not> error ?u" using assms(12) other by (simp_all add: subs_keep_counts)
  obtain gs' where gs': "run_state (increment_global_subscription_count (Some n)) ?u = (True, with_counts gs' ?u)"
      "counts_of (with_counts gs' ?u) gs'"
      "\<And>k. count_of gs' k = (if k = n then count_of gs n + 1 else count_of gs k)"
    using run_increment [OF u assms(8,13,14)] by blast
  let ?v = "with_counts gs' ?u"
  have v: "run_state (get_global_topic_subscription_count (Some n)) ?v = (count_of gs n + 1, ?v)"
    using run_global_count [OF gs'(2) _ assms(8)] gs'(3) by simp
  have one: "count_of gs n + 1 = 1 \<longleftrightarrow> count_of gs n = 0" by simp
  have es: "global_name k \<Longrightarrow> subscribed_to es' k \<longleftrightarrow> k = n \<or> subscribed_to es k" for k
    using es'(3) [of k] topic_name_okD [of k] by (simp add: global_name_def)
  let ?w = "(close_transaction ?v)\<lparr>broker_calls := broker_calls s @ (if count_of gs n = 0 then [CallSubscribe n 1] else [])\<rparr>"
  have w: "reg ?w rs" "\<not> transaction_started ?w" "device_topics ?w e ns" "device_subs ?w e es'"
      "counts_of ?w gs'" "\<not> error ?w" "sent ?w = sent s" "socket_fd ?w = socket_fd s"
      "broker_calls ?w = broker_calls s @ (if count_of gs n = 0 then [CallSubscribe n 1] else [])"
    using assms(1,6) other gs'(2) device_subs_with [OF es'(2)] by simp_all
  have run: "run_state (core_add_subscription a i m True q d i g) s =
      (if ok then ((SUCCESS, i, ?q), ?w)
       else ((ZERO, i, ?q), snd (run_state (decrement_global_subscription_count (Some n)) ?w)))"
    using assms(3) name sub es'(1) gs'(1) v one
    by (simp add: core_add_subscription_def is_mqtt_online_def run_start_address [OF assms(1,2)] assms(5)
        client_exist_def run_apply mqtt_subscribe_def call_broker_def State_Monad.return_def Let_def ok_def
        no_client_split split_beta)
  show ?thesis
  proof (cases ok)
    case True
    then show ?thesis
      unfolding run subscribed_def using w gs'(3) es by auto
  next
    case False
    obtain hs where hs: "run_state (decrement_global_subscription_count (Some n)) ?w = (True, with_counts hs ?w)"
        "counts_of (with_counts hs ?w) hs"
        "\<And>k. count_of hs k = (if k = n \<and> count_of gs' n \<noteq> 0 then count_of gs' n - 1 else count_of gs' k)"
      using run_decrement [OF w(5,6) assms(8)] by blast
    then show ?thesis
      unfolding run subscribed_def using False w other gs'(3) es assms(13) by auto
  qed
qed

lemma run_old_subscription:
  fixes s :: gateway
  assumes "reg s rs" "\<not> transaction_started s" "mqtt_online s" "session rs a = Some e"
    and "device_topics s e ns" "name_of_id i ns = Some n" "global_name n"
    and "device_subs s e es" "subscribed_to es n"
  shows "run_state (core_add_subscription a i m True q d i g) s =
      ((SUCCESS, i, if q \<ge> 1 then 1 else 0), close_transaction (open_transaction (Some e) s))"
proof -
  let ?o = "open_transaction (Some e) s"
  have o: "subs.table ?o es" "topics_of ?o ns" "\<not> no_client ?o"
    using assms(5,8) by (simp_all add: device_subs_def device_topics_def)
  have name: "run_state (get_topic_name i) ?o = (Some n, ?o)"
    using run_get_topic_name [OF o(2), of i] assms(6) by simp
  have sub: "run_state (is_subscribed (Some n)) ?o = (True, ?o)"
    using run_is_subscribed [OF o(1,3), of "Some n"] assms(9) not_bad_name [OF assms(7)] by simp
  show ?thesis
    using assms(3) name sub
    by (simp add: core_add_subscription_def is_mqtt_online_def run_start_address [OF assms(1,2)] assms(4)
        client_exist_def run_apply State_Monad.return_def Let_def no_client_split)
qed

section \<open>The message\<close>

lemma run_send_suback: "0 \<le> socket_fd s \<Longrightarrow> run_state (send_suback a q i m c) s =
    (True, s\<lparr>sent := sent s @ [(a, written ([8, MQTTSN_SUBACK, qos_flags q, 0] @ u16_bytes i @ u16_bytes m @ [c, 0]))]\<rparr>)"
  by (simp add: send_suback_def run_send_or_notify msg_suback_def)

lemma receive_subscribe:
  assumes "no_nul n" "length n < 249" "n \<noteq> []" "parse_qos flags \<noteq> 255"
    and "flags AND FLAG_TOPIC_SHORT_NAME = 0" "flags AND FLAG_TOPIC_PREDEFINED_ID = 0"
  shows "receive_datagram a (named_datagram MQTTSN_SUBSCRIBE flags m n) =
    handle_subscribe_name a n m (parse_qos flags) (flags AND FLAG_DUP \<noteq> 0)"
  using named_datagram_fields [OF assms(1-3), of MQTTSN_SUBSCRIBE flags m] assms(4-6)
  by (simp add: receive_datagram_def receiveData_def parse_subscribe_def short_or_predefined_def
      has_flag_def enum_defs Let_def)

text \<open>The first SUBSCRIBE of a device for a name.\<close>

lemma run_first_subscribe:
  fixes s :: gateway and a :: device_address and n :: bytes and m :: u16 and flags :: byte
  assumes "reg s rs" "\<not> transaction_started s" "mqtt_online s" "0 \<le> socket_fd s" "a \<noteq> empty_address"
    and "session rs a = Some e" "device_topics s e ns" "device_subs s e es" "counts_of s gs"
    and "global_name n" "length n < 249" "count_of gs n + 1 \<noteq> 0"
    and "length ns < 65534" "length es < 65534" "length gs < 65534"
    and "parse_qos flags \<noteq> 255" "flags AND FLAG_TOPIC_SHORT_NAME = 0" "flags AND FLAG_TOPIC_PREDEFINED_ID = 0"
    and "\<not> subscribed_to es n"
  defines "t \<equiv> snd (run_state (receive_datagram a (named_datagram MQTTSN_SUBSCRIBE flags m n)) s)"
    and "suback \<equiv> \<lambda>q i c. (a, written ([8, MQTTSN_SUBACK, qos_flags q, 0] @ u16_bytes i @ u16_bytes m @ [c, 0]))"
    and "ns' \<equiv> register_name n ns" and "i \<equiv> topic_id (topic_index n ns)"
    and "q \<equiv> if parse_qos flags \<ge> 1 then 1 else 0"
    and "ok \<equiv> count_of gs n = 0 \<longrightarrow> client_rc s (broker_calls s @ [CallSubscribe n 1]) = 0"
  shows "\<exists>u. subscribed s rs e ns' es gs n ok u \<and>
    t = u\<lparr>sent := sent s @ [if ok then suback q i ACCEPTED else suback 0 0 REJECTED_NOT_SUPPORTED]\<rparr>"
proof -
  have n: "topic_name_ok n" "no_nul n" "n \<noteq> []" using assms(10) by (simp_all add: global_name_def topic_name_ok_def)
  let ?r = "close_transaction (with_topics ns' (open_transaction (Some e) s))"
  have t: "t = snd (run_state (handle_subscribe_name a n m (parse_qos flags) (flags AND FLAG_DUP \<noteq> 0)) s)"
    unfolding t_def by (subst receive_subscribe [OF n(2) assms(11) n(3) assms(16-18)]) simp
  note topic = run_register_topic [OF assms(1-3,6,7) n(1) assms(13), folded ns'_def i_def]
  have r: "reg ?r rs" "\<not> transaction_started ?r" "mqtt_online ?r" "device_topics ?r e ns'"
      "device_subs ?r e es" "counts_of ?r gs" "sent ?r = sent s" "broker_calls ?r = broker_calls s"
      "client_rc ?r = client_rc s" "socket_fd ?r = socket_fd s"
    using topic(2) assms(1,3,8,9) by (simp_all add: topics_changed_def)
  have name: "name_of_id i ns' = Some n"
    using name_of_new [of "open_transaction (Some e) s" ns n] assms(7,13)
    by (simp add: device_topics_def i_def ns'_def)
  obtain u where u: "run_state (core_add_subscription a i m True (parse_qos flags) (flags AND FLAG_DUP \<noteq> 0) i 0) ?r =
      ((if ok then SUCCESS else ZERO, i, q), u)" "subscribed ?r rs e ns' es gs n ok u"
    using run_new_subscription [OF r(1-3) assms(5,6) r(4) name assms(10) r(5) assms(19,14) r(6) assms(12,15),
        of m "parse_qos flags" "flags AND FLAG_DUP \<noteq> 0" 0, unfolded r(8,9), folded ok_def q_def]
    by blast
  have "subscribed s rs e ns' es gs n ok u" using u(2) r by (simp add: subscribed_def)
  moreover have "t = u\<lparr>sent := sent s @ [if ok then suback q i ACCEPTED else suback 0 0 REJECTED_NOT_SUPPORTED]\<rparr>"
    using u topic(1) assms(4)
    by (simp add: t handle_subscribe_name_def answer_subscribe_def run_send_suback suback_def
        State_Monad.return_def subscribed_def)
  ultimately show ?thesis by auto
qed

text \<open>
  C8: SUBSCRIBE with a topic name from a device with a session registers the name and is answered
  with one SUBACK with the id of the name.  If the device has subscribed to it before, nothing
  else happens.  Otherwise its subscriptions are extended by the name, the count of the name goes
  up by one, and the gateway subscribes at the broker exactly if it was zero.  If the broker's
  client library refuses, the count is as before and the SUBACK says NOT_SUPPORTED, but the
  subscription stays in the client's table.
\<close>

theorem subscribe_refines:
  fixes s :: gateway and a :: device_address and n :: bytes and m :: u16 and flags :: byte
  assumes "reg s rs" "\<not> transaction_started s" "mqtt_online s" "0 \<le> socket_fd s" "a \<noteq> empty_address"
    and "session rs a = Some e" "device_topics s e ns" "device_subs s e es" "counts_of s gs"
    and "global_name n" "length n < 249" "count_of gs n + 1 \<noteq> 0"
    and "length ns < 65534" "length es < 65534" "length gs < 65534"
    and "parse_qos flags \<noteq> 255" "flags AND FLAG_TOPIC_SHORT_NAME = 0" "flags AND FLAG_TOPIC_PREDEFINED_ID = 0"
  defines "t \<equiv> snd (run_state (receive_datagram a (named_datagram MQTTSN_SUBSCRIBE flags m n)) s)"
    and "suback \<equiv> \<lambda>q i c. (a, written ([8, MQTTSN_SUBACK, qos_flags q, 0] @ u16_bytes i @ u16_bytes m @ [c, 0]))"
    and "ns' \<equiv> register_name n ns" and "i \<equiv> topic_id (topic_index n ns)"
    and "q \<equiv> if parse_qos flags \<ge> 1 then 1 else 0"
    and "ok \<equiv> count_of gs n = 0 \<longrightarrow> client_rc s (broker_calls s @ [CallSubscribe n 1]) = 0"
  shows "if subscribed_to es n
    then reg t rs \<and> \<not> transaction_started t \<and> device_topics t e ns' \<and> device_subs t e es \<and>
      counts_of t gs \<and> broker_calls t = broker_calls s \<and> sent t = sent s @ [suback q i ACCEPTED]
    else \<exists>u. subscribed s rs e ns' es gs n ok u \<and>
      t = u\<lparr>sent := sent s @ [if ok then suback q i ACCEPTED else suback 0 0 REJECTED_NOT_SUPPORTED]\<rparr>"
proof (cases "subscribed_to es n")
  case True
  have n: "topic_name_ok n" "no_nul n" "n \<noteq> []" using assms(10) by (simp_all add: global_name_def topic_name_ok_def)
  let ?r = "close_transaction (with_topics ns' (open_transaction (Some e) s))"
  have t: "t = snd (run_state (handle_subscribe_name a n m (parse_qos flags) (flags AND FLAG_DUP \<noteq> 0)) s)"
    unfolding t_def by (subst receive_subscribe [OF n(2) assms(11) n(3) assms(16-18)]) simp
  note topic = run_register_topic [OF assms(1-3,6,7) n(1) assms(13), folded ns'_def i_def]
  have r: "reg ?r rs" "\<not> transaction_started ?r" "mqtt_online ?r" "device_topics ?r e ns'"
      "device_subs ?r e es" "counts_of ?r gs" "sent ?r = sent s" "broker_calls ?r = broker_calls s"
      "socket_fd ?r = socket_fd s"
    using topic(2) assms(1,3,8,9) by (simp_all add: topics_changed_def)
  have name: "name_of_id i ns' = Some n"
    using name_of_new [of "open_transaction (Some e) s" ns n] assms(7,13)
    by (simp add: device_topics_def i_def ns'_def)
  have "t = (close_transaction (open_transaction (Some e) ?r))\<lparr>sent := sent s @ [suback q i ACCEPTED]\<rparr>"
    using run_old_subscription [OF r(1-3) assms(6) r(4) name assms(10) r(5) True] topic(1) assms(4)
    by (simp add: t handle_subscribe_name_def answer_subscribe_def run_send_suback suback_def q_def
        State_Monad.return_def)
  then show ?thesis using True r by simp
next
  case False
  then show ?thesis
    using run_first_subscribe [OF assms(1-18) False] unfolding assms(19-) by simp
qed

lemma subscribe_refines_witness:
  "broker_calls (snd (run_state (receive_datagram alice_address
     (named_datagram MQTTSN_SUBSCRIBE 0 7 [117])) (close_transaction (with_topics [] alice_counted)))) =
   [CallSubscribe [117] 1]"
proof -
  let ?s = "close_transaction (with_topics [] alice_counted)"
  have "entry alice_counted = alice" by (simp add: alice_counted_def)
  then have "device_topics ?s alice []"
    unfolding device_topics_outside device_topics_def
    by (intro topics_of_members [OF _ _ _ topics_of_with [of "[]" alice_counted]]) simp_all
  moreover have "count_of [new_count [116] 1] [117] = 0"
    by (rule count_of_none) (simp add: counts_name_def new_count_def no_nul_def)
  moreover have "parse_qos 0 = 0" by (simp add: parse_qos_def enum_defs)
  moreover have "mqtt_online ?s"
    by (simp add: alice_counted_def in_alice_def)
  moreover have "global_name [117]" by (simp add: global_name_def topic_name_ok_def)
  ultimately show ?thesis
    using subscribe_refines [of ?s "[alice]" alice_address alice "[]" "[]" "[new_count [116] 1]" "[117]" 0 7]
    by (auto simp: subscribed_to_def subscribed_def)
qed

end
