(* ===== verification/PublishTables.thy ===== *)
theory PublishTables
  imports ClientTables "HOL-Library.Multiset"
begin

text \<open>
  The publishes that wait for a client (\<open>PersistPublishes\<close>) as a bag of messages: storing a
  message adds it, \<open>get_next_publish\<close> gives one of them, and removing by the publish id of an
  entry takes away its message and no other.
\<close>

section \<open>The bag\<close>

type_synonym message = "bytes \<times> u16 \<times> byte \<times> bool"

definition waiting :: "entry_publish \<Rightarrow> bool" where
  "waiting e \<longleftrightarrow> ep_publish_id e \<noteq> 0"

definition message_of :: "entry_publish \<Rightarrow> message" where
  "message_of e = (take (unat (ep_msg_length e)) (ep_msg e), ep_topic_id e, ep_qos e, ep_retain e)"

text \<open>The id of an entry in use is its position plus one.\<close>

definition publishes_ok :: "entry_publish list \<Rightarrow> bool" where
  "publishes_ok ps \<longleftrightarrow> (\<forall>i < length ps. waiting (ps ! i) \<longrightarrow> ep_publish_id (ps ! i) = slot_id i)"

definition publishes_of :: "'z persistent_scheme \<Rightarrow> entry_publish list \<Rightarrow> bool" where
  "publishes_of s ps \<longleftrightarrow> pubs.table s ps \<and> publishes_ok ps"

definition stored :: "entry_publish list \<Rightarrow> message multiset" where
  "stored ps = image_mset message_of (filter_mset waiting (mset ps))"

lemma stored_write:
  assumes "k < length ps"
  shows "stored (ps[k := e]) = (stored ps - (if waiting (ps ! k) then {#message_of (ps ! k)#} else {#})) +
    (if waiting e then {#message_of e#} else {#})"
proof -
  have m: "mset ps = add_mset (ps ! k) (mset ps - {#ps ! k#})" using assms by simp
  have "stored ps = (if waiting (ps ! k) then {#message_of (ps ! k)#} else {#}) +
      image_mset message_of (filter_mset waiting (mset ps - {#ps ! k#}))"
    unfolding stored_def by (subst m) simp
  then show ?thesis using assms by (simp add: stored_def mset_update)
qed

lemma stored_append: "stored (ps @ [e]) = stored ps + (if waiting e then {#message_of e#} else {#})"
  by (simp add: stored_def)

lemma stored_member: "k < length ps \<Longrightarrow> waiting (ps ! k) \<Longrightarrow> message_of (ps ! k) \<in># stored ps"
  by (auto simp: stored_def)

lemma stored_empty: "stored ps = {#} \<longleftrightarrow> (\<forall>k < length ps. \<not> waiting (ps ! k))"
proof -
  have "stored ps = {#} \<longleftrightarrow> (\<forall>e \<in> set ps. \<not> waiting e)"
    unfolding stored_def by (induction ps) auto
  then show ?thesis by (simp add: all_set_conv_all_nth)
qed

lemma publishes_ok_write: "publishes_ok ps \<Longrightarrow> waiting e \<longrightarrow> ep_publish_id e = slot_id k \<Longrightarrow>
    k \<le> length ps \<Longrightarrow> publishes_ok (if k < length ps then ps[k := e] else ps @ [e])"
  by (auto simp: publishes_ok_def nth_list_update nth_append less_Suc_eq)

section \<open>Storing\<close>

definition stored_entry :: "nat \<Rightarrow> bytes \<Rightarrow> u16 \<Rightarrow> bool \<Rightarrow> byte \<Rightarrow> entry_publish" where
  "stored_entry k data i r q = \<lparr>ep_msg = padz 255 data, ep_msg_length = of_nat (length data), ep_topic_id = i,
     ep_qos = q, ep_retain = r, ep_dup = False, ep_msg_id = 0, ep_publish_id = slot_id k,
     ep_retransmition_timeout = 0\<rparr>"

lemma stored_entry_simps:
  assumes "length data < 256" "k < 65535"
  shows "waiting (stored_entry k data i r q)" "wf_publish (stored_entry k data i r q)"
    "message_of (stored_entry k data i r q) = (data, i, q, r)"
proof -
  show "waiting (stored_entry k data i r q)" using assms(2) by (simp add: waiting_def stored_entry_def)
  show "wf_publish (stored_entry k data i r q)" by (simp add: wf_publish_def stored_entry_def)
  have "unat (of_nat (length data) :: byte) = length data" using assms(1) by (simp add: unat_of_nat)
  then show "message_of (stored_entry k data i r q) = (data, i, q, r)"
    using assms(1) by (simp add: message_of_def stored_entry_def padz_eq)
qed

lemma run_store:
  assumes "publishes_of s ps" "\<not> no_client s" "length data < 256" "length ps < 65534"
  obtains ps' where "run_state (add_new_client_publish data (of_nat (length data)) i r q) s =
      ((), pubs.with_table ps' s)"
    "publishes_of (pubs.with_table ps' s) ps'" "stored ps' = add_mset (data, i, q, r) (stored ps)"
    "length ps' \<le> Suc (length ps)"
proof -
  have ps: "pubs.table s ps" "publishes_ok ps" "length ps < 65536"
    using assms(1,4) by (simp_all add: publishes_of_def)
  let ?free = "\<lambda>e. ep_publish_id e = 0"
  define k where "k = (if last_upto ?free ps (length ps) = -1 then length ps
    else nat (last_upto ?free ps (length ps)))"
  let ?e = "stored_entry k data i r q"
  define ps' where "ps' = (if k < length ps then ps[k := ?e] else ps @ [?e])"
  have len: "uint (of_nat (length ps) + 1 :: u16) - 1 = int (length ps)"
    using assms(4) uint_of_nat_u16 [of "Suc (length ps)"] by (simp add: add.commute)
  have k: "k \<le> length ps" "k < length ps \<Longrightarrow> \<not> waiting (ps ! k)"
    "(if last_upto ?free ps (length ps) = -1 then uint (of_nat (length ps) + 1 :: u16) - 1
      else last_upto ?free ps (length ps)) = int k"
    unfolding k_def len waiting_def
    by (cases rule: last_upto_cases [of ?free ps "length ps"]; simp)+
  have k16: "k < 65535" using k(1) assms(4) by simp
  note e = stored_entry_simps [OF assms(3) k16, of i r q]
  have data: "padz 255 (take (unat (of_nat (length data) :: byte)) data) = padz 255 data"
    using assms(3) by (simp add: unat_of_nat)
  have "run_state (add_new_client_publish data (of_nat (length data)) i r q) s = ((), pubs.with_table ps' s)"
    unfolding add_new_client_publish_def add_client_publish_def data
    using pubs.run_write_table [OF ps(1) e(2) k(1)] assms(2) k(3)
    by (simp add: slot_id_plus [of k] pubs.table_loop [OF ps(1)] rec_loop_last [OF ps(3)] ps'_def stored_entry_def Let_def
        State_Monad.return_def)
  moreover have "publishes_of (pubs.with_table ps' s) ps'"
    using pubs.wf_write_table [OF ps(1) e(2), of k] assms(4) publishes_ok_write [OF ps(2), of ?e k] k(1)
    by (auto simp: publishes_of_def ps'_def stored_entry_def intro!: pubs.table_with)
  moreover have "stored ps' = add_mset (data, i, q, r) (stored ps)"
    using e(1,3) k(2) by (simp add: ps'_def stored_write stored_append)
  moreover have "length ps' \<le> Suc (length ps)" by (simp add: ps'_def)
  ultimately show ?thesis by (rule that)
qed

section \<open>Fetching and removing\<close>

lemma run_has_publishes: "publishes_of s ps \<Longrightarrow> \<not> no_client s \<Longrightarrow>
    run_state has_client_publishes s = (stored ps \<noteq> {#}, s)"
proof -
  assume s: "publishes_of s ps" "\<not> no_client s"
  then have ps: "pubs.table s ps" by (simp add: publishes_of_def)
  have "List.find (\<lambda>e. ep_publish_id e \<noteq> 0) ps = None \<longleftrightarrow> stored ps = {#}"
    unfolding stored_empty find_None_iff waiting_def by (auto simp: in_set_conv_nth)
  then show ?thesis
    using s(2) by (cases "List.find (\<lambda>e. ep_publish_id e \<noteq> 0) ps")
      (simp_all add: has_client_publishes_def pubs.table_loop [OF ps]
        rec_loop_find [where g = "\<lambda>e. ()"] State_Monad.return_def)
qed

lemma run_next:
  assumes "publishes_of s ps" "\<not> no_client s"
  obtains (none) "stored ps = {#}" "run_state get_next_publish s = (None, s)"
  | (some) k where "k < length ps" "waiting (ps ! k)" "ep_publish_id (ps ! k) = slot_id k"
      "\<And>j. k < j \<Longrightarrow> j < length ps \<Longrightarrow> \<not> waiting (ps ! j)"
      "run_state get_next_publish s = (Some (ps ! k), s)"
proof -
  have ps: "pubs.table s ps" "publishes_ok ps" "length ps < 65536"
    using assms(1) by (simp_all add: publishes_of_def pubs.table_def)
  let ?h = "\<lparr>full_path = path_in s (pubs.table_file s), read_mode = True, position = 0, closed = False\<rparr>"
  have run: "run_state get_next_publish s = (let l = last_upto (\<lambda>e. ep_publish_id e \<noteq> 0) ps (length ps) in
      if l = -1 then None else Some (dec_publish (padz sizeof_entry_publish (fst (file_read s
        (file_seek ?h (l * int sizeof_entry_publish)) sizeof_entry_publish)))), s)"
    using assms(2) by (simp add: get_next_publish_def pubs.table_loop [OF ps(1)] rec_loop_last [OF ps(3)]
        Let_def State_Monad.return_def)
  show ?thesis
  proof (cases rule: last_upto_cases [of "\<lambda>e. ep_publish_id e \<noteq> 0" ps "length ps"])
    case none
    then have "stored ps = {#}" by (simp add: stored_empty waiting_def)
    then show ?thesis using run none(1) by (intro that(1)) simp_all
  next
    case (some k)
    then have w: "waiting (ps ! k)" "ep_publish_id (ps ! k) = slot_id k"
      using ps(2) by (simp_all add: publishes_ok_def waiting_def)
    have "wf_publish (ps ! k)" using pubs.table_wf [OF ps(1)] some(2) by (simp add: list_all_length)
    then have "run_state get_next_publish s = (Some (ps ! k), s)"
      using run some(1,2) pubs.table_read [OF ps(1), of k] ps(3)
      by (simp add: pub.length_enc pub.dec_enc)
    then show ?thesis using some w by (intro that(2) [of k]) (simp_all add: waiting_def)
  qed
qed

lemma run_update_publish:
  assumes "publishes_of s ps" "\<not> no_client s" "k < length ps" "waiting (ps ! k)" "wf_publish (f (ps ! k))"
  shows "run_state (update_publish (slot_id k) f) s = ((), pubs.with_table (ps[k := f (ps ! k)]) s)"
proof -
  have ps: "pubs.table s ps" "ep_publish_id (ps ! k) = slot_id k" "k < 65535"
    using assms(1,3,4) by (simp_all add: publishes_of_def pubs.table_def publishes_ok_def)
  have wf: "wf_publish (ps ! k)" using pubs.table_wf [OF ps(1)] assms(3) by (simp add: list_all_length)
  then show ?thesis
    using assms(2,3) ps pubs.table_read [OF ps(1), of k] pubs.run_write_table [OF ps(1) assms(5), of k] wf
    by (simp add: update_publish_def pubs.table_loop(1) pub.length_enc pub.dec_enc Let_def)
qed

lemma run_remove_publish:
  assumes "publishes_of s ps" "\<not> no_client s" "k < length ps" "waiting (ps ! k)"
  defines "ps' \<equiv> ps[k := empty_publish]"
  shows "run_state (remove_publish_by_publish_id (slot_id k)) s = ((), pubs.with_table ps' s)"
    "publishes_of (pubs.with_table ps' s) ps'" "stored ps' = stored ps - {#message_of (ps ! k)#}"
proof -
  show "run_state (remove_publish_by_publish_id (slot_id k)) s = ((), pubs.with_table ps' s)"
    unfolding remove_publish_by_publish_id_def ps'_def
    by (rule run_update_publish [OF assms(1-4)]) simp
  have e: "\<not> waiting empty_publish" by (simp add: waiting_def)
  show "stored ps' = stored ps - {#message_of (ps ! k)#}"
    using assms(3,4) e by (simp add: ps'_def stored_write)
  show "publishes_of (pubs.with_table ps' s) ps'"
    unfolding publishes_of_def
  proof
    show "pubs.table (pubs.with_table ps' s) ps'"
      using assms(1,3) pubs.table_wf [of s ps]
      by (intro pubs.table_with)
        (auto simp: publishes_of_def ps'_def pubs.table_def list_all_length nth_list_update)
    show "publishes_ok ps'"
      using assms(1,3) e publishes_ok_write [of ps empty_publish k] by (simp add: publishes_of_def ps'_def)
  qed
qed

end
