(* ===== verification/PublishBag.thy ===== *)
theory PublishBag
  imports PublishTables Samples
begin

text \<open>
  The interface of a bag of messages and its client: whatever is put into it can be taken out
  again, each message once.  The stored publishes of a client are such a bag.
\<close>

section \<open>Bags\<close>

text \<open>At most \<open>fuel\<close> rounds of looking for a message and removing it.\<close>

primrec take_all :: "nat \<Rightarrow> ('s \<Rightarrow> ('i \<times> 'm) option) \<Rightarrow> ('i \<Rightarrow> 's \<Rightarrow> 's) \<Rightarrow> 's \<Rightarrow> 'm list \<times> 's" where
  "take_all 0 pick remove s = ([], s)"
| "take_all (Suc fuel) pick remove s = (case pick s of None \<Rightarrow> ([], s)
     | Some (i, m) \<Rightarrow> let (ms, t) = take_all fuel pick remove (remove i s) in (m # ms, t))"

text \<open>\<open>room k s\<close>: \<open>s\<close> is a bag with room for \<open>k\<close> more messages.\<close>

locale bag =
  fixes put :: "'m \<Rightarrow> 's \<Rightarrow> 's"
    and pick :: "'s \<Rightarrow> ('i \<times> 'm) option"
    and remove :: "'i \<Rightarrow> 's \<Rightarrow> 's"
    and contents :: "'s \<Rightarrow> 'm multiset"
    and message_ok :: "'m \<Rightarrow> bool"
    and room :: "nat \<Rightarrow> 's \<Rightarrow> bool"
  assumes put_room: "room (Suc k) s \<Longrightarrow> message_ok m \<Longrightarrow> room k (put m s)"
    and contents_put: "room (Suc k) s \<Longrightarrow> message_ok m \<Longrightarrow> contents (put m s) = add_mset m (contents s)"
    and pick_none: "room k s \<Longrightarrow> pick s = None \<Longrightarrow> contents s = {#}"
    and pick_some: "room k s \<Longrightarrow> pick s = Some (i, m) \<Longrightarrow> m \<in># contents s"
    and remove_room: "room k s \<Longrightarrow> pick s = Some (i, m) \<Longrightarrow> room k (remove i s)"
    and contents_remove: "room k s \<Longrightarrow> pick s = Some (i, m) \<Longrightarrow> contents (remove i s) = contents s - {#m#}"
begin

lemma put_all: "room (length ms + k) s \<Longrightarrow> list_all message_ok ms \<Longrightarrow>
    room k (fold put ms s) \<and> contents (fold put ms s) = contents s + mset ms"
proof (induction ms arbitrary: s)
  case (Cons m ms)
  then show ?case using put_room [of "length ms + k" s m] contents_put [of "length ms + k" s m] by simp
qed simp

lemma take_all_contents: "room k s \<Longrightarrow> size (contents s) \<le> fuel \<Longrightarrow>
    mset (fst (take_all fuel pick remove s)) = contents s \<and>
    room k (snd (take_all fuel pick remove s)) \<and> contents (snd (take_all fuel pick remove s)) = {#}"
proof (induction fuel arbitrary: s)
  case (Suc fuel)
  show ?case
  proof (cases "pick s")
    case None
    then show ?thesis using Suc.prems pick_none by simp
  next
    case (Some im)
    obtain i m where im: "pick s = Some (i, m)" using Some by (cases im) simp
    have m: "m \<in># contents s" "contents (remove i s) = contents s - {#m#}" "room k (remove i s)"
      using pick_some [OF Suc.prems(1) im] contents_remove [OF Suc.prems(1) im]
        remove_room [OF Suc.prems(1) im] by simp_all
    then have "size (contents (remove i s)) \<le> fuel" using Suc.prems(2) by (simp add: size_Diff_singleton)
    then show ?thesis using Suc.IH [OF m(3)] im m(1,2) by (simp add: split_beta Let_def)
  qed
qed simp

lemma put_then_take: "room (length ms) s \<Longrightarrow> list_all message_ok ms \<Longrightarrow>
    size (contents s) + length ms \<le> fuel \<Longrightarrow>
    mset (fst (take_all fuel pick remove (fold put ms s))) = contents s + mset ms \<and>
    room 0 (snd (take_all fuel pick remove (fold put ms s))) \<and>
    contents (snd (take_all fuel pick remove (fold put ms s))) = {#}"
  using put_all [of ms 0 s] take_all_contents [of 0 "fold put ms s" fuel] by simp

end

section \<open>The stored publishes of a client\<close>

definition store_message :: "message \<Rightarrow> gateway \<Rightarrow> gateway" where
  "store_message m s = (case m of (data, i, q, r) \<Rightarrow>
     snd (run_state (add_new_client_publish data (of_nat (length data)) i r q) s))"

definition next_message :: "gateway \<Rightarrow> (u16 \<times> message) option" where
  "next_message s = map_option (\<lambda>p. (ep_publish_id p, message_of p)) (fst (run_state get_next_publish s))"

definition remove_message :: "u16 \<Rightarrow> gateway \<Rightarrow> gateway" where
  "remove_message i s = snd (run_state (remove_publish_by_publish_id i) s)"

definition short_message :: "message \<Rightarrow> bool" where
  "short_message m \<longleftrightarrow> length (fst m) < 256"

definition publish_room :: "nat \<Rightarrow> 'z persistent_scheme \<Rightarrow> bool" where
  "publish_room k s \<longleftrightarrow> \<not> no_client s \<and> (\<exists>ps. publishes_of s ps \<and> length ps + k < 65535)"

definition messages_in :: "'z persistent_scheme \<Rightarrow> message multiset" where
  "messages_in s = stored (pubs.entries s)"

lemma messages_in_of: "publishes_of s ps \<Longrightarrow> messages_in s = stored ps"
  using pubs.entries_table [of s ps] by (simp add: messages_in_def publishes_of_def)

interpretation publish_bag: bag store_message next_message remove_message messages_in short_message
  publish_room
proof unfold_locales
  fix k and s :: gateway and m :: message and i
  show "publish_room k (store_message m s)" "messages_in (store_message m s) = add_mset m (messages_in s)"
    if r: "publish_room (Suc k) s" and m: "short_message m"
  proof -
    obtain data t q r where d: "m = (data, t, q, r)" "length data < 256"
      using m by (cases m) (auto simp: short_message_def)
    obtain ps where ps: "publishes_of s ps" "\<not> no_client s" "length ps + Suc k < 65535"
      using r by (auto simp: publish_room_def)
    then obtain ps' where ps': "run_state (add_new_client_publish data (of_nat (length data)) t r q) s =
        ((), pubs.with_table ps' s)" "publishes_of (pubs.with_table ps' s) ps'"
        "stored ps' = add_mset m (stored ps)" "length ps' \<le> Suc (length ps)"
      using run_store [OF ps(1,2) d(2), of t r q thesis] d(1) by auto
    then have s': "store_message m s = pubs.with_table ps' s" by (simp add: store_message_def d(1))
    show "publish_room k (store_message m s)" using s' ps' ps by (auto simp: publish_room_def)
    show "messages_in (store_message m s) = add_mset m (messages_in s)"
      using s' ps'(2,3) ps(1) by (simp add: messages_in_of)
  qed
  fix r :: "u16 \<times> message"
  assume room: "publish_room k s"
  then obtain ps where ps: "publishes_of s ps" "\<not> no_client s" "length ps + k < 65535"
    by (auto simp: publish_room_def)
  show "messages_in s = {#}" if "next_message s = None"
    by (cases rule: run_next [OF ps(1,2)]) (use that messages_in_of [OF ps(1)] in \<open>simp_all add: next_message_def\<close>)
  assume nx: "next_message s = Some (i, m)"
  have "\<exists>j. j < length ps \<and> waiting (ps ! j) \<and> i = slot_id j \<and> m = message_of (ps ! j)"
    by (cases rule: run_next [OF ps(1,2)]) (use nx in \<open>auto simp: next_message_def\<close>)
  then obtain j where j: "j < length ps" "waiting (ps ! j)" "i = slot_id j" "m = message_of (ps ! j)"
    by blast
  note rem = run_remove_publish [OF ps(1,2) j(1,2)]
  show "m \<in># messages_in s" using j messages_in_of [OF ps(1)] stored_member by simp
  show "publish_room k (remove_message i s)"
    using rem ps j(3) by (auto simp: publish_room_def remove_message_def intro!: exI [of _ "ps[j := empty_publish]"])
  show "messages_in (remove_message i s) = messages_in s - {#m#}"
    using rem messages_in_of [OF ps(1)] messages_in_of [OF rem(2)] j(3,4) by (simp add: remove_message_def)
qed

text \<open>
  C28: Whatever publishes are stored for a client, fetching the next one and removing it until
  there is none left gives every stored message exactly once, with its topic id, QoS and retain
  flag, in at most as many rounds as there are messages; then the client has no publishes.
\<close>

theorem publishes_all_fetched:
  fixes s :: gateway and ms :: "message list"
  assumes "publishes_of s ps" "\<not> no_client s" "\<forall>m \<in> set ms. length (fst m) < 256"
    and "length ps + length ms < 65535"
  defines "store \<equiv> \<lambda>(data, i, q, r) s.
      snd (run_state (add_new_client_publish data (of_nat (length data)) i r q) s)"
    and "pick \<equiv> \<lambda>s. map_option (\<lambda>p. (ep_publish_id p, message_of p)) (fst (run_state get_next_publish s))"
    and "remove \<equiv> \<lambda>i s. snd (run_state (remove_publish_by_publish_id i) s)"
  defines "out \<equiv> take_all (size (stored ps) + length ms) pick remove (fold store ms s)"
  shows "mset (fst out) = stored ps + mset ms \<and> \<not> fst (run_state has_client_publishes (snd out))"
proof -
  have room: "publish_room (length ms) s" using assms(1,2,4) by (auto simp: publish_room_def)
  have ok: "list_all short_message ms" using assms(3) by (simp add: list_all_iff short_message_def)
  have eqs: "store = store_message" "pick = next_message" "remove = remove_message"
    by (simp_all add: fun_eq_iff store_def pick_def remove_def store_message_def next_message_def
        remove_message_def)
  have *: "mset (fst out) = stored ps + mset ms" "publish_room 0 (snd out)" "messages_in (snd out) = {#}"
    using publish_bag.put_then_take [OF room ok, of "size (stored ps) + length ms"]
      messages_in_of [OF assms(1)] by (simp_all add: out_def eqs)
  then have "\<not> fst (run_state has_client_publishes (snd out))"
    using run_has_publishes [of "snd out"] messages_in_of [of "snd out"] by (auto simp: publish_room_def)
  then show ?thesis using *(1) by simp
qed

lemma publishes_all_fetched_witness:
  "fst (take_all 1 next_message remove_message (store_message ([42], 1, 0, False) (pubs.with_table [] in_alice)))
    = [([42], 1, 0, False)]"
proof -
  have "publishes_of (pubs.with_table [] in_alice) []"
    by (simp add: publishes_of_def publishes_ok_def pubs.table_with)
  moreover have "stored [] = {#}" by (simp add: stored_def)
  moreover have "store_message = (\<lambda>(data, i, q, r) s.
      snd (run_state (add_new_client_publish data (of_nat (length data)) i r q) s))"
    by (simp add: fun_eq_iff store_message_def)
  moreover have "next_message = (\<lambda>s. map_option (\<lambda>p. (ep_publish_id p, message_of p)) (fst (run_state get_next_publish s)))"
    by (simp add: fun_eq_iff next_message_def)
  moreover have "remove_message = (\<lambda>i s. snd (run_state (remove_publish_by_publish_id i) s))"
    by (simp add: fun_eq_iff remove_message_def)
  ultimately show ?thesis
    using publishes_all_fetched [of "pubs.with_table [] in_alice" "[]" "[([42], 1, 0, False)]"]
    by simp
qed

end
