(* ===== verification/Acknowledging.thy ===== *)
theory Acknowledging
  imports PublishBag TopicMessages
begin

text \<open>
  The message PUBACK: it should take the acknowledged publish out of the store.
\<close>

definition device_publishes :: "gateway \<Rightarrow> entry_client \<Rightarrow> entry_publish list \<Rightarrow> bool" where
  "device_publishes s e ps \<longleftrightarrow> publishes_of (open_transaction (Some e) s) ps"

lemma publishes_of_members: "files t = files s \<Longrightarrow> rootPath t = rootPath s \<Longrightarrow> entry t = entry s \<Longrightarrow>
    publishes_of s ps \<Longrightarrow> publishes_of t ps"
  unfolding publishes_of_def using pubs.table_members by blast

lemma pubs_table_outside [simp]:
  "sent (pubs.with_table es s) = sent s" "socket_fd (pubs.with_table es s) = socket_fd s"
  "mqtt_online (pubs.with_table es s) = mqtt_online s"
  "broker_calls (pubs.with_table es s) = broker_calls s"
  "client_rc (pubs.with_table es s) = client_rc s"
  by (simp_all add: pubs.with_table_def pub.put_def)

text \<open>Two zero bytes over the message of the first entry.\<close>

definition blot :: "nat \<Rightarrow> entry_publish \<Rightarrow> entry_publish" where
  "blot n p = p\<lparr>ep_msg := take (n * 2) (ep_msg p) @ [0, 0] @ drop (n * 2 + 2) (ep_msg p)\<rparr>"

lemma splice_blot:
  assumes "wf_publish p" "n < 127"
  shows "splice (pub.file_of (p # ps)) (n * 2) [0, 0] = pub.file_of (blot n p # ps)"
proof -
  have "length (ep_msg p) = 255" using assms(1) by (simp add: wf_publish_def)
  then show ?thesis
    using assms(2) by (subst splice_inside) (simp_all add: enc_publish_def blot_def)
qed

text \<open>A message id of 0 is an error, but the loop goes on with it.\<close>

definition failing :: "bool \<Rightarrow> gateway \<Rightarrow> gateway" where
  "failing b s = (if b then s\<lparr>error := True\<rparr> else s)"

lemma failing_simps [simp]: "files (failing b s) = files s" "rootPath (failing b s) = rootPath s"
  "entry (failing b s) = entry s" "path_in (failing b s) n = path_in s n"
  "transaction_started (failing b s) = transaction_started s"
  "not_in_client_registry (failing b s) = not_in_client_registry s"
  "error (failing b s) \<longleftrightarrow> b \<or> error s" "close_transaction (failing b s) = close_transaction s"
  "sent (failing b s) = sent s" "socket_fd (failing b s) = socket_fd s"
  "pubs.table_file (failing b s) = pubs.table_file s"
  by (simp_all add: failing_def path_in_def close_transaction_def pubs.table_file_def)

lemma pubs_table_failing [simp]: "pubs.with_table ps (failing b s) = failing b (pubs.with_table ps s)"
  by (simp add: pubs.with_table_def pub.put_def set_file_def failing_def path_in_def pubs.table_file_def)

lemma run_remove_by_msg_id:
  assumes "publishes_of s ps" "\<not> no_client s" "length ps \<le> 127"
  obtains ps' where
    "run_state (remove_publish_by_msg_id i) s = ((), failing (i = 0) (pubs.with_table ps' s))"
    "publishes_of (pubs.with_table ps' s) ps'" "map ep_publish_id ps' = map ep_publish_id ps"
proof -
  have ps: "pubs.table s ps" "publishes_ok ps"
    using assms(1) by (simp_all add: publishes_of_def)
  let ?s = "failing (i = 0) s"
  have fs: "pubs.table ?s ps" by (rule pubs.table_members [OF _ _ _ ps(1)]) simp_all
  have err: "run_state (if i = 0 then set_error else ret ()) s = ((), ?s)"
    by (simp add: set_error_def failing_def State_Monad.return_def)
  have c: "content ?s (path_in s (pubs.table_file s)) = pub.file_of ps" "list_all wf_publish ps"
    using ps(1) by (simp_all add: pubs.table_def pub.holds_def content_def)
  show ?thesis
  proof (cases rule: rec_loop_find_cases [of ps "\<lambda>e. ep_msg_id e = i" "\<lambda>e n. n" "0 :: u16" "()"])
    case (found n)
    obtain p qs where p: "ps = p # qs" using found(1) by (cases ps) auto
    have n: "n < 127" "uint (of_nat n :: u16) = int n" using found(1) assms(3) by simp_all
    have "nat (int n * 2 mod 2 ^ 32) = n * 2" using nat_int_mod32 [of "n * 2"] n(1) by simp
    then have "run_state (remove_publish_by_msg_id i) s = ((), pubs.with_table (blot n p # qs) ?s)"
      using found(4) assms(2) n c splice_blot [of p n qs] p err
      by (simp add: remove_publish_by_msg_id_def pubs.table_loop [OF fs, simplified] run_write_at
          sizeof_buffer_size_def pubs.with_table_def pub.put_def State_Monad.return_def numeral_2_eq_2
          del: pubs_table_failing)
    moreover have "publishes_of (pubs.with_table (blot n p # qs) s) (blot n p # qs)"
      unfolding publishes_of_def
    proof
      show "pubs.table (pubs.with_table (blot n p # qs) s) (blot n p # qs)"
        using c(2) p assms(3) n(1) by (intro pubs.table_with) (simp_all add: blot_def wf_publish_def)
      show "publishes_ok (blot n p # qs)"
        using ps(2) p by (auto simp: publishes_ok_def blot_def waiting_def nth_Cons split: nat.splits)
    qed
    ultimately show ?thesis using p by (intro that [of "blot n p # qs"]) (simp_all add: blot_def)
  next
    case none
    then have "run_state (remove_publish_by_msg_id i) s = ((), ?s)"
      using assms(2) err
      by (simp add: remove_publish_by_msg_id_def pubs.table_loop [OF fs, simplified] State_Monad.return_def)
    then show ?thesis using assms(1) pubs.table_same [OF ps(1)] by (intro that [of ps]) simp_all
  qed
qed

definition puback_datagram :: "u16 \<Rightarrow> u16 \<Rightarrow> byte \<Rightarrow> bytes" where
  "puback_datagram i m c = [7, MQTTSN_PUBACK] @ u16_bytes i @ u16_bytes m @ [c]"

lemma receive_puback: "receive_datagram a (puback_datagram i m c) = handle_puback a i m c"
proof -
  define bs where "bs = padz BUFLEN (puback_datagram i m c)"
  have pd: "puback_datagram i m c = [7, MQTTSN_PUBACK] @ u16_bytes i @ (u16_bytes m @ [c])"
      "puback_datagram i m c = ([7, MQTTSN_PUBACK] @ u16_bytes i) @ u16_bytes m @ [c]"
    by (simp_all add: puback_datagram_def)
  have "u16_at 2 bs = i" unfolding bs_def pd(1) by (rule datagram_u16) simp_all
  moreover have "u16_at 4 bs = m" unfolding bs_def pd(2) by (rule datagram_u16) simp_all
  moreover have "byte_at 0 bs = 7" "byte_at (Suc 0) bs = MQTTSN_PUBACK"
    by (simp_all add: bs_def pd(1) byte_at_padz BUFLEN_def)
  moreover have "byte_at 6 bs = c"
    unfolding bs_def byte_at_padz by (simp add: puback_datagram_def BUFLEN_def u16_bytes_def nth_append)
  ultimately show ?thesis
    by (simp add: receive_datagram_def bs_def receiveData_def parse_puback_def enum_defs)
qed

text \<open>
  What a PUBACK does to the session of its sender.  A topic id of 0, which is taken for the message
  id, and a return code that the gateway does not know are failures, and answered with DISCONNECT.
\<close>

definition puback_refused :: "u16 \<Rightarrow> byte \<Rightarrow> bool" where
  "puback_refused i c \<longleftrightarrow> i = 0 \<or>
     c \<notin> {ACCEPTED, REJECTED_CONGESTION, REJECTED_INVALID_TOPIC_ID, REJECTED_NOT_SUPPORTED}"

lemma run_puback:
  fixes s :: gateway
  assumes "reg s rs" "\<not> transaction_started s" "0 \<le> socket_fd s" "session rs a = Some e"
    and "device_publishes s e ps" "length ps \<le> 127"
  obtains ps' where "run_state (receive_datagram a (puback_datagram i m c)) s =
      ((), (close_transaction (pubs.with_table ps' (open_transaction (Some e) s)))\<lparr>sent := sent s @
        (if puback_refused i c then [(a, written [2, MQTTSN_DISCONNECT])] else [])\<rparr>)"
    "publishes_of (pubs.with_table ps' (open_transaction (Some e) s)) ps'"
    "map ep_publish_id ps' = map ep_publish_id ps"
proof -
  let ?o = "open_transaction (Some e) s"
  have o: "publishes_of ?o ps" "\<not> no_client ?o" "pubs.table ?o ps"
    using assms(5) by (simp_all add: device_publishes_def publishes_of_def)
  have same: "u = u\<lparr>sent := sent s\<rparr>" if "sent u = sent s" for u :: gateway using that by (cases u) simp
  note run = notify_puback_arrived_def run_start_address [OF assms(1,2)]
    run_apply result_client_def State_Monad.return_def assms(4)
  show ?thesis
  proof (cases "c \<in> {ACCEPTED, REJECTED_CONGESTION, REJECTED_INVALID_TOPIC_ID, REJECTED_NOT_SUPPORTED}")
    case True
    obtain ps' where ps': "run_state (remove_publish_by_msg_id i) ?o =
        ((), failing (i = 0) (pubs.with_table ps' ?o))"
        "publishes_of (pubs.with_table ps' ?o) ps'" "map ep_publish_id ps' = map ep_publish_id ps"
      using run_remove_by_msg_id [OF o(1,2) assms(6)] by blast
    define v where "v = close_transaction (pubs.with_table ps' ?o)"
    have v: "0 \<le> socket_fd v" "sent v = sent s" using assms(3) by (simp_all add: v_def)
    have "run_state (notify_puback_arrived a i m c) s = (if i = 0 then ZERO else SUCCESS, v)"
      using True ps'(1) by (simp add: run v_def)
    then have "run_state (receive_datagram a (puback_datagram i m c)) s =
        ((), if i = 0 then v\<lparr>sent := sent s @ [(a, written [2, MQTTSN_DISCONNECT])]\<rparr> else v)"
      using v by (simp add: receive_puback handle_puback_def run_send_headers State_Monad.return_def)
    moreover have "puback_refused i c \<longleftrightarrow> i = 0" using True by (simp add: puback_refused_def)
    ultimately show ?thesis
      using ps'(2,3) same [OF v(2)] by (intro that [of ps']) (simp_all add: v_def [symmetric])
  next
    case False
    have "run_state (notify_puback_arrived a i m c) s = (ZERO, close_transaction (pubs.with_table ps ?o))"
      using False pubs.table_same [OF o(3)] by (simp add: run)
    then have "run_state (receive_datagram a (puback_datagram i m c)) s =
        ((), (close_transaction (pubs.with_table ps ?o))\<lparr>sent := sent s @ [(a, written [2, MQTTSN_DISCONNECT])]\<rparr>)"
      using assms(3) by (simp add: receive_puback handle_puback_def run_send_headers State_Monad.return_def)
    moreover have "puback_refused i c" using False by (simp add: puback_refused_def)
    ultimately show ?thesis
      using o(1) pubs.table_same [OF o(3)] by (intro that [of ps]) simp_all
  qed
qed

text \<open>
  C26: A PUBACK of a device with a session takes nothing out of the store.  Whatever topic id,
  message id and return code it carries, the same slots of the device's table stay in use with the
  same publish ids, so every acknowledged publish is still there to be sent again; only two bytes of
  the first stored message can be lost.  There is no answer, except a DISCONNECT if the topic id
  is 0 or the return code none of the four that the gateway knows.  (For tables of up to 127 slots.)
\<close>

theorem puback_removes_nothing:
  fixes s :: gateway and a :: device_address and i m :: u16 and c :: byte
  assumes "reg s rs" "\<not> transaction_started s" "0 \<le> socket_fd s" "session rs a = Some e"
    and "device_publishes s e ps" "length ps \<le> 127"
  defines "t \<equiv> snd (run_state (receive_datagram a (puback_datagram i m c)) s)"
  shows "\<exists>ps'. device_publishes t e ps' \<and> map ep_publish_id ps' = map ep_publish_id ps \<and>
    reg t rs \<and> \<not> transaction_started t \<and>
    sent t = sent s @ (if i = 0 \<or>
        c \<notin> {ACCEPTED, REJECTED_CONGESTION, REJECTED_INVALID_TOPIC_ID, REJECTED_NOT_SUPPORTED}
      then [(a, written [2, MQTTSN_DISCONNECT])] else [])"
proof -
  let ?o = "open_transaction (Some e) s"
  obtain ps' where ps': "run_state (receive_datagram a (puback_datagram i m c)) s =
        ((), (close_transaction (pubs.with_table ps' ?o))\<lparr>sent := sent s @
          (if puback_refused i c then [(a, written [2, MQTTSN_DISCONNECT])] else [])\<rparr>)"
      "publishes_of (pubs.with_table ps' ?o) ps'" "map ep_publish_id ps' = map ep_publish_id ps"
    by (rule run_puback [OF assms(1-6), where i = i and m = m and c = c])
  have "device_publishes t e ps'"
    unfolding device_publishes_def
    by (rule publishes_of_members [OF _ _ _ ps'(2)]) (simp_all add: t_def ps'(1))
  then show ?thesis
    using ps'(3) assms(1) by (intro exI [of _ ps']) (simp add: t_def ps'(1) puback_refused_def)
qed

definition alice_with_publishes :: "entry_publish list \<Rightarrow> gateway" where
  "alice_with_publishes ps = close_transaction (pubs.with_table ps in_alice)"

lemma alice_with_publishes_simps [simp]: "reg (alice_with_publishes ps) [alice]"
  "socket_fd (alice_with_publishes ps) = 3" "\<not> transaction_started (alice_with_publishes ps)"
  "sent (alice_with_publishes ps) = []"
  by (simp_all add: alice_with_publishes_def in_alice_def)

lemma alice_publishes: "list_all wf_publish ps \<Longrightarrow> publishes_ok ps \<Longrightarrow> length ps < 65535 \<Longrightarrow>
    device_publishes (alice_with_publishes ps) alice ps"
  unfolding device_publishes_def
  by (rule publishes_of_members [of _ "pubs.with_table ps in_alice"])
    (simp_all add: alice_with_publishes_def publishes_of_def pubs.table_with)

lemma puback_removes_nothing_witness:
  "\<exists>ps'. device_publishes (snd (run_state (receive_datagram alice_address (puback_datagram 1 7 ACCEPTED))
      (alice_with_publishes [(stored_entry 0 [42] 1 False 1)\<lparr>ep_msg_id := 1\<rparr>]))) alice ps' \<and>
    map ep_publish_id ps' = [slot_id 0]"
proof -
  let ?p = "(stored_entry 0 [42] 1 False 1)\<lparr>ep_msg_id := 1\<rparr>"
  have "device_publishes (alice_with_publishes [?p]) alice [?p]"
    by (rule alice_publishes) (simp_all add: stored_entry_def wf_publish_def publishes_ok_def)
  then show ?thesis
    using puback_removes_nothing [of "alice_with_publishes [?p]" "[alice]" alice_address alice "[?p]" 1 7 ACCEPTED]
    by (auto simp: stored_entry_def)
qed

end
