(* ===== verification/CoreResults.thy ===== *)
theory CoreResults
  imports Samples
begin

text \<open>
  The results that the operations of the core can have.
\<close>

named_theorems returns_intros "rules for the result of a computation"

definition returns :: "('a \<Rightarrow> bool) \<Rightarrow> ('s, 'a) state \<Rightarrow> bool" where
  "returns P m \<longleftrightarrow> (\<forall>s. P (fst (run_state m s)))"

lemma returns_ret [returns_intros]: "P a \<Longrightarrow> returns P (ret a)"
  by (simp add: returns_def State_Monad.return_def)

lemma returns_bind [returns_intros]: "(\<And>a. returns P (f a)) \<Longrightarrow> returns P (State_Monad.bind m f)"
  by (simp add: returns_def split_beta)

lemma returns_if [returns_intros]: "returns P m \<Longrightarrow> returns P n \<Longrightarrow> returns P (if b then m else n)"
  by simp

lemma returns_let [returns_intros]: "returns P (f x) \<Longrightarrow> returns P (let y = x in f y)"
  by simp

lemma returns_option [returns_intros]: "returns P m \<Longrightarrow> (\<And>x. returns P (f x)) \<Longrightarrow>
    returns P (case y of None \<Rightarrow> m | Some x \<Rightarrow> f x)"
  by (cases y) simp_all

text \<open>A byte is never equal to an error code, so what is left is \<open>SUCCESS\<close> or \<open>ZERO\<close>.\<close>

lemma results_nonnegative [simp]: "ZERO \<le> result_full r" "ZERO \<le> result_client r" "ZERO \<le> SUCCESS"
  by (simp_all add: result_full_def result_client_def less_eq_core_result_def)

text \<open>
  C24: The operations of the core on clients, wills, topics and subscriptions never report an
  error code, in no state: what they return is never below \<open>ZERO\<close>.  In particular a full registry
  (\<open>FULL\<close>) and an unknown client (\<open>CLIENTNONEXISTENCE\<close>) are never reported, and the answers the
  message handler has for them (REJECTED_CONGESTION, and DISCONNECT to an unknown subscriber) are
  never given.
\<close>

theorem errors_never_reported:
  fixes s :: gateway
  shows "ZERO \<le> fst (run_state (core_add_client cid d clean a) s) \<and>
    ZERO \<le> fst (run_state (remove_will a) s) \<and>
    ZERO \<le> fst (run_state (add_will_topic a n r q) s) \<and>
    ZERO \<le> fst (run_state (add_will_msg a n l) s) \<and>
    ZERO \<le> fst (run_state (await_message a ty) s) \<and>
    ZERO \<le> fst (fst (run_state (register_topic a n i) s)) \<and>
    ZERO \<le> fst (fst (run_state (core_add_subscription a i m short q dup j g) s)) \<and>
    ZERO \<le> fst (run_state (core_delete_subscription_id a i m short dup) s) \<and>
    ZERO \<le> fst (run_state (core_delete_subscription_name a n m dup) s) \<and>
    ZERO \<le> fst (run_state (set_disconnected a) s) \<and>
    ZERO \<le> fst (run_state (set_asleep_duration a d) s) \<and>
    ZERO \<le> fst (run_state (set_awake a) s) \<and>
    ZERO \<le> fst (run_state (notify_puback_arrived a m i rc) s)"
proof -
  have r: "returns (\<lambda>x. ZERO \<le> x) m \<Longrightarrow> ZERO \<le> fst (run_state m s)" for m :: "(gateway, core_result) state"
    by (simp add: returns_def)
  have p: "returns (\<lambda>x. ZERO \<le> fst x) m \<Longrightarrow> ZERO \<le> fst (fst (run_state m s))"
    for m :: "(gateway, core_result \<times> 'x) state"
    by (simp add: returns_def)
  note defs = core_add_client_def remove_will_def add_will_topic_def add_will_msg_def await_message_def
    core_delete_subscription_id_def core_delete_subscription_name_def finish_delete_subscription_def
    set_disconnected_def set_asleep_duration_def set_awake_def notify_puback_arrived_def
  show ?thesis
    unfolding defs register_topic_def core_add_subscription_def
    by (simp only: eq_result_neg if_False) (intro conjI r p returns_intros; simp)
qed

end
