(* ===== verification/Refusals.thy ===== *)
theory Refusals
  imports PublishMessages Acknowledging ConnectClaims
begin

text \<open>
  Messages that the gateway refuses or ignores, and what that leads to.
\<close>

section \<open>No connection to the broker\<close>

text \<open>
  While the gateway has no connection to the broker it changes nothing for a device and says
  so: CONNECT, REGISTER, SUBSCRIBE by name and PUBLISH with QoS 1 are each answered with one
  acknowledgement with the code NOT_SUPPORTED, and QoS 0 with a DISCONNECT.
\<close>

theorem offline_refuses:
  fixes s :: gateway and a :: device_address and cid n data :: bytes and d m i :: u16
    and will clean short r dup :: bool and q :: byte
  assumes "\<not> mqtt_online s" "0 \<le> socket_fd s"
  defines "answered \<equiv> \<lambda>t img. t = s\<lparr>sent := sent s @ [(a, img)]\<rparr>"
  shows "answered (snd (run_state (handle_connect a cid d will clean) s))
      (written [3, MQTTSN_CONNACK, REJECTED_NOT_SUPPORTED]) \<and>
    answered (snd (run_state (handle_register a m n) s))
      (written ([7, MQTTSN_REGACK] @ u16_bytes 0 @ u16_bytes m @ [REJECTED_NOT_SUPPORTED])) \<and>
    answered (snd (run_state (handle_subscribe_name a n m q dup) s))
      (msg_suback q 0 m REJECTED_NOT_SUPPORTED) \<and>
    answered (snd (run_state (handle_publish a data m i short r 1 dup) s))
      (written ([7, MQTTSN_PUBACK] @ u16_bytes i @ u16_bytes m @ [REJECTED_NOT_SUPPORTED]) @ unwritten 1) \<and>
    answered (snd (run_state (handle_publish a data m i short r 0 dup) s)) (written [2, MQTTSN_DISCONNECT])"
proof (intro conjI)
  show "answered (snd (run_state (handle_connect a cid d will clean) s))
      (written [3, MQTTSN_CONNACK, REJECTED_NOT_SUPPORTED])"
    using assms(1,2) by (simp add: answered_def handle_connect_def core_add_client_def is_mqtt_online_def
        run_send_connect State_Monad.return_def)
  show "answered (snd (run_state (handle_register a m n) s))
      (written ([7, MQTTSN_REGACK] @ u16_bytes 0 @ u16_bytes m @ [REJECTED_NOT_SUPPORTED]))"
    using assms(1,2) by (simp add: answered_def handle_register_def register_topic_def is_mqtt_online_def
        run_send_regack State_Monad.return_def)
  show "answered (snd (run_state (handle_subscribe_name a n m q dup) s))
      (msg_suback q 0 m REJECTED_NOT_SUPPORTED)"
    using assms(1,2) by (simp add: answered_def handle_subscribe_name_def register_topic_def is_mqtt_online_def
        send_suback_def run_send_or_notify msg_suback_def State_Monad.return_def)
  show "answered (snd (run_state (handle_publish a data m i short r 1 dup) s))
      (written ([7, MQTTSN_PUBACK] @ u16_bytes i @ u16_bytes m @ [REJECTED_NOT_SUPPORTED]) @ unwritten 1)"
    using assms(1,2) by (simp add: answered_def handle_publish_def core_publish_client_def is_mqtt_online_def
        run_send_puback State_Monad.return_def)
  show "answered (snd (run_state (handle_publish a data m i short r 0 dup) s)) (written [2, MQTTSN_DISCONNECT])"
    using assms(1,2) by (simp add: answered_def handle_publish_def core_publish_client_def is_mqtt_online_def
        run_send_headers State_Monad.return_def)
qed

lemma offline_refuses_witness:
  "sent (snd (run_state (handle_register alice_address 7 [116]) (online\<lparr>mqtt_online := False\<rparr>))) =
    [(alice_address, written ([7, MQTTSN_REGACK] @ u16_bytes 0 @ u16_bytes 7 @ [REJECTED_NOT_SUPPORTED]))]"
  using offline_refuses [of "online\<lparr>mqtt_online := False\<rparr>" alice_address] by simp

section \<open>Gateway discovery\<close>

text \<open>
  A SEARCHGW is never answered, since \<open>get_gateway_id\<close> reports success without giving an id;
  it changes nothing.
\<close>

theorem searchgw_unanswered:
  fixes s :: gateway
  shows "run_state (receive_datagram a [3, MQTTSN_SEARCHGW, radius]) s = ((), s)"
  by (simp add: receive_datagram_def receiveData_def parse_searchgw_def handle_searchgw_def
      core_get_gateway_id_def get_gateway_id_def byte_at_padz BUFLEN_def enum_defs
      State_Monad.return_def)

section \<open>Publishes with QoS 2\<close>

lemma run_send_pubrec: "0 \<le> socket_fd s \<Longrightarrow> run_state (send_pubrec a m) s =
    (True, s\<lparr>sent := sent s @ [(a, written ([4, MQTTSN_PUBREC] @ u16_bytes m))]\<rparr>)"
  by (simp add: send_pubrec_def run_send_or_notify msg_pubrec_def)

end
