(* ===== verification/Wills.thy ===== *)
theory Wills
  imports ConnectClaims TopicMessages SessionTables Evolution
begin

text \<open>
  The will of a device: the messages WILLTOPIC and WILLMSG, the file they fill, and its publication
  when the device is lost.
\<close>

section \<open>The will file\<close>

text \<open>The file is empty or holds one will.\<close>

definition will_of :: "'z persistent_scheme \<Rightarrow> entry_client \<Rightarrow> entry_will option \<Rightarrow> bool" where
  "will_of s e w \<longleftrightarrow> will.holds s (client_file e WILL_FILE_ENDING) (case w of None \<Rightarrow> [] | Some x \<Rightarrow> [x])"

definition no_will :: entry_will where
  "no_will = dec_will (replicate sizeof_entry_will 0)"

lemma wf_no_will [simp]: "wf_will no_will"
  by (simp add: no_will_def wf_will_def dec_will_def sizeof_entry_will_def)

definition with_will :: "entry_will \<Rightarrow> 'z persistent_scheme \<Rightarrow> 'z persistent_scheme" where
  "with_will w s = will.put (will_file s) [w] s"

lemma with_will_simps [simp]: "transaction_started (with_will w s) = transaction_started s"
  "error (with_will w s) = error s" "not_in_client_registry (with_will w s) = not_in_client_registry s"
  "entry (with_will w s) = entry s" "rootPath (with_will w s) = rootPath s"
  "path_in (with_will w s) n = path_in s n" "no_client (with_will w s) = no_client s"
  by (simp_all add: with_will_def will.put_def set_file_def path_in_def no_client_def no_transaction_def)

lemma with_will_outside [simp]: "sent (with_will w s) = sent s" "socket_fd (with_will w s) = socket_fd s"
  "mqtt_online (with_will w s) = mqtt_online s" "broker_calls (with_will w s) = broker_calls s"
  by (simp_all add: with_will_def will.put_def)

lemma run_read_will:
  assumes "will_of s e w" "entry s = e"
  shows "run_state read_will s = ((case w of None \<Rightarrow> [] | Some x \<Rightarrow> enc_will x), s)"
proof -
  have h: "will.holds s (will_file s) (case w of None \<Rightarrow> [] | Some x \<Rightarrow> [x])"
    using assms by (simp add: will_of_def will_file_def)
  let ?h = "\<lparr>full_path = path_in s (will_file s), read_mode = FILE_READ, position = 0, closed = False\<rparr>"
  have "fst (file_read s ?h sizeof_entry_will) = (case w of None \<Rightarrow> [] | Some x \<Rightarrow> enc_will x)"
    using will.holds_read [OF h, of ?h 0] by (simp add: FILE_READ_def split: option.split)
  then show ?thesis using will.holds_open [OF h, of FILE_READ] by (simp add: read_will_def)
qed

lemma length_enc_will: "will_of s e (Some w) \<Longrightarrow> length (enc_will w) = sizeof_entry_will \<and> wf_will w"
  using will.length_enc by (simp add: will_of_def will.holds_def)

lemma run_update_will:
  assumes "will_of s e w" "entry s = e" "wf_will (f (case w of None \<Rightarrow> no_will | Some x \<Rightarrow> x))"
  shows "run_state (update_will f) s = ((), with_will (f (case w of None \<Rightarrow> no_will | Some x \<Rightarrow> x)) s)"
proof -
  let ?ws = "case w of None \<Rightarrow> [] | Some x \<Rightarrow> [x]" and ?w = "case w of None \<Rightarrow> no_will | Some x \<Rightarrow> x"
  have h: "will.holds s (will_file s) ?ws" using assms by (simp add: will_of_def will_file_def)
  have "dec_will (padz sizeof_entry_will (case w of None \<Rightarrow> [] | Some x \<Rightarrow> enc_will x)) = ?w"
    using assms(1) by (auto simp: no_will_def length_enc_will will.dec_enc split: option.split)
  moreover have "run_state (write_at (will_file s) 0 (enc_will (f ?w))) s = ((), with_will (f ?w) s)"
    using will.run_write_slot [OF h assms(3), of 0] by (simp add: with_will_def split: option.splits)
  ultimately show ?thesis using run_read_will [OF assms(1,2)] by (simp add: update_will_def)
qed

lemma will_of_put: "wf_will w \<Longrightarrow> client_file e WILL_FILE_ENDING = will_file s \<Longrightarrow> will_of (with_will w s) e (Some w)"
  by (simp add: will_of_def with_will_def will.holds_put)

lemma will_of_members: "files t (path_in s (client_file e WILL_FILE_ENDING)) =
    files s (path_in s (client_file e WILL_FILE_ENDING)) \<Longrightarrow> rootPath t = rootPath s \<Longrightarrow>
    will_of s e w \<Longrightarrow> will_of t e w"
  by (simp add: will_of_def will.holds_def path_in_def)

lemma reg_with_will [simp]: "reg (with_will w s) rs \<longleftrightarrow> reg s rs"
  by (simp add: reg_def client.holds_def with_will_def will.put_def
      names_not_registry(3) [symmetric])

lemma will_of_outside [simp]: "will_of (s\<lparr>sent := x\<rparr>) e w \<longleftrightarrow> will_of s e w"
  "will_of (open_transaction e' s) e w \<longleftrightarrow> will_of s e w"
  "will_of (close_transaction s) e w \<longleftrightarrow> will_of s e w"
  by (auto elim!: will_of_members [rotated 2])

lemma will_of_keeps_key: "ec_file_number e' = ec_file_number e \<Longrightarrow> will_of s e' w \<longleftrightarrow> will_of s e w"
  by (simp add: will_of_def client_file_def)

section \<open>WILLTOPIC and WILLMSG\<close>

definition willtopic_datagram :: "byte \<Rightarrow> bytes \<Rightarrow> bytes" where
  "willtopic_datagram flags n = [of_nat (4 + length n), MQTTSN_WILLTOPIC, flags] @ n"

definition willmsg_datagram :: "bytes \<Rightarrow> bytes" where
  "willmsg_datagram msg = [of_nat (2 + length msg), MQTTSN_WILLMSG] @ msg"

lemma receive_willtopic:
  assumes "no_nul n" "length n < 252"
  shows "receive_datagram a (willtopic_datagram flags n) =
    handle_willtopic a n (flags AND FLAG_WILL \<noteq> 0) (parse_qos flags)"
proof -
  define bs where "bs = padz BUFLEN (willtopic_datagram flags n)"
  have "cstr (drop 3 bs) = n"
    unfolding bs_def willtopic_datagram_def by (rule datagram_name) (use assms in simp_all)
  moreover have b: "byte_at 0 bs = of_nat (4 + length n)" "byte_at 1 bs = MQTTSN_WILLTOPIC"
      "byte_at 2 bs = flags"
    by (simp_all add: bs_def willtopic_datagram_def byte_at_padz BUFLEN_def)
  moreover have l: "unat (byte_at 0 bs) = 4 + length n"
    unfolding b(1) by (rule unat_length_byte) (use assms(2) in simp)
  moreover have "byte_at 0 bs > 3" "\<not> byte_at 0 bs < 2"
    using l by (simp_all add: word_less_nat_alt)
  ultimately have "receiveData a bs = handle_willtopic a n (flags AND FLAG_WILL \<noteq> 0) (parse_qos flags)"
    by (simp add: receiveData_def parse_willtopic_def has_flag_def enum_defs)
  then show ?thesis by (simp add: receive_datagram_def bs_def)
qed

lemma receive_willmsg:
  assumes "msg \<noteq> []" "length msg < 254"
  shows "\<exists>rest. receive_datagram a (willmsg_datagram msg) =
    handle_willmsg a (msg @ rest) (of_nat (length msg))"
proof -
  define bs where "bs = padz BUFLEN (willmsg_datagram msg)"
  have "drop 2 bs = padz 253 msg"
    unfolding bs_def willmsg_datagram_def BUFLEN_def by (subst datagram_rest) simp_all
  then have d: "drop 2 bs = msg @ replicate (253 - length msg) 0" using assms(2) by (simp add: padz_eq)
  have b: "byte_at 0 bs = of_nat (2 + length msg)" "byte_at 1 bs = MQTTSN_WILLMSG"
    by (simp_all add: bs_def willmsg_datagram_def byte_at_padz BUFLEN_def)
  have l: "unat (byte_at 0 bs) = 2 + length msg"
    unfolding b(1) by (rule unat_length_byte) (use assms(2) in simp)
  have "byte_at 0 bs > 2" "\<not> byte_at 0 bs < 2" "byte_at 0 bs - 2 = of_nat (length msg)"
    using l b(1) assms(1) by (simp_all add: word_less_nat_alt)
  then have "receiveData a bs = handle_willmsg a (msg @ replicate (253 - length msg) 0) (of_nat (length msg))"
    using b(2) d by (simp add: receiveData_def parse_willmsg_def enum_defs)
  then show ?thesis by (auto simp: receive_datagram_def bs_def)
qed

lemma run_send_willmsgreq: "0 \<le> socket_fd s \<Longrightarrow> run_state (send_willmsgreq a) s =
    (True, s\<lparr>sent := sent s @ [(a, written [2, MQTTSN_WILLMSGREQ])]\<rparr>)"
  by (simp add: send_willmsgreq_def run_send_or_notify header_msg_def written_def)

text \<open>What the two messages make of the will that was there.\<close>

definition set_topic :: "bytes \<Rightarrow> byte \<Rightarrow> bool \<Rightarrow> entry_will \<Rightarrow> entry_will" where
  "set_topic n q r w = w\<lparr>ew_willtopic := padz 255 n, ew_qos := q, ew_retain := r\<rparr>"

definition set_message :: "bytes \<Rightarrow> entry_will \<Rightarrow> entry_will" where
  "set_message m w = w\<lparr>ew_willmsg := padz 255 m, ew_willmsg_length := of_nat (length m)\<rparr>"

lemma wf_set_will [simp]: "wf_will w \<Longrightarrow> wf_will (set_topic n q r w)" "wf_will w \<Longrightarrow> wf_will (set_message m w)"
  by (simp_all add: wf_will_def set_topic_def set_message_def)

definition will_or_none :: "entry_will option \<Rightarrow> entry_will" where
  "will_or_none w = (case w of None \<Rightarrow> no_will | Some x \<Rightarrow> x)"

lemma wf_will_or_none [simp]: "will_of s e w \<Longrightarrow> wf_will (will_or_none w)"
  by (auto simp: will_or_none_def length_enc_will split: option.split)

lemma run_add_will_topic:
  fixes s :: gateway
  assumes "reg s rs" "\<not> transaction_started s" "mqtt_online s" "session rs a = Some e"
    and "ec_await_message e = MQTTSN_WILLTOPIC" "will_of s e w" "no_nul n" "length n < 255"
  shows "run_state (add_will_topic a n r q) s = (SUCCESS,
    close_transaction (with_will (set_topic n q r (will_or_none w)) (open_transaction (Some e) s)))"
proof -
  let ?o = "open_transaction (Some e) s"
  have "run_state (update_will (set_topic n q r)) ?o =
      ((), with_will (set_topic n q r (will_or_none w)) ?o)"
    unfolding will_or_none_def
    by (rule run_update_will [of _ e]) (use assms(6) in \<open>simp_all flip: will_or_none_def\<close>)
  then have "run_state (set_client_willtopic n q r) ?o = ((), with_will (set_topic n q r (will_or_none w)) ?o)"
    using assms(7,8)
    by (simp add: set_client_willtopic_def set_topic_def [abs_def] MAXIMUM_TOPIC_NAME_LENGTH_def)
  then show ?thesis
    using assms(3,5)
    by (simp add: add_will_topic_def is_mqtt_online_def run_start_address [OF assms(1,2)] assms(4)
        get_client_await_message_type_def run_apply result_full_def enum_defs State_Monad.return_def)
qed

lemma run_add_will_msg:
  fixes s :: gateway
  assumes "reg s rs" "\<not> transaction_started s" "mqtt_online s" "session rs a = Some e"
    and "ec_await_message e = MQTTSN_WILLMSG" "will_of s e w" "length m < 254"
  shows "run_state (add_will_msg a (m @ rest) (of_nat (length m))) s = (SUCCESS,
    close_transaction (with_will (set_message m (will_or_none w)) (open_transaction (Some e) s)))"
proof -
  let ?o = "open_transaction (Some e) s"
  have l: "unat (of_nat (length m) :: byte) = length m" using assms(7) by (simp add: unat_of_nat)
  have "run_state (update_will (set_message m)) ?o = ((), with_will (set_message m (will_or_none w)) ?o)"
    unfolding will_or_none_def
    by (rule run_update_will [of _ e]) (use assms(6) in \<open>simp_all flip: will_or_none_def\<close>)
  then have "run_state (set_client_willmessage (m @ rest) (of_nat (length m))) ?o =
      ((), with_will (set_message m (will_or_none w)) ?o)"
    by (simp add: set_client_willmessage_def set_message_def [abs_def] l)
  then show ?thesis
    using assms(3,5)
    by (simp add: add_will_msg_def is_mqtt_online_def run_start_address [OF assms(1,2)] assms(4)
        get_client_await_message_type_def run_apply result_full_def enum_defs State_Monad.return_def)
qed

text \<open>
  C17: A device that awaits WILLTOPIC after its CONNECT and sends WILLTOPIC and WILLMSG gets a
  WILLMSGREQ and a CONNACK, and its will file then holds the topic name, the message, its length
  and the quality of service of the two messages, whatever it held before.  The retain flag is
  taken from the WILL bit of the flags.  The entry of the device goes on awaiting WILLMSG.
\<close>

theorem will_kept:
  fixes s :: gateway and a :: device_address and n m :: bytes and flags :: byte
  assumes "reg s rs" "\<not> transaction_started s" "mqtt_online s" "0 \<le> socket_fd s"
    and "a \<noteq> empty_address" "session rs a = Some e" "ec_await_message e = MQTTSN_WILLTOPIC" "will_of s e w"
    and "no_nul n" "n \<noteq> []" "length n < 252" "m \<noteq> []" "length m < 254"
  defines "t \<equiv> snd (run_state (do { receive_datagram a (willtopic_datagram flags n);
      receive_datagram a (willmsg_datagram m) }) s)"
  shows "will_of t e (Some \<lparr>ew_willtopic = padz 255 n, ew_willmsg = padz 255 m,
      ew_willmsg_length = of_nat (length m), ew_qos = parse_qos flags,
      ew_retain = (flags AND FLAG_WILL \<noteq> 0)\<rparr>) \<and>
    sent t = sent s @ [(a, written [2, MQTTSN_WILLMSGREQ]), (a, written [3, MQTTSN_CONNACK, ACCEPTED])] \<and>
    reg t (update_first (at_address a) (\<lambda>e. e\<lparr>ec_await_message := MQTTSN_WILLMSG\<rparr>) rs) \<and>
    \<not> transaction_started t"
proof -
  let ?f = "\<lambda>e. e\<lparr>ec_await_message := MQTTSN_WILLMSG\<rparr>" and ?r = "flags AND FLAG_WILL \<noteq> 0"
  define qs where "qs = update_first (at_address a) ?f rs"
  define w1 where "w1 = set_topic n (parse_qos flags) ?r (will_or_none w)"
  define u where "u = close_transaction (with_will w1 (open_transaction (Some e) s))"
  have u: "run_state (add_will_topic a n ?r (parse_qos flags)) s = (SUCCESS, u)"
    using run_add_will_topic [OF assms(1-3,6-9), of ?r "parse_qos flags"] assms(11) by (simp add: u_def w1_def)
  have wu: "will_of u e (Some w1)"
    using assms(8) by (simp add: u_def w1_def will_of_put will_file_def)
  obtain r v where v: "run_state (await_message a MQTTSN_WILLMSG) u = (r, v)" by fastforce
  have ru: "reg u rs" "\<not> transaction_started u" using assms(1) by (simp_all add: u_def)
  note st = set_state_refines(5,6) [OF ru assms(5), of MQTTSN_WILLMSG, unfolded v fst_conv snd_conv]
  define t1 where "t1 = v\<lparr>sent := sent s @ [(a, written [2, MQTTSN_WILLMSGREQ])]\<rparr>"
  have members: "sent v = sent s" "mqtt_online v" "0 \<le> socket_fd v" "rootPath v = rootPath u"
      "\<And>p. p \<noteq> path_in u client_registry \<Longrightarrow> files v p = files u p" "reg v qs" "\<not> transaction_started v"
    using st(2) assms(3,4) by (simp_all add: updates_session_def qs_def u_def)
  have t1: "run_state (receive_datagram a (willtopic_datagram flags n)) s = ((), t1)"
    using u v st(1) members assms(6,9-11)
    by (simp add: receive_willtopic handle_willtopic_def session_result_def run_send_willmsgreq t1_def
        State_Monad.return_def)
  have w1: "will_of t1 (?f e) (Some w1)"
    using members(4,5) by (simp add: t1_def will_of_keeps_key [of "?f e" e] will_of_members [OF _ _ wu])
  have s1: "session qs a = Some (?f e)" using assms(6) by (simp add: qs_def session_update_first)
  have r1: "reg t1 qs" "\<not> transaction_started t1" "mqtt_online t1" "0 \<le> socket_fd t1"
    using members by (simp_all add: t1_def)
  obtain rest where rest: "receive_datagram a (willmsg_datagram m) = handle_willmsg a (m @ rest) (of_nat (length m))"
    using receive_willmsg [OF assms(12,13)] by blast
  let ?v = "close_transaction (with_will (set_message m w1) (open_transaction (Some (?f e)) t1))"
  have t: "t = ?v\<lparr>sent := sent t1 @ [(a, written [3, MQTTSN_CONNACK, ACCEPTED])]\<rparr>"
    using run_add_will_msg [OF r1(1-3) s1 _ w1 assms(13), of rest] r1(4)
    by (simp add: t_def t1 rest handle_willmsg_def will_or_none_def run_send_connect State_Monad.return_def)
  have "will_of t e (Some (set_message m w1))"
    using length_enc_will [OF w1] by (simp add: t will_of_put will_file_def client_file_def)
  moreover have "set_message m w1 = \<lparr>ew_willtopic = padz 255 n, ew_willmsg = padz 255 m,
      ew_willmsg_length = of_nat (length m), ew_qos = parse_qos flags, ew_retain = ?r\<rparr>"
    by (cases "will_or_none w") (simp add: set_message_def w1_def set_topic_def)
  ultimately show ?thesis using r1 by (simp add: t t1_def qs_def)
qed

text \<open>\<open>A\<close> with an empty will file, after a CONNECT with the will flag.\<close>

definition awaiting :: entry_client where
  "awaiting = alice\<lparr>ec_await_message := MQTTSN_WILLTOPIC\<rparr>"

definition alice_awaiting :: gateway where
  "alice_awaiting = will.put (client_file alice WILL_FILE_ENDING) [] (with_registry [awaiting] online)"

lemma alice_awaiting_simps [simp]: "reg alice_awaiting [awaiting]" "\<not> transaction_started alice_awaiting"
  "mqtt_online alice_awaiting" "socket_fd alice_awaiting = 3" "sent alice_awaiting = []"
  "session [awaiting] alice_address = Some awaiting"
  "will_of alice_awaiting awaiting None"
proof -
  have "keeps_key (\<lambda>e. e\<lparr>ec_await_message := MQTTSN_WILLTOPIC\<rparr>)" by simp
  then have "registry_ok [awaiting]"
    using registry_ok_update [OF registry_alice, of _ 0] by (simp add: awaiting_def)
  then have "reg (with_registry [awaiting] online) [awaiting]" by (rule reg_with_registry)
  then show "reg alice_awaiting [awaiting]"
    using client_file_not_registry(3) [of alice, symmetric]
    by (simp add: alice_awaiting_def reg_def client.holds_def will.put_def)
  have f: "client_file awaiting WILL_FILE_ENDING = client_file alice WILL_FILE_ENDING"
    by (simp add: awaiting_def client_file_def)
  show "will_of alice_awaiting awaiting None"
    unfolding will_of_def alice_awaiting_def f by (simp add: will.holds_put)
  show "\<not> transaction_started alice_awaiting" "mqtt_online alice_awaiting"
    "socket_fd alice_awaiting = 3" "sent alice_awaiting = []"
    "session [awaiting] alice_address = Some awaiting"
    by (simp_all add: alice_awaiting_def will.put_def set_file_def session_def awaiting_def)
qed

lemma will_kept_witness:
  "sent (snd (run_state (do { receive_datagram alice_address (willtopic_datagram FLAG_QOS_1 [116]);
      receive_datagram alice_address (willmsg_datagram [1, 2]) }) alice_awaiting)) =
    [(alice_address, written [2, MQTTSN_WILLMSGREQ]), (alice_address, written [3, MQTTSN_CONNACK, ACCEPTED])]"
proof -
  have "ec_await_message awaiting = MQTTSN_WILLTOPIC" by (simp add: awaiting_def)
  then show ?thesis
    using will_kept [of alice_awaiting "[awaiting]" alice_address awaiting None "[116]" "[1, 2]" FLAG_QOS_1]
    by simp
qed

section \<open>Publication\<close>

definition publication :: "entry_will \<Rightarrow> broker_call" where
  "publication w = CallPublish (cstr (ew_willtopic w)) (take (unat (ew_willmsg_length w)) (ew_willmsg w))
     (ew_qos w) (ew_retain w)"

text \<open>
  C18: A device that has not been heard of for longer than the tolerance of its duration and that
  has a will is lost: the next call of the MQTT client library publishes the topic and message
  of the will, with its quality of service and retain flag.
\<close>

theorem will_published:
  fixes s :: gateway and a :: device_address and elapsed timeout duration :: u32
  assumes "reg s rs" "\<not> transaction_started s" "a \<noteq> empty_address" "session rs a = Some e"
    and "will_of s e (Some w)" "ew_qos w = 0 \<or> ew_qos w = 1 \<or> ew_qos w = 2"
    and "st = ACTIVE \<or> st = ASLEEP \<or> st = AWAKE"
    and "tolerance_timeout duration < unat (timeout + elapsed)"
  shows "prefix (broker_calls s @ [publication w])
    (broker_calls (snd (run_state (handle_timeout st duration elapsed cid a timeout) s)))"
proof -
  let ?t = "\<lambda>e. e\<lparr>ec_timeout := timeout + elapsed\<rparr>" and ?l = "\<lambda>e. e\<lparr>ec_client_status := LOST\<rparr>"
  let ?o = "open_transaction (Some e) s"
  note u1 = run_update_open [OF assms(1,4,3), of ?t, folded set_timeout_def, simplified]
  note u2 = run_update_open [OF u1(2,3) assms(3), of ?l, folded set_client_state_def, simplified]
  define e2 where "e2 = e\<lparr>ec_timeout := timeout + elapsed, ec_client_status := LOST\<rparr>"
  define qs where "qs = update_first (at_address a) ?l (update_first (at_address a) ?t rs)"
  let ?u = "open_transaction (Some e2) (with_registry qs s)"
  have run: "run_state (set_timeout (timeout + elapsed)) ?o = ((), open_transaction (Some (?t e))
        (with_registry (update_first (at_address a) ?t rs) s))"
      "run_state (set_client_state LOST) (open_transaction (Some (?t e))
        (with_registry (update_first (at_address a) ?t rs) s)) = ((), ?u)"
    using u1(1) u2(1) by (simp_all add: e2_def qs_def)
  have number: "ec_file_number e2 = ec_file_number e" by (simp add: e2_def)
  have "will_of (with_registry qs s) e (Some w)"
    by (rule will_of_members [OF _ _ assms(5)]) simp_all
  then have w: "will_of ?u (entry ?u) (Some w)" by (simp add: will_of_keeps_key [OF number])
  have len: "length (enc_will w) = sizeof_entry_will" "dec_will (enc_will w) = w"
    using length_enc_will [OF assms(5)] will.dec_enc by simp_all
  have has: "run_state has_client_will ?u = (True, ?u)" "run_state get_client_will ?u = (Some w, ?u)"
    using run_read_will [OF w refl] len
    by (simp_all add: has_client_will_def get_client_will_def State_Monad.return_def)
  define u3 where "u3 = ?u\<lparr>broker_calls := broker_calls s @ [publication w]\<rparr>"
  let ?rest = "do { remove_client_subscriptions cid; delete_client cid; _ \<leftarrow> apply_transaction; ret () }"
  have "history.evolves ?rest" by (intro evolves_intros)
  have "run_state (handle_timeout st duration elapsed cid a timeout) s = run_state ?rest u3"
    using assms(6,7,8) run has
    by (auto simp: handle_timeout_def run_start_address [OF assms(1,2)] assms(4) Let_def
        mqtt_publish_def call_broker_def u3_def publication_def State_Monad.return_def split_beta)
  moreover have "extends_history u3 (snd (run_state ?rest u3))"
    by (rule history.evolvesD) fact
  ultimately show ?thesis by (simp add: extends_history_def u3_def)
qed

definition sample_will :: entry_will where
  "sample_will = no_will\<lparr>ew_willtopic := padz 255 [116], ew_qos := 1\<rparr>"

definition alice_with_will :: "entry_will \<Rightarrow> gateway" where
  "alice_with_will w = will.put (client_file alice WILL_FILE_ENDING) [w] with_alice"

lemma alice_with_will_simps [simp]: "reg (alice_with_will w) [alice]"
  "\<not> transaction_started (alice_with_will w)" "broker_calls (alice_with_will w) = []"
proof -
  show "reg (alice_with_will w) [alice]"
    using client_file_not_registry(3) [of alice, symmetric] reg_with_alice
    by (simp add: alice_with_will_def reg_def client.holds_def will.put_def)
  show "\<not> transaction_started (alice_with_will w)" "broker_calls (alice_with_will w) = []"
    by (simp_all add: alice_with_will_def will.put_def set_file_def del: set_file_simps)
qed

lemma will_published_witness:
  "prefix [publication sample_will] (broker_calls (snd (run_state
    (handle_timeout ACTIVE 60000 0 (str ''A'') alice_address 90001) (alice_with_will sample_will))))"
proof -
  have "wf_will sample_will"
    by (simp add: sample_will_def wf_will_def) (simp add: no_will_def dec_will_def sizeof_entry_will_def)
  then have "will_of (alice_with_will sample_will) alice (Some sample_will)"
    by (simp add: will_of_def alice_with_will_def will.holds_put)
  moreover have "ew_qos sample_will = 1" by (simp add: sample_will_def)
  ultimately show ?thesis
    using will_published [of "alice_with_will sample_will" "[alice]" alice_address alice sample_will
        ACTIVE 60000 90001 0]
    by (simp add: tolerance_timeout_def)
qed

end
