(* ===== verification/Delivery.thy ===== *)
theory Delivery
  imports Acknowledging PublishMessages SessionTables Refusals
begin

text \<open>
  Delivering stored publishes: the round of \<open>handle_client_publishes\<close> for one device, and when a
  device no longer gets any.
\<close>

section \<open>What is sent\<close>

text \<open>
  The length of the message is 7 plus the data, but the struct has its data behind eight bytes:
  the last byte of the data is not sent.
\<close>

definition publish_image :: "byte \<Rightarrow> bool \<Rightarrow> u16 \<Rightarrow> u16 \<Rightarrow> bytes \<Rightarrow> byte option list" where
  "publish_image q r i m data = written ([of_nat (7 + length data), MQTTSN_PUBLISH,
     msg_publish_flags False q r True, 0] @ u16_bytes i @ u16_bytes m @ butlast data)"

lemma run_send_publish:
  assumes "0 \<le> socket_fd s" "data \<noteq> []" "length data < 249"
  shows "run_state (send_publish a data m i True r q False) s =
    (True, s\<lparr>sent := sent s @ [(a, publish_image q r i m data)]\<rparr>)"
proof -
  have l: "unat (7 + of_nat (length data) :: byte) = 7 + length data"
    using unat_length_byte [of 7 "length data"] assms(3) by simp
  have b: "take (length data - Suc 0) data = butlast data" "Suc 0 \<le> length data"
    using assms(2) by (simp_all add: butlast_conv_take Suc_leI)
  have "take (7 + length data) (msg_publish False q r True i m data @ unwritten (7 + length data)) =
      publish_image q r i m data"
    using assms(2) b by (simp add: msg_publish_def publish_image_def Let_def written_def take_map take_Cons'
        numeral_eq_Suc flip: map_append)
  then show ?thesis using assms(1) by (simp add: send_publish_def run_send_or_notify l)
qed

section \<open>Known topics\<close>

lemma run_is_topic_known:
  assumes "topics_of s ns" "\<not> no_client s" "name_of_id i ns \<noteq> None"
  shows "run_state (is_topic_known i) s = (True, s)"
proof -
  note ns = topics_ofD [OF assms(1)]
  have i: "i \<noteq> 0" "0 < unat i" "unat i \<le> length ns"
    using assms(3) by (auto simp: name_of_id_def split: if_splits)
  have short: "length (cstr (er_topic_name (topic_entries ns ! j))) < MAXIMUM_TOPIC_NAME_LENGTH"
    if "j < length ns" for j using that ns(4) [OF that] topic_name_okD by simp
  have "rec_loop (\<lambda>e n a. if er_topic_id e = 0 \<and> cstr (er_topic_name e) = [] then Inr a
      else if er_topic_id e = i \<and> length (cstr (er_topic_name e)) < MAXIMUM_TOPIC_NAME_LENGTH
      then Inl (er_known e) else Inr a) (topic_entries ns) (0 :: u16) () = Returned True"
  proof (rule rec_loop_return [of "unat i - 1" _ _ _ "\<lambda>_. ()"])
    show "unat i - 1 < length (topic_entries ns)" using i by simp
  qed (use i ns(3) short in \<open>auto simp: slot_id_eq\<close>)
  then show ?thesis
    using assms(2) i(1)
    by (simp add: is_topic_known_def no_client_split topics.table_loop [OF ns(1)] State_Monad.return_def)
qed

lemma find_rev: "k < length xs \<Longrightarrow> P (xs ! k) \<Longrightarrow> (\<And>j. k < j \<Longrightarrow> j < length xs \<Longrightarrow> \<not> P (xs ! j)) \<Longrightarrow>
    List.find P (rev xs) = Some (xs ! k)"
proof (induction xs rule: rev_induct)
  case (snoc x xs)
  then show ?case
  proof (cases "k = length xs")
    case False
    then have "\<not> P x" "k < length xs" using snoc.prems(1) snoc.prems(3) [of "length xs"] by simp_all
    moreover have "\<not> P (xs ! j)" if "k < j" "j < length xs" for j
      using snoc.prems(3) [of j] that by (simp add: nth_append)
    ultimately show ?thesis using snoc by (simp add: nth_append)
  qed simp
qed simp

text \<open>The stored publish that is next: the last one in use.\<close>

lemma run_next_last:
  assumes "publishes_of s ps" "\<not> no_client s" "List.find waiting (rev ps) = Some p"
  obtains k where "k < length ps" "p = ps ! k" "waiting (ps ! k)" "ep_publish_id p = slot_id k"
    "run_state get_next_publish s = (Some p, s)" "stored ps \<noteq> {#}"
proof (cases rule: run_next [OF assms(1,2), case_names none some])
  case none
  then show ?thesis using assms(3) by (auto simp: stored_empty find_Some_iff rev_nth)
next
  case (some k)
  then have "p = ps ! k" using find_rev [of k ps waiting] assms(3) by simp
  then show ?thesis using some by (intro that [of k]) (auto simp: stored_empty)
qed

lemma topics_of_pubs [simp]: "topics_of (pubs.with_table ps s) ns \<longleftrightarrow> topics_of s ns"
proof -
  have "topics.table_file (pubs.with_table ps s) = topics.table_file s" by (simp add: topics.table_file_def)
  then show ?thesis by (simp add: topics_of_def topics.table_def reg.holds_def pubs.with_table_files)
qed

lemma device_topics_pubs [simp]: "device_topics (pubs.with_table ps (open_transaction (Some e) s)) e ns \<longleftrightarrow>
    device_topics s e ns"
proof -
  have "topics_of (open_transaction (Some e) (pubs.with_table ps (open_transaction (Some e) s))) ns \<longleftrightarrow>
      topics_of (pubs.with_table ps (open_transaction (Some e) s)) ns"
    by (rule iffI) (erule topics_of_members [rotated 3]; simp)+
  then show ?thesis by (simp add: device_topics_def)
qed

section \<open>A device that is blocked\<close>

lemma device_publishes_outside [simp]: "device_publishes (s\<lparr>sent := x\<rparr>) e ps \<longleftrightarrow> device_publishes s e ps"
  "device_publishes (s\<lparr>broker_calls := cs\<rparr>) e ps \<longleftrightarrow> device_publishes s e ps"
  "device_publishes (open_transaction e' s) e ps \<longleftrightarrow> device_publishes s e ps"
  "device_publishes (close_transaction s) e ps \<longleftrightarrow> device_publishes s e ps"
  unfolding device_publishes_def by (auto elim!: publishes_of_members [rotated 3])










section \<open>Quality of service 0\<close>

text \<open>
  C14: A connected device that waits for nothing gets the last publish stored for it.  With QoS 0 it
  is sent as one PUBLISH on the topic id of the subscription and taken out of the store, which
  keeps every other one.  The datagram carries the data without its last byte, although its length
  field counts it.
\<close>

theorem qos0_delivered:
  fixes s :: gateway and a :: device_address and data :: bytes and cid :: bytes and i :: u16 and r :: bool
  assumes "reg s rs" "\<not> transaction_started s" "0 \<le> socket_fd s" "session rs a = Some e"
    and "ec_await_message e = MQTTSN_PINGREQ" "st = ACTIVE \<or> st = AWAKE"
    and "device_topics s e ns" "device_publishes s e ps"
    and "List.find waiting (rev ps) = Some p" "message_of p = (data, i, 0, r)"
    and "name_of_id i ns \<noteq> None" "data \<noteq> []" "length data < 249"
  defines "t \<equiv> snd (run_state (handle_client_publishes st cid a) s)"
  shows "\<exists>ps'. device_publishes t e ps' \<and> stored ps' = stored ps - {#message_of p#} \<and>
    sent t = sent s @ [(a, publish_image 0 r i 0 data)] \<and> reg t rs \<and> \<not> transaction_started t \<and>
    device_topics t e ns"
proof -
  let ?o = "open_transaction (Some e) s"
  have o: "publishes_of ?o ps" "topics_of ?o ns" "\<not> no_client ?o"
    using assms(7,8) by (simp_all add: device_publishes_def device_topics_def)
  obtain k where k: "k < length ps" "p = ps ! k" "waiting (ps ! k)" "ep_publish_id p = slot_id k"
      "run_state get_next_publish ?o = (Some p, ?o)" "stored ps \<noteq> {#}"
    by (rule run_next_last [OF o(1,3) assms(9)])
  have p: "ep_topic_id p = i" "ep_qos p = 0" "ep_retain p = r" "take (unat (ep_msg_length p)) (ep_msg p) = data"
    using assms(10) by (simp_all add: message_of_def)
  note rem = run_remove_publish [OF o(1,3) k(1,3)]
  let ?ps = "ps[k := empty_publish]"
  have t: "t = close_transaction (pubs.with_table ?ps ?o)\<lparr>sent := sent s @ [(a, publish_image 0 r i 0 data)]\<rparr>"
    using assms(5,6) k(4-6) p rem(1) run_is_topic_known [OF o(2,3) assms(11)]
      run_has_publishes [OF o(1,3)] assms(3)
    by (auto simp: t_def handle_client_publishes_def run_start_address [OF assms(1,2)] assms(4)
        get_client_await_message_type_def run_apply run_send_publish assms(12,13) Let_def State_Monad.return_def)
  have "device_publishes t e ?ps"
    unfolding device_publishes_def by (rule publishes_of_members [OF _ _ _ rem(2)]) (simp_all add: t)
  then show ?thesis using rem(3) assms(1,7) k(2) by (intro exI [of _ ?ps]) (simp add: t)
qed

section \<open>Quality of service 1\<close>

lemma pubs_table_file: "pubs.table s ps \<longleftrightarrow> files s (path_in s (client_file (entry s) PUBLISH_FILE_ENDING)) =
    Some (pub.file_of ps) \<and> list_all wf_publish ps \<and> length ps < 65535"
  by (simp add: pubs.table_def pub.holds_def pubs.table_file_def)

lemma device_publishes_registry [simp]: "device_publishes (with_registry rs s) e ps \<longleftrightarrow> device_publishes s e ps"
  unfolding device_publishes_def publishes_of_def pubs_table_file by simp






section \<open>Publishing with quality of service 2\<close>

lemma device_topics_registry [simp]: "device_topics (with_registry rs s) e ns \<longleftrightarrow> device_topics s e ns"
  by (simp add: device_topics_def topics_of_def topics_table_file)


text \<open>The topic name that a PUBLISH of the device means: one it has registered, or a predefined one.\<close>

definition publish_topic :: "gateway \<Rightarrow> entry_client \<Rightarrow> bool \<Rightarrow> u16 \<Rightarrow> bytes \<Rightarrow> bool" where
  "publish_topic s e short i n \<longleftrightarrow>
     (if short then \<exists>ns. device_topics s e ns \<and> name_of_id i ns = Some n
      else \<exists>c. files s (path_in s predefined_topic) = Some c \<and> find_predefined i (read_lines 262 c) = Found n)"

lemma predefined_not_registry: "predefined_topic \<noteq> client_registry"
  by (simp add: predefined_topic_def client_registry_def str_def)

lemma publish_topic_simps [simp]:
  "publish_topic (s\<lparr>sent := x\<rparr>) e short i n \<longleftrightarrow> publish_topic s e short i n"
  "publish_topic (s\<lparr>broker_calls := cs\<rparr>) e short i n \<longleftrightarrow> publish_topic s e short i n"
  "publish_topic (open_transaction e' s) e short i n \<longleftrightarrow> publish_topic s e short i n"
  "publish_topic (close_transaction s) e short i n \<longleftrightarrow> publish_topic s e short i n"
  "publish_topic (with_registry rs s) e short i n \<longleftrightarrow> publish_topic s e short i n"
  using predefined_not_registry by (simp_all add: publish_topic_def path_in_def)




section \<open>Witnesses\<close>

definition mail :: "byte \<Rightarrow> entry_publish" where
  "mail q = stored_entry 0 [1, 2] (topic_id 0) False q"

definition alice_with_mail :: "byte \<Rightarrow> gateway" where
  "alice_with_mail q = close_transaction (pubs.with_table [mail q]
     (open_transaction (Some alice) (alice_with_topics [[116]])))"

lemma mail_simps [simp]: "waiting (mail q)" "wf_publish (mail q)"
  "message_of (mail q) = ([1, 2], topic_id 0, q, False)" "ep_publish_id (mail q) = slot_id 0"
  using stored_entry_simps [of "[1, 2]" 0 "topic_id 0" False q] by (simp_all add: mail_def stored_entry_def)

lemma alice_with_mail_simps [simp]: "reg (alice_with_mail q) [alice]" "\<not> transaction_started (alice_with_mail q)"
  "socket_fd (alice_with_mail q) = 3" "sent (alice_with_mail q) = []" "mqtt_online (alice_with_mail q)"
  "broker_calls (alice_with_mail q) = []" "client_rc (alice_with_mail q) cs = 0"
  "device_topics (alice_with_mail q) alice [[116]]" "device_publishes (alice_with_mail q) alice [mail q]"
proof -
  show "device_topics (alice_with_mail q) alice [[116]]"
    using alice_topics [of "[[116]]"] by (simp add: alice_with_mail_def topic_name_ok_def)
  have "publishes_of (pubs.with_table [mail q] (open_transaction (Some alice) (alice_with_topics [[116]]))) [mail q]"
    by (simp add: publishes_of_def publishes_ok_def pubs.table_with)
  then show "device_publishes (alice_with_mail q) alice [mail q]"
    unfolding device_publishes_def by (rule publishes_of_members [rotated 3]) (simp_all add: alice_with_mail_def)
qed (simp_all add: alice_with_mail_def)

lemma alice_awaits [simp]: "ec_await_message alice = MQTTSN_PINGREQ" "ec_await_message_id alice = 0"
  by (simp_all add: alice_def)

lemma qos0_delivered_witness:
  "sent (snd (run_state (handle_client_publishes ACTIVE [65] alice_address) (alice_with_mail 0))) =
    [(alice_address, publish_image 0 False (topic_id 0) 0 [1, 2])]"
proof -
  have "name_of_id (topic_id 0) [[116]] \<noteq> None" by (simp add: name_of_id_def)
  then show ?thesis
    using qos0_delivered [of "alice_with_mail 0" "[alice]" alice_address alice ACTIVE "[[116]]" "[mail 0]"
        "mail 0" "[1, 2]" "topic_id 0" False "[65]"] by auto
qed



end
