(* ===== verification/Returns.thy ===== *)
theory Returns
  imports Evolution Samples
begin

text \<open>
  Which events the gateway always comes back from.  The walks over the registry end because no
  round for a client changes the number of slots, and an empty slot, or the end of the file, stops
  them; the one walk without this test is the one of the offline procedure.
\<close>

section \<open>The number of slots\<close>

definition sized :: "nat \<Rightarrow> ('z persistent_scheme \<Rightarrow> bool) \<Rightarrow> 'z persistent_scheme \<Rightarrow> bool" where
  "sized n P s \<longleftrightarrow> P s \<and> slots s = n"

lemma slots_reg: "reg s rs \<Longrightarrow> slots s = length rs"
  by (simp add: slots_def reg_def client.holds_def content_def client.length_file_of sizeof_entry_client_def)

lemma slots_members: "files t = files s \<Longrightarrow> rootPath t = rootPath s \<Longrightarrow> slots t = slots s"
  by (simp add: slots_def content_def path_in_def)

lemma leads_sized: "leads P m Q \<Longrightarrow> (\<And>s. P s \<Longrightarrow> slots (snd (run_state m s)) = slots s) \<Longrightarrow>
    leads (sized n P) m (sized n Q)"
  by (simp add: leads_def sized_def)

lemma same_client_slots: "registry_present s \<Longrightarrow> same_client s t \<Longrightarrow> slots t = slots s"
  by (simp add: same_client_def slots_def content_def)

lemma in_transaction_present: "in_transaction s \<Longrightarrow> registry_present s" "between s \<Longrightarrow> registry_present s"
  by (auto simp: in_transaction_def between_def registry_inv_def dest: reg_present)

lemma sized_frame:
  assumes "frame m"
  shows "leads (sized n in_transaction) m (sized n in_transaction)" "leads (sized n between) m (sized n between)"
    "leads (sized n registry_inv) m (sized n registry_inv)"
proof -
  have *: "slots (snd (run_state m s)) = slots s" if "registry_present s" for s
    using same_client_slots [OF that] frameD [OF assms that] by (metis prod.collapse)
  show "leads (sized n in_transaction) m (sized n in_transaction)"
    by (rule leads_sized [OF leads_frame(1) [OF assms] *]) (rule in_transaction_present)
  show "leads (sized n between) m (sized n between)"
    by (rule leads_sized [OF leads_frame(2) [OF assms] *]) (rule in_transaction_present)
  show "leads (sized n registry_inv) m (sized n registry_inv)"
    by (rule leads_sized [OF leads_frame(4) [OF assms] *]) (auto simp: registry_inv_def dest: reg_present)
qed

lemma start_address_slots: "registry_inv s \<Longrightarrow>
    slots (snd (run_state (start_client_transaction_address a) s)) = slots s"
proof -
  assume "registry_inv s"
  then obtain rs where "reg s rs" by (auto simp: registry_inv_def)
  then show ?thesis using slots_reg start_address_reg by metis
qed

lemma sized_start: "leads (sized n between) (start_client_transaction_address a) (sized n registry_inv)"
  "a \<noteq> empty_address \<Longrightarrow> leads (sized n between) (start_client_transaction_address a) (sized n in_transaction)"
  by (rule leads_sized; auto intro: leads_start_any leads_start_address start_address_slots between_registry)+

lemma sized_apply: "leads (sized n registry_inv) apply_transaction (sized n between)"
  "leads (sized n in_transaction) apply_transaction (sized n between)"
  by (rule leads_sized; auto intro: leads_apply leads_apply_in(1) slots_members simp: apply_transaction_state)+

lemma update_entry_slots:
  assumes "in_transaction s" "keeps_key f"
  shows "slots (snd (run_state (update_entry f) s)) = slots s"
proof (cases "no_client s")
  case True
  then show ?thesis by (auto simp: update_entry_def no_client_def State_Monad.return_def)
next
  case False
  then obtain rs i where rs: "reg s rs" "i < length rs" "entry s = rs ! i" "live i (rs ! i)"
    using assms(1) by (auto simp: in_transaction_def coupled_def no_client_def no_transaction_def)
  have ok: "registry_ok rs" using rs(1) by (simp add: reg_def)
  have "reg (with_registry (rs[i := f (rs ! i)]) (s\<lparr>entry := f (rs ! i)\<rparr>)) (rs[i := f (rs ! i)])"
    by (rule reg_with_registry [OF registry_ok_update [OF ok assms(2) rs(2,4)]])
  then show ?thesis
    using run_update_entry [OF rs(1,2,4) assms(2) rs(3) False] slots_reg [OF rs(1)] slots_reg by fastforce
qed

lemma sized_setters: "leads (sized n in_transaction) (set_client_await_message m) (sized n in_transaction)"
  "leads (sized n in_transaction) (set_client_state st) (sized n in_transaction)"
  "leads (sized n in_transaction) (set_client_await_msg_id i) (sized n in_transaction)"
  unfolding set_client_await_message_def set_client_state_def set_client_await_msg_id_def
  by (rule leads_sized; auto intro!: leads_update_entry update_entry_slots simp: keeps_key_def)+

lemmas sized_transaction = leads_rules sized_setters sized_apply sized_frame(1,2) sized_start(2)

section \<open>A round for a client\<close>

lemma sized_client_publishes:
  assumes "status = AWAKE \<or> status = ACTIVE \<Longrightarrow> a \<noteq> empty_address"
  shows "leads (sized n between) (handle_client_publishes status cid a) (sized n between)"
  unfolding handle_client_publishes_def
  by (rule leads_if_cond, drule assms)
    (assumption | rule sized_transaction frame_intros)+

lemma sized_receive_for_client:
  "leads (sized n between) (handle_receive_mqtt_publish_for_client t dat a r) (sized n between)"
  unfolding handle_receive_mqtt_publish_for_client_def
  by (rule leads_bind [OF sized_start(1)])
    (rule leads_rules sized_apply(1) sized_frame(2,3) frame_intros)+

lemma sized_serve_client:
  assumes e: "slot_like e" and served: "\<not> served EMPTY" and answer: "\<And>a. frame (answer a)"
  shows "leads (sized n between) (serve_client served st answer False el e) (sized n between)"
proof (cases "ec_client_status e = EMPTY")
  case True
  have [simp]: "EMPTY \<noteq> AWAKE" "EMPTY \<noteq> ACTIVE" "EMPTY \<noteq> ASLEEP"
    by (simp_all add: enum_defs)
  have "serve_client served st answer False el e = do {
      start_client_transaction_address (ec_client_address e);
      _ \<leftarrow> apply_transaction;
      ret ()
    }"
    unfolding serve_client_def handle_client_publishes_def
    using True served by (simp add: Let_def State_Monad.bind_assoc)
  then show ?thesis
    by (simp only:) (rule leads_bind leads_return sized_start(1) sized_apply(1))+
next
  case False
  then have a: "ec_client_address e \<noteq> empty_address" by (rule slot_like_served [OF e])
  show ?thesis
    unfolding serve_client_def Let_def if_False
    by (rule a answer sized_client_publishes sized_transaction frame_intros)+
qed

lemma sized_serve: "slot_like e \<Longrightarrow> leads (sized n between) (serve_online False el e) (sized n between)"
  "slot_like e \<Longrightarrow> leads (sized n between) (serve_offline False el e) (sized n between)"
  unfolding serve_online_def serve_offline_def
  by (rule sized_serve_client; simp add: enum_defs frame_messages)+

section \<open>The walks\<close>

text \<open>What the next slot of a walk is.\<close>

lemma next_slot:
  assumes "sized n between s" "i < 84000000"
  shows "snd (run_state (get_nth_client i) s) = s" "slot_like (fst (run_state (get_nth_client i) s))"
    "n \<le> i \<Longrightarrow> fst (run_state (get_nth_client i) s) = empty_client"
proof -
  have i: "i * sizeof_entry_client < 2 ^ 32" using assms(2) by (simp add: sizeof_entry_client_def)
  obtain rs where r: "reg s rs" using assms(1) by (auto simp: sized_def between_def registry_inv_def)
  have rs: "reg s rs" "length rs = n" using r slots_reg [OF r] assms(1) by (simp_all add: sized_def)
  show "snd (run_state (get_nth_client i) s) = s" "slot_like (fst (run_state (get_nth_client i) s))"
    using get_nth_client_slot [OF _ i, of s] rs(1) by (auto simp: registry_inv_def)
  show "n \<le> i \<Longrightarrow> fst (run_state (get_nth_client i) s) = empty_client"
    using run_get_nth_client [OF rs(1) i] rs(2) by simp
qed

lemma empty_address_empty [simp]: "is_address_empty (ec_client_address empty_client)"
  by (simp add: is_address_empty_def list_all_iff)

lemma calm_run: "calm.evolves m \<Longrightarrow> diverged (snd (run_state m s)) = diverged s"
  using calm.evolvesD [of m s] by (simp add: returns_too_def)

lemma online_walk_returns: "sized n between s \<Longrightarrow> slot_like e \<Longrightarrow> 1 \<le> fuel \<Longrightarrow> n + 1 \<le> fuel + i \<Longrightarrow>
    i + fuel < 84000000 \<Longrightarrow> diverged (snd (run_state (online_walk fuel l False el i e) s)) = diverged s"
proof (induction fuel arbitrary: s e i)
  case (Suc fuel)
  define t where "t = snd (run_state (serve_online False el e) s)"
  define e' where "e' = fst (run_state (get_nth_client i) t)"
  have t: "sized n between t" using leadsD [OF sized_serve(1) [OF Suc.prems(2)] Suc.prems(1)] by (simp add: t_def)
  have d: "diverged t = diverged s" unfolding t_def by (rule calm_run [OF calm.evo_serve_calm(1)])
  have i: "i < 84000000" using Suc.prems(5) by simp
  note slot = next_slot [OF t i, folded e'_def]
  have run: "run_state (online_walk (Suc fuel) l False el i e) s = run_state
      (if is_address_empty (ec_client_address e') then ret ()
       else if ec_client_address e' = l then serve_online False el e'
       else online_walk fuel l False el (i + 1) e') t"
    using slot(1) by (simp add: t_def e'_def split_beta)
  consider "is_address_empty (ec_client_address e')" | "\<not> is_address_empty (ec_client_address e')" "i < n"
    using slot(3) by fastforce
  then show ?case
  proof cases
    case 1
    then show ?thesis using run d by (simp add: State_Monad.return_def)
  next
    case 2
    show ?thesis
    proof (cases "ec_client_address e' = l")
      case True
      then show ?thesis using 2(1) run d calm_run [OF calm.evo_serve_calm(1)] by simp
    next
      case False
      have "1 \<le> fuel" "n + 1 \<le> fuel + (i + 1)" "(i + 1) + fuel < 84000000"
        using Suc.prems(4,5) 2(2) by simp_all
      then show ?thesis using Suc.IH [OF t slot(2)] 2(1) False run d by simp
    qed
  qed
qed simp

lemma publish_walk_returns: "sized n between s \<Longrightarrow> 1 \<le> fuel \<Longrightarrow> n + 1 \<le> fuel + i \<Longrightarrow>
    i + fuel < 84000000 \<Longrightarrow> diverged (snd (run_state (publish_walk fuel l tn dat r i e) s)) = diverged s"
proof (induction fuel arbitrary: s e i)
  case (Suc fuel)
  define t where "t = snd (run_state (handle_receive_mqtt_publish_for_client tn dat (ec_client_address e) r) s)"
  define e' where "e' = fst (run_state (get_nth_client i) t)"
  have t: "sized n between t" using leadsD [OF sized_receive_for_client Suc.prems(1)] by (simp add: t_def)
  have d: "diverged t = diverged s" unfolding t_def by (rule calm_run) (rule evolves_intros)
  have i: "i < 84000000" using Suc.prems(4) by simp
  note slot = next_slot [OF t i, folded e'_def]
  have run: "run_state (publish_walk (Suc fuel) l tn dat r i e) s = run_state
      (if is_address_empty (ec_client_address e') then ret ()
       else if ec_client_address e' = l then ret ()
       else publish_walk fuel l tn dat r (i + 1) e') t"
    using slot(1) by (simp add: t_def e'_def split_beta)
  show ?case
  proof (cases "is_address_empty (ec_client_address e') \<or> ec_client_address e' = l")
    case True
    then show ?thesis using run d by (auto simp: State_Monad.return_def)
  next
    case False
    then have "i < n" using slot(3) by fastforce
    then have "1 \<le> fuel" "n + 1 \<le> fuel + (i + 1)" "(i + 1) + fuel < 84000000"
      using Suc.prems(3,4) by simp_all
    then show ?thesis using Suc.IH [OF t] False run d by simp
  qed
qed simp

section \<open>Events\<close>

text \<open>A step of the gateway that neither changes the number of slots nor runs out of fuel.\<close>

lemma quiet_step:
  assumes "frame m" "calm.evolves m" "sized n between s"
  shows "sized n between (snd (run_state m s))" "diverged (snd (run_state m s)) = diverged s"
  using leadsD [OF sized_frame(2) [OF assms(1)] assms(3)] calm_run [OF assms(2)] by simp_all

lemma run_walk_fuel: "run_state walk_fuel s = (slots s + 2, s)"
  by (simp add: walk_fuel_def slots_def)

lemma slots_bound: "sized n between s \<Longrightarrow> n \<le> 65536"
  using slots_reg registry_ok_length by (fastforce simp: sized_def between_def registry_inv_def reg_def)

lemma core_loop_returns:
  assumes "sized n between s" "mqttsn_online s" "mqtt_online s" "\<not> fst (run_state has_beaten s)"
  shows "diverged (snd (run_state core_loop s)) = diverged s"
proof -
  define s1 where "s1 = snd (run_state has_beaten s)"
  define l where "l = fst (run_state (get_last_client_address empty_address) s1)"
  define s2 where "s2 = snd (run_state (get_last_client_address empty_address) s1)"
  define e where "e = fst (run_state (get_nth_client 0) s2)"
  have s1: "sized n between s1" "diverged s1 = diverged s"
    unfolding s1_def by (rule quiet_step [OF _ _ assms(1)], (rule frame_intros evolves_intros)+)+
  have s2: "sized n between s2" "diverged s2 = diverged s1"
    unfolding s2_def by (rule quiet_step [OF _ _ s1(1)], (rule frame_intros evolves_intros)+)+
  note e = next_slot(1,2) [OF s2(1), of 0, folded e_def, simplified]
  have f: "run_state walk_fuel s2 = (n + 2, s2)" using s2(1) by (simp add: run_walk_fuel sized_def)
  have "run_state core_loop s = run_state (if is_address_empty l then ret () else online_walk (n + 2) l False 0 1 e) s2"
    using assms(2-4) f e(1)
    by (simp add: core_loop_def is_mqttsn_online_def is_mqtt_online_def s1_def s2_def l_def e_def split_beta
        State_Monad.return_def)
  moreover have "diverged (snd (run_state (online_walk (n + 2) l False 0 1 e) s2)) = diverged s2"
    by (rule online_walk_returns [OF s2(1) e(2)]) (use slots_bound [OF s2(1)] in simp_all)
  ultimately show ?thesis using s1(2) s2(2) by (simp add: State_Monad.return_def)
qed

lemma broker_publish_returns:
  assumes "sized n between s"
  shows "diverged (snd (run_state (core_publish_broker t p r) s)) = diverged s"
proof -
  define s1 where "s1 = snd (run_state (get_global_topic_subscription_count (Some t)) s)"
  define l where "l = fst (run_state (get_last_client_address empty_address) s1)"
  define s2 where "s2 = snd (run_state (get_last_client_address empty_address) s1)"
  define e where "e = fst (run_state (get_nth_client 0) s2)"
  have s1: "sized n between s1" "diverged s1 = diverged s"
    unfolding s1_def by (rule quiet_step [OF _ _ assms(1)], (rule frame_intros evolves_intros)+)+
  have s2: "sized n between s2" "diverged s2 = diverged s1"
    unfolding s2_def by (rule quiet_step [OF _ _ s1(1)], (rule frame_intros evolves_intros)+)+
  have e: "snd (run_state (get_nth_client 0) s2) = s2"
    by (rule next_slot(1) [OF s2(1)]) simp
  have f: "run_state walk_fuel s2 = (n + 2, s2)" using s2(1) by (simp add: run_walk_fuel sized_def)
  have "run_state (core_publish_broker t p r) s = (if length p > unat get_maximum_publish_payload_length
      then (SUCCESS, s) else if is_address_empty l then (SUCCESS, s2)
      else (SUCCESS, snd (run_state (publish_walk (n + 2) l t p r 1 e) s2)))"
    using f e by (simp add: core_publish_broker_def s1_def s2_def l_def e_def split_beta State_Monad.return_def)
  moreover have "diverged (snd (run_state (publish_walk (n + 2) l t p r 1 e) s2)) = diverged s2"
    by (rule publish_walk_returns [OF s2(1)]) (use slots_bound [OF s2(1)] in simp_all)
  ultimately show ?thesis using s1(2) s2(2) by simp
qed

text \<open>
  C15: The gateway comes back from every event as long as it is connected on both sides: from every
  datagram that is not a CONNECT, from every message of the broker, from a lost socket or broker
  connection, and from every round of the main loop in which the heartbeat is not due.
\<close>

theorem events_return:
  fixes s :: gateway
  assumes "reg s rs" "\<not> transaction_started s" "\<not> diverged s" "mqttsn_online s" "mqtt_online s"
    and "ev = CoreRound \<longrightarrow> \<not> fst (run_state has_beaten s)"
    and "\<And>ip port d. ev = Datagram ip port d \<Longrightarrow> length d \<le> 1 \<or> d ! 1 \<noteq> MQTTSN_CONNECT"
  shows "\<not> diverged (snd (run_state (handle_event ev) s))"
proof -
  have s: "sized (slots s) between s"
    using assms(1,2) by (auto simp: sized_def between_def registry_inv_def)
  show ?thesis
  proof (cases ev)
    case (Datagram ip port d)
    have "byte_at 1 (padz BUFLEN (take BUFLEN d)) \<noteq> MQTTSN_CONNECT"
      using assms(7) [OF Datagram] by (auto simp: byte_at_def padz_def nth_append BUFLEN_def enum_defs)
    then have "calm.evolves (handle_event ev)"
      unfolding Datagram handle_event.simps socket_loop_def socket_begin_def receive_datagram_def option.case prod.case
      by (intro evolves_intros calm.evo_receive_calm calm.evo_modify; simp add: internal_change_def)
    then show ?thesis using assms(3) by (simp add: calm_run)
  next
    case (SocketDown fd ok)
    have "calm.evolves (handle_event ev)"
      unfolding SocketDown handle_event.simps socket_loop_def socket_begin_def option.case
      by (intro evolves_intros calm.evo_modify; simp add: internal_change_def)
    then show ?thesis using assms(3) by (simp add: calm_run)
  next
    case (BrokerMessage t p)
    then show ?thesis
      using broker_publish_returns [OF s, of "cstr t" p False] assms(3)
      by (simp add: messageArrived_def receive_publish_def split_beta State_Monad.return_def)
  next
    case BrokerDown
    have "calm.evolves (handle_event ev)"
      unfolding BrokerDown handle_event.simps mqtt_reconnect_def
      by (intro evolves_intros calm.evo_modify; simp add: internal_change_def)
    then show ?thesis using assms(3) by (simp add: calm_run)
  next
    case CoreRound
    then show ?thesis using core_loop_returns [OF s assms(4,5)] assms(3,6) by simp
  qed
qed

lemma events_return_witness:
  "\<not> diverged (snd (run_state (handle_event (BrokerMessage [116] [1])) online))"
  by (rule events_return [of online "[]"]) simp_all

section \<open>The offline procedure\<close>

lemma offline_walk_endless: "sized 1 between s \<Longrightarrow> slot_like e \<Longrightarrow> l \<noteq> empty_address \<Longrightarrow> 1 \<le> i \<Longrightarrow>
    i + fuel < 84000000 \<Longrightarrow> diverged (snd (run_state (offline_walk fuel l False el i e) s))"
proof (induction fuel arbitrary: s e i)
  case (Suc fuel)
  define t where "t = snd (run_state (serve_offline False el e) s)"
  have t: "sized 1 between t" using leadsD [OF sized_serve(2) [OF Suc.prems(2)] Suc.prems(1)] by (simp add: t_def)
  have i: "i < 84000000" using Suc.prems(5) by simp
  have "run_state (get_nth_client i) t = (empty_client, t)"
    using next_slot [OF t i] Suc.prems(4) by (simp add: prod_eq_iff)
  then have "run_state (offline_walk (Suc fuel) l False el i e) s =
      run_state (offline_walk fuel l False el (i + 1) empty_client) t"
    using Suc.prems(3) by (simp add: t_def split_beta empty_address_def)
  moreover have "slot_like empty_client" by (simp add: slot_like_def)
  ultimately show ?case using Suc.IH [OF t, of empty_client "i + 1"] Suc.prems(3-5) by simp
qed (simp add: diverge_def)

lemma run_last_client:
  assumes "reg s [e]" "ec_client_status e \<noteq> EMPTY"
  shows "run_state (get_last_client_address d) s = (ec_client_address e, s)"
proof -
  have h: "client.holds s client_registry [e]" using assms(1) by (simp add: reg_def)
  show ?thesis
    using assms(2) by (simp add: get_last_client_address_def client.holds_open [OF h] client.holds_loop [OF h]
        FILE_READ_def State_Monad.return_def)
qed

text \<open>
  C23: When the gateway has exactly one client on its card and no connection to the broker, the main
  loop does not come back: after the first round the walk runs behind the end of the registry,
  where no slot has the address of the last client, for as many rounds as one likes up to 84
  million (where the file position, a 32-bit number, wraps).  So the shutdown after the offline
  procedure is never reached.
\<close>

theorem single_client_offline_endless:
  fixes s :: gateway and fuel :: nat and el :: u32
  assumes "reg s [e]" "\<not> transaction_started s" "ec_client_status e \<noteq> EMPTY"
    and "mqttsn_online s" "\<not> mqtt_online s" "\<not> fst (run_state has_beaten s)"
    and "fuel < 83999999"
  shows "diverged (snd (run_state (offline_walk fuel (ec_client_address e) False el 1 e) s)) \<and>
    diverged (snd (run_state core_loop s))"
proof -
  have ok: "registry_ok [e]" using assms(1) by (simp add: reg_def)
  have "e = empty_client \<or> live 0 e" using registry_ok_slot [OF ok, of 0] by simp
  then have e: "slot_like e" "ec_client_address e \<noteq> empty_address" and len: "length (ec_client_address e) = 6"
    using assms(3) by (auto simp: slot_like_def live_def EMPTY_def wf_client_def)
  have s: "sized 1 between s"
    using assms(1,2) slots_reg [OF assms(1)] by (auto simp: sized_def between_def registry_inv_def)
  have walk: "diverged (snd (run_state (offline_walk fuel (ec_client_address e) False el 1 e) s))"
    by (rule offline_walk_endless [OF s e]) (use assms(7) in simp_all)
  define s1 where "s1 = snd (run_state has_beaten s)"
  define s2 where "s2 = snd (run_state get_elapsed_time s1)"
  define d where "d = fst (run_state get_elapsed_time s1) div 1000"
  have "same_client s s1" "same_client s1 s2"
    unfolding s1_def s2_def using frameD [OF frame_clock(1)] frameD [OF frame_clock(2)] reg_present [OF assms(1)]
    by (metis prod.collapse same_client_present)+
  then have r2: "reg s2 [e]" "\<not> transaction_started s2"
    using reg_same [OF reg_same [OF assms(1)]] assms(2) by (simp_all add: same_client_def)
  then have z: "sized 1 between s2"
    using slots_reg [OF r2(1)] by (auto simp: sized_def between_def registry_inv_def)
  have nth0: "run_state (get_nth_client 0) s2 = (e, s2)" using run_get_nth_client [OF r2(1), of 0] by simp
  have f: "run_state walk_fuel s2 = (3, s2)" using z by (simp add: run_walk_fuel sized_def)
  have "\<not> is_address_empty (ec_client_address e)"
    using e(2) len by (simp add: is_address_empty_iff)
  then have "run_state core_loop s = run_state (offline_walk 3 (ec_client_address e) False d 1 e) s2"
    using assms(4-6) nth0 f run_last_client [OF r2(1) assms(3)]
    by (simp add: core_loop_def process_mqtt_offline_procedure_def is_mqttsn_online_def is_mqtt_online_def
        s1_def s2_def d_def split_beta State_Monad.return_def)
  moreover have "diverged (snd (run_state (offline_walk 3 (ec_client_address e) False d 1 e) s2))"
    by (rule offline_walk_endless [OF z e]) simp_all
  ultimately show ?thesis using walk by simp
qed

lemma single_client_offline_endless_witness:
  "diverged (snd (run_state (offline_walk 1000 alice_address False 0 1 alice) (with_alice\<lparr>mqtt_online := False\<rparr>)))"
proof -
  have b: "\<not> fst (run_state has_beaten (with_alice\<lparr>mqtt_online := False\<rparr>))"
    by (simp add: has_beaten_def millis_def with_alice_def with_registry_def set_file_def online_def begun_eq
        new_gateway_def State_Monad.return_def)
  have "reg (with_alice\<lparr>mqtt_online := False\<rparr>) [alice]"
    using reg_with_alice by (simp add: reg_def client.holds_def path_in_def)
  moreover have "mqttsn_online with_alice" by (simp add: with_alice_def with_registry_def set_file_def)
  ultimately show ?thesis
    using single_client_offline_endless [of "with_alice\<lparr>mqtt_online := False\<rparr>" alice 1000 0] b
    by (simp add: enum_defs)
qed

end
