(* ===== verification/BrokerMessages.thy ===== *)
theory BrokerMessages
  imports Delivery Returns
begin

text \<open>
  Messages from the broker: which clients they are stored for.
\<close>

section \<open>One client\<close>

text \<open>What a message adds to the stored publishes of a client with the subscriptions \<open>es\<close>.\<close>

definition reachable :: "entry_client \<Rightarrow> bool" where
  "reachable e \<longleftrightarrow> ec_client_status e = ACTIVE \<or> ec_client_status e = ASLEEP \<or> ec_client_status e = AWAKE"

definition delivered :: "bytes \<Rightarrow> bytes \<Rightarrow> bool \<Rightarrow> entry_client \<Rightarrow> entry_subscription list \<Rightarrow>
    message multiset \<Rightarrow> message multiset" where
  "delivered n data r e es M = (case List.find (\<lambda>x. names_topic (es_topic_name x) n) es of
     None \<Rightarrow> M
   | Some x \<Rightarrow> if reachable e then add_mset (data, es_topic_id x, es_qos x, r) M else M)"

lemma run_subscription_lookups:
  assumes "subs.table s es" "\<not> no_client s" "\<not> bad_topic_name (Some n)"
    and "List.find (\<lambda>x. names_topic (es_topic_name x) n) es = Some x"
  shows "run_state (is_subscribed (Some n)) s = (True, s)"
    "run_state (get_subscription_qos (Some n)) s = (es_qos x, s)"
    "run_state (get_subscription_topic_id (Some n)) s = (es_topic_id x, s)"
  using assms by (simp_all add: is_subscribed_def get_subscription_qos_def get_subscription_topic_id_def
      run_find_subscription [OF assms(1)] State_Monad.return_def)

lemma run_receive_for_client:
  fixes s :: gateway
  assumes "reg s rs" "\<not> transaction_started s" "session rs a = Some e" "device_subs s e es"
    and "device_publishes s e ps" "length ps < 65534" "length data < 256" "\<not> bad_topic_name (Some n)"
  obtains ps' where "run_state (handle_receive_mqtt_publish_for_client n data a r) s =
      ((), close_transaction (pubs.with_table ps' (open_transaction (Some e) s)))"
    "publishes_of (pubs.with_table ps' (open_transaction (Some e) s)) ps'"
    "stored ps' = delivered n data r e es (stored ps)"
proof -
  let ?o = "open_transaction (Some e) s"
  have o: "subs.table ?o es" "publishes_of ?o ps" "\<not> no_client ?o"
    using assms(4,5) by (simp_all add: device_subs_def device_publishes_def)
  note run = handle_receive_mqtt_publish_for_client_def run_start_address [OF assms(1,2)] assms(3)
    get_client_status_def run_apply State_Monad.return_def
  show ?thesis
  proof (cases "reachable e \<and> List.find (\<lambda>x. names_topic (es_topic_name x) n) es \<noteq> None")
    case True
    then obtain x where x: "List.find (\<lambda>x. names_topic (es_topic_name x) n) es = Some x" by blast
    obtain ps' where ps': "run_state (add_new_client_publish data (of_nat (length data)) (es_topic_id x) r (es_qos x)) ?o =
        ((), pubs.with_table ps' ?o)" "publishes_of (pubs.with_table ps' ?o) ps'"
        "stored ps' = add_mset (data, es_topic_id x, es_qos x, r) (stored ps)"
      by (rule run_store [OF o(2,3) assms(7,6)])
    have "run_state (handle_receive_mqtt_publish_for_client n data a r) s =
        ((), close_transaction (pubs.with_table ps' ?o))"
      using True ps'(1) run_subscription_lookups [OF o(1,3) assms(8) x]
      by (auto simp: run reachable_def)
    then show ?thesis using ps' True x by (intro that [of ps']) (simp_all add: delivered_def)
  next
    case False
    have "run_state (is_subscribed (Some n)) ?o = (subscribed_to es n, ?o)"
      using run_is_subscribed [OF o(1,3), of "Some n"] assms(8) by simp
    then have "run_state (handle_receive_mqtt_publish_for_client n data a r) s = ((), close_transaction ?o)"
      using False by (auto simp: run reachable_def find_subscribed)
    moreover have "pubs.with_table ps ?o = ?o"
      using o(2) pubs.table_same by (auto simp: publishes_of_def)
    ultimately show ?thesis
      using False o(2) by (intro that [of ps]) (auto simp: delivered_def split: option.split)
  qed
qed

section \<open>Other clients\<close>

lemma client_files_differ:
  assumes "live i d" "live j e" "i < 65536" "j < 65536" "i \<noteq> j" "length x = length y"
  shows "client_file d x \<noteq> client_file e y"
proof
  assume eq: "client_file d x = client_file e y"
  have "cstr (ec_file_number d) = fmt08 i" "cstr (ec_file_number e) = fmt08 j"
    using assms(1,2) cstr_padz [of "fmt08 _" 9] by (simp_all add: live_def)
  then have "fmt08 i = fmt08 j" using eq assms(6) by (simp add: client_file_def append_eq_append_conv)
  then have "atoi (fmt08 i) = atoi (fmt08 j)" by simp
  then show False using assms(3-5) by (simp add: atoi_fmt08)
qed

text \<open>
  The slots in use; what is known of the clients in them, beside what \<open>reg\<close> says; and their
  subscriptions and stored publishes.
\<close>

definition in_use :: "entry_client list \<Rightarrow> nat \<Rightarrow> bool" where
  "in_use rs i \<longleftrightarrow> i < length rs \<and> rs ! i \<noteq> empty_client"

definition own_addresses :: "entry_client list \<Rightarrow> bool" where
  "own_addresses rs \<longleftrightarrow> length rs < 65536 \<and> (\<forall>i. in_use rs i \<longrightarrow> ec_client_status (rs ! i) \<noteq> EMPTY \<and>
     (\<forall>j. in_use rs j \<and> ec_client_address (rs ! i) = ec_client_address (rs ! j) \<longrightarrow> i = j))"

definition boxes :: "gateway \<Rightarrow> entry_client list \<Rightarrow> (nat \<Rightarrow> entry_subscription list) \<Rightarrow>
    (nat \<Rightarrow> entry_publish list) \<Rightarrow> bool" where
  "boxes s rs es ps \<longleftrightarrow> reg s rs \<and> \<not> transaction_started s \<and>
     (\<forall>i. in_use rs i \<longrightarrow> device_subs s (rs ! i) (es i) \<and> device_publishes s (rs ! i) (ps i))"

lemma live_entry_has_id: "live i e \<Longrightarrow> e \<noteq> empty_client"
  by (auto simp: live_def empty_address_def)

lemma in_use_live: "registry_ok rs \<Longrightarrow> in_use rs i \<Longrightarrow> live i (rs ! i)"
  using registry_ok_slot by (auto simp: in_use_def)

lemma in_use_simps:
  assumes "registry_ok rs" "own_addresses rs" "in_use rs i"
  shows "i < length rs" "i < 65536" "ec_client_status (rs ! i) \<noteq> EMPTY"
    "session rs (ec_client_address (rs ! i)) = Some (rs ! i)"
    "\<not> is_address_empty (ec_client_address (rs ! i))"
proof -
  show i: "i < length rs" "i < 65536" "ec_client_status (rs ! i) \<noteq> EMPTY"
    using assms(2,3) by (auto simp: own_addresses_def in_use_def)
  have l: "ec_client_address (rs ! i) \<noteq> empty_address"
    using in_use_live [OF assms(1,3)] by (simp add: live_def)
  have "ec_client_address (rs ! j) \<noteq> ec_client_address (rs ! i)" if "j < i" for j
  proof (cases "in_use rs j")
    case True
    then show ?thesis using assms(2,3) that by (fastforce simp: own_addresses_def)
  next
    case False
    then show ?thesis using l i(1) that by (auto simp: in_use_def empty_address_def)
  qed
  then show "session rs (ec_client_address (rs ! i)) = Some (rs ! i)"
    using i(1) by (auto simp: session_def find_Some_iff intro!: exI [of _ i])
  show "\<not> is_address_empty (ec_client_address (rs ! i))"
    using l in_use_live [OF assms(1,3)] by (simp add: is_address_empty_iff live_def wf_client_def)
qed

lemma boxes_ok: "boxes s rs es ps \<Longrightarrow> registry_ok rs"
  by (simp add: boxes_def reg_def)

text \<open>Storing a publish for one client leaves the files of the others.\<close>

lemma boxes_store:
  assumes "boxes s rs es ps" "own_addresses rs" "in_use rs j"
    and "publishes_of (pubs.with_table qs (open_transaction (Some (rs ! j)) s)) qs"
  shows "boxes (close_transaction (pubs.with_table qs (open_transaction (Some (rs ! j)) s))) rs es (ps(j := qs))"
proof -
  let ?t = "pubs.with_table qs (open_transaction (Some (rs ! j)) s)"
  note ok = boxes_ok [OF assms(1)]
  have files: "files ?t = (files s)(path_in s (client_file (rs ! j) PUBLISH_FILE_ENDING) := Some (pub.file_of qs))"
    by (simp add: pubs.with_table_files pubs.table_file_def)
  have lens: "length SUBSCRIBE_FILE_ENDING = length PUBLISH_FILE_ENDING"
    by (simp add: SUBSCRIBE_FILE_ENDING_def PUBLISH_FILE_ENDING_def)
  have "device_subs (close_transaction ?t) (rs ! i) (es i) \<and>
      device_publishes (close_transaction ?t) (rs ! i) ((ps(j := qs)) i)" if i: "in_use rs i" for i
  proof
    have old: "device_subs s (rs ! i) (es i)" "device_publishes s (rs ! i) (ps i)"
      using assms(1) i by (simp_all add: boxes_def)
    have other: "client_file (rs ! i) x \<noteq> client_file (rs ! j) PUBLISH_FILE_ENDING"
      if "i \<noteq> j" "length x = length PUBLISH_FILE_ENDING" for x
      by (rule client_files_differ [OF in_use_live [OF ok i] in_use_live [OF ok assms(3)]
            in_use_simps(2) [OF ok assms(2) i] in_use_simps(2) [OF ok assms(2,3)] that])
    have "client_file (rs ! i) SUBSCRIBE_FILE_ENDING \<noteq> client_file (rs ! j) PUBLISH_FILE_ENDING"
      using other [OF _ lens] lens
      by (cases "i = j") (auto simp: client_file_def SUBSCRIBE_FILE_ENDING_def PUBLISH_FILE_ENDING_def)
    then show "device_subs (close_transaction ?t) (rs ! i) (es i)"
      using old(1) by (simp add: device_subs_def subs_table_file files)
    show "device_publishes (close_transaction ?t) (rs ! i) ((ps(j := qs)) i)"
    proof (cases "i = j")
      case True
      have "device_publishes (close_transaction ?t) (rs ! j) qs"
        unfolding device_publishes_def by (rule publishes_of_members [OF _ _ _ assms(4)]) simp_all
      then show ?thesis using True by simp
    next
      case False
      then show ?thesis
        using old(2) other [OF False refl]
        by (simp add: device_publishes_def publishes_of_def pubs_table_file files)
    qed
  qed
  then show ?thesis using assms(1) by (simp add: boxes_def)
qed

section \<open>The walk over the clients\<close>

text \<open>One slot: the first slot of the registry is handled even when it is cleared.\<close>

lemma handle_slot:
  assumes "boxes s rs es ps" "own_addresses rs" "in_use rs k \<or> k = 0 \<and> rs \<noteq> []"
    and "in_use rs k \<Longrightarrow> length (ps k) < 65534" "length data < 256" "\<not> bad_topic_name (Some n)"
  obtains t qs where
    "run_state (handle_receive_mqtt_publish_for_client n data (ec_client_address (rs ! k)) r) s = ((), t)"
    "boxes t rs es (ps(k := qs))" "in_use rs k \<Longrightarrow> stored qs = delivered n data r (rs ! k) (es k) (stored (ps k))"
proof (cases "in_use rs k")
  case True
  have b: "reg s rs" "\<not> transaction_started s" "device_subs s (rs ! k) (es k)" "device_publishes s (rs ! k) (ps k)"
    using assms(1) True by (simp_all add: boxes_def)
  obtain qs where qs: "run_state (handle_receive_mqtt_publish_for_client n data (ec_client_address (rs ! k)) r) s =
      ((), close_transaction (pubs.with_table qs (open_transaction (Some (rs ! k)) s)))"
    "publishes_of (pubs.with_table qs (open_transaction (Some (rs ! k)) s)) qs"
    "stored qs = delivered n data r (rs ! k) (es k) (stored (ps k))"
    by (rule run_receive_for_client [OF b(1,2) in_use_simps(4) [OF boxes_ok [OF assms(1)] assms(2) True]
          b(3,4) assms(4) [OF True] assms(5,6)])
  show ?thesis by (rule that [OF qs(1) boxes_store [OF assms(1,2) True qs(2)] qs(3)])
next
  case False
  then have k: "k = 0" "rs \<noteq> []" "rs ! 0 = empty_client" using assms(3) by (auto simp: in_use_def)
  have b: "reg s rs" "\<not> transaction_started s" using assms(1) by (simp_all add: boxes_def)
  have "session rs (ec_client_address (rs ! 0)) = Some empty_client"
    using k by (cases rs) (simp_all add: session_def)
  then have "run_state (handle_receive_mqtt_publish_for_client n data (ec_client_address (rs ! k)) r) s =
      ((), close_transaction (open_transaction (Some empty_client) s))"
    using k(1) by (simp add: handle_receive_mqtt_publish_for_client_def run_start_address [OF b]
        get_client_status_def run_apply enum_defs State_Monad.return_def)
  moreover have "boxes (close_transaction (open_transaction (Some empty_client) s)) rs es (ps(k := ps k))"
    using assms(1) by (simp add: boxes_def)
  ultimately show ?thesis using False by (intro that [of _ "ps k"]) simp_all
qed

text \<open>The slots behind \<open>k\<close> that the walk reaches when it is at \<open>k\<close>.\<close>

definition reached :: "entry_client list \<Rightarrow> nat \<Rightarrow> nat \<Rightarrow> bool" where
  "reached rs k i \<longleftrightarrow> k < i \<and> (\<forall>j. k < j \<and> j \<le> i \<longrightarrow> in_use rs j) \<and> (\<exists>j > i. in_use rs j)"

lemma reached_next:
  "reached rs k i \<longleftrightarrow> in_use rs (k + 1) \<and> (\<exists>j > k + 1. in_use rs j) \<and> (i = k + 1 \<or> reached rs (k + 1) i)"
proof (intro iffI conjI)
  assume "reached rs k i"
  then have r: "k < i" "\<And>j. k < j \<Longrightarrow> j \<le> i \<Longrightarrow> in_use rs j" "\<exists>j > i. in_use rs j"
    by (auto simp: reached_def)
  show "in_use rs (k + 1)" using r(1,2) by simp
  obtain j where "i < j" "in_use rs j" using r(3) by blast
  then show "\<exists>j > k + 1. in_use rs j" using r(1) by (intro exI [of _ j]) simp
  show "i = k + 1 \<or> reached rs (k + 1) i" using r by (auto simp: reached_def)
next
  assume "in_use rs (k + 1) \<and> (\<exists>j > k + 1. in_use rs j) \<and> (i = k + 1 \<or> reached rs (k + 1) i)"
  then have h: "in_use rs (k + 1)" "\<exists>j > k + 1. in_use rs j" "i = k + 1 \<or> reached rs (k + 1) i" by blast+
  from h(3) show "reached rs k i"
  proof
    assume i: "i = k + 1"
    have "in_use rs j" if "k < j" "j \<le> i" for j using that i h(1) by (cases "j = k + 1") simp_all
    then show ?thesis using h(2) i by (auto simp: reached_def)
  next
    assume i: "reached rs (k + 1) i"
    have "in_use rs j" if "k < j" "j \<le> i" for j
      using that i h(1) by (cases "j = k + 1") (simp_all add: reached_def)
    then show ?thesis using i by (auto simp: reached_def)
  qed
qed

lemma publish_walk_step:
  assumes "run_state (handle_receive_mqtt_publish_for_client n data (ec_client_address e) r) s = ((), t)"
    and "run_state (get_nth_client i) t = (e', t)"
  shows "run_state (publish_walk (Suc fuel) l n data r i e) s =
    (if is_address_empty (ec_client_address e') \<or> ec_client_address e' = l then ((), t)
     else run_state (publish_walk fuel l n data r (i + 1) e') t)"
  using assms by (simp add: State_Monad.return_def)

lemma publish_walk_stores:
  assumes "own_addresses rs" "length data < 256" "\<not> bad_topic_name (Some n)"
    and "in_use rs m" "\<And>j. m < j \<Longrightarrow> \<not> in_use rs j"
  defines "l \<equiv> ec_client_address (rs ! m)"
  shows "boxes s rs es ps \<Longrightarrow> in_use rs k \<or> k = 0 \<Longrightarrow> (\<And>i. in_use rs i \<Longrightarrow> k \<le> i \<Longrightarrow> length (ps i) < 65534) \<Longrightarrow>
    length rs \<le> fuel + k \<Longrightarrow>
    \<exists>qs. boxes (snd (run_state (publish_walk fuel l n data r (k + 1) (rs ! k)) s)) rs es qs \<and>
      (\<forall>i. in_use rs i \<longrightarrow> stored (qs i) = (if i = k \<or> reached rs k i
        then delivered n data r (rs ! i) (es i) (stored (ps i)) else stored (ps i)))"
proof (induction fuel arbitrary: s ps k)
  case 0
  then show ?case using assms(4) by (auto simp: in_use_def)
next
  case (Suc fuel)
  note ok = boxes_ok [OF Suc.prems(1)]
  have rs: "rs \<noteq> []" "length rs < 65536" "k < length rs"
    using assms(1,4) Suc.prems(2) by (auto simp: in_use_def own_addresses_def)
  have walk: "in_use rs k \<or> k = 0 \<and> rs \<noteq> []" using Suc.prems(2) rs(1) by blast
  obtain t qs where t: "run_state (handle_receive_mqtt_publish_for_client n data (ec_client_address (rs ! k)) r) s = ((), t)"
      "boxes t rs es (ps(k := qs))" "in_use rs k \<Longrightarrow> stored qs = delivered n data r (rs ! k) (es k) (stored (ps k))"
    by (rule handle_slot [OF Suc.prems(1) assms(1) walk _ assms(2,3), where r = r]) (use Suc.prems(3) in simp_all)
  have "(k + 1) * sizeof_entry_client < 2 ^ 32"
    using rs by (simp add: sizeof_entry_client_def)
  then have nth: "run_state (get_nth_client (k + 1)) t =
      (if k + 1 < length rs then rs ! (k + 1) else empty_client, t)"
    using t(2) by (intro run_get_nth_client) (simp_all add: boxes_def)
  define more where "more \<longleftrightarrow> in_use rs (k + 1) \<and> (\<exists>j > k + 1. in_use rs j)"
  note step = publish_walk_step [OF t(1), of "k + 1" _ fuel l]
  have run: "run_state (publish_walk (Suc fuel) l n data r (k + 1) (rs ! k)) s =
      (if more then run_state (publish_walk fuel l n data r (k + 1 + 1) (rs ! (k + 1))) t else ((), t))"
  proof (cases "in_use rs (k + 1)")
    case True
    have "m = k + 1 \<longleftrightarrow> \<not> (\<exists>j > k + 1. in_use rs j)"
      using assms(4,5) True by (metis linorder_neqE_nat)
    moreover have "ec_client_address (rs ! (k + 1)) = l \<longleftrightarrow> m = k + 1"
      using assms(1,4) True unfolding l_def own_addresses_def by metis
    ultimately have last: "ec_client_address (rs ! (k + 1)) = l \<longleftrightarrow> \<not> more" using True by (simp only: more_def simp_thms)
    have next': "run_state (get_nth_client (k + 1)) t = (rs ! (k + 1), t)"
      using nth in_use_simps(1) [OF ok assms(1) True] by (simp only: if_True)
    show ?thesis
      unfolding step [OF next'] last using in_use_simps(5) [OF ok assms(1) True] by (cases more) simp_all
  next
    case False
    then have next': "run_state (get_nth_client (k + 1)) t = (empty_client, t)" using nth by (auto simp: in_use_def)
    show ?thesis unfolding step [OF next'] using False by (simp add: more_def)
  qed
  have reached: "reached rs k i \<longleftrightarrow> more \<and> (i = k + 1 \<or> reached rs (k + 1) i)" for i
    using reached_next [of rs k i] unfolding more_def by blast
  show ?case
  proof (cases more)
    case True
    have "\<exists>us. boxes (snd (run_state (publish_walk fuel l n data r (k + 1 + 1) (rs ! (k + 1))) t)) rs es us \<and>
      (\<forall>i. in_use rs i \<longrightarrow> stored (us i) = (if i = k + 1 \<or> reached rs (k + 1) i
        then delivered n data r (rs ! i) (es i) (stored ((ps(k := qs)) i)) else stored ((ps(k := qs)) i)))"
      by (rule Suc.IH [OF t(2)]) (use Suc.prems(3,4) True in \<open>simp_all add: more_def\<close>)
    then obtain us where us: "boxes (snd (run_state (publish_walk fuel l n data r (k + 1 + 1) (rs ! (k + 1))) t)) rs es us"
      "\<And>i. in_use rs i \<Longrightarrow> stored (us i) = (if i = k + 1 \<or> reached rs (k + 1) i
        then delivered n data r (rs ! i) (es i) (stored ((ps(k := qs)) i)) else stored ((ps(k := qs)) i))"
      by blast
    have "\<not> reached rs (k + 1) k" by (simp add: reached_def)
    then have "stored (us i) = (if i = k \<or> reached rs k i
        then delivered n data r (rs ! i) (es i) (stored (ps i)) else stored (ps i))" if "in_use rs i" for i
      using us(2) [OF that] t(3) that True by (cases "i = k") (simp_all add: reached)
    then show ?thesis unfolding run if_P [OF True] using us(1) by blast
  next
    case False
    have "stored ((ps(k := qs)) i) = (if i = k \<or> reached rs k i
        then delivered n data r (rs ! i) (es i) (stored (ps i)) else stored (ps i))" if "in_use rs i" for i
      using False t(3) that by (cases "i = k") (simp_all add: reached)
    then show ?thesis unfolding run if_not_P [OF False] snd_conv using t(2) by blast
  qed
qed

lemma rec_loop_fold: "rec_loop (\<lambda>e n a. Inr (g e a)) rs n a = Done (n + of_nat (length rs) + 1) [] (fold g rs a)"
  by (induction rs arbitrary: n a) (simp_all add: ac_simps)

lemma fold_unused: "\<forall>e \<in> set rs. e = empty_client \<Longrightarrow>
    fold (\<lambda>e a. if ec_client_status e \<noteq> EMPTY then ec_client_address e else a) rs d = d"
  by (induction rs) (simp_all add: enum_defs)

text \<open>The address of the last slot in use.\<close>

lemma run_last_address:
  assumes "reg s rs" "own_addresses rs"
  shows "(\<And>j. \<not> in_use rs j) \<Longrightarrow> run_state (get_last_client_address d) s = (d, s)"
    and "in_use rs m \<Longrightarrow> (\<And>j. m < j \<Longrightarrow> \<not> in_use rs j) \<Longrightarrow>
      run_state (get_last_client_address d) s = (ec_client_address (rs ! m), s)"
proof -
  have h: "client.holds s client_registry rs" using assms(1) by (simp add: reg_def)
  note run = get_last_client_address_def client.holds_open [OF h] client.holds_loop [OF h]
    FILE_READ_def rec_loop_fold State_Monad.return_def
  show "run_state (get_last_client_address d) s = (d, s)" if "\<And>j. \<not> in_use rs j"
  proof -
    have "\<forall>e \<in> set rs. e = empty_client" using that by (auto simp: in_use_def in_set_conv_nth)
    then show ?thesis by (simp add: run fold_unused)
  qed
  show "run_state (get_last_client_address d) s = (ec_client_address (rs ! m), s)"
    if m: "in_use rs m" "\<And>j. m < j \<Longrightarrow> \<not> in_use rs j"
  proof -
    have "\<forall>e \<in> set (drop (Suc m) rs). e = empty_client"
    proof
      fix e
      assume "e \<in> set (drop (Suc m) rs)"
      then obtain j where j: "j < length (drop (Suc m) rs)" "e = drop (Suc m) rs ! j"
        unfolding in_set_conv_nth by blast
      then have j: "Suc m + j < length rs" "e = rs ! (Suc m + j)" by simp_all
      then show "e = empty_client" using m(2) [of "Suc m + j"] by (auto simp: in_use_def)
    qed
    moreover have "rs = take m rs @ rs ! m # drop (Suc m) rs"
      using m(1) by (intro id_take_nth_drop) (simp add: in_use_def)
    moreover have "ec_client_status (rs ! m) \<noteq> EMPTY" using assms(2) m(1) by (simp add: own_addresses_def)
    moreover have "fold g rs d = fold g (drop (Suc m) rs) (g (rs ! m) (fold g (take m rs) d))"
      if "rs = take m rs @ rs ! m # drop (Suc m) rs" for g :: "entry_client \<Rightarrow> device_address \<Rightarrow> device_address"
      by (subst that) (simp only: fold_append fold_simps comp_apply)
    ultimately have "fold (\<lambda>e a. if ec_client_status e \<noteq> EMPTY then ec_client_address e else a) rs d
        = ec_client_address (rs ! m)"
      by (simp only: fold_unused not_False_eq_True if_True)
    then show ?thesis by (simp add: run)
  qed
qed

text \<open>
  The clients that a message of the broker gets to: the one in the first slot, and the others up to
  the first cleared slot behind it, without the last client of the registry.
\<close>

definition served :: "entry_client list \<Rightarrow> nat \<Rightarrow> bool" where
  "served rs i \<longleftrightarrow> in_use rs i \<and>
     (i = 0 \<or> (\<forall>j. 0 < j \<and> j \<le> i \<longrightarrow> in_use rs j) \<and> (\<exists>j > i. in_use rs j))"

text \<open>
  C10: A message from the broker of up to 248 bytes is stored, once, with the topic id and quality
  of service of the subscription, for every client that is active, asleep or awake, has subscribed
  to its topic and is served: its slot is the first one of the registry, or no slot between the
  first one and its own is cleared and it is not the last client of the registry.  For every other
  client nothing is stored: a cleared slot, which every deleted client leaves behind, cuts off the
  clients behind it.  (For clients with different addresses whose status has been set, fewer than
  65536 slots and fewer than 65534 slots for publishes of a client.)
\<close>

theorem broker_message_stored:
  fixes s :: gateway and n data :: bytes and r :: bool and es :: "nat \<Rightarrow> entry_subscription list"
  assumes "reg s rs" "\<not> transaction_started s" "\<not> error s" "own_addresses rs" "counts_of s gs"
    and "\<And>i. in_use rs i \<Longrightarrow> device_subs s (rs ! i) (es i)"
    and "\<And>i. in_use rs i \<Longrightarrow> device_publishes s (rs ! i) (ps i) \<and> length (ps i) < 65534"
    and "no_nul n" "n \<noteq> []" "length n < 255" "length data \<le> 248"
  defines "t \<equiv> snd (run_state (core_publish_broker n data r) s)"
  shows "reg t rs \<and> \<not> transaction_started t \<and> (\<forall>i. in_use rs i \<longrightarrow> (\<exists>qs. device_publishes t (rs ! i) qs \<and>
    stored qs = (if served rs i then delivered n data r (rs ! i) (es i) (stored (ps i)) else stored (ps i))))"
proof -
  have g: "global_name n" using assms(8-10) by (simp add: global_name_def topic_name_ok_def)
  have bad: "\<not> bad_topic_name (Some n)" by (rule not_bad_name [OF g])
  have b: "boxes s rs es ps" using assms(1,2,6,7) by (simp add: boxes_def)
  have nth0: "run_state (get_nth_client 0) s = (if 0 < length rs then rs ! 0 else empty_client, s)"
    by (rule run_get_nth_client [OF assms(1)]) simp
  have max: "\<not> unat get_maximum_publish_payload_length < length data"
    using assms(11) by (simp add: get_maximum_publish_payload_length_def getMaximumMessageLength_def)
  note run = core_publish_broker_def max run_global_count [OF assms(5,3) g] run_walk_fuel
    slots_reg [OF assms(1)] split_beta State_Monad.return_def
  show ?thesis
  proof (cases "\<exists>j. in_use rs j")
    case False
    then have "t = s"
      using run_last_address(1) [OF assms(1,4), of empty_address]
      by (simp add: t_def run is_address_empty_iff empty_address_def)
    then show ?thesis using assms(1,2) False by blast
  next
    case True
    define m where "m = Max {j. in_use rs j}"
    have fin: "finite {j. in_use rs j}" by (rule finite_subset [of _ "{..<length rs}"]) (auto simp: in_use_def)
    then have m: "in_use rs m" unfolding m_def using Max_in [OF fin] True by blast
    have last: "\<not> in_use rs j" if "m < j" for j using Max_ge [OF fin, of j] that unfolding m_def by auto
    have len: "length rs \<le> (length rs + 2) + 0" "0 < length rs" using m by (auto simp: in_use_def)
    have "\<exists>qs. boxes (snd (run_state (publish_walk (length rs + 2) (ec_client_address (rs ! m)) n data r (0 + 1) (rs ! 0)) s)) rs es qs \<and>
        (\<forall>i. in_use rs i \<longrightarrow> stored (qs i) = (if i = 0 \<or> reached rs 0 i
          then delivered n data r (rs ! i) (es i) (stored (ps i)) else stored (ps i)))"
      by (rule publish_walk_stores [OF assms(4) _ bad m last b _ _ len(1)]) (use assms(7,11) in simp_all)
    moreover have "t = snd (run_state (publish_walk (length rs + 2) (ec_client_address (rs ! m)) n data r (0 + 1) (rs ! 0)) s)"
      using nth0 len(2) run_last_address(2) [OF assms(1,4) m last] in_use_simps(5) [OF _ assms(4) m] assms(1)
      by (simp add: t_def run reg_def del: publish_walk.simps)
    moreover have "(i = 0 \<or> reached rs 0 i) \<longleftrightarrow> served rs i" if "in_use rs i" for i
      using that by (auto simp: served_def reached_def)
    ultimately obtain qs where qs: "boxes t rs es qs" "\<And>i. in_use rs i \<Longrightarrow> stored (qs i) =
        (if served rs i then delivered n data r (rs ! i) (es i) (stored (ps i)) else stored (ps i))"
      by (metis (no_types, lifting))
    then show ?thesis unfolding boxes_def by blast
  qed
qed

section \<open>Witness\<close>


definition alice_listening :: gateway where
  "alice_listening = close_transaction (with_counts [] (pubs.with_table [] (subs.with_table
     [new_subscription (topic_id 0) 1 [116]] in_alice)))"

lemma own_alice: "own_addresses [alice]" "in_use [alice] i \<longleftrightarrow> i = 0" "served [alice] 0"
proof -
  have "alice \<noteq> empty_client" by (rule live_entry_has_id [OF live_alice])
  then show use: "in_use [alice] i \<longleftrightarrow> i = 0" for i by (auto simp: in_use_def)
  show "own_addresses [alice]" "served [alice] 0" by (simp_all add: own_addresses_def served_def use enum_defs)
qed

lemma alice_listening_simps: "reg alice_listening [alice]" "\<not> transaction_started alice_listening"
  "\<not> error alice_listening" "counts_of alice_listening []"
  "device_subs alice_listening alice [new_subscription (topic_id 0) 1 [116]]"
  "device_publishes alice_listening alice []"
proof -
  let ?S = "[new_subscription (topic_id 0) 1 [116]]"
  let ?u = "pubs.with_table [] (subs.with_table ?S in_alice)"
  have wf: "wf_subscription (new_subscription (topic_id 0) 1 [116])"
    by (simp add: new_subscription_def wf_subscription_def)
  have e: "entry in_alice = alice" by simp
  show "reg alice_listening [alice]" "\<not> transaction_started alice_listening" "\<not> error alice_listening"
    by (simp_all add: alice_listening_def in_alice_def)
  show "counts_of alice_listening []"
    unfolding alice_listening_def counts_of_outside
    using holds_with_counts [of "[]" ?u] by (simp add: counts_of_def count_table_ok_def)
  have d: "client_file alice SUBSCRIBE_FILE_ENDING \<noteq> client_file alice PUBLISH_FILE_ENDING"
    by (simp add: client_file_def SUBSCRIBE_FILE_ENDING_def PUBLISH_FILE_ENDING_def)
  have p: "path_in in_alice n = path_in with_alice n" for n by (simp add: in_alice_def)
  show "device_subs alice_listening alice ?S"
    using wf d by (simp add: alice_listening_def mqtt_sub_other [symmetric] with_counts_files device_subs_def
        subs_table_file pubs.with_table_files subs.with_table_files pubs.table_file_def subs.table_file_def e)
  have "mqtt_sub \<noteq> client_file alice PUBLISH_FILE_ENDING" by (rule mqtt_sub_other)
  then show "device_publishes alice_listening alice []"
    by (simp add: alice_listening_def device_publishes_def publishes_of_def publishes_ok_def pubs_table_file
        with_counts_files pubs.with_table_files subs.with_table_files pubs.table_file_def subs.table_file_def e)
qed

lemma broker_message_stored_witness:
  "\<exists>qs. device_publishes (snd (run_state (core_publish_broker [116] [1, 2] True) alice_listening)) alice qs \<and>
    stored qs = {#([1, 2], topic_id 0, 1, True)#}"
proof -
  have n: "cstr (padz 255 [116]) = [116]" by (rule cstr_padz) (simp_all add: no_nul_def)
  have "delivered [116] [1, 2] True alice [new_subscription (topic_id 0) 1 [116]] (stored []) =
      {#([1, 2], topic_id 0, 1, True)#}"
    using n by (simp add: delivered_def names_topic_def new_subscription_def stored_def reachable_def enum_defs
        MAXIMUM_TOPIC_NAME_LENGTH_def)
  then show ?thesis
    using broker_message_stored [of alice_listening "[alice]" "[]" "\<lambda>i. [new_subscription (topic_id 0) 1 [116]]"
        "\<lambda>i. []" "[116]" "[1, 2]" True] alice_listening_simps
    by (simp add: own_alice no_nul_def)
qed

end
