(* ===== verification/Layouts.thy ===== *)
theory Layouts
  imports TableEntries
begin

text \<open>
  The layouts of \<open>TableEntries\<close> put together: the records of the model are exactly the structs that
  fit into the bytes of a slot.
\<close>

lemma bytes_of_int [simp]: "length bs = 2 \<Longrightarrow> u16_bytes (u16_of bs) = bs"
  "length bs = 4 \<Longrightarrow> u32_bytes (u32_of bs) = bs"
proof -
  show "u16_bytes (u16_of bs) = bs" if "length bs = 2"
    using that le_nat_bound [of bs] le_bytes_le_nat [of bs] by (simp add: u16_bytes_def u16_of_def unat_of_nat)
  show "u32_bytes (u32_of bs) = bs" if "length bs = 4"
    using that le_nat_bound [of bs] le_bytes_le_nat [of bs] by (simp add: u32_bytes_def u32_of_def unat_of_nat)
qed

text \<open>The packed struct \<open>entry_client\<close> has no byte that its fields do not hold.\<close>

lemma fld_split: "length bs = n \<Longrightarrow> off + len \<le> n \<Longrightarrow> fld off len bs @ drop (off + len) bs = drop off bs"
  unfolding fld_def by (metis append_take_drop_id drop_drop add.commute)

lemma enc_dec_client:
  assumes "length bs = 51"
  shows "enc_client (dec_client bs) = bs"
proof -
  have b: "[byte_at off bs] @ drop (Suc off) bs = drop off bs" if "off < 51" for off
    using that assms by (simp add: byte_at_def Cons_nth_drop_Suc)
  have "bs = fld 0 24 bs @ drop 24 bs" by (simp add: fld_def)
  also have "drop 24 bs = fld 24 9 bs @ drop 33 bs" using fld_split [of bs 51 24 9] assms by simp
  also have "drop 33 bs = fld 33 6 bs @ drop 39 bs" using fld_split [of bs 51 33 6] assms by simp
  also have "drop 39 bs = [byte_at 39 bs] @ drop 40 bs" using b [of 39] by simp
  also have "drop 40 bs = fld 40 4 bs @ drop 44 bs" using fld_split [of bs 51 40 4] assms by simp
  also have "drop 44 bs = fld 44 4 bs @ drop 48 bs" using fld_split [of bs 51 44 4] assms by simp
  also have "drop 48 bs = fld 48 2 bs @ drop 50 bs" using fld_split [of bs 51 48 2] assms by simp
  also have "drop 50 bs = [byte_at 50 bs]" using b [of 50] assms by simp
  finally have bs: "bs = fld 0 24 bs @ fld 24 9 bs @ fld 33 6 bs @ [byte_at 39 bs] @ fld 40 4 bs @
      fld 44 4 bs @ fld 48 2 bs @ [byte_at 50 bs]" by simp
  have "length (fld 40 4 bs) = 4" "length (fld 44 4 bs) = 4" "length (fld 48 2 bs) = 2"
    using assms by (simp_all add: fld_def)
  then show ?thesis using bs by (simp add: enc_client_def dec_client_def)
qed

lemmas lengths = client.length_enc [unfolded sizeof_defs] reg.length_enc [unfolded sizeof_defs]
  subs.length_enc [unfolded sizeof_defs] msub.length_enc [unfolded sizeof_defs]
  will.length_enc [unfolded sizeof_defs] pub.length_enc [unfolded sizeof_defs]

lemmas decodings = client.dec_enc reg.dec_enc subs.dec_enc msub.dec_enc will.dec_enc pub.dec_enc

lemma length_fld: "off + len \<le> length bs \<Longrightarrow> length (fld off len bs) = len"
  by (simp add: fld_def)

text \<open>
  Every record of a table takes exactly the bytes of its struct - 51 for a client, 258 for a
  registration or a subscription, 260 for a count, 513 for a will, 272 for a publish - and is read
  back from them as it was; every block of that size is read as a record whose arrays have their
  declared lengths; and a client is determined by its bytes and they by it.
\<close>

theorem struct_layouts:
  fixes c :: entry_client and g :: entry_registration and u :: entry_subscription
    and m :: entry_mqtt_subscription and w :: entry_will and p :: entry_publish
  shows "(wf_client c \<longrightarrow> length (enc_client c) = 51 \<and> dec_client (enc_client c) = c) \<and>
    (wf_registration g \<longrightarrow> length (enc_registration g) = 258 \<and> dec_registration (enc_registration g) = g) \<and>
    (wf_subscription u \<longrightarrow> length (enc_subscription u) = 258 \<and> dec_subscription (enc_subscription u) = u) \<and>
    (wf_mqtt_subscription m \<longrightarrow> length (enc_mqtt_subscription m) = 260 \<and>
      dec_mqtt_subscription (enc_mqtt_subscription m) = m) \<and>
    (wf_will w \<longrightarrow> length (enc_will w) = 513 \<and> dec_will (enc_will w) = w) \<and>
    (wf_publish p \<longrightarrow> length (enc_publish p) = 272 \<and> dec_publish (enc_publish p) = p) \<and>
    (length bs = 51 \<longrightarrow> wf_client (dec_client bs) \<and> enc_client (dec_client bs) = bs) \<and>
    (length bs = 258 \<longrightarrow> wf_registration (dec_registration bs) \<and> wf_subscription (dec_subscription bs)) \<and>
    (length bs = 260 \<longrightarrow> wf_mqtt_subscription (dec_mqtt_subscription bs)) \<and>
    (length bs = 513 \<longrightarrow> wf_will (dec_will bs)) \<and> (length bs = 272 \<longrightarrow> wf_publish (dec_publish bs))"
proof (intro conjI impI)
  show "wf_registration (dec_registration bs)" "wf_subscription (dec_subscription bs)" if "length bs = 258"
    using that by (simp_all add: wf_registration_def dec_registration_def wf_subscription_def
        dec_subscription_def length_fld)
  show "wf_mqtt_subscription (dec_mqtt_subscription bs)" if "length bs = 260"
    using that by (simp add: wf_mqtt_subscription_def dec_mqtt_subscription_def length_fld)
  show "wf_will (dec_will bs)" if "length bs = 513"
    using that by (simp add: wf_will_def dec_will_def length_fld)
  show "wf_publish (dec_publish bs)" if "length bs = 272"
    using that by (simp add: wf_publish_def dec_publish_def length_fld)
  show "wf_client (dec_client bs)" "enc_client (dec_client bs) = bs" if "length bs = 51"
    using that enc_dec_client by simp_all
qed (simp_all add: lengths decodings)

lemma struct_layouts_witness:
  "length (enc_client empty_client) = 51 \<and> dec_publish (enc_publish empty_publish) = empty_publish"
  using struct_layouts [of empty_client "dec_registration []" empty_subscription
      empty_mqtt_subscription "dec_will []" empty_publish "[]"] by simp

end
