(* ===== verification/ClientStack.thy ===== *)
theory ClientStack
  imports MqttConnect MqttPublish MqttSubscribe
begin

text \<open>
  What the MQTT client library stands on: the class \<open>IPStack\<close> (a TCP socket) and the class
  \<open>Countdown\<close> (a timer) of
  \<open>Implementation/paho/pahomqttembeddedc/MQTTClient/src/linux/linux.cpp\<close>, and the callbacks of
  \<open>MQTTClient/src/FP.h\<close>.

  The operating system is in the state: \<open>recv_result n k\<close> is what the \<open>n\<close>th call of \<open>recv\<close> gives
  for \<open>k\<close> bytes of room - \<open>Received []\<close> when the peer has closed the connection - \<open>write_result n k\<close>
  the return code of the \<open>n\<close>th \<open>write\<close> of \<open>k\<close> bytes, and \<open>time_of_day n\<close> what the \<open>n\<close>th
  \<open>gettimeofday\<close> says, in microseconds.  \<open>setsockopt\<close> only changes how long \<open>recv\<close> waits, which is
  part of what \<open>recv_result\<close> gives.  \<open>wire\<close> holds the bytes that \<open>write\<close> has taken, oldest first.

  An operation gives its value and the state after it; \<open>None\<close> is a call that does not come back,
  because a loop does not end.
\<close>

datatype received = Received bytes | RecvError int

record stack =
  recv_result :: "nat \<Rightarrow> nat \<Rightarrow> received"
  recvs :: nat
  write_result :: "nat \<Rightarrow> nat \<Rightarrow> int"
  writes :: nat
  wire :: bytes
  time_of_day :: "nat \<Rightarrow> int"
  clock_reads :: nat

section \<open>The socket\<close>

definition sys_recv :: "nat \<Rightarrow> 'z stack_scheme \<Rightarrow> received \<times> 'z stack_scheme" where
  "sys_recv len c = (recv_result c (recvs c) len, c\<lparr>recvs := recvs c + 1\<rparr>)"

text \<open>\<open>Socket_error\<close> gives \<open>errno\<close>, whatever the operation was.\<close>

definition Socket_error :: "int \<Rightarrow> int" where
  "Socket_error errno = errno"

text \<open>
  The loop of \<open>IPStack::read\<close> with the bytes it has put into the buffer so far: their count, or -1
  after an error, and the bytes.
\<close>

partial_function (option) read_loop ::
    "nat \<Rightarrow> bytes \<Rightarrow> 'z stack_scheme \<Rightarrow> (int \<times> bytes \<times> 'z stack_scheme) option" where
  "read_loop len got c =
     (if length got < len then
        (case sys_recv (len - length got) c of (r, c) \<Rightarrow>
           (case r of
              RecvError errno \<Rightarrow>
                if Socket_error errno \<noteq> 0 then Some (-1, got, c) else read_loop len got c
            | Received d \<Rightarrow> read_loop len (got @ d) c))
      else Some (int (length got), got, c))"

definition ip_read :: "int \<Rightarrow> 'z stack_scheme \<Rightarrow> (int \<times> bytes \<times> 'z stack_scheme) option" where
  "ip_read len c = read_loop (nat len) [] c"

definition ip_write :: "bytes \<Rightarrow> 'z stack_scheme \<Rightarrow> int \<times> 'z stack_scheme" where
  "ip_write d c =
     (let rc = write_result c (writes c) (length d) in
      (rc, c\<lparr>writes := writes c + 1, wire := wire c @ take (nat rc) d\<rparr>))"

section \<open>The timer\<close>

text \<open>A \<open>Countdown\<close> is its \<open>end_time\<close>; \<open>timersub\<close> keeps the microseconds below a second.\<close>

type_synonym countdown = int

definition gettimeofday :: "'z stack_scheme \<Rightarrow> int \<times> 'z stack_scheme" where
  "gettimeofday c = (time_of_day c (clock_reads c), c\<lparr>clock_reads := clock_reads c + 1\<rparr>)"

definition timer_expired :: "countdown \<Rightarrow> 'z stack_scheme \<Rightarrow> bool \<times> 'z stack_scheme" where
  "timer_expired end_time c = (case gettimeofday c of (now, c) \<Rightarrow>
     let res = end_time - now; tv_sec = res div 1000000; tv_usec = res mod 1000000
     in (tv_sec < 0 \<or> (tv_sec = 0 \<and> tv_usec \<le> 0), c))"

definition countdown_ms :: "int \<Rightarrow> 'z stack_scheme \<Rightarrow> countdown \<times> 'z stack_scheme" where
  "countdown_ms ms c = (case gettimeofday c of (now, c) \<Rightarrow>
     (now + (ms sdiv 1000) * 1000000 + (ms smod 1000) * 1000, c))"

definition start_countdown :: "int \<Rightarrow> 'z stack_scheme \<Rightarrow> countdown \<times> 'z stack_scheme" where
  "start_countdown seconds c = (case gettimeofday c of (now, c) \<Rightarrow> (now + seconds * 1000000, c))"

definition left_ms :: "countdown \<Rightarrow> 'z stack_scheme \<Rightarrow> int \<times> 'z stack_scheme" where
  "left_ms end_time c = (case gettimeofday c of (now, c) \<Rightarrow>
     let res = end_time - now; tv_sec = res div 1000000; tv_usec = res mod 1000000
     in (if tv_sec < 0 then 0 else tv_sec * 1000 + tv_usec div 1000, c))"

section \<open>Callbacks\<close>

text \<open>An \<open>FP\<close> to which only functions are attached: the function, once there is one.\<close>

type_synonym callback = "nat option"

definition FP_new :: callback where "FP_new = None"
definition FP_attach :: "nat \<Rightarrow> callback \<Rightarrow> callback" where "FP_attach function fp = Some function"
definition FP_attached :: "callback \<Rightarrow> bool" where "FP_attached fp \<longleftrightarrow> fp \<noteq> None"

section \<open>Lemmas\<close>

lemma expired_iff: "fst (timer_expired e c) \<longleftrightarrow> e \<le> time_of_day c (clock_reads c)"
proof -
  have "x div k < 0 \<or> (x div k = 0 \<and> x mod k \<le> 0) \<longleftrightarrow> x \<le> 0" if "0 < k" for x k :: int
  proof -
    have "0 \<le> x mod k" using that by simp
    moreover have "x div k = 0 \<Longrightarrow> x = x mod k"
      using div_mult_mod_eq [of x k] by simp
    ultimately show ?thesis using that by (auto simp: pos_imp_zdiv_neg_iff)
  qed
  from this [of 1000000] show ?thesis by (simp add: timer_expired_def gettimeofday_def Let_def)
qed

lemma clock_states:
  "snd (timer_expired e c) = c\<lparr>clock_reads := clock_reads c + 1\<rparr>"
  "snd (left_ms e c) = c\<lparr>clock_reads := clock_reads c + 1\<rparr>"
  "snd (countdown_ms ms c) = c\<lparr>clock_reads := clock_reads c + 1\<rparr>"
  "snd (start_countdown s c) = c\<lparr>clock_reads := clock_reads c + 1\<rparr>"
  by (simp_all add: timer_expired_def left_ms_def countdown_ms_def start_countdown_def
      gettimeofday_def Let_def)

end
