(* ===== verification/MqttClient.thy ===== *)
theory MqttClient
  imports ClientStack
begin

text \<open>
  The MQTT client library the gateway talks to its broker with:
  \<open>Implementation/paho/pahomqttembeddedc/MQTTClient/src/MQTTClient.h\<close>, the class template
  \<open>MQTT::Client\<close> at the instance the gateway uses, \<open>Client<IPStack, Countdown, 512, 5>\<close>, with the
  settings it is compiled with, \<open>MQTTCLIENT_QOS1 = 1\<close> and \<open>MQTTCLIENT_QOS2 = 0\<close>.

  The members of the object are added to the state of its network stack.  A topic filter is kept
  by its address, and \<open>text_at\<close> are the characters found there now: the caller may change them.
  \<open>behind\<close> are the bytes that follow \<open>readbuf\<close> in the object, which a deserializer may run into.
  \<open>faulted\<close> says that an object has been read or written outside its bounds, or a null pointer
  followed, after which nothing is known any more.  \<open>indet_msgid\<close> is what the packet id of a message holds that has not been assigned.
  \<open>delivered\<close> are the calls of callbacks, oldest first, with the topic and the message passed;
  what a callback does in turn is not part of this component.
\<close>

unbundle bit_operations_syntax

definition MQTT_BUFFER_OVERFLOW :: int where "MQTT_BUFFER_OVERFLOW = -2"
definition MQTT_FAILURE :: int where "MQTT_FAILURE = -1"
definition MQTT_SUCCESS :: int where "MQTT_SUCCESS = 0"

definition MAX_MQTT_PACKET_SIZE :: nat where "MAX_MQTT_PACKET_SIZE = 512"
definition MAX_MESSAGE_HANDLERS :: nat where "MAX_MESSAGE_HANDLERS = 5"
definition MAX_PACKET_ID :: int where "MAX_PACKET_ID = 65535"

record message_handler =
  topicFilter :: "nat option"
  fp :: callback

text \<open>
  A message is what \<open>MQTTDeserialize_publish\<close> has stored of it (\<open>None\<close>: not assigned), and the
  topic name is part of it.
\<close>

record client = stack +
  command_timeout_ms :: int
  sendbuf :: bytes
  readbuf :: bytes
  behind :: bytes
  last_sent :: countdown
  last_received :: countdown
  keepAliveInterval :: int
  ping_outstanding :: bool
  cleansession :: bool
  next_packetid :: int
  messageHandlers :: "message_handler list"
  defaultMessageHandler :: callback
  isconnected :: bool
  pubbuf :: bytes
  inflightLen :: int
  inflightMsgid :: u16
  inflightQoS :: int
  text_at :: "nat \<Rightarrow> bytes"
  indet_msgid :: u16
  faulted :: bool
  delivered :: "(nat \<times> publish_out) list"

text \<open>An access that may fault, and the value the model goes on with when it does.\<close>

definition access :: "'a option \<Rightarrow> 'a \<Rightarrow> client \<Rightarrow> 'a \<times> client" where
  "access r v c = (case r of Some x \<Rightarrow> (x, c) | None \<Rightarrow> (v, c\<lparr>faulted := True\<rparr>))"

section \<open>Packet ids and sessions\<close>

definition next_id :: "int \<Rightarrow> int" where
  "next_id n = (if n = MAX_PACKET_ID then 1 else n + 1)"

definition getNext :: "client \<Rightarrow> u16 \<times> client" where
  "getNext c = (of_int (next_id (next_packetid c)), c\<lparr>next_packetid := next_id (next_packetid c)\<rparr>)"

definition cleanSession :: "client \<Rightarrow> client" where
  "cleanSession c = c\<lparr>ping_outstanding := False,
     messageHandlers := map (\<lambda>h. h\<lparr>topicFilter := None\<rparr>) (messageHandlers c),
     isconnected := False, inflightMsgid := 0, inflightQoS := 0\<rparr>"

text \<open>The constructor, on an object whose other members hold whatever was in its memory.\<close>

definition Client_new :: "int \<Rightarrow> client \<Rightarrow> client" where
  "Client_new timeout_ms c = cleanSession (c\<lparr>next_packetid := 0,
     messageHandlers := replicate MAX_MESSAGE_HANDLERS \<lparr>topicFilter = None, fp = FP_new\<rparr>,
     defaultMessageHandler := FP_new, command_timeout_ms := timeout_ms\<rparr>)"

definition setDefaultMessageHandler :: "nat \<Rightarrow> client \<Rightarrow> client" where
  "setDefaultMessageHandler mh c =
     c\<lparr>defaultMessageHandler := FP_attach mh (defaultMessageHandler c)\<rparr>"

section \<open>Sending\<close>

text \<open>A serializer overwrites the front of \<open>sendbuf\<close>.\<close>

definition fill_sendbuf :: "int \<times> bytes \<Rightarrow> client \<Rightarrow> int \<times> client" where
  "fill_sendbuf r c = (fst r, c\<lparr>sendbuf := snd r @ drop (length (snd r)) (sendbuf c)\<rparr>)"

partial_function (option) send_loop :: "int \<Rightarrow> countdown \<Rightarrow> int \<Rightarrow> client \<Rightarrow> (int \<times> client) option" where
  "send_loop len timer sent c =
     (if sent < len then
        (case timer_expired timer c of (expired, c) \<Rightarrow>
           if expired then Some (sent, c)
           else
             (case access (copy_from (drop (nat sent) (sendbuf c)) (len - sent)) [] c of (d, c) \<Rightarrow>
              case left_ms timer c of (_, c) \<Rightarrow>
              case ip_write d c of (rc, c) \<Rightarrow>
                if rc < 0 then Some (sent, c) else send_loop len timer (sent + rc) c))
      else Some (sent, c))"

definition sendPacket :: "int \<Rightarrow> countdown \<Rightarrow> client \<Rightarrow> (int \<times> client) option" where
  "sendPacket len timer c = do {
     (sent, c) \<leftarrow> send_loop len timer 0 c;
     Some (if sent = len then
         (MQTT_SUCCESS,
          if keepAliveInterval c > 0
          then (case start_countdown (keepAliveInterval c) c of (e, c) \<Rightarrow> c\<lparr>last_sent := e\<rparr>) else c)
       else (MQTT_FAILURE, c))
   }"

section \<open>Receiving\<close>

text \<open>
  \<open>decodePacket\<close> gives the value read so far when a read fails or there are more than four length
  bytes; its return code is not used.  \<open>timeout\<close> only goes to the socket.
\<close>

function decodePacket_loop :: "nat \<Rightarrow> int \<Rightarrow> int \<Rightarrow> client \<Rightarrow> (int \<times> client) option" where
  "decodePacket_loop len multiplier value c =
     (if len + 1 > MAX_NO_OF_REMAINING_LENGTH_BYTES then Some (value, c)
      else case ip_read 1 c of
        None \<Rightarrow> None
      | Some (rc, d, c) \<Rightarrow>
          if rc \<noteq> 1 then Some (value, c)
          else
            let value = value + uint (hd d AND 127) * multiplier in
            if hd d AND 128 \<noteq> 0 then decodePacket_loop (len + 1) (multiplier * 128) value c
            else Some (value, c))"
  by pat_completeness auto
termination
  by (relation "measure (\<lambda>(len, m, v, c). 5 - len)") (auto simp: MAX_NO_OF_REMAINING_LENGTH_BYTES_def)

declare decodePacket_loop.simps [simp del]

definition decodePacket :: "client \<Rightarrow> (int \<times> client) option" where
  "decodePacket c = decodePacket_loop 0 1 0 c"

text \<open>Bytes put into a buffer at an offset.\<close>

definition overwrite :: "nat \<Rightarrow> bytes \<Rightarrow> bytes \<Rightarrow> bytes" where
  "overwrite off d buf = take off buf @ d @ drop (off + length d) buf"

definition read_into :: "nat \<Rightarrow> int \<Rightarrow> client \<Rightarrow> (int \<times> client) option" where
  "read_into off len c = do {
     (rc, d, c) \<leftarrow> ip_read len c;
     Some (rc, c\<lparr>readbuf := overwrite off d (readbuf c)\<rparr>)
   }"

definition readPacket :: "countdown \<Rightarrow> client \<Rightarrow> (int \<times> client) option" where
  "readPacket timer c = do {
     (rc, c) \<leftarrow> read_into 0 1 (snd (left_ms timer c));
     if rc \<noteq> 1 then Some (MQTT_FAILURE, c)
     else do {
       (rem_len, c) \<leftarrow> decodePacket (snd (left_ms timer c));
       let len = 1 + length (MQTTPacket_encode rem_len);
       let c = c\<lparr>readbuf := overwrite 1 (MQTTPacket_encode rem_len) (readbuf c)\<rparr>;
       if rem_len > int MAX_MQTT_PACKET_SIZE - int len then Some (MQTT_BUFFER_OVERFLOW, c)
       else do {
         (rc, c) \<leftarrow> (if rem_len > 0 then read_into len rem_len (snd (left_ms timer c))
                   else Some (rem_len, c));
         if rc \<noteq> rem_len then Some (MQTT_FAILURE, c)
         else Some (uint (header_type (hd (readbuf c))),
           if keepAliveInterval c > 0
           then (case start_countdown (keepAliveInterval c) c of (e, c) \<Rightarrow> c\<lparr>last_received := e\<rparr>)
           else c)
       }
     }
   }"

section \<open>Delivering a message\<close>

text \<open>
  \<open>isTopicMatched\<close> with what is left of the filter and of the topic name; \<open>/\<close>, \<open>+\<close> and \<open>#\<close> are 47,
  43 and 35.  A \<open>break\<close> leaves the name unfinished, so the answer is no; \<open>+\<close> moves to the end of
  the level of the name.
\<close>

function match_loop :: "bytes \<Rightarrow> bytes \<Rightarrow> bool" where
  "match_loop (f # curf) (n # curn) =
     (if n = 47 \<and> f \<noteq> 47 then False
      else if f \<noteq> 43 \<and> f \<noteq> 35 \<and> f \<noteq> n then False
      else if f = 43 then match_loop curf (dropWhile (\<lambda>b. b \<noteq> 47) curn)
      else if f = 35 then match_loop curf []
      else match_loop curf curn)"
| "match_loop [] curn \<longleftrightarrow> curn = []"
| "match_loop (f # curf) [] \<longleftrightarrow> False"
  by pat_completeness auto
termination by (relation "measure (\<lambda>(curf, curn). length curf)") auto

text \<open>A null pointer is read through when the name has a length but no data.\<close>

definition topic_bytes :: "mqtt_string \<Rightarrow> bytes option" where
  "topic_bytes topicName = (case lenstring_data topicName of
     None \<Rightarrow> if lenstring_len topicName > 0 then None else Some []
   | Some d \<Rightarrow> copy_from d (lenstring_len topicName))"

definition isTopicMatched :: "bytes \<Rightarrow> mqtt_string \<Rightarrow> bool option" where
  "isTopicMatched topic_filter topicName =
     (if cstr topic_filter = [] then Some (lenstring_len topicName = 0)
      else map_option (match_loop (cstr topic_filter)) (topic_bytes topicName))"

definition handler_matches :: "client \<Rightarrow> mqtt_string \<Rightarrow> message_handler \<Rightarrow> bool option" where
  "handler_matches c topicName h = (case topicFilter h of
     None \<Rightarrow> Some False
   | Some a \<Rightarrow> if MQTTPacket_equals topicName (text_at c a) then Some True
              else isTopicMatched (text_at c a) topicName)"

definition call_back :: "callback \<Rightarrow> publish_out \<Rightarrow> client \<Rightarrow> client" where
  "call_back f message c = (case f of
     None \<Rightarrow> c | Some function \<Rightarrow> c\<lparr>delivered := delivered c @ [(function, message)]\<rparr>)"

fun deliver_loop :: "publish_out \<Rightarrow> message_handler list \<Rightarrow> int \<Rightarrow> client \<Rightarrow> int \<times> client" where
  "deliver_loop message [] rc c = (rc, c)"
| "deliver_loop message (h # hs) rc c =
     (case access (handler_matches c (po_topicName message) h) False c of (matches, c) \<Rightarrow>
        if matches \<and> FP_attached (fp h)
        then deliver_loop message hs MQTT_SUCCESS (call_back (fp h) message c)
        else deliver_loop message hs rc c)"

definition deliverMessage :: "publish_out \<Rightarrow> client \<Rightarrow> int \<times> client" where
  "deliverMessage message c =
     (case deliver_loop message (messageHandlers c) MQTT_FAILURE c of (rc, c) \<Rightarrow>
        if rc = MQTT_FAILURE \<and> FP_attached (defaultMessageHandler c)
        then (MQTT_SUCCESS, call_back (defaultMessageHandler c) message c) else (rc, c))"

section \<open>One round\<close>

definition keepalive :: "client \<Rightarrow> (int \<times> client) option" where
  "keepalive c =
     (if keepAliveInterval c = 0 then Some (MQTT_SUCCESS, c)
      else
        (case timer_expired (last_sent c) c of (sent_long_ago, c) \<Rightarrow>
         case (if sent_long_ago then (True, c) else timer_expired (last_received c) c) of (due, c) \<Rightarrow>
           if due \<and> \<not> ping_outstanding c
           then
             (case countdown_ms 1000 c of (timer, c) \<Rightarrow>
              case fill_sendbuf (MQTTSerialize_pingreq (int MAX_MQTT_PACKET_SIZE)) c of (len, c) \<Rightarrow>
                if len > 0
                then do {
                  (rc, c) \<leftarrow> sendPacket len timer c;
                  Some (rc, if rc = MQTT_SUCCESS then c\<lparr>ping_outstanding := True\<rparr> else c)
                }
                else Some (MQTT_FAILURE, c))
           else Some (MQTT_FAILURE, c)))"

text \<open>The answer to a PUBLISH: the return code.\<close>

definition acknowledge :: "publish_out \<Rightarrow> countdown \<Rightarrow> client \<Rightarrow> (int \<times> client) option" where
  "acknowledge message timer c =
     (let packetid = (case po_packetid message of Some p \<Rightarrow> p | None \<Rightarrow> indet_msgid c);
          ack = (\<lambda>t. MQTTSerialize_ack (int MAX_MQTT_PACKET_SIZE) t 0 packetid);
          qos = the (po_qos message) in
      if qos = 0 then Some (MQTT_SUCCESS, c)
      else
        (case (if qos = 1 then fill_sendbuf (ack PUBACK) c
               else if qos = 2 then fill_sendbuf (ack PUBREC) c else (0, c)) of (len, c) \<Rightarrow>
           if len \<le> 0 then Some (MQTT_FAILURE, c) else sendPacket len timer c))"

text \<open>
  A PUBLISH that \<open>MQTTDeserialize_publish\<close> does not understand, or that cannot be acknowledged,
  ends the round before \<open>keepalive\<close>, whose return code is not used.
\<close>

definition cycle :: "countdown \<Rightarrow> client \<Rightarrow> (int \<times> client) option" where
  "cycle timer c = do {
     (packet_type, c) \<leftarrow> readPacket timer c;
     if packet_type = MQTT_FAILURE \<or> packet_type = MQTT_BUFFER_OVERFLOW then do {
       (_, c) \<leftarrow> keepalive c;
       Some (packet_type, c)
     }
     else if packet_type = uint PUBLISH then
       (case access (MQTTDeserialize_publish MQTTString_initializer (readbuf c @ behind c))
           (0, no_publish MQTTString_initializer) c of ((rc, message), c) \<Rightarrow>
          if rc \<noteq> 1 then Some (packet_type, c)
          else do {
            (rc, c) \<leftarrow> acknowledge message timer (snd (deliverMessage message c));
            if rc = MQTT_FAILURE then Some (rc, c)
            else do { (_, c) \<leftarrow> keepalive c; Some (packet_type, c) }
          })
     else do {
       (_, c) \<leftarrow> keepalive (if packet_type = uint PINGRESP then c\<lparr>ping_outstanding := False\<rparr> else c);
       Some (packet_type, c)
     }
   }"

partial_function (option) yield_loop :: "countdown \<Rightarrow> client \<Rightarrow> (int \<times> client) option" where
  "yield_loop timer c = (case timer_expired timer c of (expired, c) \<Rightarrow>
     if expired then Some (MQTT_SUCCESS, c)
     else do {
       (rc, c) \<leftarrow> cycle timer c;
       if rc < 0 then Some (MQTT_FAILURE, c) else yield_loop timer c
     })"

definition Client_yield :: "int \<Rightarrow> client \<Rightarrow> (int \<times> client) option" where
  "Client_yield timeout_ms c =
     (case countdown_ms timeout_ms c of (timer, c) \<Rightarrow> yield_loop timer c)"

partial_function (option) waitfor_loop ::
    "int \<Rightarrow> int \<Rightarrow> countdown \<Rightarrow> client \<Rightarrow> (int \<times> client) option" where
  "waitfor_loop rc packet_type timer c = (case timer_expired timer c of (expired, c) \<Rightarrow>
     if expired then Some (rc, c)
     else do {
       (rc, c) \<leftarrow> cycle timer c;
       if rc = packet_type then Some (rc, c) else waitfor_loop rc packet_type timer c
     })"

definition waitfor :: "byte \<Rightarrow> countdown \<Rightarrow> client \<Rightarrow> (int \<times> client) option" where
  "waitfor packet_type timer c = waitfor_loop MQTT_FAILURE (uint packet_type) timer c"

section \<open>The calls of the gateway\<close>

text \<open>The packet id of an acknowledgement; \<open>mypacketid\<close> is not initialized.\<close>

definition ack_msgid :: "ack_out \<Rightarrow> client \<Rightarrow> u16" where
  "ack_msgid ack c = (case ao_packetid ack of Some p \<Rightarrow> p | None \<Rightarrow> indet_msgid c)"

text \<open>The private \<open>publish\<close>, which sends what is in \<open>sendbuf\<close> and waits for a PUBACK.\<close>

definition publish_packet :: "int \<Rightarrow> countdown \<Rightarrow> int \<Rightarrow> client \<Rightarrow> (int \<times> client) option" where
  "publish_packet len timer qos c = do {
     (rc, c) \<leftarrow> sendPacket len timer c;
     (rc, c) \<leftarrow> (if rc \<noteq> MQTT_SUCCESS \<or> qos \<noteq> 1 then Some (rc, c)
       else do {
         (w, c) \<leftarrow> waitfor PUBACK timer c;
         if w \<noteq> uint PUBACK then Some (MQTT_FAILURE, c)
         else
           (case access (MQTTDeserialize_ack (readbuf c @ behind c))
               (0, \<lparr>ao_packettype = 0, ao_dup = 0, ao_packetid = None\<rparr>) c of ((ok, ack), c) \<Rightarrow>
              Some (if ok \<noteq> 1 then (MQTT_FAILURE, c)
                else (rc, if inflightMsgid c = ack_msgid ack c then c\<lparr>inflightMsgid := 0\<rparr> else c)))
       });
     Some (rc, if rc \<noteq> MQTT_SUCCESS then cleanSession c else c)
   }"

text \<open>The publish that is kept for the next connection, sent again.\<close>

definition resend_inflight :: "countdown \<Rightarrow> int \<Rightarrow> client \<Rightarrow> (int \<times> client) option" where
  "resend_inflight timer rc c =
     (if inflightMsgid c > 0
      then publish_packet (inflightLen c) timer (inflightQoS c) (c\<lparr>sendbuf := pubbuf c\<rparr>)
      else Some (rc, c))"

text \<open>The answer to CONNECT: the return code of a CONNACK.\<close>

definition await_connack :: "countdown \<Rightarrow> client \<Rightarrow> (int \<times> client) option" where
  "await_connack timer c = do {
     (w, c) \<leftarrow> waitfor CONNACK timer c;
     if w \<noteq> uint CONNACK then Some (MQTT_FAILURE, c)
     else
       (case access (MQTTDeserialize_connack (readbuf c @ behind c)) (0, None) c of
          ((ok, connack), c) \<Rightarrow>
            let connack_rc = (case connack of Some (_, r) \<Rightarrow> uint r | None \<Rightarrow> 255)
            in Some (if ok = 1 then connack_rc else MQTT_FAILURE, c))
   }"

definition Client_connect :: "connect_data \<Rightarrow> client \<Rightarrow> (int \<times> client) option" where
  "Client_connect options c =
     (case countdown_ms (command_timeout_ms c) c of (connect_timer, c) \<Rightarrow>
        if isconnected c then Some (MQTT_FAILURE, c)
        else do {
          let c = c\<lparr>keepAliveInterval := uint (cd_keepAliveInterval options),
                    cleansession := cd_cleansession options \<noteq> 0\<rparr>;
          (case access (MQTTSerialize_connect (int MAX_MQTT_PACKET_SIZE) options) (0, []) c of (packet, c) \<Rightarrow>
           case fill_sendbuf packet c of (len, c) \<Rightarrow>
             if len \<le> 0 then Some (MQTT_FAILURE, c)
             else do {
               (rc, c) \<leftarrow> sendPacket len connect_timer c;
               if rc \<noteq> MQTT_SUCCESS then Some (rc, c)
               else do {
                 let c = (if keepAliveInterval c > 0
                   then (case start_countdown (keepAliveInterval c) c of (e, c) \<Rightarrow>
                     c\<lparr>last_received := e\<rparr>) else c);
                 (rc, c) \<leftarrow> await_connack connect_timer c;
                 (rc, c) \<leftarrow> resend_inflight connect_timer rc c;
                 Some (rc, if rc = MQTT_SUCCESS then c\<lparr>isconnected := True\<rparr> else c)
               }
             })
        })"

text \<open>\<open>connect\<close> without options.\<close>

definition Client_connect_default :: "client \<Rightarrow> (int \<times> client) option" where
  "Client_connect_default c = Client_connect MQTTPacket_connectData_initializer c"

text \<open>The string structure of a C string.\<close>

definition cstring_of :: "bytes \<Rightarrow> mqtt_string" where
  "cstring_of text = MQTTString_initializer\<lparr>cstring := Some text\<rparr>"

text \<open>The first free slot takes the filter and its callback.\<close>

fun add_handler :: "nat \<Rightarrow> nat \<Rightarrow> message_handler list \<Rightarrow> message_handler list option" where
  "add_handler a function [] = None"
| "add_handler a function (h # hs) =
     (if topicFilter h = None
      then Some (h\<lparr>topicFilter := Some a, fp := FP_attach function (fp h)\<rparr> # hs)
      else map_option ((#) h) (add_handler a function hs))"

text \<open>
  What \<open>subscribe\<close> does with the SUBACK.  \<open>grantedQoS\<close> is a single \<open>int\<close>, so a SUBACK with more than
  one return code is written behind it.
\<close>

definition accept_suback :: "nat \<Rightarrow> nat \<Rightarrow> int \<Rightarrow> client \<Rightarrow> int \<times> client" where
  "accept_suback a function rc c =
     (case access (MQTTDeserialize_suback 1 (readbuf c @ behind c)) (0, None) c of ((ok, suback), c) \<Rightarrow>
        let granted = (case suback of None \<Rightarrow> [] | Some (_, granted) \<Rightarrow> granted);
            c = (if length granted > 1 then c\<lparr>faulted := True\<rparr> else c);
            grantedQoS = (if granted = [] then -1 else hd granted);
            rc = (if ok = 1 then grantedQoS else rc)
        in if rc \<noteq> 128
          then (case add_handler a function (messageHandlers c) of
              Some hs \<Rightarrow> (0, c\<lparr>messageHandlers := hs\<rparr>)
            | None \<Rightarrow> (rc, c))
          else (rc, c))"

definition Client_subscribe :: "nat \<Rightarrow> int \<Rightarrow> nat \<Rightarrow> client \<Rightarrow> (int \<times> client) option" where
  "Client_subscribe a qos messageHandler c =
     (case countdown_ms (command_timeout_ms c) c of (timer, c) \<Rightarrow> do {
        (rc, c) \<leftarrow> (if \<not> isconnected c then Some (MQTT_FAILURE, c)
          else
            (case getNext c of (packetid, c) \<Rightarrow>
             case access (MQTTSerialize_subscribe (int MAX_MQTT_PACKET_SIZE) 0 packetid
               [(cstring_of (text_at c a), qos)]) (0, []) c of (packet, c) \<Rightarrow>
             case fill_sendbuf packet c of (len, c) \<Rightarrow>
               if len \<le> 0 then Some (MQTT_FAILURE, c)
               else do {
                 (rc, c) \<leftarrow> sendPacket len timer c;
                 if rc \<noteq> MQTT_SUCCESS then Some (rc, c)
                 else do {
                   (w, c) \<leftarrow> waitfor SUBACK timer c;
                   Some (if w = uint SUBACK then accept_suback a messageHandler rc c
                     else (MQTT_FAILURE, c))
                 }
               }));
        Some (rc, if rc \<noteq> MQTT_SUCCESS then cleanSession c else c)
      })"

text \<open>The first slot with the same filter text is cleared.\<close>

fun remove_handler :: "(nat \<Rightarrow> bytes) \<Rightarrow> bytes \<Rightarrow> message_handler list \<Rightarrow> message_handler list" where
  "remove_handler text topic_filter [] = []"
| "remove_handler text topic_filter (h # hs) =
     (if (case topicFilter h of None \<Rightarrow> False | Some a \<Rightarrow> cstr (text a) = cstr topic_filter)
      then h\<lparr>topicFilter := None\<rparr> # hs
      else h # remove_handler text topic_filter hs)"

definition accept_unsuback :: "nat \<Rightarrow> int \<Rightarrow> client \<Rightarrow> int \<times> client" where
  "accept_unsuback a rc c =
     (case access (MQTTDeserialize_unsuback (readbuf c @ behind c)) (0, None) c of ((ok, _), c) \<Rightarrow>
        if ok = 1
        then (0, c\<lparr>messageHandlers :=
          remove_handler (text_at c) (text_at c a) (messageHandlers c)\<rparr>)
        else (rc, c))"

definition Client_unsubscribe :: "nat \<Rightarrow> client \<Rightarrow> (int \<times> client) option" where
  "Client_unsubscribe a c =
     (case countdown_ms (command_timeout_ms c) c of (timer, c) \<Rightarrow> do {
        (rc, c) \<leftarrow> (if \<not> isconnected c then Some (MQTT_FAILURE, c)
          else
            (case getNext c of (packetid, c) \<Rightarrow>
             case access (MQTTSerialize_unsubscribe (int MAX_MQTT_PACKET_SIZE) 0 packetid
               [cstring_of (text_at c a)]) (0, []) c of (packet, c) \<Rightarrow>
             case fill_sendbuf packet c of (len, c) \<Rightarrow>
               if len \<le> 0 then Some (MQTT_FAILURE, c)
               else do {
                 (rc, c) \<leftarrow> sendPacket len timer c;
                 if rc \<noteq> MQTT_SUCCESS then Some (rc, c)
                 else do {
                   (w, c) \<leftarrow> waitfor UNSUBACK timer c;
                   Some (if w = uint UNSUBACK then accept_unsuback a rc c else (MQTT_FAILURE, c))
                 }
               }));
        Some (rc, if rc \<noteq> MQTT_SUCCESS then cleanSession c else c)
      })"

text \<open>
  The three public \<open>publish\<close> functions; the first gives the packet id back through its reference
  parameter.
\<close>

definition publish_id :: "bytes \<Rightarrow> bytes \<Rightarrow> int \<Rightarrow> u16 \<Rightarrow> int \<Rightarrow> bool \<Rightarrow> client \<Rightarrow>
    (int \<times> u16 \<times> client) option" where
  "publish_id topicName payload payloadlen packetid qos retained c =
     (case countdown_ms (command_timeout_ms c) c of (timer, c) \<Rightarrow>
        if \<not> isconnected c then Some (MQTT_FAILURE, packetid, c)
        else
          (case (if qos = 1 \<or> qos = 2 then getNext c else (packetid, c)) of (packetid, c) \<Rightarrow>
           case access (MQTTSerialize_publish (int MAX_MQTT_PACKET_SIZE) 0 qos (of_bool retained) packetid
             (cstring_of topicName) payload payloadlen) (0, []) c of (packet, c) \<Rightarrow>
           case fill_sendbuf packet c of (len, c) \<Rightarrow>
                if len \<le> 0 then Some (MQTT_FAILURE, packetid, c)
                else do {
                  let c = (if cleansession c then c
                    else c\<lparr>pubbuf := overwrite 0 (take (nat len) (sendbuf c)) (pubbuf c),
                           inflightMsgid := packetid, inflightLen := len, inflightQoS := qos\<rparr>);
                  (rc, c) \<leftarrow> publish_packet len timer qos c;
                  Some (rc, packetid, c)
                }))"

definition publish_payload :: "bytes \<Rightarrow> bytes \<Rightarrow> int \<Rightarrow> int \<Rightarrow> bool \<Rightarrow> client \<Rightarrow>
    (int \<times> client) option" where
  "publish_payload topicName payload payloadlen qos retained c = do {
     (rc, _, c) \<leftarrow> publish_id topicName payload payloadlen 0 qos retained c;
     Some (rc, c)
   }"

text \<open>The fields of a \<open>Message\<close> the caller has filled in.\<close>

record outgoing =
  msg_qos :: int
  msg_retained :: bool
  msg_payload :: bytes
  msg_payloadlen :: nat

definition Client_publish :: "bytes \<Rightarrow> outgoing \<Rightarrow> client \<Rightarrow> (int \<times> client) option" where
  "Client_publish topicName m c =
     publish_payload topicName (msg_payload m) (int (msg_payloadlen m)) (msg_qos m) (msg_retained m) c"

definition Client_disconnect :: "client \<Rightarrow> (int \<times> client) option" where
  "Client_disconnect c =
     (case countdown_ms (command_timeout_ms c) c of (timer, c) \<Rightarrow>
      case fill_sendbuf (MQTTSerialize_disconnect (int MAX_MQTT_PACKET_SIZE)) c of (len, c) \<Rightarrow> do {
        (rc, c) \<leftarrow> (if len > 0 then sendPacket len timer c else Some (MQTT_FAILURE, c));
        Some (rc, if cleansession c then cleanSession c else c\<lparr>isconnected := False\<rparr>)
      })"

end
