(* ===== verification/ClientSteps.thy ===== *)
theory ClientSteps
  imports MqttClient "HOL-Library.Sublist"
begin

text \<open>
  The rounds of the client library as a transition system.  The locale \<open>rounds\<close> is the interface to a
  relation that the bookkeeping of the library respects: \<open>change\<close> is one elementary change of the
  object or of the system below it, with the sizes of the buffers it writes to as side conditions,
  and \<open>sound c r\<close> says that a call made in the state \<open>c\<close> with the outcome \<open>r\<close> consists of such
  changes, and that it comes back if the socket never reports a closed connection and time passes.
  The locale is interpreted as \<open>calm\<close> for the rounds, which leave the session alone; for all calls of
  the library it is extended in \<open>ClientCalls\<close>.
\<close>

section \<open>Elementary changes\<close>

text \<open>What the bookkeeping of the client leaves alone.\<close>

definition bookkeeping :: "client \<Rightarrow> client \<Rightarrow> bool" where
  "bookkeeping c d \<longleftrightarrow> recv_result d = recv_result c \<and> recvs d = recvs c \<and>
     write_result d = write_result c \<and> wire d = wire c \<and> time_of_day d = time_of_day c \<and>
     clock_reads d = clock_reads c \<and> command_timeout_ms d = command_timeout_ms c \<and>
     sendbuf d = sendbuf c \<and> readbuf d = readbuf c \<and> behind d = behind c \<and> pubbuf d = pubbuf c \<and>
     length (messageHandlers d) = length (messageHandlers c) \<and> text_at d = text_at c \<and>
     delivered d = delivered c \<and> (faulted c \<longrightarrow> faulted d) \<and>
     (next_packetid d = next_packetid c \<or> next_packetid d = next_id (next_packetid c))"

text \<open>The bookkeeping of a round.\<close>

definition round_bookkeeping :: "client \<Rightarrow> client \<Rightarrow> bool" where
  "round_bookkeeping c d \<longleftrightarrow> (\<exists>p f e l. (faulted c \<longrightarrow> f) \<and> d = c\<lparr>ping_outstanding := p, faulted := f,
     last_received := e, last_sent := l\<rparr>)"

lemma round_is_bookkeeping: "round_bookkeeping c d \<Longrightarrow> bookkeeping c d"
  by (auto simp: round_bookkeeping_def bookkeeping_def)

lemma round_bookkeepingI: "d = c\<lparr>ping_outstanding := ping_outstanding d, faulted := faulted d,
    last_received := last_received d, last_sent := last_sent d\<rparr> \<Longrightarrow> (faulted c \<Longrightarrow> faulted d) \<Longrightarrow>
    round_bookkeeping c d"
  unfolding round_bookkeeping_def by blast

text \<open>The contract of the system below and the sizes of the buffers.\<close>

definition good :: "client \<Rightarrow> bool" where
  "good c \<longleftrightarrow> (\<forall>n k d. recv_result c n k = Received d \<longrightarrow> length d \<le> k) \<and>
     (\<forall>n k. write_result c n k \<le> int k) \<and>
     length (sendbuf c) = MAX_MQTT_PACKET_SIZE \<and> length (readbuf c) = MAX_MQTT_PACKET_SIZE \<and>
     length (pubbuf c) = MAX_MQTT_PACKET_SIZE \<and> length (messageHandlers c) = MAX_MESSAGE_HANDLERS"

text \<open>The socket stays open and time passes.\<close>

definition live :: "client \<Rightarrow> bool" where
  "live c \<longleftrightarrow> (\<forall>n k. 0 < k \<longrightarrow> recv_result c n k \<noteq> Received []) \<and>
     (\<forall>n k. recv_result c n k \<noteq> RecvError 0) \<and>
     (\<forall>t. \<exists>n. \<forall>m \<ge> n. t \<le> time_of_day c m)"

definition same_system :: "client \<Rightarrow> client \<Rightarrow> bool" where
  "same_system c d \<longleftrightarrow> recv_result d = recv_result c \<and> write_result d = write_result c \<and>
     time_of_day d = time_of_day c \<and> text_at d = text_at c \<and> behind d = behind c \<and>
     command_timeout_ms d = command_timeout_ms c \<and>
     length (sendbuf d) = length (sendbuf c) \<and> length (readbuf d) = length (readbuf c) \<and>
     length (pubbuf d) = length (pubbuf c) \<and>
     length (messageHandlers d) = length (messageHandlers c)"

named_theorems sound_intros "rules for sound calls"

locale rounds =
  fixes allowed :: "client \<Rightarrow> client \<Rightarrow> bool"
  assumes allowed_bookkeeping: "allowed c d \<Longrightarrow> bookkeeping c d"
    and allowed_round: "round_bookkeeping c d \<Longrightarrow> allowed c d"
begin

inductive change :: "client \<Rightarrow> client \<Rightarrow> bool" where
  got: "change c (c\<lparr>recvs := recvs c + 1\<rparr>)"
| wrote: "change c (c\<lparr>writes := writes c + 1, wire := wire c @ d\<rparr>)"
| clock: "change c (c\<lparr>clock_reads := clock_reads c + 1\<rparr>)"
| sendbuf: "length w = length (sendbuf c) \<Longrightarrow> change c (c\<lparr>sendbuf := w\<rparr>)"
| readbuf: "length w = length (readbuf c) \<Longrightarrow> change c (c\<lparr>readbuf := w\<rparr>)"
| pubbuf: "length w = length (pubbuf c) \<Longrightarrow> change c (c\<lparr>pubbuf := w\<rparr>)"
| called: "change c (c\<lparr>delivered := delivered c @ [x]\<rparr>)"
| other: "allowed c d \<Longrightarrow> change c d"

abbreviation changes :: "client \<Rightarrow> client \<Rightarrow> bool" where
  "changes \<equiv> change\<^sup>*\<^sup>*"

lemma changes_allowed: "allowed c d \<Longrightarrow> changes c d"
  by (rule r_into_rtranclp) (rule change.other)

lemma changes_round: "round_bookkeeping c d \<Longrightarrow> changes c d"
  by (rule changes_allowed) (rule allowed_round)

lemma changes_system: "changes c d \<Longrightarrow> same_system c d"
proof (induction rule: rtranclp_induct)
  case base
  then show ?case by (simp add: same_system_def)
next
  case (step d e)
  from step(2) have "same_system d e"
    by cases (auto simp: same_system_def bookkeeping_def dest!: allowed_bookkeeping)
  with step(3) show ?case by (simp add: same_system_def)
qed

lemma changes_good: "changes c d \<Longrightarrow> good c \<Longrightarrow> good d"
  by (drule changes_system) (simp add: same_system_def good_def)

lemma changes_live: "changes c d \<Longrightarrow> live c \<Longrightarrow> live d"
  by (drule changes_system) (simp add: same_system_def live_def)

lemma changes_clock: "changes c d \<Longrightarrow> clock_reads c \<le> clock_reads d"
proof (induction rule: rtranclp_induct)
  case (step d e)
  from step(2) have "clock_reads d \<le> clock_reads e" by cases (auto simp: bookkeeping_def dest!: allowed_bookkeeping)
  with step(3) show ?case by simp
qed simp

lemma changes_history: "changes c d \<Longrightarrow> prefix (wire c) (wire d) \<and> prefix (delivered c) (delivered d)"
proof (induction rule: rtranclp_induct)
  case (step d e)
  from step(2) have "prefix (wire d) (wire e) \<and> prefix (delivered d) (delivered e)"
    by cases (auto simp: bookkeeping_def dest!: allowed_bookkeeping)
  with step(3) show ?case by (meson prefix_order.trans)
qed simp

lemma changes_faulted: "changes c d \<Longrightarrow> faulted c \<Longrightarrow> faulted d"
proof (induction rule: rtranclp_induct)
  case (step d e)
  from step(2) have "faulted d \<Longrightarrow> faulted e"
    by cases (auto simp: bookkeeping_def dest!: allowed_bookkeeping)
  with step show ?case by blast
qed

lemma changes_ids: "changes c d \<Longrightarrow> next_packetid c \<in> {0..MAX_PACKET_ID} \<Longrightarrow>
    next_packetid d \<in> {0..MAX_PACKET_ID}"
proof (induction rule: rtranclp_induct)
  case (step d e)
  from step(2) have "next_packetid e = next_packetid d \<or> next_packetid e = next_id (next_packetid d)"
    by cases (auto simp: bookkeeping_def dest!: allowed_bookkeeping)
  with step show ?case by (auto simp: next_id_def MAX_PACKET_ID_def)
qed simp

section \<open>Sound calls\<close>

definition sound :: "client \<Rightarrow> ('a \<times> client) option \<Rightarrow> bool" where
  "sound c r \<longleftrightarrow> (good c \<longrightarrow> (\<forall>x d. r = Some (x, d) \<longrightarrow> changes c d) \<and> (live c \<longrightarrow> r \<noteq> None))"

lemma soundI: "(\<And>x d. good c \<Longrightarrow> r = Some (x, d) \<Longrightarrow> changes c d) \<Longrightarrow>
    (good c \<Longrightarrow> live c \<Longrightarrow> r \<noteq> None) \<Longrightarrow> sound c r"
  by (simp add: sound_def)

lemma sound_changes: "sound c r \<Longrightarrow> good c \<Longrightarrow> r = Some (x, d) \<Longrightarrow> changes c d"
  by (simp add: sound_def)

lemma sound_returns: "sound c r \<Longrightarrow> good c \<Longrightarrow> live c \<Longrightarrow> \<exists>x d. r = Some (x, d)"
  by (cases r) (auto simp: sound_def)

lemma sound_return: "changes c d \<Longrightarrow> sound c (Some (x, d))"
  by (simp add: sound_def)

lemma sound_result: "changes c (snd p) \<Longrightarrow> sound c (Some p)"
  by (cases p) (simp add: sound_def)

lemma sound_after: "changes c d \<Longrightarrow> sound d r \<Longrightarrow> sound c r"
  unfolding sound_def using changes_good changes_live rtranclp_trans by metis

lemma sound_bind:
  assumes "sound c r" "\<And>x d. r = Some (x, d) \<Longrightarrow> changes c d \<Longrightarrow> sound d (f (x, d))"
  shows "sound c (Option.bind r f)"
proof (cases r)
  case None
  then show ?thesis using assms(1) by (simp add: sound_def)
next
  case (Some y)
  obtain x d where y: "y = (x, d)" by (cases y)
  show ?thesis
  proof (rule soundI)
    assume "good c" "live c"
    then have "changes c d" using assms(1) Some y by (simp add: sound_def)
    then have "sound c (f (x, d))" using assms(2) Some y by (blast intro: sound_after)
    then show "r \<bind> f \<noteq> None" using Some y \<open>good c\<close> \<open>live c\<close> by (simp add: sound_def)
  next
    fix z e assume "good c" and eq: "r \<bind> f = Some (z, e)"
    then have "changes c d" using assms(1) Some y by (simp add: sound_def)
    then have "sound c (f (x, d))" using assms(2) Some y by (blast intro: sound_after)
    then show "changes c e" using Some y \<open>good c\<close> eq by (simp add: sound_def)
  qed
qed

lemma sound_case: "changes c (snd p) \<Longrightarrow> sound (snd p) (f (fst p) (snd p)) \<Longrightarrow>
    sound c (case p of (x, d) \<Rightarrow> f x d)"
  by (cases p) (auto intro: sound_after)

lemma sound_good: "(good c \<Longrightarrow> sound c r) \<Longrightarrow> sound c r"
  by (auto simp: sound_def)

lemma sound_bind_pair:
  "sound c r \<Longrightarrow> (\<And>x d. r = Some (x, d) \<Longrightarrow> changes c d \<Longrightarrow> sound d (f x d)) \<Longrightarrow>
    sound c (Option.bind r (\<lambda>(x, d). f x d))"
  by (rule sound_bind) simp_all

lemma sound_if: "(b \<Longrightarrow> sound c r) \<Longrightarrow> (\<not> b \<Longrightarrow> sound c s) \<Longrightarrow> sound c (if b then r else s)"
  by simp

section \<open>The system calls\<close>

lemma changes_tick: "changes c (c\<lparr>clock_reads := clock_reads c + 1\<rparr>)"
  by (rule r_into_rtranclp) (rule change.clock)

lemma changes_timer:
  "changes c (snd (timer_expired e c))" "changes c (snd (left_ms e c))"
  "changes c (snd (countdown_ms ms c))" "changes c (snd (start_countdown s c))"
  by (simp_all only: clock_states changes_tick)

lemma changes_recv: "changes c (snd (sys_recv k c))"
  using r_into_rtranclp [of change, OF change.got] by (simp add: sys_recv_def)

lemma changes_write: "changes c (snd (ip_write d c))"
  using r_into_rtranclp [of change, OF change.wrote] by (simp add: ip_write_def Let_def)

lemma changes_readbuf: "length w = length (readbuf c) \<Longrightarrow> changes c (c\<lparr>readbuf := w\<rparr>)"
  by (rule r_into_rtranclp) (rule change.readbuf)

lemma changes_sendbuf: "length w = length (sendbuf c) \<Longrightarrow> changes c (c\<lparr>sendbuf := w\<rparr>)"
  by (rule r_into_rtranclp) (rule change.sendbuf)

lemma changes_pubbuf: "length w = length (pubbuf c) \<Longrightarrow> changes c (c\<lparr>pubbuf := w\<rparr>)"
  by (rule r_into_rtranclp) (rule change.pubbuf)

lemma changes_access: "changes c (snd (access r v c))"
  by (cases r) (auto simp: access_def intro!: changes_round round_bookkeepingI)

lemma changes_fill:
  "good c \<Longrightarrow> length (snd r) \<le> MAX_MQTT_PACKET_SIZE \<Longrightarrow> changes c (snd (fill_sendbuf r c))"
  unfolding fill_sendbuf_def snd_conv by (rule changes_sendbuf) (simp add: good_def)

lemma changes_call_back: "changes c (call_back f m c)"
  by (cases f) (auto simp: call_back_def intro: r_into_rtranclp change.called)

section \<open>Reading\<close>

lemma read_loop_changes:
  assumes "read_loop len got c = Some (rc, d, c')"
  shows "changes c c' \<and> (good c \<longrightarrow> length got \<le> len \<longrightarrow> length d \<le> len)"
proof (rule read_loop.raw_induct
    [where P = "\<lambda>len got c (rc, d, c'). changes c c' \<and> (good c \<longrightarrow> length got \<le> len \<longrightarrow> length d \<le> len)",
      OF _ assms, simplified prod.case])
  fix f len got and c :: client and r
  assume IH: "\<And>len got c r. f len got c = Some r \<Longrightarrow>
      (case r of (rc, d, c') \<Rightarrow> changes c c' \<and> (good c \<longrightarrow> length got \<le> len \<longrightarrow> length d \<le> len))"
    and eq: "(if length got < len then
        (case sys_recv (len - length got) c of (r, c) \<Rightarrow>
           (case r of
              RecvError errno \<Rightarrow> if Socket_error errno \<noteq> 0 then Some (-1, got, c) else f len got c
            | Received d \<Rightarrow> f len (got @ d) c))
      else Some (int (length got), got, c)) = Some r"
  let ?P = "\<lambda>(rc, d, c'). changes c c' \<and> (good c \<longrightarrow> length got \<le> len \<longrightarrow> length d \<le> len)"
  let ?c = "snd (sys_recv (len - length got) c)"
  have ch: "changes c ?c" by (rule changes_recv)
  have good: "good c \<Longrightarrow> good ?c" by (rule changes_good [OF ch])
  show "case r of (rc, d, c') \<Rightarrow> changes c c' \<and> (good c \<longrightarrow> length got \<le> len \<longrightarrow> length d \<le> len)"
  proof (cases "length got < len")
    case False
    with eq show ?thesis by auto
  next
    case True
    show ?thesis
    proof (cases "fst (sys_recv (len - length got) c)")
      case (Received d)
      then have "f len (got @ d) ?c = Some r" using eq True by (simp add: split_beta)
      then have IH: "changes ?c c'" "good ?c \<Longrightarrow> length (got @ d) \<le> len \<Longrightarrow> length d' \<le> len"
        if "r = (rc, d', c')" for rc d' c' using IH [of len "got @ d" ?c r] that by simp_all
      have "length (got @ d) \<le> len" if "good c"
      proof -
        have "length d \<le> len - length got"
          using that Received by (auto simp: good_def sys_recv_def)
        then show ?thesis using True by simp
      qed
      then have bound: "good c \<longrightarrow> length got \<le> len \<longrightarrow> length d' \<le> len" if "r = (rc, d', c')" for rc d' c'
        using IH(2) [OF that] good by blast
      have "changes c c'" if "r = (rc, d', c')" for rc d' c'
        using ch IH(1) [OF that] by (rule rtranclp_trans)
      then show ?thesis using bound by blast
    next
      case (RecvError e)
      then have "(if Socket_error e \<noteq> 0 then Some (-1, got, ?c) else f len got ?c) = Some r"
        using eq True by (simp add: split_beta)
      then show ?thesis using IH [of len got ?c r] ch good
        by (auto split: if_splits prod.splits)
    qed
  qed
qed

lemma read_loop_returns:
  "good c \<Longrightarrow> live c \<Longrightarrow> read_loop len got c \<noteq> None"
proof (induction "len - length got" arbitrary: got c rule: less_induct)
  case less
  let ?k = "len - length got"
  let ?c = "snd (sys_recv ?k c)"
  have ch: "changes c ?c" by (rule changes_recv)
  then have c: "good ?c" "live ?c" using less.prems changes_good changes_live by blast+
  show ?case
  proof (cases "length got < len")
    case True
    show ?thesis
    proof (cases "recv_result c (recvs c) ?k")
      case (Received d)
      then have "d \<noteq> []" using less.prems True by (auto simp: live_def)
      then have "read_loop len (got @ d) ?c \<noteq> None"
        using True c by (intro less.hyps) (cases d; simp)+
      then show ?thesis using True Received
        by (simp add: read_loop.simps [of len got] sys_recv_def)
    next
      case (RecvError e)
      then have "e \<noteq> 0" using less.prems by (auto simp: live_def)
      then show ?thesis using True RecvError
        by (simp add: read_loop.simps [of len got] sys_recv_def Socket_error_def)
    qed
  qed (simp add: read_loop.simps [of len got])
qed

lemma ip_read_result:
  assumes "ip_read n c = Some (rc, d, c')"
  shows "changes c c'" and "good c \<Longrightarrow> length d \<le> nat n"
  using read_loop_changes [OF assms [unfolded ip_read_def]] by simp_all

lemma ip_read_returns: "good c \<Longrightarrow> live c \<Longrightarrow> \<exists>rc d c'. ip_read n c = Some (rc, d, c')"
  using read_loop_returns [of c "nat n" "[]"] by (auto simp: ip_read_def)

lemma length_overwrite: "off + length d \<le> length buf \<Longrightarrow> length (overwrite off d buf) = length buf"
  by (simp add: overwrite_def)

lemma changes_overwrite:
  "good c \<Longrightarrow> off + length d \<le> MAX_MQTT_PACKET_SIZE \<Longrightarrow>
    changes c (c\<lparr>readbuf := overwrite off d (readbuf c)\<rparr>)"
  by (rule changes_readbuf) (simp add: good_def length_overwrite)

lemma sound_read_into [sound_intros]:
  assumes "off + nat n \<le> MAX_MQTT_PACKET_SIZE"
  shows "sound c (read_into off n c)"
proof (rule soundI)
  fix x d assume "good c" and eq: "read_into off n c = Some (x, d)"
  then obtain bs c' where r: "ip_read n c = Some (x, bs, c')"
    and d: "d = c'\<lparr>readbuf := overwrite off bs (readbuf c')\<rparr>"
    by (auto simp: read_into_def bind_eq_Some_conv)
  note ch = ip_read_result [OF r]
  have "good c'" "off + length bs \<le> MAX_MQTT_PACKET_SIZE"
    using changes_good ch \<open>good c\<close> assms by fastforce+
  then show "changes c d"
    unfolding d by (intro rtranclp_trans [OF ch(1)] changes_overwrite)
next
  assume "good c" "live c"
  then show "read_into off n c \<noteq> None"
    using ip_read_returns [of c n] by (auto simp: read_into_def)
qed

lemma sound_decodePacket_loop: "sound c (decodePacket_loop len m v c)"
proof (induction "5 - len" arbitrary: len m v c rule: less_induct)
  case less
  show ?case
  proof (cases "ip_read 1 c")
    case None
    then show ?thesis using ip_read_returns [of c 1]
      by (subst decodePacket_loop.simps) (auto simp: sound_def)
  next
    case (Some r)
    obtain rc d c' where r: "r = (rc, d, c')" by (cases r)
    have ch: "changes c c'" using ip_read_result(1) Some r by blast
    show ?thesis
    proof (cases "len + 1 > MAX_NO_OF_REMAINING_LENGTH_BYTES")
      case True
      then show ?thesis by (subst decodePacket_loop.simps) (simp add: sound_return)
    next
      case False
      then have "sound c' (decodePacket_loop (len + 1) (m * 128) v' c')" for v'
        by (intro less.hyps) (simp add: MAX_NO_OF_REMAINING_LENGTH_BYTES_def)
      then show ?thesis using False Some r
        by (subst decodePacket_loop.simps)
          (auto simp: Let_def intro!: sound_after [OF ch] sound_return [OF ch])
    qed
  qed
qed

lemma decode_loop_bounds:
  assumes "decodePacket_loop len (128 ^ len) v c = Some (x, c')" "0 \<le> v" "v < 128 ^ len" "len \<le> 4"
  shows "0 \<le> x \<and> x < 268435456"
  using assms
proof (induction "4 - len" arbitrary: len v c rule: less_induct)
  case less
  have v: "v < 268435456"
    using less.prems(3,4) power_increasing [of len 4 "128 :: int"] by simp
  show ?case
  proof (cases "len < 4")
    case False
    then show ?thesis using less.prems(1,2) v
      by (subst (asm) decodePacket_loop.simps) (simp add: MAX_NO_OF_REMAINING_LENGTH_BYTES_def)
  next
    case True
    obtain rc d c1 where r: "ip_read 1 c = Some (rc, d, c1)"
      using less.prems(1) True
      by (subst (asm) decodePacket_loop.simps)
        (auto simp: MAX_NO_OF_REMAINING_LENGTH_BYTES_def split: if_splits option.splits)
    define k where "k = uint (hd d AND 127)"
    have k: "0 \<le> k" "k \<le> 127" by (simp_all add: k_def and_127)
    have "k * 128 ^ len \<le> 127 * 128 ^ len" using k by (intro mult_right_mono) simp_all
    moreover have "0 \<le> k * 128 ^ len" using k by simp
    ultimately have vk: "0 \<le> v + k * 128 ^ len" "v + k * 128 ^ len < 128 ^ Suc len"
      using less.prems(2,3) unfolding power_Suc by linarith+
    then have vk': "v + k * 128 ^ len < 268435456"
      using True power_increasing [of "Suc len" 4 "128 :: int"] by simp
    have rec: "(if rc \<noteq> 1 then Some (v, c1)
        else if hd d AND 128 \<noteq> 0 then decodePacket_loop (Suc len) (128 ^ Suc len) (v + k * 128 ^ len) c1
        else Some (v + k * 128 ^ len, c1)) = Some (x, c')"
      using less.prems(1) True r
      by (subst (asm) decodePacket_loop.simps)
        (simp add: MAX_NO_OF_REMAINING_LENGTH_BYTES_def k_def mult.commute Let_def split: if_splits)
    show ?thesis
    proof (cases "rc = 1 \<and> hd d AND 128 \<noteq> 0")
      case True
      then show ?thesis using rec less.hyps [of "Suc len"] \<open>len < 4\<close> vk by simp
    next
      case False
      then show ?thesis using rec less.prems(2) v vk(1) vk' by (auto split: if_splits)
    qed
  qed
qed

lemma decodePacket_bounds: "decodePacket c = Some (x, c') \<Longrightarrow> 0 \<le> x \<and> x < 268435456"
  using decode_loop_bounds [of 0 0 c x c'] by (simp add: decodePacket_def)

lemma sound_decodePacket [sound_intros]: "sound c (decodePacket c)"
  by (simp add: decodePacket_def sound_decodePacket_loop)

lemma sound_received_at: "sound c (Some (x, if b then
    (case start_countdown n c of (e, c) \<Rightarrow> c\<lparr>last_received := e\<rparr>) else c))"
proof (rule sound_return)
  let ?c = "c\<lparr>clock_reads := clock_reads c + 1\<rparr>"
  have "changes ?c (?c\<lparr>last_received := e\<rparr>)" for e
    by (rule changes_round) (rule round_bookkeepingI; simp)
  then have "changes c (?c\<lparr>last_received := e\<rparr>)" for e
    using changes_tick rtranclp_trans [of change] by blast
  then show "changes c (if b then
      (case start_countdown n c of (e, c) \<Rightarrow> c\<lparr>last_received := e\<rparr>) else c)"
    by (auto simp: start_countdown_def gettimeofday_def)
qed

lemma sound_tick: "sound (c\<lparr>clock_reads := clock_reads c + 1\<rparr>) r \<Longrightarrow> sound c r"
  by (rule sound_after [OF changes_tick])

lemma sound_readPacket [sound_intros]: "sound c (readPacket timer c)"
  unfolding readPacket_def clock_states
proof (rule sound_bind_pair [OF sound_tick [OF sound_read_into]], simp add: MAX_MQTT_PACKET_SIZE_def,
    rule sound_if [OF sound_return sound_bind_pair [OF sound_tick [OF sound_decodePacket]]], simp)
  fix rc d x c assume "decodePacket d = Some (x, c :: client)"
  then have "0 \<le> x \<and> x < 268435456" by (rule decodePacket_bounds)
  then have enc: "1 + length (MQTTPacket_encode x) \<le> 5" using length_encode_le [of x] by simp
  let ?c = "c\<lparr>readbuf := overwrite 1 (MQTTPacket_encode x) (readbuf c)\<rparr>"
  show "sound c (let len = 1 + length (MQTTPacket_encode x); c = ?c in
       if x > int MAX_MQTT_PACKET_SIZE - int len then Some (MQTT_BUFFER_OVERFLOW, c)
       else do {
         (rc, c) \<leftarrow> (if x > 0 then read_into len x (c\<lparr>clock_reads := clock_reads c + 1\<rparr>)
                   else Some (x, c));
         if rc \<noteq> x then Some (MQTT_FAILURE, c)
         else Some (uint (header_type (hd (readbuf c))),
           if keepAliveInterval c > 0
           then (case start_countdown (keepAliveInterval c) c of (e, c) \<Rightarrow> c\<lparr>last_received := e\<rparr>)
           else c)
       })"
  proof (rule sound_good)
    assume "good c"
    then have "changes c ?c"
      using enc by (intro changes_overwrite) (simp_all add: MAX_MQTT_PACKET_SIZE_def)
    then show ?thesis
      unfolding Let_def
      by (rule sound_after, intro sound_if sound_return sound_bind_pair sound_received_at
          sound_tick [OF sound_read_into]) simp_all
  qed
qed

section \<open>Sending\<close>

lemma send_loop_changes:
  assumes "send_loop len timer sent c = Some (x, c')"
  shows "changes c c'"
proof (rule send_loop.raw_induct [where P = "\<lambda>len timer sent c (x, c'). changes c c'",
      OF _ assms, simplified prod.case])
  fix f len timer sent c r
  assume IH: "\<And>len timer sent c r. f len timer sent c = Some r \<Longrightarrow> (case r of (x, c') \<Rightarrow> changes c c')"
    and eq: "(if sent < len then
        (case timer_expired timer c of (expired, c) \<Rightarrow>
           if expired then Some (sent, c)
           else
             (case access (copy_from (drop (nat sent) (sendbuf c)) (len - sent)) [] c of (d, c) \<Rightarrow>
              case left_ms timer c of (_, c) \<Rightarrow>
              case ip_write d c of (rc, c) \<Rightarrow>
                if rc < 0 then Some (sent, c) else f len timer (sent + rc) c))
      else Some (sent, c)) = Some r"
  let ?c1 = "snd (timer_expired timer c)"
  let ?a = "access (copy_from (drop (nat sent) (sendbuf ?c1)) (len - sent)) [] ?c1"
  let ?c3 = "snd (left_ms timer (snd ?a))"
  let ?w = "ip_write (fst ?a) ?c3"
  have ch1: "changes c ?c1" by (rule changes_timer)
  have ch4: "changes c (snd ?w)"
    by (rule rtranclp_trans [OF ch1], rule rtranclp_trans [OF changes_access],
        rule rtranclp_trans [OF changes_timer(2) changes_write])
  have "(if sent < len then if fst (timer_expired timer c) then Some (sent, ?c1)
      else if fst ?w < 0 then Some (sent, snd ?w) else f len timer (sent + fst ?w) (snd ?w)
    else Some (sent, c)) = Some r"
    using eq by (simp only: split_beta)
  then consider "r = (sent, c)" | "r = (sent, ?c1)" | "r = (sent, snd ?w)"
    | "f len timer (sent + fst ?w) (snd ?w) = Some r"
    by (metis option.inject)
  then show "case r of (x, c') \<Rightarrow> changes c c'"
  proof cases
    case 4
    obtain y e where r: "r = (y, e)" by (cases r)
    from IH [OF 4] have "changes (snd ?w) e" by (simp only: r prod.case)
    with ch4 have "changes c e" by (rule rtranclp_trans)
    then show ?thesis by (simp only: r prod.case)
  qed (use ch1 ch4 in simp_all)
qed

text \<open>Enough readings of the clock and a timer has expired.\<close>

lemma live_expires: "live c \<Longrightarrow> \<exists>n. \<forall>m \<ge> n. timer \<le> time_of_day c m"
  by (simp add: live_def)

lemma same_time: "changes c d \<Longrightarrow> time_of_day d = time_of_day c"
  by (drule changes_system) (simp add: same_system_def)

lemma send_loop_returns:
  assumes "\<And>m. n \<le> m \<Longrightarrow> timer \<le> time_of_day c m"
  shows "send_loop len timer sent c \<noteq> None"
  using assms
proof (induction "n - clock_reads c" arbitrary: sent c rule: less_induct)
  case less
  let ?c1 = "snd (timer_expired timer c)"
  let ?a = "access (copy_from (drop (nat sent) (sendbuf ?c1)) (len - sent)) [] ?c1"
  let ?w = "ip_write (fst ?a) (snd (left_ms timer (snd ?a)))"
  have ch: "changes ?c1 (snd ?w)"
    by (rule rtranclp_trans [OF changes_access], rule rtranclp_trans [OF changes_timer(2) changes_write])
  then have "clock_reads ?c1 \<le> clock_reads (snd ?w)" by (rule changes_clock)
  then have "clock_reads c < clock_reads (snd ?w)" by (simp add: clock_states)
  moreover have "time_of_day (snd ?w) = time_of_day c"
    using same_time [OF rtranclp_trans [OF changes_timer(1) ch]] .
  moreover have "clock_reads c < n" if "\<not> fst (timer_expired timer c)"
    using that less.prems [of "clock_reads c"] by (meson expired_iff not_le)
  ultimately have "\<not> fst (timer_expired timer c) \<Longrightarrow> send_loop len timer s (snd ?w) \<noteq> None" for s
    using less.prems by (intro less.hyps) auto
  then show ?case
    by (subst send_loop.simps) (simp add: split_beta)
qed

lemma sound_send_loop: "sound c (send_loop len timer sent c)"
proof (rule soundI)
  assume "live c"
  then obtain n where "\<forall>m \<ge> n. timer \<le> time_of_day c m" using live_expires by blast
  then show "send_loop len timer sent c \<noteq> None" by (intro send_loop_returns [of n]) simp
qed (rule send_loop_changes)

lemma changes_last_sent: "changes c (if b then
    (case start_countdown n c of (e, c) \<Rightarrow> c\<lparr>last_sent := e\<rparr>) else c)"
proof -
  let ?c = "c\<lparr>clock_reads := clock_reads c + 1\<rparr>"
  have "changes ?c (?c\<lparr>last_sent := e\<rparr>)" for e
    by (rule changes_round) (rule round_bookkeepingI; simp)
  then have "changes c (?c\<lparr>last_sent := e\<rparr>)" for e
    using changes_tick rtranclp_trans [of change] by blast
  then show ?thesis by (auto simp: start_countdown_def gettimeofday_def)
qed

lemma sound_sendPacket [sound_intros]: "sound c (sendPacket len timer c)"
  unfolding sendPacket_def
proof (rule sound_bind_pair [OF sound_send_loop])
  fix x d
  show "sound d (Some (if x = len then (MQTT_SUCCESS, if keepAliveInterval d > 0
      then (case start_countdown (keepAliveInterval d) d of (e, c) \<Rightarrow> c\<lparr>last_sent := e\<rparr>) else d)
    else (MQTT_FAILURE, d)))"
    using changes_last_sent by (simp add: sound_return split: prod.splits if_splits)
qed

section \<open>One round\<close>

lemma changes_ping: "changes c (c\<lparr>ping_outstanding := b\<rparr>)"
  by (rule changes_round) (rule round_bookkeepingI; simp)

lemma changes_deliver_loop: "changes c (snd (deliver_loop m hs rc c))"
proof (induction hs arbitrary: rc c)
  case (Cons h hs)
  let ?a = "access (handler_matches c (po_topicName m) h) False c"
  have "changes (snd ?a) (snd (deliver_loop m hs MQTT_SUCCESS (call_back (fp h) m (snd ?a))))"
    by (rule rtranclp_trans [OF changes_call_back Cons.IH])
  moreover have "changes (snd ?a) (snd (deliver_loop m hs rc (snd ?a)))" by (rule Cons.IH)
  ultimately show ?case
    by (simp only: deliver_loop.simps split_beta split: if_splits)
      (blast intro: rtranclp_trans [OF changes_access])
qed simp

lemma changes_deliver: "changes c (snd (deliverMessage m c))"
proof -
  let ?l = "deliver_loop m (messageHandlers c) MQTT_FAILURE c"
  have "changes c (call_back f m (snd ?l))" for f
    by (rule rtranclp_trans [OF changes_deliver_loop changes_call_back])
  then show ?thesis using changes_deliver_loop by (simp add: deliverMessage_def split_beta)
qed

lemma length_ack: "length (snd (MQTTSerialize_ack 512 t d p)) \<le> 512"
  by (simp add: MQTTSerialize_ack_def packet_written_def encode_small)

lemma length_zero: "length (snd (MQTTSerialize_zero 512 t)) \<le> 512"
  by (simp add: MQTTSerialize_zero_def packet_written_def encode_small)

lemma sound_filled:
  assumes "length (snd p) \<le> MAX_MQTT_PACKET_SIZE" "\<And>d. sound d (f (fst p) d)"
  shows "sound c (case fill_sendbuf p c of (n, d) \<Rightarrow> f n d)"
proof (rule sound_good)
  assume "good c"
  then have "changes c (snd (fill_sendbuf p c))" using assms(1) by (rule changes_fill)
  then show ?thesis
    by (rule sound_case) (use assms(2) in \<open>simp add: fill_sendbuf_def\<close>)
qed

lemma sound_acknowledge [sound_intros]: "sound c (acknowledge m timer c)"
proof -
  have "sound c (case fill_sendbuf (MQTTSerialize_ack 512 t 0 p) c of (len, c) \<Rightarrow>
      if len \<le> 0 then Some (MQTT_FAILURE, c) else sendPacket len timer c)" for t p
    by (rule sound_filled) (simp_all add: length_ack MAX_MQTT_PACKET_SIZE_def sound_return sound_sendPacket)
  then show ?thesis
    by (auto simp: acknowledge_def Let_def MAX_MQTT_PACKET_SIZE_def sound_return)
qed

lemma sound_keepalive [sound_intros]: "sound c (keepalive c)"
proof -
  have ping: "sound c (case fill_sendbuf (MQTTSerialize_pingreq (int MAX_MQTT_PACKET_SIZE)) c of (len, c) \<Rightarrow>
      if len > 0 then do {
        (rc, c) \<leftarrow> sendPacket len timer c;
        Some (rc, if rc = MQTT_SUCCESS then c\<lparr>ping_outstanding := True\<rparr> else c)
      } else Some (MQTT_FAILURE, c))" for c timer
    by (rule sound_filled)
      (simp_all add: length_zero MQTTSerialize_pingreq_def MAX_MQTT_PACKET_SIZE_def sound_return changes_ping
        sound_bind_pair [OF sound_sendPacket])
  let ?c = "snd (timer_expired (last_sent c) c)"
  let ?p = "if fst (timer_expired (last_sent c) c) then (True, ?c) else timer_expired (last_received ?c) ?c"
  have "changes c (snd ?p)"
    using changes_timer(1) by (auto intro: rtranclp_trans [OF changes_timer(1)])
  then show ?thesis
    unfolding keepalive_def split_beta [of _ "timer_expired (last_sent c) c"]
    by (intro sound_if sound_return rtranclp.rtrancl_refl sound_case changes_timer ping) simp_all
qed

lemma sound_access: "sound (snd (access r v c)) (f (fst (access r v c)) (snd (access r v c))) \<Longrightarrow>
    sound c (case access r v c of (x, d) \<Rightarrow> f x d)"
  by (rule sound_case [OF changes_access])

lemma sound_then: "sound c r \<Longrightarrow> sound c (do { (_, c) \<leftarrow> r; Some (x, c) })"
  by (rule sound_bind_pair) (simp_all add: sound_return)

lemma sound_cycle [sound_intros]: "sound c (cycle timer c)"
proof -
  have publish: "sound c (case m of (rc, message) \<Rightarrow>
      if rc \<noteq> 1 then Some (y, c)
      else do {
        (rc, c) \<leftarrow> acknowledge message timer (snd (deliverMessage message c));
        if rc = MQTT_FAILURE then Some (rc, c)
        else do { (_, c) \<leftarrow> keepalive c; Some (y, c) }
      })" for c y and m :: "int \<times> publish_out"
    unfolding split_beta [of _ m]
    by (rule sound_if [OF sound_return [OF rtranclp.rtrancl_refl]
          sound_bind_pair [OF sound_after [OF changes_deliver sound_acknowledge]
            sound_if [OF sound_return [OF rtranclp.rtrancl_refl] sound_then [OF sound_keepalive]]]])
  have other: "sound c (keepalive (if b then c\<lparr>ping_outstanding := False\<rparr> else c))" for b c
    using sound_keepalive by (auto intro: sound_after [OF changes_ping])
  show ?thesis
    unfolding cycle_def
    by (rule sound_bind_pair [OF sound_readPacket])
      (intro sound_if sound_then sound_keepalive other sound_access publish)
qed

lemma cycle_clock: "good c \<Longrightarrow> cycle timer c = Some (x, d) \<Longrightarrow> clock_reads c \<le> clock_reads d"
  using changes_clock sound_changes [OF sound_cycle] by blast

section \<open>Loops of rounds\<close>

lemma round_cases [consumes 2]:
  assumes "(case timer_expired timer c of (expired, c) \<Rightarrow>
      if expired then Some (a, c) else Option.bind (cycle timer c) g) = Some r" and "good c"
  obtains (expired) "r = (a, snd (timer_expired timer c))" "changes c (snd (timer_expired timer c))"
    | (round) y e where "changes c e" "good e" "g (y, e) = Some r"
proof -
  let ?c = "snd (timer_expired timer c)"
  have ch: "changes c ?c" by (rule changes_timer)
  show thesis
  proof (cases "fst (timer_expired timer c)")
    case True
    then show ?thesis using assms(1) ch by (intro that(1)) (simp_all add: split_beta)
  next
    case False
    then obtain ye where "cycle timer ?c = Some ye" "g ye = Some r"
      using assms(1) by (auto simp: split_beta bind_eq_Some_conv)
    moreover obtain y e where "ye = (y, e)" by (cases ye)
    ultimately have cy: "cycle timer ?c = Some (y, e)" "g (y, e) = Some r" by simp_all
    have "changes c e"
      by (rule rtranclp_trans [OF ch sound_changes [OF sound_cycle changes_good [OF ch assms(2)] cy(1)]])
    then show ?thesis using cy(2) assms(2) changes_good that(2) by blast
  qed
qed

lemma waitfor_loop_changes:
  assumes "waitfor_loop rc p timer c = Some (x, d)" "good c"
  shows "changes c d"
proof -
  have "good c \<longrightarrow> changes c d"
  proof (rule waitfor_loop.raw_induct [where P = "\<lambda>rc p timer c (x, d). good c \<longrightarrow> changes c d",
        OF _ assms(1), simplified prod.case])
    fix f rc p timer c and r :: "int \<times> client"
    assume IH: "\<And>rc p timer c r. f rc p timer c = Some r \<Longrightarrow>
        (case r of (x, d) \<Rightarrow> good c \<longrightarrow> changes c d)"
      and eq: "(case timer_expired timer c of (expired, c) \<Rightarrow>
         if expired then Some (rc, c)
         else do {
           (rc, c) \<leftarrow> cycle timer c;
           if rc = p then Some (rc, c) else f rc p timer c
         }) = Some r"
    have "changes c (snd r)" if "good c"
      using eq that
    proof (cases rule: round_cases)
      case (round y e)
      then show ?thesis using IH [of y p timer e r]
        by (cases r) (auto split: if_splits intro: rtranclp_trans [of change])
    qed simp
    then show "case r of (x, d) \<Rightarrow> good c \<longrightarrow> changes c d" by (cases r) simp
  qed
  with assms(2) show ?thesis by blast
qed

lemma yield_loop_changes:
  assumes "yield_loop timer c = Some (x, d)" "good c"
  shows "changes c d"
proof -
  have "good c \<longrightarrow> changes c d"
  proof (rule yield_loop.raw_induct [where P = "\<lambda>timer c (x, d). good c \<longrightarrow> changes c d",
        OF _ assms(1), simplified prod.case])
    fix f timer c and r :: "int \<times> client"
    assume IH: "\<And>timer c r. f timer c = Some r \<Longrightarrow> (case r of (x, d) \<Rightarrow> good c \<longrightarrow> changes c d)"
      and eq: "(case timer_expired timer c of (expired, c) \<Rightarrow>
         if expired then Some (MQTT_SUCCESS, c)
         else do {
           (rc, c) \<leftarrow> cycle timer c;
           if rc < 0 then Some (MQTT_FAILURE, c) else f timer c
         }) = Some r"
    have "changes c (snd r)" if "good c"
      using eq that
    proof (cases rule: round_cases)
      case (round y e)
      then show ?thesis using IH [of timer e r]
        by (cases r) (auto split: if_splits intro: rtranclp_trans [of change])
    qed simp
    then show "case r of (x, d) \<Rightarrow> good c \<longrightarrow> changes c d" by (cases r) simp
  qed
  with assms(2) show ?thesis by blast
qed

text \<open>
  A loop of rounds comes back: every round reads the clock, and from some reading on the timer has
  expired.
\<close>

lemma rounds_return:
  assumes step: "\<And>c a. loop a c = (case timer_expired timer c of (expired, c) \<Rightarrow>
      if expired then Some (out a, c)
      else do { (y, d) \<leftarrow> cycle timer c; if stop y then Some (fin y, d) else loop y d })"
    and c: "good c" "live c"
  shows "loop a c \<noteq> None"
proof -
  obtain n where "\<forall>m \<ge> n. timer \<le> time_of_day c m" using live_expires [OF c(2)] by blast
  then show ?thesis
    using c
  proof (induction "n - clock_reads c" arbitrary: a c rule: less_induct)
    case less
    let ?c = "snd (timer_expired timer c)"
    have ch: "changes c ?c" by (rule changes_timer)
    show ?case
    proof (cases "fst (timer_expired timer c)")
      case True
      then show ?thesis by (subst step) (simp add: split_beta)
    next
      case False
      then have n: "clock_reads c < n" using less.prems(1) by (meson expired_iff not_le)
      have "good ?c" "live ?c" using changes_good [OF ch] changes_live [OF ch] less.prems by blast+
      then obtain y d where cy: "cycle timer ?c = Some (y, d)" and chd: "changes ?c d"
        using sound_returns [OF sound_cycle] sound_changes [OF sound_cycle] by blast
      have all: "changes c d" by (rule rtranclp_trans [OF ch chd])
      have "clock_reads c < clock_reads d"
        using changes_clock [OF chd] by (simp add: clock_states)
      then have "loop y d \<noteq> None"
        using n less.prems same_time [OF all] changes_good [OF all] changes_live [OF all]
        by (intro less.hyps) auto
      then show ?thesis using False cy by (subst step) (simp add: split_beta)
    qed
  qed
qed

lemma sound_yield_loop: "sound c (yield_loop timer c)"
  using rounds_return [where loop = "\<lambda>_. yield_loop timer" and out = "\<lambda>_. MQTT_SUCCESS"
      and stop = "\<lambda>y. y < 0" and fin = "\<lambda>_. MQTT_FAILURE", OF yield_loop.simps]
  by (intro soundI) (auto intro: yield_loop_changes)

lemma sound_waitfor [sound_intros]: "sound c (waitfor t timer c)"
  using rounds_return [where loop = "\<lambda>rc. waitfor_loop rc (uint t) timer" and out = "\<lambda>rc. rc"
      and stop = "\<lambda>y. y = uint t" and fin = "\<lambda>y. y", OF waitfor_loop.simps]
  unfolding waitfor_def by (intro soundI) (auto intro: waitfor_loop_changes)

lemma sound_packet:
  assumes "\<And>n w. r = Some (n, w) \<Longrightarrow> length w \<le> 512" "\<And>n d. sound d (f n d)"
  shows "sound c (case access r (0, []) c of (p, c) \<Rightarrow> case fill_sendbuf p c of (n, c) \<Rightarrow> f n c)"
proof (rule sound_access, rule sound_filled)
  show "length (snd (fst (access r (0, []) c))) \<le> MAX_MQTT_PACKET_SIZE"
    using assms(1) by (cases r) (auto simp: access_def MAX_MQTT_PACKET_SIZE_def)
qed (rule assms(2))

lemma sound_timer: "(\<And>e d. sound d (f e d)) \<Longrightarrow> sound c (case countdown_ms ms c of (e, d) \<Rightarrow> f e d)"
  by (rule sound_case [OF changes_timer(3)])

lemma sound_let: "changes c d \<Longrightarrow> sound d (f d) \<Longrightarrow> sound c (let e = d in f e)"
  by (simp add: sound_after)

lemma sound_yield: "sound c (Client_yield ms c)"
  unfolding Client_yield_def by (rule sound_timer) (rule sound_yield_loop)

end

section \<open>The rounds of the library\<close>

interpretation calm: rounds round_bookkeeping
  by unfold_locales (simp_all add: round_is_bookkeeping)

text \<open>What the rounds of the library leave alone.\<close>

definition same_session :: "client \<Rightarrow> client \<Rightarrow> bool" where
  "same_session c d \<longleftrightarrow> isconnected d = isconnected c \<and> messageHandlers d = messageHandlers c \<and>
     defaultMessageHandler d = defaultMessageHandler c \<and> cleansession d = cleansession c \<and>
     keepAliveInterval d = keepAliveInterval c \<and> next_packetid d = next_packetid c \<and>
     inflightMsgid d = inflightMsgid c \<and> inflightQoS d = inflightQoS c \<and> inflightLen d = inflightLen c \<and>
     text_at d = text_at c"

lemma round_session: "round_bookkeeping c d \<Longrightarrow> same_session c d"
  unfolding round_bookkeeping_def by (elim exE) (simp add: same_session_def)

lemma calm_session: "calm.changes c d \<Longrightarrow> same_session c d"
proof (induction rule: rtranclp_induct)
  case base
  then show ?case by (simp add: same_session_def)
next
  case (step d e)
  from step(2) have "same_session d e"
  proof cases
    case other
    then show ?thesis by (rule round_session)
  qed (simp_all add: same_session_def)
  with step(3) show ?case by (simp add: same_session_def)
qed

lemma calm_outcome:
  assumes "calm.sound c r" "good c" "r = Some (x, d)"
  shows "same_session c d" "good d"
proof -
  have ch: "calm.changes c d" by (rule calm.sound_changes [OF assms])
  show "same_session c d" by (rule calm_session [OF ch])
  show "good d" by (rule calm.changes_good [OF ch assms(2)])
qed

end
