(* ===== verification/ClientCalls.thy ===== *)
theory ClientCalls
  imports ClientSteps
begin

text \<open>
  The calls of the client library that the gateway makes are sound: connect, publish, subscribe,
  unsubscribe and disconnect are built of the elementary changes of \<open>ClientSteps\<close>, within the bounds
  of the buffers.
\<close>

section \<open>Packets fit their buffer\<close>

lemma encoded_fits: "0 \<le> n \<Longrightarrow> MQTTPacket_len n \<le> 512 \<Longrightarrow> 1 + int (length (MQTTPacket_encode n)) + n \<le> 512"
proof -
  assume n: "0 \<le> n" "MQTTPacket_len n \<le> 512"
  then have "n < 268435456" by (auto simp: MQTTPacket_len_def Let_def split: if_splits)
  then show ?thesis using encode_bytes_le [OF n(1)] n(2) by linarith
qed

lemma cstring_of_written:
  "writeMQTTString (cstring_of t) = Some (writeInt (int (length (cstr t))) @ cstr t)"
  "MQTTstrlen (cstring_of t) = int (length (cstr t))"
  by (simp_all add: cstring_of_def MQTTString_initializer_def writeMQTTString_def writeCString_def
      MQTTstrlen_def)

lemma publish_fits:
  assumes "MQTTSerialize_publish 512 dup qos retained p (cstring_of t) payload n = Some (len, w)"
  shows "length w \<le> 512"
proof (cases "MQTTPacket_len (MQTTSerialize_publishLength qos (cstring_of t) n) > 512")
  case True
  then show ?thesis using assms by (simp add: MQTTSerialize_publish_def)
next
  case False
  let ?l = "MQTTSerialize_publishLength qos (cstring_of t) n"
  obtain d where d: "copy_from payload n = Some d"
    using assms False by (auto simp: MQTTSerialize_publish_def cstring_of_written bind_eq_Some_conv)
  then have n: "0 \<le> n" "int (length d) = n" by (auto simp: copy_from_def split: if_splits)
  have l: "?l = 2 + int (length (cstr t)) + n + (if qos > 0 then 2 else 0)"
    by (simp add: MQTTSerialize_publishLength_def cstring_of_written)
  have "int (length w) = 1 + int (length (MQTTPacket_encode ?l)) + ?l"
    using assms False d n by (auto simp: MQTTSerialize_publish_def cstring_of_written packet_written_def l Let_def)
  then show ?thesis using encoded_fits [of ?l] False l n by simp
qed

lemma subscribe_fits:
  assumes "MQTTSerialize_subscribe 512 dup p [(cstring_of t, qos)] = Some (len, w)"
  shows "length w \<le> 512"
proof (cases "MQTTPacket_len (MQTTSerialize_subscribeLength [cstring_of t]) > 512")
  case True
  then show ?thesis using assms by (simp add: MQTTSerialize_subscribe_def)
next
  case False
  let ?l = "MQTTSerialize_subscribeLength [cstring_of t]"
  have l: "?l = 5 + int (length (cstr t))"
    by (simp add: MQTTSerialize_subscribeLength_def cstring_of_written)
  then have "int (length w) = 1 + int (length (MQTTPacket_encode ?l)) + ?l"
    using assms False by (auto simp: MQTTSerialize_subscribe_def cstring_of_written packet_written_def Let_def)
  then show ?thesis using encoded_fits [of ?l] False l by simp
qed

lemma unsubscribe_fits:
  assumes "MQTTSerialize_unsubscribe 512 dup p [cstring_of t] = Some (len, w)"
  shows "length w \<le> 512"
proof (cases "MQTTPacket_len (MQTTSerialize_unsubscribeLength [cstring_of t]) > 512")
  case True
  then show ?thesis using assms by (simp add: MQTTSerialize_unsubscribe_def)
next
  case False
  let ?l = "MQTTSerialize_unsubscribeLength [cstring_of t]"
  have l: "?l = 4 + int (length (cstr t))"
    by (simp add: MQTTSerialize_unsubscribeLength_def cstring_of_written)
  then have "int (length w) = 1 + int (length (MQTTPacket_encode ?l)) + ?l"
    using assms False by (auto simp: MQTTSerialize_unsubscribe_def cstring_of_written packet_written_def Let_def)
  then show ?thesis using encoded_fits [of ?l] False l by simp
qed

text \<open>A string whose length is counted as it is written; a C string may have any length.\<close>

definition sized_string :: "mqtt_string \<Rightarrow> bool" where
  "sized_string s \<longleftrightarrow> wf_string s \<or> (\<exists>t. s = cstring_of t)"

lemma sized_string_facts:
  assumes "sized_string s"
  shows "writeMQTTString s = Some (writeInt (int (length (string_bytes s))) @ string_bytes s)"
    and "MQTTstrlen s = int (length (string_bytes s))"
  using assms wf_string_facts [of s]
  by (auto simp: sized_string_def cstring_of_written)
    (auto simp: cstring_of_def MQTTString_initializer_def string_bytes_def)

lemma write_if_sized: "(b \<Longrightarrow> sized_string s) \<Longrightarrow> write_if b s = Some (opt_bytes b (string_bytes s))"
  by (simp add: write_if_def opt_bytes_def counted_def sized_string_facts(1))

text \<open>
  Options without contradiction; with others \<open>MQTTSerialize_connect\<close> writes more than it has counted.
\<close>

definition orderly_options :: "connect_data \<Rightarrow> bool" where
  "orderly_options d \<longleftrightarrow> (cd_MQTTVersion d = 3 \<or> cd_MQTTVersion d = 4) \<and> sized_string (cd_clientID d) \<and>
     (cd_willFlag d \<noteq> 0 \<longrightarrow> sized_string (wo_topicName (cd_will d)) \<and> sized_string (wo_message (cd_will d))) \<and>
     (string_given (cd_username d) \<longrightarrow> sized_string (cd_username d)) \<and>
     (string_given (cd_password d) \<longrightarrow> sized_string (cd_password d))"

lemma connect_fits:
  assumes wf: "orderly_options d" and ser: "MQTTSerialize_connect 512 d = Some (len, w)"
  shows "length w \<le> 512"
proof (cases "MQTTPacket_len (MQTTSerialize_connectLength d) > 512")
  case True
  then show ?thesis using ser by (simp add: MQTTSerialize_connect_def)
next
  case False
  let ?l = "MQTTSerialize_connectLength d"
  note wf = wf [unfolded orderly_options_def]
  have opt: "(if b then MQTTstrlen s + 2 else 0) = int (length (opt_bytes b (string_bytes s)))"
    if "b \<Longrightarrow> sized_string s" for b s
    using that by (simp add: length_opt_bytes sized_string_facts(2))
  define T where "T = opt_bytes (cd_willFlag d \<noteq> 0) (string_bytes (wo_topicName (cd_will d)))"
  define M where "M = opt_bytes (cd_willFlag d \<noteq> 0) (string_bytes (wo_message (cd_will d)))"
  define U where "U = opt_bytes (string_given (cd_username d)) (string_bytes (cd_username d))"
  define P where "P = opt_bytes (string_given (cd_password d)) (string_bytes (cd_password d))"
  define I where "I = writeInt (int (length (string_bytes (cd_clientID d)))) @ string_bytes (cd_clientID d)"
  have parts: "writeMQTTString (cd_clientID d) = Some I"
    "write_if (cd_willFlag d \<noteq> 0) (wo_topicName (cd_will d)) = Some T"
    "write_if (cd_willFlag d \<noteq> 0) (wo_message (cd_will d)) = Some M"
    "write_if (string_given (cd_username d)) (cd_username d) = Some U"
    "write_if (string_given (cd_password d)) (cd_password d) = Some P"
    unfolding I_def T_def M_def U_def P_def using wf by (simp_all add: write_if_sized sized_string_facts(1))
  have will: "(if cd_willFlag d \<noteq> 0 then MQTTstrlen (wo_topicName (cd_will d)) + 2
      + (MQTTstrlen (wo_message (cd_will d)) + 2) else 0) = int (length T) + int (length M)"
    using wf by (simp add: T_def M_def length_opt_bytes sized_string_facts(2))
  have l: "?l = (if cd_MQTTVersion d = 4 then 10 else 12) + int (length I) + int (length T) + int (length M)
      + int (length U) + int (length P)"
    unfolding MQTTSerialize_connectLength_def will U_def P_def
    using wf opt [of "string_given (cd_username d)" "cd_username d"] opt [of "string_given (cd_password d)" "cd_password d"]
    by (auto simp: I_def sized_string_facts(2))
  then have "0 \<le> ?l" by simp
  moreover have "int (length w) = 1 + int (length (MQTTPacket_encode ?l)) + ?l"
    using ser False l
    by (cases "cd_MQTTVersion d = 4")
      (auto simp: MQTTSerialize_connect_def packet_written_def parts writeCString_def Let_def)
  ultimately show ?thesis using encoded_fits [of ?l] False by simp
qed

section \<open>Changes of the session\<close>

text \<open>
  The interface to a relation that also the changes of a session respect; \<open>slot a g\<close> says that the
  filter at the address \<open>a\<close> may be subscribed to with the callback \<open>g\<close>.
\<close>

locale sessions = rounds +
  fixes slot :: "nat \<Rightarrow> nat \<Rightarrow> bool"
  assumes allowed_connected: "allowed c (c\<lparr>isconnected := b\<rparr>)"
    and allowed_inflight: "allowed c (c\<lparr>inflightMsgid := p, inflightLen := n, inflightQoS := q\<rparr>)"
    and allowed_options: "allowed c (c\<lparr>keepAliveInterval := k, cleansession := b\<rparr>)"
    and allowed_clean: "allowed c (cleanSession c)"
    and allowed_id: "allowed c (snd (getNext c))"
    and allowed_subscribed: "slot a g \<Longrightarrow> add_handler a g (messageHandlers c) = Some hs \<Longrightarrow>
      allowed c (c\<lparr>messageHandlers := hs\<rparr>)"
    and allowed_removed: "allowed c (c\<lparr>messageHandlers := remove_handler t f (messageHandlers c)\<rparr>)"
begin

lemma changes_via: "changes c d \<Longrightarrow> allowed d e \<Longrightarrow> changes c e"
  by (rule rtranclp_trans [OF _ changes_allowed])

lemma allowed_msgid: "allowed c (c\<lparr>inflightMsgid := p\<rparr>)"
  using allowed_inflight [where c = c and p = p and n = "inflightLen c" and q = "inflightQoS c"] by simp

lemma changes_members [simp]: "changes c (c\<lparr>faulted := True\<rparr>)" "changes c (c\<lparr>isconnected := b\<rparr>)"
  "changes c (c\<lparr>inflightMsgid := p\<rparr>)" "changes c (c\<lparr>last_received := e\<rparr>)"
  "changes c (cleanSession c)" "changes c (snd (getNext c))"
  by (auto intro!: changes_round round_bookkeepingI
      changes_allowed [OF allowed_connected] changes_allowed [OF allowed_msgid]
      changes_allowed [OF allowed_clean] changes_allowed [OF allowed_id])

section \<open>The calls\<close>

lemma sound_next_id: "(\<And>p d. sound d (f p d)) \<Longrightarrow> sound c (case getNext c of (p, d) \<Rightarrow> f p d)"
  by (rule sound_case) simp_all

lemma sound_publish_packet : "sound c (publish_packet len timer qos c)"
proof -
  have clean: "sound d (Some (rc, if rc \<noteq> MQTT_SUCCESS then cleanSession d else d))" for rc d
    by (simp add: sound_return)
  have ack: "sound d (case y of (ok, ack) \<Rightarrow> Some (if ok \<noteq> 1 then (MQTT_FAILURE, d)
      else (rc, if inflightMsgid d = ack_msgid ack d then d\<lparr>inflightMsgid := 0\<rparr> else d)))"
    for d rc and y :: "int \<times> ack_out"
    by (cases y) (simp add: sound_return)
  show ?thesis
    unfolding publish_packet_def
    by (intro sound_bind_pair sound_intros clean sound_if sound_access ack) (simp_all add: sound_return)
qed

lemma sound_resend : "sound c (resend_inflight timer rc c)"
proof (rule sound_good)
  assume "good c"
  then have "changes c (c\<lparr>sendbuf := pubbuf c\<rparr>)" by (intro changes_sendbuf) (simp add: good_def)
  then show "sound c (resend_inflight timer rc c)"
    unfolding resend_inflight_def
    by (intro sound_if sound_after [OF _ sound_publish_packet]) (simp_all add: sound_return)
qed

lemma sound_await_connack : "sound c (await_connack timer c)"
  unfolding await_connack_def
  by (rule sound_bind_pair [OF sound_waitfor], rule sound_if)
    (auto simp: split_beta changes_access intro!: sound_return)

lemma changes_last_received: "changes c (if b then
    (case start_countdown n c of (e, c) \<Rightarrow> c\<lparr>last_received := e\<rparr>) else c)"
  using rtranclp_trans [OF changes_timer(4) changes_members(4)] by (simp add: split_beta)

lemma sound_connect: "orderly_options options \<Longrightarrow> sound c (Client_connect options c)"
proof -
  assume wf: "orderly_options options"
  have start: "sound d (Some (rc, if rc = MQTT_SUCCESS then d\<lparr>isconnected := True\<rparr> else d))" for rc d
    by (simp add: sound_return)
  have options: "changes d (d\<lparr>keepAliveInterval := k, cleansession := b\<rparr>)" for d k b
    by (rule changes_allowed) (rule allowed_options)
  note fin = sound_return [OF rtranclp.rtrancl_refl]
  show ?thesis
    unfolding Client_connect_def MAX_MQTT_PACKET_SIZE_def of_nat_numeral
    by (rule sound_timer, rule sound_if [OF fin sound_let [OF options]], rule sound_packet)
      (auto intro!: sound_if [OF fin] fin sound_bind_pair [OF sound_sendPacket]
        sound_let [OF changes_last_received] sound_bind_pair [OF sound_await_connack]
        sound_bind_pair [OF sound_resend] start dest: connect_fits [OF wf])
qed

lemma changes_accept_suback: "slot a g \<Longrightarrow> changes c (snd (accept_suback a g rc c))"
proof -
  assume slot: "slot a g"
  let ?d = "snd (access (MQTTDeserialize_suback 1 (readbuf c @ behind c)) (0, None) c)"
  have d: "changes c ?d" by (rule changes_access)
  have fault: "changes c (if b then ?d\<lparr>faulted := True\<rparr> else ?d)" for b
    using d by (auto intro: rtranclp_trans [OF d])
  have "changes c (snd (if e \<noteq> 128 then (case add_handler a g (messageHandlers f) of
        Some hs \<Rightarrow> (0, f\<lparr>messageHandlers := hs\<rparr>) | None \<Rightarrow> (e, f)) else (e, f)))"
    if "changes c f" for e :: int and f
    using that allowed_subscribed [OF slot]
    by (auto split: option.splits intro: changes_via [OF that])
  then show ?thesis
    using fault by (simp add: accept_suback_def split_beta Let_def)
qed

lemma changes_accept_unsuback: "changes c (snd (accept_unsuback a rc c))"
  by (auto simp: accept_unsuback_def split_beta changes_access
      intro!: rtranclp_trans [OF changes_access changes_allowed [OF allowed_removed]])

lemma sound_clean: "sound d (Some (rc, if rc \<noteq> MQTT_SUCCESS then cleanSession d else d))"
  by (simp add: sound_return)

lemma sound_subscribe: "slot a g \<Longrightarrow> sound c (Client_subscribe a qos g c)"
proof -
  assume slot: "slot a g"
  note fin = sound_return [OF rtranclp.rtrancl_refl]
  have answered: "sound d (Some (if b then accept_suback a g rc d else (x, d)))" for b rc x d
    by (simp add: fin sound_result [OF changes_accept_suback [OF slot]])
  show ?thesis
    unfolding Client_subscribe_def MAX_MQTT_PACKET_SIZE_def of_nat_numeral
    by (rule sound_timer, rule sound_bind_pair [OF sound_if [OF fin sound_next_id [OF sound_packet]] sound_clean])
      (auto intro!: fin sound_if [OF fin] sound_bind_pair [OF sound_sendPacket]
        sound_bind_pair [OF sound_waitfor] answered dest: subscribe_fits)
qed

lemma sound_unsubscribe: "sound c (Client_unsubscribe a c)"
proof -
  note fin = sound_return [OF rtranclp.rtrancl_refl]
  have answered: "sound d (Some (if b then accept_unsuback a rc d else (x, d)))" for b rc x d
    by (simp add: fin sound_result [OF changes_accept_unsuback])
  show ?thesis
    unfolding Client_unsubscribe_def MAX_MQTT_PACKET_SIZE_def of_nat_numeral
    by (rule sound_timer, rule sound_bind_pair [OF sound_if [OF fin sound_next_id [OF sound_packet]] sound_clean])
      (auto intro!: fin sound_if [OF fin] sound_bind_pair [OF sound_sendPacket]
        sound_bind_pair [OF sound_waitfor] answered dest: unsubscribe_fits)
qed

text \<open>The publish that is remembered: \<open>len\<close> is at most the size of the buffer.\<close>

lemma changes_inflight:
  assumes "good c" "n \<le> int MAX_MQTT_PACKET_SIZE"
  shows "changes c (if b then c else c\<lparr>pubbuf := overwrite 0 (take (nat n) (sendbuf c)) (pubbuf c),
      inflightMsgid := p, inflightLen := n, inflightQoS := q\<rparr>)"
proof -
  let ?d = "c\<lparr>pubbuf := overwrite 0 (take (nat n) (sendbuf c)) (pubbuf c)\<rparr>"
  have "changes c ?d"
    using assms by (intro changes_pubbuf length_overwrite) (simp add: good_def)
  then have "changes c (?d\<lparr>inflightMsgid := p, inflightLen := n, inflightQoS := q\<rparr>)"
    by (rule changes_via) (rule allowed_inflight)
  then show ?thesis by simp
qed

lemma publish_result: "MQTTSerialize_publish b dup qos retained p t payload n = Some (len, w) \<Longrightarrow>
    len \<le> int (length w)"
  by (auto simp: MQTTSerialize_publish_def packet_written_def MQTTPACKET_BUFFER_TOO_SHORT_def Let_def
      bind_eq_Some_conv split: if_splits)

lemma sound_publish_payload: "sound c (publish_payload t payload n qos retained c)"
proof -
  note fin = sound_return [OF rtranclp.rtrancl_refl]
  have eq: "publish_payload t payload n qos retained c =
     (case countdown_ms (command_timeout_ms c) c of (timer, c) \<Rightarrow>
        if \<not> isconnected c then Some (MQTT_FAILURE, c)
        else
          (case (if qos = 1 \<or> qos = 2 then getNext c else (0, c)) of (packetid, c) \<Rightarrow>
           case access (MQTTSerialize_publish (int MAX_MQTT_PACKET_SIZE) 0 qos (of_bool retained) packetid
             (cstring_of t) payload n) (0, []) c of (packet, c) \<Rightarrow>
           case fill_sendbuf packet c of (len, c) \<Rightarrow>
             if len \<le> 0 then Some (MQTT_FAILURE, c)
             else do {
               let c = (if cleansession c then c
                 else c\<lparr>pubbuf := overwrite 0 (take (nat len) (sendbuf c)) (pubbuf c),
                        inflightMsgid := packetid, inflightLen := len, inflightQoS := qos\<rparr>);
               (rc, c) \<leftarrow> publish_packet len timer qos c;
               Some (rc, c)
             }))"
    by (simp add: publish_payload_def publish_id_def Let_def split_beta)
  have send: "sound d (case access r (0, []) d of (packet, c) \<Rightarrow>
         case fill_sendbuf packet c of (len, c) \<Rightarrow>
           if len \<le> 0 then Some (MQTT_FAILURE, c)
           else do {
             let c = (if cleansession c then c
               else c\<lparr>pubbuf := overwrite 0 (take (nat len) (sendbuf c)) (pubbuf c),
                      inflightMsgid := p, inflightLen := len, inflightQoS := qos\<rparr>);
             (rc, c) \<leftarrow> publish_packet len timer qos c;
             Some (rc, c)
           })"
    if r: "r = MQTTSerialize_publish 512 0 qos b p (cstring_of t) payload n" for r d p b timer
  proof (rule sound_access, rule sound_good)
    let ?a = "access r (0, []) d"
    assume g: "good (snd ?a)"
    have fits: "length (snd (fst ?a)) \<le> 512" "fst (fst ?a) \<le> 512"
    proof -
      have "length w \<le> 512 \<and> k \<le> 512" if "r = Some (k, w)" for k w
        using publish_fits publish_result r [unfolded that, symmetric] by fastforce
      then show "length (snd (fst ?a)) \<le> 512" "fst (fst ?a) \<le> 512"
        by (cases r; simp add: access_def split_paired_all)+
    qed
    have ch: "changes (snd ?a) (snd (fill_sendbuf (fst ?a) (snd ?a)))"
      using g fits by (intro changes_fill) (simp_all add: MAX_MQTT_PACKET_SIZE_def)
    let ?e = "snd (fill_sendbuf (fst ?a) (snd ?a))"
    have len: "fst (fill_sendbuf (fst ?a) (snd ?a)) \<le> int MAX_MQTT_PACKET_SIZE"
      using fits by (simp add: fill_sendbuf_def MAX_MQTT_PACKET_SIZE_def)
    show "sound (snd ?a) (case fill_sendbuf (fst ?a) (snd ?a) of (len, c) \<Rightarrow>
         if len \<le> 0 then Some (MQTT_FAILURE, c)
         else do {
           let c = (if cleansession c then c
             else c\<lparr>pubbuf := overwrite 0 (take (nat len) (sendbuf c)) (pubbuf c),
                    inflightMsgid := p, inflightLen := len, inflightQoS := qos\<rparr>);
           (rc, c) \<leftarrow> publish_packet len timer qos c;
           Some (rc, c)
         })"
      by (rule sound_case [OF ch], rule sound_if [OF fin], rule sound_let,
          rule changes_inflight [OF changes_good [OF ch g] len],
          rule sound_bind_pair [OF sound_publish_packet fin])
  qed
  have id: "changes d (snd (if b then getNext d else (0, d)))" for b d by simp
  show ?thesis
    unfolding eq
    by (rule sound_timer, rule sound_if [OF fin], rule sound_case [OF id], rule send)
      (simp add: MAX_MQTT_PACKET_SIZE_def)
qed

lemma sound_disconnect: "sound c (Client_disconnect c)"
proof -
  note fin = sound_return [OF rtranclp.rtrancl_refl]
  have clean: "sound d (Some (rc, if cleansession d then cleanSession d else d\<lparr>isconnected := False\<rparr>))"
    for rc d by (simp add: sound_return)
  show ?thesis
    unfolding Client_disconnect_def
    by (intro sound_timer sound_filled sound_bind_pair clean sound_if sound_sendPacket fin)
      (simp_all add: MQTTSerialize_disconnect_def MAX_MQTT_PACKET_SIZE_def length_zero)
qed

end

section \<open>All calls of the library\<close>

lemma add_handler_length: "add_handler a g hs = Some hs' \<Longrightarrow> length hs' = length hs"
  by (induction hs arbitrary: hs') (auto split: if_splits)

lemma remove_handler_length [simp]: "length (remove_handler t f hs) = length hs"
  by (induction hs) simp_all

interpretation full: sessions bookkeeping "\<lambda>_ _. True"
  by unfold_locales (simp add: round_is_bookkeeping |
      simp add: bookkeeping_def cleanSession_def getNext_def add_handler_length)+

end
