(* ===== verification/ClientRuns.thy ===== *)
theory ClientRuns
  imports ClientCalls
begin

text \<open>
  Runs of the client library: any sequence of calls of its object.  What every run keeps, when a
  call comes back, and when it does not.
\<close>

section \<open>Calls and runs\<close>

datatype client_call =
    ConnectCall connect_data
  | PublishCall bytes outgoing
  | SubscribeCall nat int nat
  | UnsubscribeCall nat
  | YieldCall int
  | DisconnectCall

fun call_client :: "client_call \<Rightarrow> client \<Rightarrow> (int \<times> client) option" where
  "call_client (ConnectCall options) c = Client_connect options c"
| "call_client (PublishCall topic m) c = Client_publish topic m c"
| "call_client (SubscribeCall a qos g) c = Client_subscribe a qos g c"
| "call_client (UnsubscribeCall a) c = Client_unsubscribe a c"
| "call_client (YieldCall ms) c = Client_yield ms c"
| "call_client DisconnectCall c = Client_disconnect c"

definition orderly_call :: "client_call \<Rightarrow> bool" where
  "orderly_call k \<longleftrightarrow> (case k of ConnectCall options \<Rightarrow> orderly_options options | _ \<Rightarrow> True)"

lemma sound_call: "orderly_call k \<Longrightarrow> full.sound c (call_client k c)"
  by (cases k) (simp_all add: orderly_call_def full.sound_connect full.sound_publish_payload Client_publish_def
      full.sound_subscribe full.sound_unsubscribe full.sound_yield full.sound_disconnect)

text \<open>Between two calls the caller may change the texts it has passed addresses of.\<close>

inductive client_run :: "client \<Rightarrow> client \<Rightarrow> bool" where
  start: "client_run c c"
| call: "client_run c d \<Longrightarrow> orderly_call k \<Longrightarrow> call_client k d = Some (rc, e) \<Longrightarrow> client_run c e"
| texts: "client_run c d \<Longrightarrow> client_run c (d\<lparr>text_at := t\<rparr>)"

lemma run_invariant:
  assumes "client_run c d" "good c" "next_packetid c \<in> {0..MAX_PACKET_ID}"
  shows "good d \<and> next_packetid d \<in> {0..MAX_PACKET_ID} \<and>
    prefix (wire c) (wire d) \<and> prefix (delivered c) (delivered d)"
  using assms
proof (induction rule: client_run.induct)
  case (call c d k rc e)
  then have ch: "full.changes d e" using full.sound_changes [OF sound_call] by blast
  then show ?case
    using call full.changes_good [OF ch] full.changes_ids [OF ch] full.changes_history [OF ch]
    by (auto intro: prefix_order.trans)
next
  case (texts c d t)
  then show ?case by (simp add: good_def)
qed simp

text \<open>
  In every run of a new client object, whatever the broker sends and in whatever pieces, the
  library writes to its three packet buffers within their 512 bytes only (as lists they keep their
  length), has five handler slots, keeps the packet id counter between 0 and 65535, and never
  takes back a byte it has sent or a message it has handed out - as long as \<open>recv\<close> and \<open>write\<close> do
  not report more bytes than they were asked for and the options of \<open>connect\<close> are without
  contradiction.
\<close>

theorem client_run_bounds:
  assumes buffers: "length (sendbuf c) = 512" "length (readbuf c) = 512" "length (pubbuf c) = 512"
    and system: "\<And>n k d. recv_result c n k = Received d \<Longrightarrow> length d \<le> k"
      "\<And>n k. write_result c n k \<le> int k"
    and run: "client_run (Client_new timeout_ms c) d"
  shows "length (sendbuf d) = 512 \<and> length (readbuf d) = 512 \<and> length (pubbuf d) = 512 \<and>
    length (messageHandlers d) = 5 \<and> 0 \<le> next_packetid d \<and> next_packetid d \<le> 65535 \<and>
    prefix (wire c) (wire d) \<and> prefix (delivered c) (delivered d)"
proof -
  let ?n = "Client_new timeout_ms c"
  have "good ?n" "next_packetid ?n \<in> {0..MAX_PACKET_ID}" "wire ?n = wire c" "delivered ?n = delivered c"
    using buffers system by (simp_all add: Client_new_def cleanSession_def good_def
        MAX_MQTT_PACKET_SIZE_def MAX_PACKET_ID_def MAX_MESSAGE_HANDLERS_def)
  with run_invariant [OF run] show ?thesis
    by (simp add: good_def MAX_MQTT_PACKET_SIZE_def MAX_PACKET_ID_def MAX_MESSAGE_HANDLERS_def)
qed

text \<open>A client to run witnesses on: a clock that advances by a millisecond at every reading.\<close>

definition sample_client :: "(nat \<Rightarrow> nat \<Rightarrow> received) \<Rightarrow> client" where
  "sample_client r = \<lparr>recv_result = r, recvs = 0, write_result = (\<lambda>_ k. int k), writes = 0, wire = [],
     time_of_day = (\<lambda>n. int n * 1000), clock_reads = 0, command_timeout_ms = 30000,
     sendbuf = replicate 512 0, readbuf = replicate 512 0, behind = replicate 32 0,
     last_sent = 0, last_received = 0, keepAliveInterval = 0, ping_outstanding = False,
     cleansession = True, next_packetid = 0,
     messageHandlers = replicate 5 \<lparr>topicFilter = None, fp = None\<rparr>, defaultMessageHandler = None,
     isconnected = False, pubbuf = replicate 512 0, inflightLen = 0, inflightMsgid = 0,
     inflightQoS = 0, text_at = (\<lambda>_. [0]), indet_msgid = 0, faulted = False, delivered = []\<rparr>"

lemma sample_simps:
  "recv_result (sample_client r) = r" "recvs (sample_client r) = 0" "wire (sample_client r) = []"
  "write_result (sample_client r) = (\<lambda>_ k. int k)" "time_of_day (sample_client r) = (\<lambda>n. int n * 1000)"
  "clock_reads (sample_client r) = 0" "length (sendbuf (sample_client r)) = 512"
  "length (readbuf (sample_client r)) = 512" "delivered (sample_client r) = []"
  "length (pubbuf (sample_client r)) = 512" "text_at (sample_client r) = (\<lambda>_. [0])"
  "messageHandlers (sample_client r) = replicate 5 \<lparr>topicFilter = None, fp = None\<rparr>"
  "command_timeout_ms (sample_client r) = 30000" "keepAliveInterval (sample_client r) = 0"
  by (simp_all add: sample_client_def)

lemma sample_good:
  assumes "\<And>n k d. r n k = Received d \<Longrightarrow> length d \<le> k"
  shows "good (sample_client r)" "good (Client_new ms (sample_client r))"
  using assms by (simp_all add: sample_client_def good_def Client_new_def cleanSession_def
      MAX_MQTT_PACKET_SIZE_def MAX_MESSAGE_HANDLERS_def)

lemma sample_live:
  assumes "\<And>n k. 0 < k \<Longrightarrow> r n k \<noteq> Received []" "\<And>n k. r n k \<noteq> RecvError 0"
  shows "live (sample_client r)" "live (Client_new ms (sample_client r))"
proof -
  have "\<exists>n. \<forall>m \<ge> n. t \<le> int m * 1000" for t
    by (rule exI [of _ "nat t"]) auto
  then show "live (sample_client r)" "live (Client_new ms (sample_client r))"
    using assms by (simp_all add: sample_client_def live_def Client_new_def cleanSession_def)
qed

abbreviation quiet :: "nat \<Rightarrow> nat \<Rightarrow> received" where
  "quiet \<equiv> \<lambda>_ _. RecvError 11"

lemma client_run_bounds_witness:
  "\<exists>rc d. Client_disconnect (Client_new 30000 (sample_client quiet)) = Some (rc, d) \<and>
    length (sendbuf d) = 512 \<and> length (messageHandlers d) = 5 \<and> next_packetid d \<le> 65535"
proof -
  let ?c = "sample_client quiet" and ?n = "Client_new 30000 (sample_client quiet)"
  obtain rc d where d: "Client_disconnect ?n = Some (rc, d)"
    using full.sound_returns [OF full.sound_disconnect] sample_good(2) [of quiet] sample_live(2) [of quiet]
    by (metis received.distinct(1) received.inject(2) zero_neq_numeral)
  have "client_run ?n d"
    by (rule client_run.call [OF client_run.start, of DisconnectCall]) (simp_all add: orderly_call_def d)
  then have "length (sendbuf d) = 512 \<and> length (messageHandlers d) = 5 \<and> next_packetid d \<le> 65535"
    using client_run_bounds [of ?c 30000 d] by (simp add: sample_client_def)
  with d show ?thesis by blast
qed

section \<open>Coming back\<close>

text \<open>
  C12: As long as the connection is not closed by the other side - \<open>recv\<close> gives at least one byte or
  an error - and time passes, every call of the library comes back, whatever the broker sends or
  does not send; and so does every call after it.
\<close>

theorem client_calls_return:
  assumes "good c" "live c" "orderly_call k"
  shows "\<exists>rc d. call_client k c = Some (rc, d) \<and> good d \<and> live d"
proof -
  have s: "full.sound c (call_client k c)" by (rule sound_call [OF assms(3)])
  then obtain rc d where r: "call_client k c = Some (rc, d)" using full.sound_returns assms by blast
  then show ?thesis using full.sound_changes [OF s assms(1) r] full.changes_good full.changes_live assms by blast
qed

lemma client_calls_return_witness:
  "\<exists>rc d. Client_yield 300 (sample_client quiet) = Some (rc, d) \<and> good d \<and> live d"
  using client_calls_return [of "sample_client quiet" "YieldCall 300"] sample_good(1) [of quiet]
    sample_live(1) [of quiet]
  by (simp add: orderly_call_def)

section \<open>Not coming back\<close>

text \<open>The other side has closed the connection: \<open>recv\<close> gives no bytes from now on.\<close>

definition closed :: "client \<Rightarrow> bool" where
  "closed c \<longleftrightarrow> (\<forall>n k. recvs c \<le> n \<longrightarrow> recv_result c n k = Received [])"

lemma read_loop_closed: "closed c \<Longrightarrow> length got < len \<Longrightarrow> read_loop len got c = None"
proof (rule ccontr)
  assume c: "closed c" "length got < len" and "read_loop len got c \<noteq> None"
  then obtain r where "read_loop len got c = Some r" by blast
  then have "closed c \<and> length got < len \<longrightarrow> False"
  proof (rule read_loop.raw_induct [where P = "\<lambda>len got c _. closed c \<and> length got < len \<longrightarrow> False", rotated],
      intro impI, elim conjE)
    fix f len got and c :: client and r :: "int \<times> bytes \<times> client"
    assume IH: "\<And>len got c r. f len got c = Some r \<Longrightarrow> closed c \<and> length got < len \<longrightarrow> False"
      and c: "closed c" "length got < len"
      and eq: "(if length got < len then
        (case sys_recv (len - length got) c of (r, c) \<Rightarrow>
           (case r of
              RecvError errno \<Rightarrow> if Socket_error errno \<noteq> 0 then Some (-1, got, c) else f len got c
            | Received d \<Rightarrow> f len (got @ d) c))
      else Some (int (length got), got, c)) = Some r"
    have "f len got (c\<lparr>recvs := recvs c + 1\<rparr>) = Some r"
      using eq c by (simp add: sys_recv_def closed_def)
    moreover have "closed (c\<lparr>recvs := recvs c + 1\<rparr>)" using c(1) by (simp add: closed_def)
    ultimately show False using IH c(2) by blast
  qed
  with c show False by blast
qed

lemma cycle_closed: "closed c \<Longrightarrow> cycle timer c = None"
proof -
  assume "closed c"
  then have "closed (snd (left_ms timer c))" by (simp add: clock_states closed_def)
  then have "read_into 0 1 (snd (left_ms timer c)) = None"
    by (simp add: read_into_def ip_read_def read_loop_closed)
  then show ?thesis by (simp add: cycle_def readPacket_def)
qed

text \<open>
  C13: Once the broker has closed the connection, a call that has to read does not come back: \<open>yield\<close>
  with time left, which is what the gateway calls in every round while it counts as connected, and
  the wait for an acknowledgement, whatever the timers say.  \<open>IPStack::read\<close> goes on asking \<open>recv\<close>,
  which gives nothing.
\<close>

theorem closed_connection_endless:
  assumes "closed c"
  shows "(0 \<le> ms \<and> time_of_day c (clock_reads c + 1) < time_of_day c (clock_reads c) + ms * 1000 \<longrightarrow>
      Client_yield ms c = None) \<and>
    (time_of_day c (clock_reads c) < timer \<longrightarrow> waitfor packet_type timer c = None)"
proof -
  have tick: "closed (d\<lparr>clock_reads := n\<rparr>)" if "closed d" for d n using that by (simp add: closed_def)
  have none: "cycle t (snd (timer_expired t d)) = None" if "closed d" for t d
    using that by (simp add: clock_states tick cycle_closed)
  have wait: "waitfor packet_type timer c = None" if "time_of_day c (clock_reads c) < timer"
  proof -
    have "\<not> fst (timer_expired timer c)" using that by (simp add: expired_iff)
    then show ?thesis using none [OF assms]
      by (simp add: waitfor_def waitfor_loop.simps [of _ _ timer c] split_beta)
  qed
  let ?t = "fst (countdown_ms ms c)" and ?d = "snd (countdown_ms ms c)"
  have "Client_yield ms c = None"
    if "time_of_day c (clock_reads c + 1) < time_of_day c (clock_reads c) + ms * 1000" "0 \<le> ms"
  proof -
    have "(ms sdiv 1000) * 1000000 + (ms smod 1000) * 1000 = ms * 1000"
    proof -
      have "ms sdiv 1000 = ms div 1000" "ms smod 1000 = ms mod 1000"
        using that(2) by (simp_all add: signed_divide_int_def signed_modulo_int_def sgn_if)
      then show ?thesis using div_mult_mod_eq [of ms 1000] by linarith
    qed
    then have "\<not> fst (timer_expired ?t ?d)"
      using that(1) by (simp add: expired_iff countdown_ms_def gettimeofday_def)
    moreover have "closed ?d" unfolding clock_states by (rule tick [OF assms])
    ultimately show ?thesis using none [of ?d ?t]
      by (simp add: Client_yield_def yield_loop.simps [of ?t ?d] split_beta)
  qed
  with wait show ?thesis by blast
qed

lemma closed_connection_witness:
  "Client_yield 300 (sample_client (\<lambda>_ _. Received [])) = None \<and>
    waitfor PUBACK 1000 (sample_client (\<lambda>_ _. Received [])) = None"
  using closed_connection_endless [of "sample_client (\<lambda>_ _. Received [])" 300 1000 PUBACK]
  by (simp add: closed_def sample_client_def)

end
