(* ===== verification/TopicMatching.thy ===== *)
theory TopicMatching
  imports MqttClient
begin

text \<open>
  Topic filters.  \<open>topic_matches\<close> is what MQTT says of a filter and a topic name as lists of levels;
  \<open>isTopicMatched\<close> of \<open>MQTTClient.h\<close> works on the characters.
\<close>

section \<open>Levels\<close>

text \<open>\<open>/\<close> is 47, \<open>+\<close> is 43 and \<open>#\<close> is 35.\<close>

fun join_levels :: "bytes list \<Rightarrow> bytes" where
  "join_levels [] = []"
| "join_levels [l] = l"
| "join_levels (l # ls) = l @ 47 # join_levels ls"

fun topic_matches :: "bytes list \<Rightarrow> bytes list \<Rightarrow> bool" where
  "topic_matches [] ns \<longleftrightarrow> ns = []"
| "topic_matches (f # fs) [] \<longleftrightarrow> f = [35] \<and> fs = []"
| "topic_matches (f # fs) (n # ns) \<longleftrightarrow>
     f = [35] \<and> fs = [] \<or> (f = [43] \<or> f = n) \<and> topic_matches fs ns"

text \<open>The characters of a level of a name, and a filter whose wildcards stand alone, \<open>#\<close> at the end.\<close>

definition plain_level :: "bytes \<Rightarrow> bool" where
  "plain_level l \<longleftrightarrow> 47 \<notin> set l"

fun wf_filter :: "bytes list \<Rightarrow> bool" where
  "wf_filter [] \<longleftrightarrow> False"
| "wf_filter (f # fs) \<longleftrightarrow>
     (if f = [35] then fs = []
      else (f = [43] \<or> plain_level f \<and> 43 \<notin> set f \<and> 35 \<notin> set f) \<and> (fs = [] \<or> wf_filter fs))"

section \<open>The loop on levels\<close>

text \<open>What the loop decides: a wildcard needs a level that is not empty.\<close>

fun loop_matches :: "bytes list \<Rightarrow> bytes list \<Rightarrow> bool" where
  "loop_matches [] ns \<longleftrightarrow> ns = []"
| "loop_matches (f # fs) [] \<longleftrightarrow> False"
| "loop_matches (f # fs) (n # ns) \<longleftrightarrow>
     (if f = [35] then n \<noteq> [] else if f = [43] then n \<noteq> [] \<and> loop_matches fs ns
      else f = n \<and> loop_matches fs ns)"

lemma join_Cons: "join_levels (l # ls) = l @ (if ls = [] then [] else 47 # join_levels ls)"
  by (cases ls) simp_all

lemma match_literal:
  assumes "plain_level f" "43 \<notin> set f" "35 \<notin> set f" "plain_level n"
    and "curf = [] \<or> hd curf = 47" "curn = [] \<or> hd curn = 47"
  shows "match_loop (f @ curf) (n @ curn) \<longleftrightarrow> f = n \<and> match_loop curf curn"
  using assms
proof (induction f arbitrary: n)
  case Nil
  then show ?case by (cases n; cases curf) (auto simp: plain_level_def)
next
  case (Cons x f)
  then show ?case by (cases n; cases curn) (auto simp: plain_level_def)
qed

lemma skip_level: "plain_level n \<Longrightarrow> curn = [] \<or> hd curn = 47 \<Longrightarrow>
    dropWhile (\<lambda>b. b \<noteq> 47) (n @ curn) = curn"
  by (induction n) (auto simp: plain_level_def dropWhile_eq_self_iff)

lemma match_plus:
  assumes "plain_level n" "curn = [] \<or> hd curn = 47"
  shows "match_loop (43 # curf) (n @ curn) \<longleftrightarrow> n \<noteq> [] \<and> match_loop curf curn"
proof (cases n)
  case Nil
  then show ?thesis using assms by (cases curn) auto
next
  case (Cons b n')
  then show ?thesis using assms skip_level [of n' curn] by (auto simp: plain_level_def)
qed

lemma match_hash: "match_loop [35] (n @ curn) \<longleftrightarrow> n \<noteq> []"
  if "plain_level n" "curn = [] \<or> hd curn = 47"
  using that by (cases n; cases curn) (auto simp: plain_level_def)

text \<open>The separator is matched by itself.\<close>

lemma match_rest:
  "match_loop (if fs = [] then [] else 47 # join_levels fs) (if ns = [] then [] else 47 # join_levels ns)
    \<longleftrightarrow> (if fs = [] \<or> ns = [] then fs = [] \<and> ns = [] else match_loop (join_levels fs) (join_levels ns))"
  by auto

lemma match_levels:
  "wf_filter fs \<Longrightarrow> ns \<noteq> [] \<Longrightarrow> \<forall>n \<in> set ns. plain_level n \<Longrightarrow>
    match_loop (join_levels fs) (join_levels ns) \<longleftrightarrow> loop_matches fs ns"
proof (induction fs ns rule: loop_matches.induct)
  case (3 f fs n ns)
  let ?fs = "if fs = [] then [] else 47 # join_levels fs"
  let ?ns = "if ns = [] then [] else 47 # join_levels ns"
  have sep: "?fs = [] \<or> hd ?fs = 47" "?ns = [] \<or> hd ?ns = 47" by simp_all
  have n: "plain_level n" using 3 by simp
  have rest: "match_loop ?fs ?ns \<longleftrightarrow> loop_matches fs ns" if "f \<noteq> [35]"
  proof (cases "fs = [] \<or> ns = []")
    case False
    then have "match_loop (join_levels fs) (join_levels ns) \<longleftrightarrow> loop_matches fs ns"
      using 3 that by (cases "f = [43]") simp_all
    then show ?thesis using False by simp
  qed (cases fs; cases ns; simp)
  consider "f = [35]" | "f = [43]" | "f \<noteq> [35]" "f \<noteq> [43]" by blast
  then show ?case
  proof cases
    case 1
    then have "fs = []" using 3 by simp
    then show ?thesis using 1 match_hash [OF n sep(2)] by (simp add: join_Cons [of n])
  next
    case 2
    have "match_loop (join_levels (f # fs)) (join_levels (n # ns)) \<longleftrightarrow>
        match_loop (43 # ?fs) (n @ ?ns)" by (simp add: join_Cons 2)
    then show ?thesis using match_plus [OF n sep(2)] rest 2 by simp
  next
    case 3
    then have "plain_level f" "43 \<notin> set f" "35 \<notin> set f" using "3.prems"(1) by auto
    from match_literal [OF this n sep] show ?thesis using rest 3 by (simp add: join_Cons)
  qed
qed simp_all

text \<open>A wildcard of the filter meets a level that is there and not empty.\<close>

definition wildcards_filled :: "bytes list \<Rightarrow> bytes list \<Rightarrow> bool" where
  "wildcards_filled fs ns \<longleftrightarrow> length fs \<le> length ns \<and>
     list_all (\<lambda>(f, n). f = [43] \<or> f = [35] \<longrightarrow> n \<noteq> []) (zip fs ns)"

lemma loop_matches_spec:
  "wf_filter fs \<Longrightarrow> loop_matches fs ns \<longleftrightarrow> topic_matches fs ns \<and> wildcards_filled fs ns"
proof (induction fs ns rule: loop_matches.induct)
  case (3 f fs n ns)
  show ?case
  proof (cases "f = [35]")
    case True
    with 3 show ?thesis by (simp add: wildcards_filled_def)
  next
    case False
    have rest: "loop_matches fs ns \<longleftrightarrow> topic_matches fs ns \<and> wildcards_filled fs ns"
    proof (cases "fs = []")
      case wf: False
      have "wf_filter fs" using wf False "3.prems" by simp
      then show ?thesis using "3.IH" False by (cases "f = [43]") simp_all
    qed (simp add: wildcards_filled_def)
    then show ?thesis using False by (auto simp: wildcards_filled_def)
  qed
qed (simp_all add: wildcards_filled_def)

text \<open>A topic name as it comes from \<open>MQTTDeserialize_publish\<close>.\<close>

lemma matched_received:
  "isTopicMatched topic_filter (received topic rest) = Some (match_loop (cstr topic_filter) topic)"
  by (simp add: isTopicMatched_def topic_bytes_def copy_from_def)

text \<open>
  C34: On a filter whose wildcards stand alone in their levels, with \<open>#\<close> at its end only, and any
  topic name, \<open>isTopicMatched\<close> says what MQTT says of the filter and the name as lists of levels,
  except that every wildcard of the filter needs a level of the name that is there and not empty:
  \<open>a/#\<close> does not match \<open>a\<close>, and neither \<open>#\<close> nor \<open>+/a\<close> matches \<open>/a\<close>.
\<close>

theorem topic_matched_iff:
  assumes "wf_filter fs" "ns \<noteq> []" "\<forall>n \<in> set ns. plain_level n"
    and "cstr topic_filter = join_levels fs"
  shows "isTopicMatched topic_filter (received (join_levels ns) rest)
    = Some (topic_matches fs ns \<and> wildcards_filled fs ns)"
  using match_levels [OF assms(1-3)] loop_matches_spec [OF assms(1)] assms(4)
  by (simp add: matched_received)

text \<open>\<open>a/+/#\<close> against \<open>a/b/c\<close>, and \<open>#\<close> against \<open>/a\<close>, where MQTT says that it matches.\<close>

lemma topic_matched_witness:
  "isTopicMatched [97, 47, 43, 47, 35, 0] (received [97, 47, 98, 47, 99] [9]) = Some True \<and>
    isTopicMatched [35, 0] (received [47, 97] [9]) = Some False \<and> topic_matches [[35]] [[], [97]]"
  using topic_matched_iff [of "[[97], [43], [35]]" "[[97], [98], [99]]" "[97, 47, 43, 47, 35, 0]" "[9]"]
    topic_matched_iff [of "[[35]]" "[[], [97]]" "[35, 0]" "[9]"]
  by (simp add: plain_level_def cstr_def wildcards_filled_def)

end
