(* ===== verification/ClientReceiving.thy ===== *)
theory ClientReceiving
  imports ClientRuns TopicMatching
begin

text \<open>
  Packets from the broker: a packet is read whole in whatever pieces it arrives, and a PUBLISH goes
  to the callbacks whose filters match its topic.
\<close>

section \<open>Bytes on their way\<close>

text \<open>
  The calls of \<open>recv\<close> from the \<open>n\<close>th on give the bytes \<open>m\<close>, in pieces of any size and never more
  than there is room for.
\<close>

inductive supplies :: "(nat \<Rightarrow> nat \<Rightarrow> received) \<Rightarrow> nat \<Rightarrow> bytes \<Rightarrow> bool" for r where
  enough: "supplies r n []"
| piece: "(\<And>k. 0 < k \<Longrightarrow> \<exists>j. 0 < j \<and> j \<le> k \<and> j \<le> length m \<and> r n k = Received (take j m) \<and>
    supplies r (n + 1) (drop j m)) \<Longrightarrow> supplies r n m"

lemma supplies_piece: "supplies r n m \<Longrightarrow> m \<noteq> [] \<Longrightarrow> 0 < k \<Longrightarrow>
    \<exists>j. 0 < j \<and> j \<le> k \<and> j \<le> length m \<and> r n k = Received (take j m) \<and> supplies r (n + 1) (drop j m)"
  by (erule supplies.cases) simp_all

text \<open>Every packet can be supplied: one byte at a time.\<close>

definition dribble :: "bytes \<Rightarrow> nat \<Rightarrow> nat \<Rightarrow> received" where
  "dribble m n k = (if 0 < k \<and> n < length m then Received [m ! n] else RecvError 11)"

lemma dribble_contract: "dribble m n k = Received d \<Longrightarrow> length d \<le> k"
  by (auto simp: dribble_def split: if_splits)

lemma supplies_dribble: "supplies (dribble m) n (drop n m)"
proof (induction "length m - n" arbitrary: n)
  case 0
  then show ?case by (simp add: supplies.enough)
next
  case (Suc l)
  then have "supplies (dribble m) (n + 1) (drop (n + 1) m)" "n < length m" by simp_all
  then show ?case
    by (intro supplies.piece exI [of _ 1]) (simp add: dribble_def take_Suc hd_drop_conv_nth)
qed

lemma read_loop_supplied:
  "supplies (recv_result c) (recvs c) m \<Longrightarrow> length got \<le> len \<Longrightarrow> len \<le> length got + length m \<Longrightarrow>
    \<exists>n. read_loop len got c = Some (int len, got @ take (len - length got) m, c\<lparr>recvs := n\<rparr>) \<and>
      supplies (recv_result c) n (drop (len - length got) m)"
proof (induction "len - length got" arbitrary: got m c rule: less_induct)
  case less
  show ?case
  proof (cases "length got < len")
    case False
    then have "read_loop len got c = Some (int len, got, c\<lparr>recvs := recvs c\<rparr>)"
      using less.prems(2) by (simp add: read_loop.simps [of len got])
    then show ?thesis using False less.prems(1) by (intro exI [of _ "recvs c"]) simp
  next
    case True
    then have m: "m \<noteq> []" using less.prems(3) by auto
    obtain j where j: "0 < j" "j \<le> len - length got" "j \<le> length m"
      "recv_result c (recvs c) (len - length got) = Received (take j m)"
      "supplies (recv_result c) (recvs c + 1) (drop j m)"
      using supplies_piece [OF less.prems(1) m, of "len - length got"] True by auto
    let ?c = "c\<lparr>recvs := recvs c + 1\<rparr>" and ?got = "got @ take j m"
    have "\<exists>n. read_loop len ?got ?c =
          Some (int len, ?got @ take (len - length ?got) (drop j m), ?c\<lparr>recvs := n\<rparr>) \<and>
        supplies (recv_result ?c) n (drop (len - length ?got) (drop j m))"
      using j less.prems True by (intro less.hyps) simp_all
    moreover have "len - (length got + j) + j = len - length got" using j by simp
    ultimately show ?thesis
      using True j by (simp add: read_loop.simps [of len got] sys_recv_def min_absorb2
          flip: take_add)
  qed
qed

text \<open>The state after reading: some calls of \<open>recv\<close> later.\<close>

lemma ip_read_supplied:
  assumes "supplies (recv_result c) (recvs c) (d @ m)" "n = int (length d)"
  obtains k where "ip_read n c = Some (n, d, c\<lparr>recvs := k\<rparr>)" "supplies (recv_result c) k m"
  using read_loop_supplied [OF assms(1), of "[]" "length d"] assms(2)
  by (auto simp: ip_read_def)

text \<open>Reading the remaining length goes through the values that decoding a list of bytes does.\<close>

lemma decodePacket_simulates:
  assumes "p \<noteq> []" "last p AND 128 = 0" "list_all (\<lambda>b. b AND 128 \<noteq> 0) (butlast p)"
    and "len + length p \<le> 4" "supplies (recv_result c) (recvs c) (p @ m)"
  shows "\<exists>k. decodePacket_loop len mult v c =
      Some (fst (snd (decode_loop list_getfn len mult v (p @ m))), c\<lparr>recvs := k\<rparr>) \<and>
    supplies (recv_result c) k m"
  using assms
proof (induction p arbitrary: len mult v c)
  case (Cons b p)
  obtain k where k: "ip_read 1 c = Some (1, [b], c\<lparr>recvs := k\<rparr>)" "supplies (recv_result c) k (p @ m)"
    using Cons.prems(5) ip_read_supplied [of c "[b]" "p @ m" 1] by auto
  define v1 where "v1 = v + uint (b AND 127) * mult"
  have small: "\<not> len + 1 > MAX_NO_OF_REMAINING_LENGTH_BYTES"
    using Cons.prems(4) by (simp add: MAX_NO_OF_REMAINING_LENGTH_BYTES_def)
  have list: "decode_loop list_getfn len mult v (b # p @ m) =
      (if b AND 128 \<noteq> 0 then decode_loop list_getfn (len + 1) (mult * 128) v1 (p @ m)
       else (len + 1, v1, p @ m))"
    using small by (subst decode_loop.simps) (simp add: list_getfn_def v1_def Let_def)
  have socket: "decodePacket_loop len mult v c =
      (if b AND 128 \<noteq> 0 then decodePacket_loop (len + 1) (mult * 128) v1 (c\<lparr>recvs := k\<rparr>)
       else Some (v1, c\<lparr>recvs := k\<rparr>))"
    using small k(1) by (subst decodePacket_loop.simps) (simp add: v1_def Let_def)
  show ?case
  proof (cases "p = []")
    case True
    then show ?thesis using Cons.prems(2) list socket k(2) by auto
  next
    case False
    then have "\<exists>j. decodePacket_loop (len + 1) (mult * 128) v1 (c\<lparr>recvs := k\<rparr>) =
        Some (fst (snd (decode_loop list_getfn (len + 1) (mult * 128) v1 (p @ m))), c\<lparr>recvs := k, recvs := j\<rparr>) \<and>
        supplies (recv_result (c\<lparr>recvs := k\<rparr>)) j m"
      using Cons.prems k(2) by (intro Cons.IH) simp_all
    then show ?thesis using list socket False Cons.prems(3) by auto
  qed
qed simp

lemma decodePacket_supplied:
  assumes "0 \<le> n" "n < 268435456" "supplies (recv_result c) (recvs c) (MQTTPacket_encode n @ m)"
  obtains k where "decodePacket c = Some (n, c\<lparr>recvs := k\<rparr>)" "supplies (recv_result c) k m"
proof -
  have "decode_loop list_getfn 0 1 0 (MQTTPacket_encode n @ m) = (length (MQTTPacket_encode n), n, m)"
    using listed.decode_encode [OF assms(1,2), of m] by (simp add: MQTTPacket_decode_def)
  then show ?thesis
    using decodePacket_simulates [of "MQTTPacket_encode n" 0 c m 1 0] encode_last [OF assms(1)]
      length_encode_le [OF assms(1,2)] assms(3) that
    by (auto simp: decodePacket_def)
qed

section \<open>A whole packet\<close>

text \<open>What reading leaves alone: everything but the read buffer and the state of the system calls.\<close>

definition reading :: "client \<Rightarrow> client \<Rightarrow> bool" where
  "reading c d \<longleftrightarrow> (\<exists>n t b e. d = c\<lparr>recvs := n, clock_reads := t, readbuf := b, last_received := e\<rparr>)"

lemma readingI: "d = c\<lparr>recvs := recvs d, clock_reads := clock_reads d, readbuf := readbuf d,
    last_received := last_received d\<rparr> \<Longrightarrow> reading c d"
  unfolding reading_def by blast

lemma reading_facts: "reading c d \<Longrightarrow> recv_result d = recv_result c \<and> messageHandlers d = messageHandlers c \<and>
    defaultMessageHandler d = defaultMessageHandler c \<and> text_at d = text_at c \<and>
    delivered d = delivered c \<and> wire d = wire c \<and> behind d = behind c \<and> sendbuf d = sendbuf c \<and>
    keepAliveInterval d = keepAliveInterval c \<and> faulted d = faulted c"
  by (auto simp: reading_def)

abbreviation packet_bytes :: "byte \<Rightarrow> bytes \<Rightarrow> bytes" where
  "packet_bytes h body \<equiv> h # MQTTPacket_encode (int (length body)) @ body"

lemma overwritten: "length buf = 512 \<Longrightarrow> 1 + length e + length d \<le> 512 \<Longrightarrow>
    overwrite (1 + length e) d (overwrite 1 e (overwrite 0 [h] buf)) = h # e @ d @ drop (1 + length e + length d) buf"
  by (simp add: overwrite_def drop_Cons' take_Cons' add.commute [of "length d"])

lemma readPacket_supplied:
  assumes buf: "length (readbuf c) = 512"
    and fits: "length (packet_bytes h body) \<le> 512"
    and s: "supplies (recv_result c) (recvs c) (packet_bytes h body @ m)"
  obtains d where "readPacket timer c = Some (uint (header_type h), d)" "reading c d"
    "readbuf d = packet_bytes h body @ drop (length (packet_bytes h body)) (readbuf c)"
    "supplies (recv_result d) (recvs d) m"
proof -
  let ?n = "int (length body)" and ?e = "MQTTPacket_encode (int (length body))"
  let ?left = "\<lambda>c. snd (left_ms timer c) :: client"
  have n: "0 \<le> ?n" "?n < 268435456" using fits by simp_all
  obtain k1 where r1: "ip_read 1 (?left c) = Some (1, [h], ?left c\<lparr>recvs := k1\<rparr>)"
      and s1: "supplies (recv_result c) k1 (?e @ body @ m)"
    using ip_read_supplied [of "?left c" "[h]" "?e @ body @ m" 1] s by (auto simp: clock_states)
  define c0 where "c0 = ?left c\<lparr>recvs := k1, readbuf := overwrite 0 [h] (readbuf (?left c))\<rparr>"
  define c1 where "c1 = ?left c0"
  have read1: "read_into 0 1 (?left c) = Some (1, c0)"
    using r1 by (simp add: read_into_def c0_def)
  have "supplies (recv_result c1) (recvs c1) (?e @ body @ m)"
    using s1 by (simp add: c1_def c0_def clock_states)
  then obtain k2 where r2: "decodePacket c1 = Some (?n, c1\<lparr>recvs := k2\<rparr>)"
      and s2: "supplies (recv_result c1) k2 (body @ m)"
    by (rule decodePacket_supplied [OF n])
  define c2 where "c2 = c1\<lparr>recvs := k2, readbuf := overwrite 1 ?e (readbuf c1)\<rparr>"
  have tail: "\<exists>d. (if ?n > 0 then read_into (1 + length ?e) ?n (?left c2) else Some (?n, c2)) = Some (?n, d) \<and>
      reading c d \<and> readbuf d = packet_bytes h body @ drop (length (packet_bytes h body)) (readbuf c) \<and>
      supplies (recv_result d) (recvs d) m"
  proof (cases "body = []")
    case True
    then show ?thesis
      using s2 overwritten [of "readbuf c" ?e "[]" h] buf fits
      by (auto simp: c2_def c1_def c0_def clock_states overwrite_def intro!: readingI)
  next
    case False
    obtain k3 where r3: "ip_read ?n (?left c2) = Some (?n, body, ?left c2\<lparr>recvs := k3\<rparr>)"
        and s3: "supplies (recv_result c) k3 m"
      using ip_read_supplied [of "?left c2" body m ?n] s2
      by (auto simp: c2_def c1_def c0_def clock_states)
    then show ?thesis
      using False overwritten [of "readbuf c" ?e body h] buf fits
      by (auto simp: read_into_def c2_def c1_def c0_def clock_states intro!: readingI)
  qed
  then obtain d where d: "(if ?n > 0 then read_into (1 + length ?e) ?n (?left c2) else Some (?n, c2)) = Some (?n, d)"
      "reading c d" "readbuf d = packet_bytes h body @ drop (length (packet_bytes h body)) (readbuf c)"
      "supplies (recv_result d) (recvs d) m" by blast
  let ?f = "if keepAliveInterval d > 0
    then (case start_countdown (keepAliveInterval d) d of (e, c) \<Rightarrow> c\<lparr>last_received := e\<rparr>) else d"
  have "readPacket timer c = Some (uint (header_type h), ?f)"
  proof -
    have state: "c1\<lparr>recvs := k2, readbuf := overwrite 1 ?e (readbuf (c1\<lparr>recvs := k2\<rparr>))\<rparr> = c2"
      by (simp add: c2_def)
    have room: "\<not> ?n > int MAX_MQTT_PACKET_SIZE - int (1 + length ?e)"
      using fits by (simp add: MAX_MQTT_PACKET_SIZE_def)
    show ?thesis
      unfolding readPacket_def read1 bind.simps prod.case c1_def [symmetric] r2 Let_def state
        if_not_P [OF room] d(1) simp_thms if_False
      using d(3) by simp
  qed
  moreover have "reading c ?f" "readbuf ?f = readbuf d" "recv_result ?f = recv_result d" "recvs ?f = recvs d"
    using d(2)
    by (auto simp: reading_def [of c d] start_countdown_def gettimeofday_def intro!: readingI)
  ultimately show ?thesis using that d by metis
qed

text \<open>
  A packet of up to 512 bytes is read whole, in whatever pieces the socket gives it: \<open>readPacket\<close>
  gives its type, the read buffer starts with exactly its bytes, and the next packet is read from
  its first byte on; nothing is sent or handed out meanwhile.
\<close>

theorem packet_read_whole:
  assumes "length (readbuf c) = 512" "length (packet_bytes h body) \<le> 512"
    and "supplies (recv_result c) (recvs c) (packet_bytes h body @ m)"
  shows "\<exists>d. readPacket timer c = Some (uint (header_type h), d) \<and>
    take (length (packet_bytes h body)) (readbuf d) = packet_bytes h body \<and>
    supplies (recv_result d) (recvs d) m \<and> wire d = wire c \<and> delivered d = delivered c"
proof (rule readPacket_supplied [OF assms, of timer])
  fix d assume "readPacket timer c = Some (uint (header_type h), d)" "reading c d"
    "readbuf d = packet_bytes h body @ drop (length (packet_bytes h body)) (readbuf c)"
    "supplies (recv_result d) (recvs d) m"
  then show ?thesis using reading_facts [of c d] by auto
qed

lemma packet_read_whole_witness:
  "\<exists>d. readPacket 1000000 (sample_client (dribble [0x40, 2, 0, 7, 0xD0])) = Some (4, d) \<and>
    take 4 (readbuf d) = [0x40, 2, 0, 7]"
proof -
  let ?m = "[0x40, 2, 0, 7, 0xD0] :: bytes"
  have t: "uint (header_type 0x40) = 4" by (simp add: header_type_def)
  have "supplies (dribble ?m) 0 ?m" using supplies_dribble [of ?m 0] by simp
  then show ?thesis
    using packet_read_whole [of "sample_client (dribble ?m)" "0x40" "[0, 7]" "[0xD0]" 1000000] t
    by (auto simp: sample_simps encode_small eval_nat_numeral)
qed

section \<open>Sending into an open socket\<close>

text \<open>The socket takes what it is given.\<close>

definition write_all :: "client \<Rightarrow> bool" where
  "write_all c \<longleftrightarrow> (\<forall>n k. write_result c n k = int k)"

text \<open>What sending leaves alone.\<close>

definition sending :: "client \<Rightarrow> client \<Rightarrow> bool" where
  "sending c d \<longleftrightarrow> (\<exists>n w t e. d = c\<lparr>writes := n, wire := wire c @ w, clock_reads := t, last_sent := e\<rparr>)"

lemma sendingI: "d = c\<lparr>writes := writes d, wire := wire c @ w, clock_reads := clock_reads d,
    last_sent := last_sent d\<rparr> \<Longrightarrow> sending c d"
  unfolding sending_def by blast

lemma sending_facts: "sending c d \<Longrightarrow> prefix (wire c) (wire d) \<and> delivered d = delivered c \<and>
    recv_result d = recv_result c \<and> recvs d = recvs c \<and> write_result d = write_result c \<and>
    readbuf d = readbuf c \<and> sendbuf d = sendbuf c \<and> messageHandlers d = messageHandlers c \<and>
    text_at d = text_at c \<and> time_of_day d = time_of_day c \<and> behind d = behind c \<and>
    faulted d = faulted c \<and> isconnected d = isconnected c"
  by (auto simp: sending_def)

lemma sendPacket_all:
  assumes "write_all c" "0 < len" "len \<le> int (length (sendbuf c))"
  shows "\<exists>d. sendPacket len timer c = Some (if fst (timer_expired timer c) then MQTT_FAILURE else MQTT_SUCCESS, d) \<and>
    sending c d \<and>
    (\<not> fst (timer_expired timer c) \<longrightarrow> wire d = wire c @ take (nat len) (sendbuf c))"
proof (cases "fst (timer_expired timer c)")
  case True
  then have "send_loop len timer 0 c = Some (0, snd (timer_expired timer c))"
    using assms(2) by (simp add: send_loop.simps [of len timer 0 c] split_beta)
  then show ?thesis using True assms(2)
    by (auto simp: sendPacket_def clock_states intro!: sendingI [where w = "[]"])
next
  case False
  let ?d = "snd (ip_write (take (nat len) (sendbuf c)) (snd (left_ms timer (snd (timer_expired timer c)))))"
  have "copy_from (sendbuf c) len = Some (take (nat len) (sendbuf c))" "int (length (take (nat len) (sendbuf c))) = len"
    using assms by (simp_all add: copy_from_def)
  then have "send_loop len timer 0 c = Some (len, ?d)"
    using False assms
    by (simp add: send_loop.simps [of len timer 0 c] send_loop.simps [of len timer len] split_beta access_def
        clock_states ip_write_def Let_def write_all_def)
  then show ?thesis using False assms
    by (auto simp: sendPacket_def clock_states ip_write_def Let_def write_all_def start_countdown_def
        gettimeofday_def intro!: sendingI [where w = "take (nat len) (sendbuf c)"])
qed

text \<open>\<open>keepalive\<close> sends at most a PINGREQ.\<close>

lemma keepalive_all:
  assumes "write_all c" "length (sendbuf c) = 512"
  shows "\<exists>rc d. keepalive c = Some (rc, d) \<and> prefix (wire c) (wire d) \<and> delivered d = delivered c \<and>
    recv_result d = recv_result c \<and> recvs d = recvs c \<and> readbuf d = readbuf c \<and>
    behind d = behind c \<and> faulted d = faulted c"
proof (cases "keepAliveInterval c = 0")
  case True
  then show ?thesis by (simp add: keepalive_def)
next
  case False
  let ?c = "snd (timer_expired (last_sent c) c)"
  define p where "p = (if fst (timer_expired (last_sent c) c) then (True, ?c) else timer_expired (last_received ?c) ?c)"
  have p: "\<exists>n. snd p = c\<lparr>clock_reads := n\<rparr>" by (auto simp: p_def clock_states)
  have k: "keepalive c = (case p of (due, c) \<Rightarrow>
           if due \<and> \<not> ping_outstanding c
           then
             (case countdown_ms 1000 c of (timer, c) \<Rightarrow>
              case fill_sendbuf (MQTTSerialize_pingreq (int MAX_MQTT_PACKET_SIZE)) c of (len, c) \<Rightarrow>
                if len > 0
                then do {
                  (rc, c) \<leftarrow> sendPacket len timer c;
                  Some (rc, if rc = MQTT_SUCCESS then c\<lparr>ping_outstanding := True\<rparr> else c)
                }
                else Some (MQTT_FAILURE, c))
           else Some (MQTT_FAILURE, c))"
    using False by (simp add: keepalive_def p_def split_beta [of _ "timer_expired (last_sent c) c"])
  show ?thesis
  proof (cases "fst p \<and> \<not> ping_outstanding (snd p)")
    case False
    then show ?thesis using p by (auto simp: k split_beta)
  next
    case True
    let ?r = "MQTTSerialize_pingreq 512"
    let ?f = "fill_sendbuf ?r (snd (countdown_ms 1000 (snd p)))"
    let ?t = "fst (countdown_ms 1000 (snd p))"
    have r: "fst ?r = 2" "length (snd ?r) = 2"
      by (simp_all add: MQTTSerialize_pingreq_def MQTTSerialize_zero_def packet_written_def encode_small)
    have f: "fst ?f = 2" "length (sendbuf (snd ?f)) = 512" "write_all (snd ?f)" "wire (snd ?f) = wire c"
      "delivered (snd ?f) = delivered c" "recv_result (snd ?f) = recv_result c" "recvs (snd ?f) = recvs c"
      "readbuf (snd ?f) = readbuf c" "behind (snd ?f) = behind c" "faulted (snd ?f) = faulted c"
      using p r assms by (auto simp: fill_sendbuf_def clock_states write_all_def)
    obtain d where d: "sendPacket 2 ?t (snd ?f) = Some (if fst (timer_expired ?t (snd ?f)) then MQTT_FAILURE
        else MQTT_SUCCESS, d)" "sending (snd ?f) d"
      using sendPacket_all [of "snd ?f" 2 ?t] f by auto
    then show ?thesis using sending_facts [OF d(2)] True f
      by (simp add: k split_beta MAX_MQTT_PACKET_SIZE_def)
  qed
qed

section \<open>A message from the broker\<close>

text \<open>The callbacks a topic goes to: those of the matching slots in their order, else the default.\<close>

definition filter_accepts :: "bytes \<Rightarrow> bytes \<Rightarrow> bool" where
  "filter_accepts topic_filter topic \<longleftrightarrow> cstr topic_filter = topic \<or> match_loop (cstr topic_filter) topic"

fun slot_callbacks :: "(nat \<Rightarrow> bytes) \<Rightarrow> bytes \<Rightarrow> message_handler list \<Rightarrow> nat list" where
  "slot_callbacks texts topic [] = []"
| "slot_callbacks texts topic (h # hs) = (case (topicFilter h, fp h) of
     (Some a, Some g) \<Rightarrow> if filter_accepts (texts a) topic then g # slot_callbacks texts topic hs
       else slot_callbacks texts topic hs
   | _ \<Rightarrow> slot_callbacks texts topic hs)"

definition callbacks :: "client \<Rightarrow> bytes \<Rightarrow> nat list" where
  "callbacks c topic = (let gs = slot_callbacks (text_at c) topic (messageHandlers c) in
     if gs = [] then (case defaultMessageHandler c of None \<Rightarrow> [] | Some g \<Rightarrow> [g]) else gs)"

lemma cstr_all: "0 \<notin> set m \<Longrightarrow> cstr m = m"
  by (auto simp: cstr_def takeWhile_eq_all_conv)

lemma equals_received:
  "0 \<notin> set topic \<Longrightarrow> MQTTPacket_equals (received topic rest) f \<longleftrightarrow> cstr f = topic"
  by (auto simp: MQTTPacket_equals_def strncmp_eq_def cstr_all)

lemma handler_matches_received:
  "0 \<notin> set topic \<Longrightarrow> handler_matches c (received topic rest) h =
    Some (case topicFilter h of None \<Rightarrow> False | Some a \<Rightarrow> filter_accepts (text_at c a) topic)"
  by (auto simp: handler_matches_def equals_received matched_received filter_accepts_def split: option.splits)

lemma deliver_loop_callbacks:
  assumes "po_topicName m = received topic rest" "0 \<notin> set topic"
  shows "deliver_loop m hs rc c =
    (if slot_callbacks (text_at c) topic hs = [] then rc else MQTT_SUCCESS,
     c\<lparr>delivered := delivered c @ map (\<lambda>g. (g, m)) (slot_callbacks (text_at c) topic hs)\<rparr>)"
proof (induction hs arbitrary: rc c)
  case (Cons h hs)
  have m: "handler_matches c (po_topicName m) h =
      Some (case topicFilter h of None \<Rightarrow> False | Some a \<Rightarrow> filter_accepts (text_at c a) topic)"
    unfolding assms(1) by (rule handler_matches_received [OF assms(2)])
  show ?case
  proof (cases "topicFilter h"; cases "fp h")
    fix a g assume h: "topicFilter h = Some a" "fp h = Some g"
    show ?thesis
      using Cons.IH [of rc c] Cons.IH [of MQTT_SUCCESS "call_back (Some g) m c"]
      by (simp add: m h access_def FP_attached_def call_back_def)
  qed (simp_all add: m Cons.IH [of rc c] access_def FP_attached_def)
qed simp

lemma deliverMessage_callbacks:
  assumes "po_topicName m = received topic rest" "0 \<notin> set topic"
  shows "snd (deliverMessage m c) = c\<lparr>delivered := delivered c @ map (\<lambda>g. (g, m)) (callbacks c topic)\<rparr>"
  by (auto simp: deliverMessage_def deliver_loop_callbacks [OF assms] callbacks_def FP_attached_def
      call_back_def MQTT_SUCCESS_def MQTT_FAILURE_def Let_def split: option.splits)

text \<open>The bytes of an acknowledgement.\<close>

definition ack_bytes :: "int \<Rightarrow> u16 \<Rightarrow> bytes" where
  "ack_bytes qos p = (if qos = 0 then []
     else [header_byte (if qos = 1 then PUBACK else PUBREC) 0 0 0, 2] @ writeInt (uint p))"

lemma acknowledge_all:
  assumes "po_qos m = Some q" "0 \<le> q" "q \<le> 2" "q > 0 \<longrightarrow> po_packetid m = Some p"
    and "write_all c" "length (sendbuf c) = 512" "\<And>n. time_of_day c n < timer"
  shows "\<exists>d. acknowledge m timer c = Some (MQTT_SUCCESS, d) \<and> write_all d \<and> length (sendbuf d) = 512 \<and>
    wire d = wire c @ ack_bytes q p \<and> delivered d = delivered c \<and>
    recv_result d = recv_result c \<and> recvs d = recvs c"
proof (cases "q = 0")
  case True
  then show ?thesis using assms by (simp add: acknowledge_def ack_bytes_def Let_def)
next
  case False
  let ?t = "if q = 1 then PUBACK else PUBREC"
  let ?r = "MQTTSerialize_ack 512 ?t 0 p"
  have r: "?r = (4, ack_bytes q p)" "length (ack_bytes q p) = 4"
    using False by (simp_all add: MQTTSerialize_ack_def packet_written_def encode_small ack_bytes_def
        PUBACK_def PUBREC_def PUBREL_def)
  let ?f = "snd (fill_sendbuf ?r c)"
  have f: "length (sendbuf ?f) = 512" "write_all ?f" "take 4 (sendbuf ?f) = ack_bytes q p"
    "wire ?f = wire c" "delivered ?f = delivered c" "recv_result ?f = recv_result c" "recvs ?f = recvs c"
    "time_of_day ?f = time_of_day c"
    using r assms by (simp_all add: fill_sendbuf_def write_all_def)
  have "\<not> fst (timer_expired timer ?f)" using assms(7) f by (simp add: expired_iff not_le)
  then obtain d where d: "sendPacket 4 timer ?f = Some (MQTT_SUCCESS, d)" "sending ?f d"
      "wire d = wire ?f @ ack_bytes q p"
    using sendPacket_all [of ?f 4 timer] f by auto
  have "acknowledge m timer c = sendPacket 4 timer ?f"
    using assms(1-4) False r
    by (auto simp: acknowledge_def Let_def MAX_MQTT_PACKET_SIZE_def fill_sendbuf_def split_beta)
  then show ?thesis using d f sending_facts [OF d(2)] by (auto simp: write_all_def)
qed

lemma publish_type: "header_type (header_byte PUBLISH d q r) = PUBLISH"
  by (simp only: header_bits) (simp add: PUBLISH_def)

text \<open>
  C11: A PUBLISH packet of up to 512 bytes that has arrived, in whatever pieces, with a quality of
  service up to 2 and a topic without NUL, while there is time left and the socket takes every
  write: one round
  of the library calls every callback once whose slot holds a filter that accepts the topic, in
  the order of the slots, or the default callback if there is no such slot, with the topic and the
  payload of the packet; then it sends the acknowledgement, and the next packet is the next to be
  read.
\<close>

theorem publish_handed_out:
  assumes buffers: "length (readbuf c) = 512" "length (sendbuf c) = 512"
    and open_socket: "write_all c" "\<And>n. time_of_day c n < timer"
    and hdr: "dup < 2" "0 \<le> qos" "qos \<le> 2" "retained < 2" and topic: "0 \<notin> set topic"
    and body: "body = writeInt (int (length topic)) @ topic @
      (if qos > 0 then writeInt (uint packetid) else []) @ payload"
    and fits: "length (packet_bytes (header_byte PUBLISH dup (of_int qos) retained) body) \<le> 512"
    and arrives: "supplies (recv_result c) (recvs c)
      (packet_bytes (header_byte PUBLISH dup (of_int qos) retained) body @ rest)"
  shows "\<exists>d m. cycle timer c = Some (uint PUBLISH, d) \<and>
    delivered d = delivered c @ map (\<lambda>g. (g, m)) (callbacks c topic) \<and>
    string_bytes (po_topicName m) = topic \<and> po_qos m = Some qos \<and>
    po_payloadlen m = Some (int (length payload)) \<and>
    map_option (take (length payload)) (po_payload m) = Some payload \<and>
    prefix (wire c @ ack_bytes qos packetid) (wire d) \<and> supplies (recv_result d) (recvs d) rest"
proof -
  let ?h = "header_byte PUBLISH dup (of_int qos) retained"
  let ?pid = "if qos > 0 then writeInt (uint packetid) else []"
  obtain d where r: "readPacket timer c = Some (uint PUBLISH, d)" "reading c d"
    and rb: "readbuf d = packet_bytes ?h body @ drop (length (packet_bytes ?h body)) (readbuf c)"
    and s: "supplies (recv_result d) (recvs d) rest"
    by (rule readPacket_supplied [OF buffers(1) fits arrives, of timer]) (simp only: publish_type)
  define e where "e = drop (length (packet_bytes ?h body)) (readbuf c) @ behind c"
  define m where "m = \<lparr>po_dup = Some dup, po_qos = Some qos, po_retained = Some retained,
      po_packetid = (if qos > 0 then Some packetid else None),
      po_topicName = \<lparr>cstring = None, lenstring_len = int (length topic),
        lenstring_data = Some (topic @ ?pid @ payload @ e)\<rparr>,
      po_payload = Some (payload @ e), po_payloadlen = Some (int (length payload))\<rparr>"
  note rd = reading_facts [OF r(2)]
  have len: "int (length body) = 2 + int (length topic) + int (length ?pid) + int (length payload)"
    by (simp add: body)
  have "readbuf d @ behind d = [?h] @ MQTTPacket_encode (int (length body)) @
      (writeInt (int (length topic)) @ topic) @ ?pid @ payload @ e"
    using rd by (simp add: rb body e_def)
  then have des: "MQTTDeserialize_publish MQTTString_initializer (readbuf d @ behind d) = Some (1, m)"
    using deserialize_publish_body [of "int (length body)" qos dup retained topic ?pid payload packetid
        MQTTString_initializer e] len hdr fits
    by (simp add: m_def)
  have name: "po_topicName m = received topic (?pid @ payload @ e)" by (simp add: m_def)
  define d1 where "d1 = snd (deliverMessage m d)"
  have d1: "d1 = d\<lparr>delivered := delivered d @ map (\<lambda>g. (g, m)) (callbacks d topic)\<rparr>"
    unfolding d1_def by (rule deliverMessage_callbacks [OF name topic])
  have dd: "write_all d1" "length (sendbuf d1) = 512" "\<And>n. time_of_day d1 n < timer"
    using rd r(2) buffers open_socket by (auto simp: d1 write_all_def reading_def)
  have ds: "delivered d1 = delivered c @ map (\<lambda>g. (g, m)) (callbacks c topic)" "wire d1 = wire c"
      "recv_result d1 = recv_result d" "recvs d1 = recvs d"
    using rd by (simp_all add: d1 callbacks_def Let_def)
  obtain d2 where d2: "acknowledge m timer d1 = Some (MQTT_SUCCESS, d2)" "write_all d2"
      "length (sendbuf d2) = 512" "wire d2 = wire d1 @ ack_bytes qos packetid"
      "delivered d2 = delivered d1" "recv_result d2 = recv_result d1" "recvs d2 = recvs d1"
    using acknowledge_all [of m qos packetid d1 timer] hdr dd by (auto simp: m_def)
  obtain rc d3 where d3: "keepalive d2 = Some (rc, d3)" "prefix (wire d2) (wire d3)"
      "delivered d3 = delivered d2" "recv_result d3 = recv_result d2" "recvs d3 = recvs d2"
    using keepalive_all [OF d2(2,3)] by blast
  have "cycle timer c = Some (uint PUBLISH, d3)"
    using r(1) des d2(1) d3(1)
    by (simp add: cycle_def access_def d1_def [symmetric] MQTT_FAILURE_def MQTT_BUFFER_OVERFLOW_def
        MQTT_SUCCESS_def PUBLISH_def)
  moreover have "string_bytes (po_topicName m) = topic" by (simp add: name)
  ultimately show ?thesis
    using d2 d3 ds s by (intro exI [of _ d3] exI [of _ m]) (simp add: m_def)
qed

definition sample_publish :: bytes where
  "sample_publish = packet_bytes (header_byte PUBLISH 0 1 0) ([0, 1, 97, 0, 7, 42])"

lemma publish_handed_out_witness:
  "\<exists>d m. cycle 1000000000 ((sample_client (\<lambda>n k. if 0 < k \<and> n < 8 then Received [sample_publish ! n] else RecvError 11))
      \<lparr>messageHandlers := [\<lparr>topicFilter = Some 1, fp = Some 9\<rparr>], text_at := (\<lambda>_. [43, 0]),
       time_of_day := (\<lambda>_. 0)\<rparr>) = Some (uint PUBLISH, d) \<and>
    delivered d = [(9, m)] \<and> string_bytes (po_topicName m) = [97] \<and>
    prefix [header_byte PUBACK 0 0 0, 2, 0, 7] (wire d)"
proof -
  let ?r = "\<lambda>n k. if 0 < k \<and> n < 8 then Received [sample_publish ! n] else RecvError 11"
  let ?c = "(sample_client ?r)\<lparr>messageHandlers := [\<lparr>topicFilter = Some 1, fp = Some 9\<rparr>],
      text_at := (\<lambda>_. [43, 0]), time_of_day := (\<lambda>_. 0)\<rparr>"
  have len: "length sample_publish = 8" by (simp add: sample_publish_def encode_small)
  then have "?r = dribble sample_publish" by (intro ext) (simp add: dribble_def)
  then have s: "supplies ?r 0 sample_publish" using supplies_dribble [of sample_publish 0] by simp
  have w: "writeInt 1 = [0, 1]" "writeInt 7 = [0, 7]"
    by (simp_all add: writeInt_def signed_divide_int_def signed_modulo_int_def)
  show ?thesis
    using publish_handed_out [of ?c 1000000000 0 1 0 "[97]" "[0, 1, 97, 0, 7, 42]" 7 "[42]" "[]"] s len
    by (simp add: sample_simps write_all_def w sample_publish_def encode_small ack_bytes_def
        callbacks_def filter_accepts_def cstr_def Let_def) blast
qed

end
