(* ===== verification/ClientOutcomes.thy ===== *)
theory ClientOutcomes
  imports ClientReceiving
begin

text \<open>
  What the calls of the client library come to: the answers to SUBSCRIBE, a PUBLISH of the broker
  that is no PUBLISH, a publish that fails, and a round that fails.
\<close>

section \<open>Waiting for an answer\<close>

text \<open>A packet that is no PUBLISH and arrives while the timer runs is the outcome of the wait for it.\<close>

lemma waitfor_supplied:
  assumes good: "good c" and open_socket: "write_all c" "\<And>n. time_of_day c n < timer"
    and type: "header_type h = t" "t \<noteq> PUBLISH" and fits: "length (packet_bytes h body) \<le> 512"
    and arrives: "supplies (recv_result c) (recvs c) (packet_bytes h body @ m)"
  obtains d where "waitfor t timer c = Some (uint t, d)" "same_session c d" "good d"
    "readbuf d = packet_bytes h body @ drop (length (packet_bytes h body)) (readbuf c)"
    "behind d = behind c" "faulted d = faulted c" "supplies (recv_result d) (recvs d) m"
proof -
  let ?c = "snd (timer_expired timer c)"
  have buf: "length (readbuf ?c) = 512" "good ?c"
    using good by (auto simp: clock_states good_def MAX_MQTT_PACKET_SIZE_def)
  have arr: "supplies (recv_result ?c) (recvs ?c) (packet_bytes h body @ m)"
    using arrives by (simp add: clock_states)
  obtain e where e: "readPacket timer ?c = Some (uint (header_type h), e)" "reading ?c e"
      "readbuf e = packet_bytes h body @ drop (length (packet_bytes h body)) (readbuf ?c)"
      "supplies (recv_result e) (recvs e) m"
    by (rule readPacket_supplied [OF buf(1) fits arr])
  define e1 where "e1 = (if t = PINGRESP then e\<lparr>ping_outstanding := False\<rparr> else e)"
  have e1: "write_all e1" "length (sendbuf e1) = 512" "readbuf e1 = readbuf e" "behind e1 = behind c"
      "faulted e1 = faulted c" "recv_result e1 = recv_result e" "recvs e1 = recvs e"
    using e(2) open_socket good
    by (auto simp: e1_def reading_def write_all_def clock_states good_def MAX_MQTT_PACKET_SIZE_def)
  obtain rc d where k: "keepalive e1 = Some (rc, d)" "recv_result d = recv_result e1" "recvs d = recvs e1"
      "readbuf d = readbuf e1" "behind d = behind e1" "faulted d = faulted e1"
    using keepalive_all [OF e1(1,2)] by blast
  have "uint t \<noteq> uint PUBLISH" using type(2) by (simp add: word_uint_eq_iff)
  moreover have "uint t \<noteq> MQTT_FAILURE" "uint t \<noteq> MQTT_BUFFER_OVERFLOW"
    using uint_ge_0 [of t] unfolding MQTT_FAILURE_def MQTT_BUFFER_OVERFLOW_def by linarith+
  ultimately have cy: "cycle timer ?c = Some (uint t, d)"
    using e(1) k(1) type(1) by (simp add: cycle_def e1_def word_uint_eq_iff)
  have "\<not> fst (timer_expired timer c)" using open_socket(2) by (simp add: expired_iff not_le)
  then have "waitfor t timer c = Some (uint t, d)"
    using cy by (simp add: waitfor_def waitfor_loop.simps [of _ _ timer c] split_beta)
  moreover have "same_session ?c d" "good d"
    using calm_outcome [OF calm.sound_cycle buf(2) cy] by blast+
  moreover have "same_session c ?c" by (simp add: clock_states same_session_def)
  ultimately show ?thesis
    using that k e e1 by (simp add: same_session_def clock_states)
qed

section \<open>SUBSCRIBE and its answer\<close>

lemma subscribe_packet:
  assumes "length (cstr t) \<le> 500"
  shows "\<exists>w. MQTTSerialize_subscribe 512 0 p [(cstring_of t, qos)] = Some (int (length w), w) \<and>
    0 < length w \<and> length w \<le> 512"
proof -
  let ?l = "MQTTSerialize_subscribeLength [cstring_of t]"
  have l: "?l = 5 + int (length (cstr t))"
    by (simp add: MQTTSerialize_subscribeLength_def cstring_of_written)
  then have "MQTTPacket_len ?l \<le> 512" using assms by (simp add: MQTTPacket_len_def Let_def)
  then obtain w where "MQTTSerialize_subscribe 512 0 p [(cstring_of t, qos)] = Some (int (length w), w)"
      "0 < length w"
    by (simp add: MQTTSerialize_subscribe_def cstring_of_written packet_written_def Let_def)
  then show ?thesis using subscribe_fits by blast
qed

text \<open>The SUBACK of one return code.\<close>

lemma deserialize_suback:
  assumes "header_type h = SUBACK"
  shows "MQTTDeserialize_suback 1 (packet_bytes h [a, b, code] @ rest) =
    Some (1, Some (of_int (256 * uint a + uint b), [sint code]))"
proof -
  have "read_granted 1 (code # rest) 1 [] = Some (1, [sint code])"
    by (simp add: read_granted.simps)
  then show ?thesis
    using assms decodeBuf_encode [of 3 "a # b # code # rest"]
    by (simp add: MQTTDeserialize_suback_def encode_small)
qed

lemma sint_byte_128: "sint (b :: byte) \<noteq> 128"
  using sint_lt [of b] by simp

lemma accept_suback_eq:
  assumes "header_type h = SUBACK" "readbuf d = packet_bytes h [x, y, code] @ r"
  shows "accept_suback a g rc d = (case add_handler a g (messageHandlers d) of
      Some hs \<Rightarrow> (0, d\<lparr>messageHandlers := hs\<rparr>) | None \<Rightarrow> (sint code, d))"
  using deserialize_suback [OF assms(1), of x y code "r @ behind d"] assms(2)
  by (simp add: accept_suback_def access_def sint_byte_128)

text \<open>
  Whatever return code the SUBACK carries - 0x80 is a refusal - \<open>subscribe\<close> reports success and
  keeps the callback as long as one of the five slots is free: the code is read as a signed byte,
  which is never 0x80.  When no slot is free it reports the granted quality of service, and the
  client drops its session, with all filters, unless that is 0; then it keeps nothing of the new
  filter.
\<close>

theorem subscribe_outcome:
  assumes good: "good c" and on: "isconnected c" and short: "length (cstr (text_at c a)) \<le> 500"
    and open_socket: "write_all c"
      "\<And>n. time_of_day c n < fst (countdown_ms (command_timeout_ms c) c)"
    and type: "header_type h = SUBACK"
    and arrives: "supplies (recv_result c) (recvs c) (packet_bytes h [x, y, code] @ m)"
  shows "\<exists>rc d. Client_subscribe a qos g c = Some (rc, d) \<and>
    (case add_handler a g (messageHandlers c) of
       Some hs \<Rightarrow> rc = MQTT_SUCCESS \<and> messageHandlers d = hs \<and> isconnected d
     | None \<Rightarrow> rc = sint code \<and> isconnected d = (rc = 0) \<and>
         map topicFilter (messageHandlers d) =
           (if rc = 0 then map topicFilter (messageHandlers c) else map (\<lambda>_. None) (messageHandlers c)))"
proof -
  let ?e = "fst (countdown_ms (command_timeout_ms c) c)"
  define c1 where "c1 = snd (getNext (snd (countdown_ms (command_timeout_ms c) c)))"
  define p where "p = fst (getNext (snd (countdown_ms (command_timeout_ms c) c)))"
  have next_id: "getNext (snd (countdown_ms (command_timeout_ms c) c)) = (p, c1)"
    by (simp add: p_def c1_def)
  obtain w where w: "MQTTSerialize_subscribe 512 0 p [(cstring_of (text_at c a), qos)] = Some (int (length w), w)"
      "0 < length w" "length w \<le> 512"
    using subscribe_packet [OF short] by blast
  define c2 where "c2 = c1\<lparr>sendbuf := w @ drop (length w) (sendbuf c1)\<rparr>"
  have c2: "good c2" "write_all c2" "\<And>n. time_of_day c2 n < ?e" "text_at c1 = text_at c"
      "recv_result c2 = recv_result c" "recvs c2 = recvs c" "isconnected c2" "messageHandlers c2 = messageHandlers c"
    using good open_socket on w
    by (auto simp: c2_def c1_def getNext_def clock_states good_def write_all_def MAX_MQTT_PACKET_SIZE_def)
  have "\<not> fst (timer_expired ?e c2)" using c2(3) by (simp add: expired_iff not_le)
  then obtain c3 where c3: "sendPacket (int (length w)) ?e c2 = Some (MQTT_SUCCESS, c3)" "sending c2 c3"
    using sendPacket_all [of c2 "int (length w)" ?e] c2(1,2) w(2,3)
    by (auto simp: good_def MAX_MQTT_PACKET_SIZE_def)
  have g3: "good c3" "write_all c3" "\<And>n. time_of_day c3 n < ?e"
      "supplies (recv_result c3) (recvs c3) (packet_bytes h [x, y, code] @ m)"
      "isconnected c3" "messageHandlers c3 = messageHandlers c"
    using full.changes_good [OF full.sound_changes [OF full.sound_sendPacket c2(1) c3(1)] c2(1)]
      c2 sending_facts [OF c3(2)] arrives by (simp_all add: write_all_def)
  have "SUBACK \<noteq> PUBLISH" "length (packet_bytes h [x, y, code]) \<le> 512"
    by (simp_all add: packet_types encode_small)
  then obtain d where d: "waitfor SUBACK ?e c3 = Some (uint SUBACK, d)" "same_session c3 d"
      "readbuf d = packet_bytes h [x, y, code] @ drop (length (packet_bytes h [x, y, code])) (readbuf c3)"
    using waitfor_supplied [OF g3(1,2,3) type _ _ g3(4)] by metis
  have sub: "Client_subscribe a qos g c = (case accept_suback a g MQTT_SUCCESS d of (rc, c) \<Rightarrow>
      Some (rc, if rc \<noteq> MQTT_SUCCESS then cleanSession c else c))"
  proof -
    have "isconnected (snd (countdown_ms (command_timeout_ms c) c))"
      using on by (simp add: clock_states)
    then show ?thesis
      using w c2(4) c3(1) d(1)
      by (simp add: Client_subscribe_def split_beta next_id access_def fill_sendbuf_def
          MAX_MQTT_PACKET_SIZE_def c2_def [symmetric] MQTT_SUCCESS_def)
  qed
  have "messageHandlers d = messageHandlers c" "isconnected d"
    using d(2) g3 by (simp_all add: same_session_def)
  then show ?thesis
    using sub accept_suback_eq [OF type d(3), of a g MQTT_SUCCESS]
    by (cases "add_handler a g (messageHandlers c)")
      (auto simp: MQTT_SUCCESS_def cleanSession_def comp_def)
qed

text \<open>A subscription that the broker refuses, on a client whose slots are all free.\<close>

lemma subscribe_outcome_witness:
  "\<exists>d. Client_subscribe 1 1 9 ((sample_client (dribble [0x90, 3, 0, 1, 0x80]))
      \<lparr>isconnected := True, time_of_day := (\<lambda>_. 0)\<rparr>) = Some (MQTT_SUCCESS, d) \<and>
    hd (messageHandlers d) = \<lparr>topicFilter = Some 1, fp = Some 9\<rparr>"
proof -
  let ?m = "[0x90, 3, 0, 1, 0x80] :: bytes"
  let ?c = "(sample_client (dribble ?m))\<lparr>isconnected := True, time_of_day := (\<lambda>_. 0)\<rparr>"
  have good: "good ?c"
    by (simp add: good_def sample_simps dribble_contract MAX_MQTT_PACKET_SIZE_def MAX_MESSAGE_HANDLERS_def)
  have t: "header_type 0x90 = SUBACK" by (simp add: header_type_def SUBACK_def)
  have e: "fst (countdown_ms (command_timeout_ms ?c) ?c) = 30000000"
    by (simp add: countdown_ms_def gettimeofday_def sample_simps signed_divide_int_def
        signed_modulo_int_def)
  have s: "supplies (dribble ?m) 0 ?m" using supplies_dribble [of ?m 0] by simp
  have h: "add_handler 1 9 (messageHandlers ?c) = Some (\<lparr>topicFilter = Some 1, fp = Some 9\<rparr> #
      replicate 4 \<lparr>topicFilter = None, fp = None\<rparr>)"
    by (simp add: sample_simps eval_nat_numeral FP_attach_def)
  show ?thesis
    using subscribe_outcome [OF good _ _ _ _ t, of 1 0 1 "0x80" "[]" 1 9] e s h
    by (auto simp: sample_simps write_all_def cstr_def encode_small)
qed

section \<open>A PUBLISH that is none\<close>

text \<open>The header of a PUBLISH and a length of the topic that goes beyond the packet.\<close>

lemma deserialize_malformed:
  assumes "header_type h = PUBLISH" "int (length x) < k" "k < 65536" "length x < 126"
  shows "MQTTDeserialize_publish MQTTString_initializer (packet_bytes h (writeInt k @ x) @ rest) =
    Some (1, (no_publish MQTTString_initializer)\<lparr>po_dup := Some (header_dup h),
      po_qos := Some (uint (header_qos h)), po_retained := Some (header_retain h),
      po_topicName := \<lparr>cstring = None, lenstring_len = k, lenstring_data = None\<rparr>\<rparr>)"
proof -
  have "readMQTTLenString MQTTString_initializer (writeInt k @ x @ rest) (2 + int (length x)) =
      Some (False, \<lparr>cstring = None, lenstring_len = k, lenstring_data = None\<rparr>, x @ rest, int (length x))"
    using assms(2,3) by (simp add: readMQTTLenString_def readInt_writeInt MQTTString_initializer_def)
  then show ?thesis
    using assms(1,4) decodeBuf_encode [of "2 + int (length x)" "writeInt k @ x @ rest"]
    by (simp add: MQTTDeserialize_publish_def no_publish_def length_encode_small)
qed

text \<open>Once an access has faulted it stays so.\<close>

lemma deliver_loop_faulted: "faulted c \<Longrightarrow> faulted (snd (deliver_loop m hs rc c))"
proof (induction hs arbitrary: rc c)
  case (Cons h hs)
  have "faulted (snd (access v b c))" for v :: "bool option" and b using Cons.prems by (cases v) (simp_all add: access_def)
  moreover have "faulted (call_back f m d)" if "faulted d" for f d
    using that by (cases f) (simp_all add: call_back_def)
  ultimately show ?case using Cons.IH by (simp add: split_beta)
qed simp

lemma nul_not_in_cstr: "0 \<notin> set (cstr m)"
  by (auto simp: cstr_def dest: set_takeWhileD)

lemma deliver_loop_null:
  assumes "lenstring_data (po_topicName m) = None" "cstring (po_topicName m) = None"
    and "0 < lenstring_len (po_topicName m)"
    and "h \<in> set hs" "topicFilter h = Some a" "cstr (text_at c a) \<noteq> []"
  shows "faulted (snd (deliver_loop m hs rc c))"
  using assms(4-)
proof (induction hs arbitrary: rc c)
  case (Cons g hs)
  have null: "handler_matches c (po_topicName m) h = None"
  proof -
    have "\<not> MQTTPacket_equals (po_topicName m) (text_at c a)"
      using assms(1-3) Cons.prems(3) nul_not_in_cstr [of "text_at c a"]
      by (cases "cstr (text_at c a)") (auto simp: MQTTPacket_equals_def strncmp_eq_def take_Cons' split: if_splits)
    then show ?thesis
      using assms(1-3) Cons.prems(2,3)
      by (simp add: handler_matches_def isTopicMatched_def topic_bytes_def)
  qed
  show ?case
  proof (cases "g = h")
    case True
    then show ?thesis by (simp add: null access_def deliver_loop_faulted)
  next
    case False
    let ?a = "access (handler_matches c (po_topicName m) g) False c"
    have "text_at (snd ?a) = text_at c" by (simp add: access_def split: option.splits)
    moreover have "text_at (call_back f m d) = text_at d" for f d
      by (simp add: call_back_def split: option.splits)
    ultimately show ?thesis using Cons False by (simp add: split_beta)
  qed
qed simp

text \<open>
  C35: A PUBLISH of up to 127 bytes behind its length field whose topic is said to be longer than
  what is left of the packet ends the program, whatever follows the topic length: the topic name has
  a length but no characters, and is compared all the same with every filter that is kept.  So four
  bytes from the broker are enough, on any client that has subscribed to something: on a working
  connection with time left, one slot with a filter that is not the empty text suffices.
\<close>

theorem malformed_publish_faults:
  assumes system: "good c" "live c" and type: "header_type h = PUBLISH"
    and k: "int (length x) < k" "k < 65536" "length x < 126"
    and slot: "g \<in> set (messageHandlers c)" "topicFilter g = Some a" "cstr (text_at c a) \<noteq> []"
    and arrives: "supplies (recv_result c) (recvs c) (packet_bytes h (writeInt k @ x) @ rest)"
  shows "\<exists>y d. cycle timer c = Some (y, d) \<and> faulted d"
proof -
  have fits: "length (readbuf c) = 512" "length (packet_bytes h (writeInt k @ x)) \<le> 512"
    using system k(3) by (simp_all add: length_encode_small good_def MAX_MQTT_PACKET_SIZE_def)
  obtain e where r: "readPacket timer c = Some (uint PUBLISH, e)" "reading c e"
      "readbuf e = packet_bytes h (writeInt k @ x) @ drop (length (packet_bytes h (writeInt k @ x))) (readbuf c)"
    by (rule readPacket_supplied [OF fits arrives, of timer]) (simp only: type)
  obtain m where m: "MQTTDeserialize_publish MQTTString_initializer (readbuf e @ behind e) = Some (1, m)"
      "po_topicName m = \<lparr>cstring = None, lenstring_len = k, lenstring_data = None\<rparr>"
    using deserialize_malformed [OF type k] r(3) by simp
  define d1 where "d1 = snd (deliverMessage m e)"
  have "g \<in> set (messageHandlers e)" "cstr (text_at e a) \<noteq> []"
    using slot reading_facts [OF r(2)] by simp_all
  then have "faulted (snd (deliver_loop m (messageHandlers e) MQTT_FAILURE e))"
    using deliver_loop_null [of m g "messageHandlers e" a e] slot(2) m(2) k(1) by (simp del: deliver_loop.simps)
  then have d1: "faulted d1"
    by (simp add: d1_def deliverMessage_def split_beta call_back_def split: option.splits)
  have "good e" by (rule full.changes_good [OF full.sound_changes [OF full.sound_readPacket system(1) r(1)] system(1)])
  then have g1: "good d1" unfolding d1_def by (rule full.changes_good [OF full.changes_deliver])
  obtain y d where cy: "cycle timer c = Some (y, d)"
    using full.sound_returns [OF full.sound_cycle system] by blast
  have u3: "uint PUBLISH = 3" by (simp add: PUBLISH_def)
  have "Option.bind (acknowledge m timer d1) (\<lambda>(rc, c). if rc = MQTT_FAILURE then Some (rc, c)
      else Option.bind (keepalive c) (\<lambda>(_, c). Some (3, c))) = Some (y, d)"
    using cy r(1) m(1) u3
    by (simp add: cycle_def access_def d1_def MQTT_FAILURE_def MQTT_BUFFER_OVERFLOW_def)
  then obtain rc d2 where d2: "acknowledge m timer d1 = Some (rc, d2)"
      and tail: "(if rc = MQTT_FAILURE then Some (rc, d2)
        else Option.bind (keepalive d2) (\<lambda>(_, c). Some (3, c))) = Some (y, d)"
    by (auto simp: bind_eq_Some_conv)
  have ch: "full.changes d1 d2" by (rule full.sound_changes [OF full.sound_acknowledge g1 d2])
  have "full.changes d2 d"
    using tail full.sound_changes [OF full.sound_keepalive full.changes_good [OF ch g1]]
    by (auto simp: bind_eq_Some_conv split: if_splits)
  then show ?thesis using cy d1 ch full.changes_faulted by blast
qed

lemma malformed_publish_witness:
  "\<exists>x d. cycle 1000000 ((sample_client (dribble [0x30, 3, 0, 5, 97]))\<lparr>text_at := (\<lambda>_. [97, 0]),
    messageHandlers := replicate 5 \<lparr>topicFilter = Some 1, fp = Some 9\<rparr>\<rparr>) = Some (x, d) \<and> faulted d"
proof -
  let ?m = "[0x30, 3, 0, 5, 97] :: bytes"
  let ?c = "(sample_client (dribble ?m))\<lparr>text_at := (\<lambda>_. [97, 0]),
    messageHandlers := replicate 5 \<lparr>topicFilter = Some 1, fp = Some 9\<rparr>\<rparr>"
  have system: "good ?c" "live ?c"
    using sample_live(1) [of "dribble ?m"]
    by (simp_all add: good_def live_def sample_simps dribble_contract MAX_MQTT_PACKET_SIZE_def
        MAX_MESSAGE_HANDLERS_def) (simp_all add: dribble_def)
  have t: "header_type 0x30 = PUBLISH" by (simp add: header_type_def PUBLISH_def)
  have w: "writeInt 5 = [0, 5]"
    by (simp add: writeInt_def signed_divide_int_def signed_modulo_int_def)
  have s: "supplies (dribble ?m) 0 ?m" using supplies_dribble [of ?m 0] by simp
  show ?thesis
    using s by (intro malformed_publish_faults [OF system t, of "[97]" 5 "\<lparr>topicFilter = Some 1, fp = Some 9\<rparr>" 1 "[]"])
      (simp_all add: sample_simps cstr_def w encode_small)
qed

section \<open>A publish that fails\<close>

lemma failed_packet:
  assumes "publish_packet len timer qos c = Some (rc, d)" "rc \<noteq> MQTT_SUCCESS"
  shows "\<exists>e. d = cleanSession e"
proof -
  define pending where "pending = (\<lambda>(rc, c). (if rc \<noteq> MQTT_SUCCESS \<or> qos \<noteq> 1 then Some (rc, c)
       else do {
         (w, c) \<leftarrow> waitfor PUBACK timer c;
         if w \<noteq> uint PUBACK then Some (MQTT_FAILURE, c)
         else
           (case access (MQTTDeserialize_ack (readbuf c @ behind c))
               (0, \<lparr>ao_packettype = 0, ao_dup = 0, ao_packetid = None\<rparr>) c of ((ok, ack), c) \<Rightarrow>
              Some (if ok \<noteq> 1 then (MQTT_FAILURE, c)
                else (rc, if inflightMsgid c = ack_msgid ack c then c\<lparr>inflightMsgid := 0\<rparr> else c)))
       }))"
  have eq: "publish_packet len timer qos c = Option.bind (Option.bind (sendPacket len timer c) pending)
      (\<lambda>(rc, c). Some (rc, if rc \<noteq> MQTT_SUCCESS then cleanSession c else c))"
    by (cases "sendPacket len timer c") (auto simp: publish_packet_def pending_def)
  obtain y e where "(y, if y \<noteq> MQTT_SUCCESS then cleanSession e else e) = (rc, d)"
    using assms(1) unfolding eq by (auto simp: bind_eq_Some_conv)
  then show ?thesis using assms(2) by (auto split: if_splits)
qed

text \<open>
  A publish that has been sent but is not acknowledged in time, or that could not be sent, is
  reported as a failure, and with it the session goes: the client counts as disconnected, all
  filters are forgotten, and so is the message that was kept to be sent again, so the next
  connection sends nothing again, whatever the quality of service and with or without a clean
  session.
\<close>

theorem failed_publish_forgotten:
  assumes publish: "Client_publish topic m c = Some (rc, d)" "rc \<noteq> MQTT_SUCCESS"
    and on: "isconnected c"
    and packet: "\<And>p. \<exists>w. MQTTSerialize_publish 512 0 (msg_qos m) (of_bool (msg_retained m)) p
      (cstring_of topic) (msg_payload m) (int (msg_payloadlen m)) = Some (int (length w), w) \<and> w \<noteq> []"
  shows "\<not> isconnected d \<and> (\<forall>h \<in> set (messageHandlers d). topicFilter h = None) \<and>
    inflightMsgid d = 0 \<and> (\<forall>timer r. resend_inflight timer r d = Some (r, d))"
proof -
  have clean: "\<exists>e. d = cleanSession e"
  proof -
    let ?c = "snd (countdown_ms (command_timeout_ms c) c)"
    define pc where "pc = (if msg_qos m = 1 \<or> msg_qos m = 2 then getNext ?c else (0, ?c))"
    obtain w where w: "MQTTSerialize_publish 512 0 (msg_qos m) (of_bool (msg_retained m)) (fst pc)
        (cstring_of topic) (msg_payload m) (int (msg_payloadlen m)) = Some (int (length w), w)" "w \<noteq> []"
      using packet by blast
    have "isconnected ?c" using on by (simp add: clock_states)
    then obtain len timer e where "publish_packet len timer (msg_qos m) e = Some (rc, d)"
      using publish(1) w unfolding Client_publish_def publish_payload_def publish_id_def
      by (auto simp: split_beta pc_def [symmetric] access_def fill_sendbuf_def MAX_MQTT_PACKET_SIZE_def
          Let_def bind_eq_Some_conv)
    then show ?thesis using publish(2) by (rule failed_packet)
  qed
  then show ?thesis by (auto simp: cleanSession_def resend_inflight_def)
qed

text \<open>A quality of service of 1, and a socket that takes nothing.\<close>

lemma sendPacket_refused:
  assumes "write_result c (writes c) (nat len) < 0" "0 < len" "len \<le> int (length (sendbuf c))"
  shows "\<exists>d. sendPacket len timer c = Some (MQTT_FAILURE, d)"
proof (cases "fst (timer_expired timer c)")
  case True
  then show ?thesis using assms(2)
    by (simp add: sendPacket_def send_loop.simps [of len timer 0 c] split_beta)
next
  case False
  have "copy_from (sendbuf c) len = Some (take (nat len) (sendbuf c))"
    "min (length (sendbuf c)) (nat len) = nat len"
    using assms by (simp_all add: copy_from_def)
  then show ?thesis using False assms
    by (simp add: sendPacket_def send_loop.simps [of len timer 0 c] split_beta access_def
        clock_states ip_write_def Let_def)
qed

lemma failed_publish_witness:
  "\<exists>rc d. Client_publish [97, 0] \<lparr>msg_qos = 1, msg_retained = False, msg_payload = [1], msg_payloadlen = 1\<rparr>
      ((sample_client quiet)\<lparr>isconnected := True, write_result := (\<lambda>_ _. -1)\<rparr>) = Some (rc, d) \<and>
    \<not> isconnected d \<and> inflightMsgid d = 0"
proof -
  define c0 where "c0 = (sample_client quiet)\<lparr>isconnected := True, write_result := (\<lambda>_ _. -1)\<rparr>"
  let ?m = "\<lparr>msg_qos = 1, msg_retained = False, msg_payload = [1], msg_payloadlen = 1\<rparr>"
  have ser: "\<exists>w. MQTTSerialize_publish 512 0 1 0 p (cstring_of [97, 0]) [1] 1 = Some (int (length w), w) \<and>
      w \<noteq> [] \<and> length w \<le> 512" for p
    by (simp add: MQTTSerialize_publish_def MQTTSerialize_publishLength_def cstring_of_written cstr_def
        copy_from_def packet_written_def MQTTPacket_len_def encode_small Let_def)
  let ?t = "countdown_ms (command_timeout_ms c0) c0"
  define p where "p = fst (getNext (snd ?t))"
  define c1 where "c1 = snd (getNext (snd ?t))"
  have ids: "getNext (snd ?t) = (p, c1)" by (simp add: p_def c1_def)
  obtain w where w: "MQTTSerialize_publish 512 0 1 0 p (cstring_of [97, 0]) [1] 1 = Some (int (length w), w)"
      "w \<noteq> []" "length w \<le> 512" using ser by blast
  define c2 where "c2 = c1\<lparr>sendbuf := w @ drop (length w) (sendbuf c1)\<rparr>"
  have "write_result c2 n k < 0" "length (sendbuf c2) = 512" for n k
    using w by (simp_all add: c2_def c1_def c0_def getNext_def clock_states sample_simps)
  then obtain e where e: "sendPacket (int (length w)) (fst ?t) c2 = Some (MQTT_FAILURE, e)"
    using sendPacket_refused [of c2 "int (length w)" "fst ?t"] w by auto
  have on: "isconnected (snd ?t)" "cleansession c1"
    by (simp_all add: clock_states c2_def c1_def c0_def getNext_def sample_client_def)
  have "Client_publish [97, 0] ?m c0 = Some (MQTT_FAILURE, cleanSession e)"
    using w e on
    by (simp add: Client_publish_def publish_payload_def publish_id_def split_beta ids access_def
        fill_sendbuf_def MAX_MQTT_PACKET_SIZE_def c2_def [symmetric] publish_packet_def
        MQTT_SUCCESS_def MQTT_FAILURE_def)
  moreover have "isconnected c0" by (simp add: c0_def)
  ultimately show ?thesis
    using failed_publish_forgotten [of "[97, 0]" ?m c0 MQTT_FAILURE "cleanSession e"] ser
    by (auto simp: MQTT_SUCCESS_def MQTT_FAILURE_def c0_def)
qed

section \<open>A round that fails\<close>

text \<open>
  \<open>yield\<close> never ends the session: also after a failure, when the connection is no longer usable, the
  client counts as connected if it did before, with the same filters and the same message kept.
  (The comment of \<open>yield\<close> says that on failure the client has disconnected.)
\<close>

theorem yield_keeps_session:
  assumes "good c" "Client_yield ms c = Some (rc, d)"
  shows "same_session c d"
  using calm_outcome(1) [OF calm.sound_yield assms] .

end
