(* ===== verification/Program.thy ===== *)
theory Program
  imports Evolution ClientOutcomes Subscribing
begin

text \<open>
  The whole program: the gateway together with its client library.  A step of the gateway is
  followed by the calls of the library it has made, which have to give the return codes the gateway
  went on with (\<open>client_rc\<close>); a \<open>yield\<close> of the library is followed by the messages it has handed
  out.  A message that arrives during another call is handed to the gateway after the step.

  The gateway passes the names of topics by address: \<open>get_topic_name\<close> and
  \<open>get_predefined_topic_name\<close> of \<open>SDPersistentImpl.h\<close> give the address of the name in the members
  \<open>_registration_entry\<close> and \<open>_predefined_registration_entry\<close>, which the next lookup overwrites.
\<close>

section \<open>Calls of the library\<close>

text \<open>The two addresses of topic names, and the callback \<open>messageArrived\<close>.\<close>

definition registration_name :: nat where "registration_name = 0"
definition predefined_name :: nat where "predefined_name = 1"
definition message_arrived :: nat where "message_arrived = 0"

text \<open>The options that the four \<open>connect\<close> functions of \<open>PahoMqttMessageHandler\<close> fill in.\<close>

definition connect_options :: "byte \<Rightarrow> bytes \<Rightarrow> (bytes \<times> bytes) option \<Rightarrow>
    (bytes \<times> bytes \<times> byte \<times> bool) option \<Rightarrow> connect_data" where
  "connect_options version client_id login will =
     (let data = MQTTPacket_connectData_initializer\<lparr>cd_MQTTVersion := version,
            cd_clientID := cstring_of client_id\<rparr>;
          data = (case login of None \<Rightarrow> data
            | Some (user, pass) \<Rightarrow> data\<lparr>cd_username := cstring_of user, cd_password := cstring_of pass\<rparr>)
      in case will of None \<Rightarrow> data
        | Some (topic, text, qos, retained) \<Rightarrow> data\<lparr>cd_willFlag := 1,
            cd_will := \<lparr>wo_topicName = cstring_of topic, wo_message = cstring_of text,
              wo_retained = of_bool retained, wo_qos = qos\<rparr>\<rparr>)"

text \<open>
  \<open>library_call k c rc d\<close>: the call \<open>k\<close> of the gateway, made in the state \<open>c\<close>, returns \<open>rc\<close> and leaves
  the state \<open>d\<close>.  The texts at the addresses are those of the moment of the call.  \<open>IPStack::connect\<close>
  opens another socket, whose answers are the next ones in \<open>recv_result\<close>; its return code is up to
  the operating system.  The return code of a disconnect is not used.
\<close>

inductive library_call :: "broker_call \<Rightarrow> client \<Rightarrow> int \<Rightarrow> client \<Rightarrow> bool" where
  publish: "Client_publish topic \<lparr>msg_qos = uint qos, msg_retained = retained, msg_payload = payload,
      msg_payloadlen = length payload\<rparr> c = Some (rc, d) \<Longrightarrow>
    library_call (CallPublish topic payload qos retained) c rc d"
| subscribe: "a \<in> {registration_name, predefined_name} \<Longrightarrow> cstr (texts a) = cstr topic \<Longrightarrow>
    Client_subscribe a (uint qos) message_arrived (c\<lparr>text_at := texts\<rparr>) = Some (rc, d) \<Longrightarrow>
    library_call (CallSubscribe topic qos) c rc d"
| unsubscribe: "cstr (texts a) = cstr topic \<Longrightarrow>
    Client_unsubscribe a (c\<lparr>text_at := texts\<rparr>) = Some (rc, d) \<Longrightarrow>
    library_call (CallUnsubscribe topic) c rc d"
| disconnect: "Client_disconnect c = Some (r, d) \<Longrightarrow> library_call CallDisconnect c rc d"
| ip_connect: "library_call (CallIpConnect ip port) c rc c"
| connect: "Client_connect (connect_options version client_id login will) c = Some (rc, d) \<Longrightarrow>
    library_call (CallConnect version client_id login will) c rc d"

text \<open>The calls \<open>ks\<close> after the calls \<open>h\<close>, with the return codes the gateway has been given.\<close>

inductive library_calls ::
    "(broker_call list \<Rightarrow> int) \<Rightarrow> broker_call list \<Rightarrow> broker_call list \<Rightarrow> client \<Rightarrow> client \<Rightarrow> bool" where
  none: "library_calls codes h [] c c"
| one: "library_call k c (codes (h @ [k])) d \<Longrightarrow> library_calls codes (h @ [k]) ks d e \<Longrightarrow>
    library_calls codes h (k # ks) c e"

section \<open>Steps of the program\<close>

text \<open>What the callback gets: the topic and the payload of a message.\<close>

definition broker_event :: "nat \<times> publish_out \<Rightarrow> event" where
  "broker_event m = BrokerMessage (string_bytes (po_topicName (snd m)))
     (take (nat (the (po_payloadlen (snd m)))) (the (po_payload (snd m))))"

inductive gateway_events :: "gateway \<Rightarrow> event list \<Rightarrow> gateway \<Rightarrow> bool" where
  none: "gateway_events s [] s"
| one: "gateway_step s ev t \<Longrightarrow> slots s < 65536 \<Longrightarrow> gateway_events t evs u \<Longrightarrow>
    gateway_events s (ev # evs) u"

text \<open>
  An event of the gateway's own: messages of the broker come through the library, and the gateway
  connects only when the library says that it is not connected.  The side conditions are those of
  \<open>orderly_run\<close>.
\<close>

definition own_event :: "event \<Rightarrow> client \<Rightarrow> bool" where
  "own_event ev c \<longleftrightarrow> (case ev of BrokerMessage topic payload \<Rightarrow> False | BrokerDown \<Rightarrow> \<not> isconnected c
     | _ \<Rightarrow> True)"

inductive program_step :: "gateway \<times> client \<Rightarrow> gateway \<times> client \<Rightarrow> bool" where
  own: "own_event ev c \<Longrightarrow> gateway_step s ev t \<Longrightarrow> \<not> anonymous ev \<Longrightarrow> slots s < 65536 \<Longrightarrow>
    broker_calls t = broker_calls s @ ks \<Longrightarrow> library_calls (client_rc s) (broker_calls s) ks c d \<Longrightarrow>
    delivered d = delivered c @ ms \<Longrightarrow> gateway_events t (map broker_event ms) u \<Longrightarrow>
    program_step (s, c) (u, d)"
| yield: "isconnected c \<Longrightarrow> Client_yield 300 (c\<lparr>text_at := texts\<rparr>) = Some (rc, d) \<Longrightarrow>
    delivered d = delivered c @ ms \<Longrightarrow> gateway_events s (map broker_event ms) u \<Longrightarrow>
    program_step (s, c) (u, d)"

abbreviation program_run :: "gateway \<times> client \<Rightarrow> gateway \<times> client \<Rightarrow> bool" where
  "program_run \<equiv> program_step\<^sup>*\<^sup>*"

section \<open>The filters the gateway leaves in the library\<close>

definition own_slot :: "nat \<Rightarrow> nat \<Rightarrow> bool" where
  "own_slot a g \<longleftrightarrow> a \<in> {registration_name, predefined_name} \<and> g = message_arrived"

definition own_handler :: "message_handler \<Rightarrow> bool" where
  "own_handler h \<longleftrightarrow> topicFilter h = None \<or> (\<exists>a g. own_slot a g \<and> topicFilter h = Some a \<and> fp h = Some g)"

definition own_filters :: "client \<Rightarrow> bool" where
  "own_filters c \<longleftrightarrow> defaultMessageHandler c = None \<and> list_all own_handler (messageHandlers c)"

definition own_change :: "client \<Rightarrow> client \<Rightarrow> bool" where
  "own_change c d \<longleftrightarrow> bookkeeping c d \<and> (own_filters c \<longrightarrow> own_filters d)"

lemma own_handler_free [simp]: "own_handler (h\<lparr>topicFilter := None\<rparr>)"
  by (simp add: own_handler_def)

lemma add_own: "own_slot a g \<Longrightarrow> add_handler a g hs = Some hs' \<Longrightarrow> list_all own_handler hs \<Longrightarrow>
    list_all own_handler hs'"
  by (induction hs arbitrary: hs') (auto simp: own_handler_def FP_attach_def split: if_splits)

lemma remove_own: "list_all own_handler hs \<Longrightarrow> list_all own_handler (remove_handler t f hs)"
  by (induction hs) simp_all

lemma round_own: "round_bookkeeping c d \<Longrightarrow> own_filters c \<Longrightarrow> own_filters d"
  by (auto dest!: round_session simp: same_session_def own_filters_def)

lemma round_own_change: "round_bookkeeping c d \<Longrightarrow> own_change c d"
  by (simp add: own_change_def round_is_bookkeeping round_own)

interpretation own: sessions own_change own_slot
  by unfold_locales (simp add: own_change_def, erule round_own_change,
    auto simp: own_change_def bookkeeping_def own_filters_def cleanSession_def
      getNext_def add_handler_length list.pred_map list.pred_True comp_def dest: add_own intro: remove_own)

lemma own_changes_filters: "own.changes c d \<Longrightarrow> own_filters c \<Longrightarrow> own_filters d"
proof (induction rule: rtranclp_induct)
  case (step d e)
  from step(2) have "own_filters d \<Longrightarrow> own_filters e"
    by cases (auto simp: own_filters_def own_change_def)
  with step show ?case by blast
qed simp

section \<open>What every run keeps\<close>

text \<open>The state of the library between two calls of the gateway.\<close>

definition library_ok :: "client \<Rightarrow> bool" where
  "library_ok c \<longleftrightarrow> good c \<and> own_filters c \<and> next_packetid c \<in> {0..MAX_PACKET_ID}"

definition extends_traffic :: "client \<Rightarrow> client \<Rightarrow> bool" where
  "extends_traffic c d \<longleftrightarrow> prefix (wire c) (wire d) \<and> prefix (delivered c) (delivered d)"

lemma extends_traffic_trans: "extends_traffic c d \<Longrightarrow> extends_traffic d e \<Longrightarrow> extends_traffic c e"
  by (auto simp: extends_traffic_def intro: prefix_order.trans)

lemma library_texts [simp]: "library_ok (c\<lparr>text_at := texts\<rparr>) \<longleftrightarrow> library_ok c"
  "extends_traffic (c\<lparr>text_at := texts\<rparr>) d \<longleftrightarrow> extends_traffic c d"
  by (simp_all add: library_ok_def good_def own_filters_def extends_traffic_def)

lemma library_sound:
  assumes "own.sound c r" "r = Some (x, d)" "library_ok c"
  shows "library_ok d \<and> extends_traffic c d"
proof -
  have ch: "own.changes c d" using own.sound_changes [OF assms(1) _ assms(2)] assms(3) by (simp add: library_ok_def)
  show ?thesis
    using assms(3) own.changes_good [OF ch] own.changes_ids [OF ch] own.changes_history [OF ch]
      own_changes_filters [OF ch] by (simp add: library_ok_def extends_traffic_def)
qed

lemma orderly_connect_options: "proper_call (CallConnect version i login will) \<Longrightarrow>
    orderly_options (connect_options version i login will)"
  by (auto simp: proper_call_def connect_options_def orderly_options_def sized_string_def Let_def
      MQTTPacket_connectData_initializer_def MQTTPacket_willOptions_initializer_def string_given_def
      MQTTString_initializer_def split: option.splits)

lemma library_call_ok:
  "library_call k c rc d \<Longrightarrow> proper_call k \<Longrightarrow> library_ok c \<Longrightarrow> library_ok d \<and> extends_traffic c d"
proof (induction rule: library_call.induct)
  case (publish topic qos retained payload c rc d)
  then show ?case using library_sound [OF own.sound_publish_payload] by (simp add: Client_publish_def)
next
  case (subscribe a texts topic qos c rc d)
  then have "own_slot a message_arrived" by (simp add: own_slot_def)
  from library_sound [OF own.sound_subscribe [OF this] subscribe(3)] subscribe show ?case by simp
next
  case (unsubscribe texts a topic c rc d)
  then show ?case using library_sound [OF own.sound_unsubscribe unsubscribe(2)] by simp
next
  case (disconnect c r d rc)
  then show ?case using library_sound [OF own.sound_disconnect disconnect(1)] by simp
next
  case (ip_connect ip port c rc)
  then show ?case by (simp add: extends_traffic_def)
next
  case (connect version i login will c rc d)
  then show ?case
    using library_sound [OF own.sound_connect [OF orderly_connect_options] connect(1)] by simp
qed

lemma library_calls_ok:
  "library_calls codes h ks c d \<Longrightarrow> list_all proper_call ks \<Longrightarrow> library_ok c \<Longrightarrow>
    library_ok d \<and> extends_traffic c d"
  by (induction rule: library_calls.induct)
    (auto simp: extends_traffic_def dest!: library_call_ok intro: prefix_order.trans)

lemma step_calls: "gateway_step s ev t \<Longrightarrow> broker_calls t = broker_calls s @ ks \<Longrightarrow> list_all proper_call ks"
  using proper.step_evolves by (force simp: stays_proper_def)

lemma gateway_events_ok:
  assumes "gateway_events s evs t" "between s" "list_all (\<lambda>ev. \<not> anonymous ev) evs"
  shows "between t"
  using assms by (induction rule: gateway_events.induct) (auto dest: step_between)

text \<open>A message is no CONNECT, and it makes the gateway call nothing.\<close>

lemma broker_event_calm: "\<not> anonymous (broker_event m)"
  by (simp add: broker_event_def)

lemma messages_silent: "gateway_events s (map broker_event ms) t \<Longrightarrow> broker_calls t = broker_calls s"
proof (induction ms arbitrary: s)
  case Nil
  then show ?case by (auto elim: gateway_events.cases)
next
  case (Cons m ms)
  then obtain u where "gateway_step s (broker_event m) u" "gateway_events u (map broker_event ms) t"
    by (auto elim: gateway_events.cases)
  then show ?case using Cons.IH message_silent by (fastforce simp: broker_event_def silent_def)
qed

definition program_ok :: "gateway \<times> client \<Rightarrow> bool" where
  "program_ok p \<longleftrightarrow> between (fst p) \<and> library_ok (snd p)"

lemma program_step_ok:
  "program_step p p' \<Longrightarrow> program_ok p \<Longrightarrow> program_ok p' \<and> extends_traffic (snd p) (snd p')"
proof (induction rule: program_step.induct)
  case (own ev c s t ks d ms u)
  have "between t" using step_between own by (simp add: program_ok_def)
  then have "between u" using gateway_events_ok [OF own(8)] by (simp add: list_all_iff broker_event_calm)
  then show ?case
    using library_calls_ok [OF own(6) step_calls [OF own(2,5)]] own(9) by (simp add: program_ok_def)
next
  case (yield c texts rc d ms s u)
  have "between u" using gateway_events_ok [OF yield(4)] yield(5)
    by (simp add: list_all_iff broker_event_calm program_ok_def)
  then show ?case
    using library_sound [OF own.sound_yield yield(2)] yield(5) by (simp add: program_ok_def)
qed

lemma program_run_ok:
  "program_run p p' \<Longrightarrow> program_ok p \<Longrightarrow> program_ok p' \<and> extends_traffic (snd p) (snd p')"
proof (induction rule: rtranclp_induct)
  case base
  then show ?case by (simp add: extends_traffic_def)
next
  case (step q r)
  then show ?case using program_step_ok extends_traffic_trans by blast
qed

text \<open>A library object as \<open>begin\<close> of \<open>PahoMqttMessageHandler\<close> creates it.\<close>

lemma library_ok_new:
  assumes "length (sendbuf c) = 512" "length (readbuf c) = 512" "length (pubbuf c) = 512"
    and "\<And>n k d. recv_result c n k = Received d \<Longrightarrow> length d \<le> k" "\<And>n k. write_result c n k \<le> int k"
  shows "library_ok (Client_new timeout_ms c)" "wire (Client_new timeout_ms c) = wire c"
  using assms
  by (simp_all add: library_ok_def Client_new_def cleanSession_def good_def own_filters_def
      own_handler_def FP_new_def list_all_iff MAX_MQTT_PACKET_SIZE_def MAX_PACKET_ID_def MAX_MESSAGE_HANDLERS_def)

lemma step_proper: "program_step p p' \<Longrightarrow> stays_proper (fst p) (fst p')"
proof (induction rule: program_step.induct)
  case (own ev c s t ks d ms u)
  then show ?case using messages_silent [OF own(8)] proper.step_evolves [OF own(2)]
    by (simp add: stays_proper_def)
next
  case (yield c texts rc d ms s u)
  then show ?case using messages_silent [OF yield(4)] by (simp add: stays_proper_def)
qed

lemma run_proper: "program_run p p' \<Longrightarrow> stays_proper (fst p) (fst p')"
proof (induction rule: rtranclp_induct)
  case base
  then show ?case by (simp add: stays_proper_def)
next
  case (step q r)
  then show ?case using step_proper proper.R_trans by blast
qed

text \<open>
  C1: Start the gateway on a card whose client registry is missing or consistent, with a new object
  of the client library, and let the whole program take any number of steps: datagrams (but no
  CONNECT with an empty client id, and fewer than 65536 slots), rounds of the main loop,
  reconnections, and \<open>yield\<close>s that hand messages to the gateway, where \<open>recv\<close> never gives more bytes
  than it was asked for and \<open>write\<close> never takes more than it was given.  Then both parts are in order: the registry consists of
  cleared entries and of clients with an id, an address and the number of their slot, no client id
  occurs twice and no transaction is open; the buffers of the library have their 512 bytes, each of
  its five slots is free or leads from one of the two name buffers to \<open>messageArrived\<close>, and the packet
  id counter is between 0 and 65535.  No byte sent to the broker is taken back, and everything the
  gateway has asked of the library is a proper call.
\<close>

theorem program_run_safe:
  assumes card: "files s (path_in s client_registry) = None \<or> registry_inv s"
    and buffers: "length (sendbuf c) = 512" "length (readbuf c) = 512" "length (pubbuf c) = 512"
    and system: "\<And>n k d. recv_result c n k = Received d \<Longrightarrow> length d \<le> k"
      "\<And>n k. write_result c n k \<le> int k"
    and run: "program_run (snd (run_state (core_begin fd ok) s), Client_new timeout_ms c) (t, d)"
  shows "\<not> transaction_started t \<and>
    (\<exists>rs. client.holds t client_registry rs \<and>
      (\<forall>i < length rs. rs ! i = empty_client \<or> Registry.live i (rs ! i)) \<and>
      distinct (filter (\<lambda>c. c \<noteq> []) (map id_of rs))) \<and>
    (length (sendbuf d) = 512 \<and> length (readbuf d) = 512 \<and> length (pubbuf d) = 512 \<and>
      length (messageHandlers d) = 5 \<and> 0 \<le> next_packetid d \<and> next_packetid d \<le> 65535) \<and>
    defaultMessageHandler d = None \<and>
    (\<forall>h \<in> set (messageHandlers d). topicFilter h = None \<or>
      topicFilter h \<in> {Some registration_name, Some predefined_name} \<and> fp h = Some message_arrived) \<and>
    prefix (wire c) (wire d) \<and>
    (\<exists>ks. broker_calls t = broker_calls (snd (run_state (core_begin fd ok) s)) @ ks \<and> list_all proper_call ks)"
proof -
  let ?p = "(snd (run_state (core_begin fd ok) s), Client_new timeout_ms c)"
  have new: "library_ok (Client_new timeout_ms c)" "wire (Client_new timeout_ms c) = wire c"
    using library_ok_new [of c timeout_ms] buffers system by simp_all
  have ok: "program_ok (t, d)" "extends_traffic (snd ?p) d"
    using program_run_ok [OF run] between_begin [OF card] new(1) by (simp_all add: program_ok_def)
  obtain rs where rs: "\<not> transaction_started t" "client.holds t client_registry rs" "registry_ok rs"
    using ok(1) by (auto simp: program_ok_def between_def registry_inv_def reg_def)
  have lib: "good d" "own_filters d" "next_packetid d \<in> {0..MAX_PACKET_ID}"
    using ok(1) by (simp_all add: program_ok_def library_ok_def)
  have "\<exists>rs. client.holds t client_registry rs \<and>
      (\<forall>i < length rs. rs ! i = empty_client \<or> Registry.live i (rs ! i)) \<and>
      distinct (filter (\<lambda>c. c \<noteq> []) (map id_of rs))"
    using rs registry_ok_distinct registry_ok_slot by blast
  moreover have "length (sendbuf d) = 512 \<and> length (readbuf d) = 512 \<and> length (pubbuf d) = 512 \<and>
      length (messageHandlers d) = 5 \<and> 0 \<le> next_packetid d \<and> next_packetid d \<le> 65535"
    using lib by (simp add: good_def MAX_MQTT_PACKET_SIZE_def MAX_MESSAGE_HANDLERS_def MAX_PACKET_ID_def)
  moreover have "defaultMessageHandler d = None \<and> (\<forall>h \<in> set (messageHandlers d). topicFilter h = None \<or>
      topicFilter h \<in> {Some registration_name, Some predefined_name} \<and> fp h = Some message_arrived)"
    using lib(2) by (auto simp: own_filters_def own_handler_def own_slot_def list_all_iff)
  moreover have "prefix (wire c) (wire d)" using ok(2) new(2) by (simp add: extends_traffic_def)
  ultimately show ?thesis using rs(1) run_proper [OF run] by (simp add: stays_proper_def)
qed

text \<open>The socket towards the devices is lost and opened again.\<close>

lemma program_run_safe_witness:
  "\<exists>t d. program_run (begun, Client_new 30000 (sample_client quiet)) (t, d) \<and>
    socket_fd t = 4 \<and> length (messageHandlers d) = 5 \<and> defaultMessageHandler d = None"
proof -
  let ?t = "snd (run_state (handle_event (SocketDown 4 True)) begun)"
  let ?c = "Client_new 30000 (sample_client quiet)"
  have t: "?t = begun\<lparr>socket_fd := 4\<rparr>"
    by (simp add: socket_loop_def socket_begin_def notify_mqttsn_disconnected_def
        notify_mqttsn_connected_def set_mqttsn_connected_def set_mqttsn_disconnected_def
        State_Monad.return_def begun_eq new_gateway_def split_beta)
  have "program_step (begun, ?c) (?t, ?c)"
  proof (rule program_step.own [where ks = "[]" and ms = "[]"])
    show "gateway_step begun (SocketDown 4 True) ?t"
      by (rule gateway_step.intros) (simp_all add: begun_eq new_gateway_def)
    show "slots begun < 65536"
      by (simp add: slots_def begun_eq path_in_def content_def new_gateway_def client_registry_def slash_def)
    show "broker_calls ?t = broker_calls begun @ []" using t by simp
  qed (auto simp: own_event_def intro: library_calls.none gateway_events.none)
  then have run: "program_run (snd (run_state (core_begin 3 True) new_gateway), ?c) (?t, ?c)"
    unfolding begun_def [symmetric] by blast
  have "files new_gateway (path_in new_gateway client_registry) = None" by (simp add: new_gateway_def)
  from program_run_safe [OF disjI1 [OF this] _ _ _ _ _ run]
  have "length (messageHandlers ?c) = 5 \<and> defaultMessageHandler ?c = None"
    by (simp add: sample_simps)
  moreover have "program_run (begun, ?c) (?t, ?c)" using run by (simp add: begun_def [symmetric])
  ultimately show ?thesis using t by (intro exI [of _ ?t] exI [of _ ?c]) simp
qed

section \<open>Messages and the name buffers\<close>

lemma callbacks_through_buffers:
  fixes texts :: "nat \<Rightarrow> bytes" and topic :: bytes
  assumes "list_all own_handler hs"
  defines "through \<equiv> \<lambda>a. if filter_accepts (texts a) topic
    then length (filter (\<lambda>h. topicFilter h = Some a) hs) else 0"
  shows "slot_callbacks texts topic hs =
    replicate (through registration_name + through predefined_name) message_arrived"
  using assms(1) unfolding through_def
  by (induction hs)
    (auto simp: own_handler_def own_slot_def registration_name_def predefined_name_def
      replicate_add replicate_append_same)

text \<open>
  C2: What becomes of a message of the broker in a run of the whole program, from a state in which
  both parts are in order.  It is handed to the gateway once for every subscription through a name
  buffer whose text, at that moment, accepts the topic - whatever topic the subscription was for.
  So a message for a topic the gateway has subscribed to is lost once both buffers hold other
  names, and a message whose name is in the buffer is handed over as often as there are
  subscriptions through it.
\<close>

theorem messages_follow_buffers:
  fixes texts :: "nat \<Rightarrow> bytes"
  assumes start: "between s" "library_ok c" and run: "program_run (s, c) (t, d)"
    and message: "po_topicName m = received topic rest" "0 \<notin> set topic"
  defines "through \<equiv> \<lambda>a. if filter_accepts (texts a) topic
    then length (filter (\<lambda>h. topicFilter h = Some a) (messageHandlers d)) else 0"
  shows "delivered (snd (deliverMessage m (d\<lparr>text_at := texts\<rparr>))) = delivered d @
    replicate (through registration_name + through predefined_name) (message_arrived, m)"
proof -
  have "own_filters d"
    using program_run_ok [OF run] start by (simp add: program_ok_def library_ok_def)
  then show ?thesis
    using deliverMessage_callbacks [OF message, of "d\<lparr>text_at := texts\<rparr>"]
      callbacks_through_buffers [of "messageHandlers d" texts topic]
    by (auto simp: callbacks_def own_filters_def through_def Let_def)
qed

text \<open>
  Subscriptions to \<open>t\<close> and to \<open>u\<close>, in this order: the buffer holds \<open>u\<close>, so a message for \<open>t\<close> is lost and
  one for \<open>u\<close> arrives twice.
\<close>

definition two_filters :: client where
  "two_filters = (sample_client quiet)\<lparr>isconnected := True, messageHandlers :=
     replicate 2 \<lparr>topicFilter = Some 0, fp = Some 0\<rparr> @ replicate 3 \<lparr>topicFilter = None, fp = None\<rparr>\<rparr>"

lemma messages_follow_buffers_witness:
  defines "msg \<equiv> \<lambda>topic. (no_publish MQTTString_initializer)\<lparr>po_topicName := received topic []\<rparr>"
  shows "delivered (snd (deliverMessage (msg (str ''t'')) (two_filters\<lparr>text_at := (\<lambda>_. str ''u'' @ [0])\<rparr>))) = [] \<and>
    delivered (snd (deliverMessage (msg (str ''u'')) (two_filters\<lparr>text_at := (\<lambda>_. str ''u'' @ [0])\<rparr>))) =
      [(0, msg (str ''u'')), (0, msg (str ''u''))]"
proof -
  have "between begun"
    unfolding begun_def by (rule between_begin) (simp add: new_gateway_def)
  moreover have "library_ok two_filters"
    by (simp add: two_filters_def library_ok_def good_def own_filters_def own_handler_def own_slot_def
        sample_client_def list_all_iff MAX_MQTT_PACKET_SIZE_def MAX_MESSAGE_HANDLERS_def MAX_PACKET_ID_def
        registration_name_def message_arrived_def)
  ultimately have out: "delivered (snd (deliverMessage (msg topic) (two_filters\<lparr>text_at := (\<lambda>_. str ''u'' @ [0])\<rparr>))) =
      (if filter_accepts (str ''u'' @ [0]) topic then [(0, msg topic), (0, msg topic)] else [])"
    if "0 \<notin> set topic" for topic
    using messages_follow_buffers [of begun two_filters begun two_filters "msg topic" topic "[]"
        "\<lambda>_. str ''u'' @ [0]"] that
    by (simp add: msg_def two_filters_def sample_simps registration_name_def predefined_name_def
        message_arrived_def filter_replicate eval_nat_numeral)
  have accepts: "filter_accepts (str ''u'' @ [0]) (str ''u'')" "\<not> filter_accepts (str ''u'' @ [0]) (str ''t'')"
    by (simp_all add: filter_accepts_def cstr_def)
  show ?thesis
    using out [of "str ''t''"] out [of "str ''u''"] accepts by simp
qed

end
