(* ===== verification/BrokerAnswers.thy ===== *)
theory BrokerAnswers
  imports Program
begin

text \<open>
  From the datagram of a device through the gateway and its client library to the broker and back:
  what the answer of the broker to the first SUBSCRIBE for a topic name comes to.
\<close>

lemma add_handler_full: "add_handler a g hs = None \<longleftrightarrow> (\<forall>h \<in> set hs. topicFilter h \<noteq> None)"
  by (induction hs) auto

lemma countdown_texts: "fst (countdown_ms ms (c\<lparr>text_at := texts\<rparr>)) = fst (countdown_ms ms c)"
  by (simp add: countdown_ms_def gettimeofday_def)

lemma no_filter_left: "map topicFilter hs = map (\<lambda>_. None) gs \<Longrightarrow> h \<in> set hs \<Longrightarrow> topicFilter h = None"
proof -
  assume eq: "map topicFilter hs = map (\<lambda>_. None) gs" and h: "h \<in> set hs"
  have "topicFilter h \<in> set (map topicFilter hs)" unfolding set_map by (rule imageI [OF h])
  then show "topicFilter h = None" unfolding eq by auto
qed

text \<open>The call of the library, whichever buffer the name is in.\<close>

lemma library_subscribe:
  assumes "library_call (CallSubscribe n 1) c rc d" "length (cstr n) \<le> 500"
    and "good c" "isconnected c" "write_all c"
      "\<And>n. time_of_day c n < fst (countdown_ms (command_timeout_ms c) c)"
    and "header_type h = SUBACK" "supplies (recv_result c) (recvs c) (packet_bytes h [x, y, code] @ m)"
  shows "if \<exists>h \<in> set (messageHandlers c). topicFilter h = None then rc = 0 \<and> isconnected d
    else rc = sint code \<and> isconnected d = (rc = 0) \<and>
      (rc \<noteq> 0 \<longrightarrow> (\<forall>h \<in> set (messageHandlers d). topicFilter h = None))"
  using assms(1)
proof (cases rule: library_call.cases)
  case (subscribe a texts)
  let ?c = "c\<lparr>text_at := texts\<rparr>"
  have c: "good ?c" "isconnected ?c" "length (cstr (text_at ?c a)) \<le> 500" "write_all ?c"
      "\<And>n. time_of_day ?c n < fst (countdown_ms (command_timeout_ms ?c) ?c)"
      "supplies (recv_result ?c) (recvs ?c) (packet_bytes h [x, y, code] @ m)"
    using assms subscribe by (simp_all add: good_def write_all_def countdown_texts)
  obtain r e where r: "Client_subscribe a (uint (1 :: byte)) message_arrived ?c = Some (r, e)"
    "case add_handler a message_arrived (messageHandlers ?c) of
       Some hs \<Rightarrow> r = MQTT_SUCCESS \<and> messageHandlers e = hs \<and> isconnected e
     | None \<Rightarrow> r = sint code \<and> isconnected e = (r = 0) \<and>
         map topicFilter (messageHandlers e) =
           (if r = 0 then map topicFilter (messageHandlers ?c) else map (\<lambda>_. None) (messageHandlers ?c))"
    using subscribe_outcome [OF c(1-5) assms(7) c(6)] by metis
  have eq: "r = rc" "e = d" using r(1) subscribe by simp_all
  show ?thesis
    using r(2) add_handler_full [of a message_arrived "messageHandlers c"] no_filter_left [of "messageHandlers d" "messageHandlers c"]
    unfolding eq by (auto simp: MQTT_SUCCESS_def split: option.splits)
qed

text \<open>
  C3: A device with a session sends the first SUBSCRIBE for a topic name, the gateway subscribes at
  the broker, and the broker answers with a SUBACK.  As long as the client library has a free slot,
  the device is told that it has subscribed, whatever the broker says, a refusal (0x80) included.
  When the five slots are in use, only a granted quality of service of 0 is passed on; with 1,
  which the gateway asks for, the device is told NOT_SUPPORTED, and the library drops the
  connection and every filter, so no device gets any message any more - though the broker has
  granted the subscription, and the device keeps it in its table.
\<close>

theorem broker_answer_to_subscribe:
  fixes s :: gateway and a :: device_address and n :: bytes and m :: u16 and flags :: byte
  assumes device: "reg s rs" "\<not> transaction_started s" "mqtt_online s" "0 \<le> socket_fd s" "a \<noteq> empty_address"
      "session rs a = Some e" "device_topics s e ns" "device_subs s e es" "counts_of s gs"
      "length ns < 65534" "length es < 65534" "length gs < 65534"
    and name: "global_name n" "length n < 249" "\<not> subscribed_to es n" "count_of gs n = 0"
    and flags: "parse_qos flags \<noteq> 255" "flags AND FLAG_TOPIC_SHORT_NAME = 0" "flags AND FLAG_TOPIC_PREDEFINED_ID = 0"
    and library: "good c" "isconnected c" "write_all c"
      "\<And>n. time_of_day c n < fst (countdown_ms (command_timeout_ms c) c)"
      "library_call (CallSubscribe n 1) c (client_rc s (broker_calls s @ [CallSubscribe n 1])) d"
    and broker: "header_type h = SUBACK"
      "supplies (recv_result c) (recvs c) (packet_bytes h [x, y, code] @ rest)"
  defines "t \<equiv> snd (run_state (receive_datagram a (named_datagram MQTTSN_SUBSCRIBE flags m n)) s)"
    and "suback \<equiv> \<lambda>q i c. (a, written ([8, MQTTSN_SUBACK, qos_flags q, 0] @ u16_bytes i @ u16_bytes m @ [c, 0]))"
    and "i \<equiv> topic_id (topic_index n ns)" and "q \<equiv> if parse_qos flags \<ge> 1 then 1 else 0"
    and "accepted \<equiv> (\<exists>h \<in> set (messageHandlers c). topicFilter h = None) \<or> code = 0"
  shows "sent t = sent s @ [if accepted then suback q i ACCEPTED else suback 0 0 REJECTED_NOT_SUPPORTED] \<and>
    (\<exists>es'. device_subs t e es' \<and> subscribed_to es' n) \<and> isconnected d = accepted \<and>
    (\<not> accepted \<longrightarrow> (\<forall>h \<in> set (messageHandlers d). topicFilter h = None))"
proof -
  let ?rc = "client_rc s (broker_calls s @ [CallSubscribe n 1])"
  have "length (cstr n) \<le> 500" using name(2) length_cstr_le [of n] by linarith
  note outcome = library_subscribe [OF library(5) this library(1-4) broker]
  have code: "sint code = 0 \<longleftrightarrow> code = 0" by (metis signed_0 signed_word_eqI)
  have library_out: "(?rc = 0) = accepted \<and> isconnected d = accepted \<and>
    (\<not> accepted \<longrightarrow> (\<forall>h \<in> set (messageHandlers d). topicFilter h = None))"
  proof (cases "\<exists>h \<in> set (messageHandlers c). topicFilter h = None")
    case True
    have "?rc = 0 \<and> isconnected d" using outcome unfolding if_P [OF True] .
    then show ?thesis using True by (simp add: accepted_def)
  next
    case False
    have "?rc = sint code \<and> isconnected d = (?rc = 0) \<and>
      (?rc \<noteq> 0 \<longrightarrow> (\<forall>h \<in> set (messageHandlers d). topicFilter h = None))"
      using outcome unfolding if_not_P [OF False] .
    moreover have "accepted \<longleftrightarrow> code = 0" using False by (simp only: accepted_def simp_thms)
    ultimately show ?thesis using code by simp
  qed
  have ok: "(count_of gs n = 0 \<longrightarrow> ?rc = 0) = accepted" using name(4) library_out by simp
  have "count_of gs n + 1 \<noteq> 0" using name(4) by simp
  note first = run_first_subscribe [OF device(1-9) name(1,2) this device(10-12) flags name(3), of m, unfolded ok]
  have "\<exists>u. subscribed s rs e (register_name n ns) es gs n accepted u \<and>
      t = u\<lparr>sent := sent s @ [if accepted then suback q i ACCEPTED else suback 0 0 REJECTED_NOT_SUPPORTED]\<rparr>"
    unfolding t_def suback_def i_def q_def by (rule first)
  then obtain u where u: "subscribed s rs e (register_name n ns) es gs n accepted u"
      "t = u\<lparr>sent := sent s @ [if accepted then suback q i ACCEPTED else suback 0 0 REJECTED_NOT_SUPPORTED]\<rparr>"
    by (elim exE conjE)
  have "\<exists>es'. device_subs t e es' \<and> subscribed_to es' n"
    using u name(1) by (auto simp: subscribed_def)
  then show ?thesis using u(2) library_out by simp
qed

text \<open>
  The first subscription of a gateway, to \<open>u\<close>, which the broker refuses with 0x80: the device is told
  that it has subscribed.
\<close>

lemma broker_answer_to_subscribe_witness:
  "\<exists>i. sent (snd (run_state (receive_datagram alice_address (named_datagram MQTTSN_SUBSCRIBE 0 7 [117]))
      (close_transaction (with_topics [] alice_counted)))) =
    [(alice_address, written ([8, MQTTSN_SUBACK, qos_flags 0, 0] @ u16_bytes i @ u16_bytes 7 @ [ACCEPTED, 0]))]"
proof -
  let ?s = "close_transaction (with_topics [] alice_counted)"
  let ?m = "[0x90, 3, 0, 1, 0x80] :: bytes"
  let ?c = "(sample_client (dribble ?m))\<lparr>isconnected := True, time_of_day := (\<lambda>_. 0)\<rparr>"
  let ?texts = "\<lambda>_ :: nat. [117, 0] :: bytes"
  have gateway: "device_topics ?s alice []" "count_of [new_count [116] 1] [117] = 0" "mqtt_online ?s"
      "global_name [117]" "parse_qos 0 = 0"
  proof -
    have "entry alice_counted = alice" by (simp add: alice_counted_def)
    then show "device_topics ?s alice []"
      unfolding device_topics_outside device_topics_def
      by (intro topics_of_members [OF _ _ _ topics_of_with [of "[]" alice_counted]]) simp_all
    show "count_of [new_count [116] 1] [117] = 0"
      by (rule count_of_none) (simp add: counts_name_def new_count_def no_nul_def)
    show "parse_qos 0 = 0" by (simp add: parse_qos_def enum_defs)
    show "mqtt_online ?s" by (simp add: alice_counted_def in_alice_def)
    show "global_name [117]" by (simp add: global_name_def topic_name_ok_def)
  qed
  have rc: "client_rc ?s cs = 0" "sent ?s = []" for cs by (simp_all add: alice_counted_def in_alice_def)
  have good: "good ?c" "good (?c\<lparr>text_at := ?texts\<rparr>)"
    by (simp_all add: good_def sample_simps dribble_contract MAX_MQTT_PACKET_SIZE_def MAX_MESSAGE_HANDLERS_def)
  have t: "header_type 0x90 = SUBACK" by (simp add: header_type_def SUBACK_def)
  have e: "fst (countdown_ms (command_timeout_ms ?c) ?c) = 30000000"
    by (simp add: countdown_ms_def gettimeofday_def sample_simps signed_divide_int_def
        signed_modulo_int_def)
  have p: "packet_bytes 0x90 [0, 1, 0x80] = ?m" by (simp add: encode_small)
  have s: "supplies (dribble ?m) 0 ?m" using supplies_dribble [of ?m 0] by simp
  have "\<exists>hs. add_handler registration_name message_arrived (messageHandlers ?c) = Some hs"
    by (simp add: sample_simps eval_nat_numeral)
  then obtain hs where h: "add_handler registration_name message_arrived (messageHandlers ?c) = Some hs" ..
  obtain d where "Client_subscribe registration_name (uint (1 :: byte)) message_arrived (?c\<lparr>text_at := ?texts\<rparr>) =
      Some (0, d)"
    using subscribe_outcome [OF good(2) _ _ _ _ t, of registration_name 0 1 "0x80" "[]" "uint (1 :: byte)" message_arrived]
      e s p h by (auto simp: sample_simps write_all_def cstr_def countdown_texts MQTT_SUCCESS_def)
  then have call: "library_call (CallSubscribe [117] 1) ?c 0 d"
    by (intro library_call.subscribe [where texts = ?texts]) (auto simp: cstr_def)
  show ?thesis
    using broker_answer_to_subscribe [of ?s "[alice]" alice_address alice "[]" "[]" "[new_count [116] 1]" "[117]" 0
        ?c d "0x90" 0 1 "0x80" "[]" 7] gateway good(1) call e s p t rc
    by (auto simp: sample_simps write_all_def subscribed_to_def)
qed

end
