(* ===== verification/MqttFormat.thy ===== *)
theory MqttFormat
  imports MqttConnect MqttPublish MqttSubscribe
begin

text \<open>
  Packets as text for debugging: \<open>MQTTPacket/src/MQTTFormat.c\<close>, which the client library calls when
  it is compiled with \<open>MQTT_DEBUG\<close>.

  \<open>strbuf\<close> are the characters of the array the caller gives; characters written behind its end make
  the list longer, so an operation has stayed inside the array exactly if the length is the same.
  \<open>None\<close> is a read outside the packet or through a pointer that has not been assigned.  \<open>indet\<close> is
  what a local variable holds that has not been assigned.
\<close>

section \<open>\<open>snprintf\<close>\<close>

text \<open>\<open>%d\<close> and \<open>%.*s\<close>.\<close>

fun decimal :: "nat \<Rightarrow> bytes" where
  "decimal n = (if n < 10 then [digit n] else decimal (n div 10) @ [digit (n mod 10)])"

declare decimal.simps [simp del]

definition fmt_d :: "int \<Rightarrow> bytes" where
  "fmt_d i = (if i < 0 then 45 # decimal (nat (- i)) else decimal (nat i))"

definition fmt_str :: "int \<Rightarrow> bytes option \<Rightarrow> bytes option" where
  "fmt_str precision s = (case s of
     None \<Rightarrow> if precision = 0 then Some [] else None
   | Some d \<Rightarrow>
       if precision < 0 then (if 0 \<in> set d then Some (cstr d) else None)
       else if nat precision \<le> length d \<or> 0 \<in> set d then Some (cstr (take (nat precision) d))
       else None)"

definition put_chars :: "nat \<Rightarrow> bytes \<Rightarrow> bytes \<Rightarrow> bytes" where
  "put_chars off w strbuf = take off strbuf @ w @ drop (off + length w) strbuf"

text \<open>The size is converted to \<open>size_t\<close>, so a negative one becomes very large.\<close>

definition snprintf :: "bytes \<Rightarrow> int \<Rightarrow> int \<Rightarrow> bytes \<Rightarrow> int \<times> bytes" where
  "snprintf strbuf strindex n text =
     (let size = (if n < 0 then n + 2 ^ 64 else n)
      in (int (length text),
          if size = 0 then strbuf
          else put_chars (nat strindex) (take (nat (size - 1)) text @ [0]) strbuf))"

section \<open>Packets\<close>



text \<open>The texts that \<open>MQTTStringFormat_connect\<close> prints one behind the other.\<close>

definition fmt_string :: "mqtt_string \<Rightarrow> bytes option" where
  "fmt_string s = fmt_str (lenstring_len s) (lenstring_data s)"

definition printed_string :: "mqtt_string \<Rightarrow> bool" where
  "printed_string s \<longleftrightarrow> lenstring_data s \<noteq> None \<and> lenstring_len s > 0"

definition connect_texts :: "connect_data \<Rightarrow> bytes list option" where
  "connect_texts data = do {
     i \<leftarrow> fmt_string (cd_clientID data);
     w \<leftarrow> (if cd_willFlag data \<noteq> 0 then do {
            t \<leftarrow> fmt_string (wo_topicName (cd_will data));
            m \<leftarrow> fmt_string (wo_message (cd_will data));
            Some [str '', will QoS '' @ fmt_d (sint (wo_qos (cd_will data)))
              @ str '', will retain '' @ fmt_d (uint (wo_retained (cd_will data)))
              @ str '', will topic '' @ t @ str '', will message '' @ m]
          } else Some []);
     u \<leftarrow> (if printed_string (cd_username data)
          then map_option (\<lambda>t. [str '', user name '' @ t]) (fmt_string (cd_username data)) else Some []);
     p \<leftarrow> (if printed_string (cd_password data)
          then map_option (\<lambda>t. [str '', password '' @ t]) (fmt_string (cd_password data)) else Some []);
     Some ([str ''CONNECT MQTT version '' @ fmt_d (uint (cd_MQTTVersion data)) @ str '', client id '' @ i
       @ str '', clean session '' @ fmt_d (uint (cd_cleansession data))
       @ str '', keep alive '' @ fmt_d (uint (cd_keepAliveInterval data))] @ w @ u @ p)
   }"

fun print_texts :: "bytes \<Rightarrow> int \<Rightarrow> int \<Rightarrow> bytes list \<Rightarrow> int \<times> bytes" where
  "print_texts strbuf strbuflen strindex [] = (strindex, strbuf)"
| "print_texts strbuf strbuflen strindex (t # ts) =
     (case snprintf strbuf strindex (strbuflen - strindex) t of
        (k, strbuf) \<Rightarrow> print_texts strbuf strbuflen (strindex + k) ts)"

definition MQTTStringFormat_connect :: "bytes \<Rightarrow> int \<Rightarrow> connect_data \<Rightarrow> (int \<times> bytes) option" where
  "MQTTStringFormat_connect strbuf strbuflen data =
     map_option (print_texts strbuf strbuflen 0) (connect_texts data)"







section \<open>A packet as text\<close>












section \<open>Staying inside the array\<close>

text \<open>The array is \<open>strbuf\<close>, and \<open>strbuflen\<close> of its characters are meant to be used.\<close>

definition inside :: "int \<Rightarrow> bytes \<Rightarrow> bytes \<Rightarrow> bool" where
  "inside strbuflen strbuf strbuf' \<longleftrightarrow> length strbuf' = length strbuf \<and>
     drop (nat strbuflen) strbuf' = drop (nat strbuflen) strbuf"

lemma inside_refl [simp]: "inside n b b" by (simp add: inside_def)


lemma fst_snprintf [simp]: "fst (snprintf b i n t) = int (length t)" by (simp add: snprintf_def Let_def)

lemma put_inside: "off + length w \<le> nat n \<Longrightarrow> nat n \<le> length b \<Longrightarrow> inside n b (put_chars off w b)"
  by (auto simp: inside_def put_chars_def min_absorb2)

lemma snprintf_inside:
  assumes "0 \<le> i" "i \<le> n" "n \<le> int (length b)"
  shows "inside n b (snd (snprintf b i (n - i) t))"
proof (cases "i = n")
  case False
  then have "nat i + length (take (nat (n - i - 1)) t @ [0]) \<le> nat n" using assms by simp
  then show ?thesis using put_inside [of "nat i" "take (nat (n - i - 1)) t @ [0]" n b] assms False
    by (simp add: snprintf_def Let_def)
qed (simp add: snprintf_def)









section \<open>Leaving the array\<close>

lemma put_grows: "length b \<le> length (put_chars off w b)"
  by (simp add: put_chars_def)

lemma put_behind: "length b \<le> off \<Longrightarrow> w \<noteq> [] \<Longrightarrow> length b < length (put_chars off w b)"
  by (cases w) (simp_all add: put_chars_def)

lemma snprintf_grows: "length b \<le> length (snd (snprintf b i n t))"
  by (simp add: snprintf_def Let_def put_grows)

text \<open>
  Printing texts one behind the other stays inside the array exactly if no text begins behind its
  end: then the size is negative and as good as unlimited.
\<close>

lemma print_texts_grows: "length b \<le> length (snd (print_texts b n i ts))"
proof (induction ts arbitrary: b i)
  case (Cons t ts)
  show ?case
    using order_trans [OF snprintf_grows Cons.IH] by (simp add: split_beta)
qed simp

lemma print_texts_inside:
  assumes "0 \<le> i" "i + int (sum_list (map length ts)) < 2 ^ 63" "length b < 2 ^ 63"
  shows "length (snd (print_texts b (int (length b)) i ts)) = length b \<longleftrightarrow>
    ts = [] \<or> i + int (sum_list (map length (butlast ts))) \<le> int (length b)"
  using assms
proof (induction ts arbitrary: i b)
  case (Cons t ts)
  let ?n = "int (length b)"
  let ?p = "snprintf b i (?n - i) t"
  show ?case
  proof (cases "i \<le> ?n")
    case True
    then have len: "length (snd ?p) = length b"
      using snprintf_inside [of i ?n b t] Cons.prems by (simp add: inside_def)
    have "length (snd (print_texts (snd ?p) (int (length (snd ?p))) (i + int (length t)) ts)) = length (snd ?p) \<longleftrightarrow>
        ts = [] \<or> i + int (length t) + int (sum_list (map length (butlast ts))) \<le> int (length (snd ?p))"
      using Cons.prems len by (intro Cons.IH) simp_all
    then show ?thesis using True len by (simp add: split_beta add.assoc)
  next
    case False
    have size: "?n - i + 2 ^ 64 \<noteq> 0" using Cons.prems by simp
    have "length b < length (snd ?p)"
      using False size Cons.prems by (simp add: snprintf_def Let_def put_behind)
    then have "length b < length (snd (print_texts b ?n i (t # ts)))"
      using print_texts_grows [of "snd ?p" ?n "i + fst ?p" ts] by (simp add: split_beta)
    moreover have "\<not> i + int (sum_list (map length (butlast (t # ts)))) \<le> ?n"
      using False by linarith
    ultimately show ?thesis by (metis less_irrefl list.distinct(1))
  qed
qed simp

theorem connect_text_inside:
  assumes "connect_texts data = Some ts" "sum_list (map length ts) < 2 ^ 63" "length b < 2 ^ 63"
    and "MQTTStringFormat_connect b (int (length b)) data = Some (k, b')"
  shows "length b' = length b \<longleftrightarrow> sum_list (map length (butlast ts)) \<le> length b"
proof -
  have "ts \<noteq> []" using assms(1) by (auto simp: connect_texts_def bind_eq_Some_conv)
  moreover have "b' = snd (print_texts b (int (length b)) 0 ts)"
    using assms(1,4) by (auto simp: MQTTStringFormat_connect_def)
  moreover have "0 + int (sum_list (map length ts)) < 2 ^ 63"
    using assms(2) by (simp only: add_0_left of_nat_less_iff [symmetric, where 'a = int] of_nat_power of_nat_numeral)
  ultimately show ?thesis using print_texts_inside [of 0 ts b] assms(3) by simp
qed












end
