(* ===== verification/DeviceStructs.thy ===== *)
theory DeviceStructs
  imports Subscribing PublishMessages Wills
begin

text \<open>
  The constructors of \<open>src/mqttsn_messages.h\<close> for the messages only a device sends, and what the
  gateway makes of these messages.  As in \<open>SnMessages\<close>, a message is the memory image of its struct.
\<close>

unbundle bit_operations_syntax

section \<open>Constructors\<close>

definition msg_searchgw :: "byte \<Rightarrow> image" where
  "msg_searchgw radius = written [3, MQTTSN_SEARCHGW, radius]"

text \<open>Strings are the characters before the NUL.  \<open>client_id_length\<close> is a byte.\<close>

definition client_id_length :: "bytes \<Rightarrow> byte" where
  "client_id_length client_id = (let n = of_nat (length client_id) in if n > 22 then 23 else n)"

definition client_id_field :: "bytes \<Rightarrow> bytes" where
  "client_id_field client_id = padz 24 (take (unat (client_id_length client_id)) client_id)"

definition msg_connect :: "bool \<Rightarrow> bool \<Rightarrow> byte \<Rightarrow> u16 \<Rightarrow> bytes \<Rightarrow> image" where
  "msg_connect will clean_session protocol_id duration client_id =
     written ([7 + client_id_length client_id, MQTTSN_CONNECT,
       (if will then FLAG_WILL else 0) OR (if clean_session then FLAG_CLEAN else 0), protocol_id]
       @ u16_bytes duration @ client_id_field client_id)"





text \<open>\<open>init_msg_pingreq\<close> writes the client id behind the header of the message it is given.\<close>

definition init_msg_pingreq :: "bytes \<Rightarrow> image" where
  "init_msg_pingreq client_id =
     written ([3 + client_id_length client_id, MQTTSN_PINGREQ] @ client_id_field client_id)"



section \<open>Sending them\<close>

text \<open>
  A device sends as many bytes as the message says it has; a byte that was not written can be
  anything.
\<close>

definition carries :: "bytes \<Rightarrow> image \<Rightarrow> bool" where
  "carries datagram message \<longleftrightarrow> message \<noteq> [] \<and> length datagram \<le> length message \<and>
     hd message = Some (of_nat (length datagram)) \<and> length datagram < 256 \<and>
     (\<forall>i < length datagram. message ! i = None \<or> message ! i = Some (datagram ! i))"

lemma carries_written:
  assumes "carries d (written w @ rest)" "w \<noteq> []"
  shows "take (length w) d = take (length d) w" "hd w = of_nat (length d)" "length d < 256"
proof -
  show "take (length w) d = take (length d) w"
  proof (rule nth_equalityI)
    show "length (take (length w) d) = length (take (length d) w)" by (simp add: min.commute)
  next
    fix i assume "i < length (take (length w) d)"
    then have "i < length d" "i < length w" by simp_all
    moreover from this have "(written w @ rest) ! i = Some (w ! i)" by (simp add: written_def nth_append)
    ultimately show "take (length w) d ! i = take (length d) w ! i"
      using assms(1) by (auto simp: carries_def)
  qed
  show "hd w = of_nat (length d)" "length d < 256"
    using assms by (auto simp: carries_def written_def hd_append hd_map)
qed

lemma carries_itself:
  "w \<noteq> [] \<Longrightarrow> hd w = of_nat (length w) \<Longrightarrow> length w < 256 \<Longrightarrow> carries w (written (w @ r) @ rest)"
  by (simp add: carries_def written_def hd_map nth_append)

lemma take_header: "length h = k \<Longrightarrow> take (k + n) (h @ r) = h @ take n r"
  by simp

text \<open>Where the bytes sent have all been written, they are the datagram.\<close>

lemma carries_all:
  assumes "carries d (written w @ rest)" "w \<noteq> []" "hd w = of_nat k" "k < 256" "k \<le> length w"
  shows "d = take k w"
proof -
  note c = carries_written [OF assms(1,2)]
  have "length d = k"
    using c(2,3) assms(3,4) unat_length_byte [of 0 k] unat_length_byte [of 0 "length d"] by simp
  then show ?thesis using c(1) assms(5) by simp
qed



section \<open>Receiving them\<close>

lemma receive_trailing_zero: "receive_datagram a (d @ [0]) = receive_datagram a d"
proof -
  have "padz n (d @ [0]) = padz n d" for n
  proof (cases "length d < n")
    case True
    then show ?thesis by (simp add: padz_eq Suc_diff_Suc flip: replicate_Suc)
  qed (simp add: padz_def)
  then show ?thesis by (simp add: receive_datagram_def)
qed

lemma client_id_length: "length cid < 256 \<Longrightarrow> unat (client_id_length cid) = min (length cid) 23"
  using unat_length_byte [of 0 "length cid"]
  by (auto simp: client_id_length_def Let_def word_less_nat_alt not_less)

lemma client_id_field: "length cid < 256 \<Longrightarrow>
    take (min (length cid) 23 + 1) (client_id_field cid) = take 23 cid @ [0]"
  by (simp add: client_id_field_def client_id_length padz_def min_def) arith

definition connect_datagram :: "byte \<Rightarrow> byte \<Rightarrow> u16 \<Rightarrow> bytes \<Rightarrow> bytes" where
  "connect_datagram flags protocol_id duration n =
     [of_nat (7 + length n), MQTTSN_CONNECT, flags, protocol_id] @ u16_bytes duration @ n"

lemma receive_connect:
  assumes "no_nul n" "length n < 249"
  shows "receive_datagram a (connect_datagram flags PROTOCOL_ID duration n) =
    handle_connect a n duration (flags AND FLAG_WILL \<noteq> 0) (flags AND FLAG_CLEAN \<noteq> 0)"
proof -
  define bs where "bs = padz BUFLEN (connect_datagram flags PROTOCOL_ID duration n)"
  have cd: "connect_datagram flags PROTOCOL_ID duration n =
        [of_nat (7 + length n), MQTTSN_CONNECT, flags, PROTOCOL_ID] @ u16_bytes duration @ n"
      "connect_datagram flags PROTOCOL_ID duration n =
        ([of_nat (7 + length n), MQTTSN_CONNECT, flags, PROTOCOL_ID] @ u16_bytes duration) @ n"
    by (simp_all add: connect_datagram_def)
  have u: "u16_at 4 bs = duration" unfolding bs_def cd(1) by (rule datagram_u16) simp_all
  have c: "cstr (drop 6 bs) = n"
    unfolding bs_def cd(2) by (rule datagram_name) (use assms in simp_all)
  have b: "byte_at 0 bs = of_nat (7 + length n)" "byte_at (Suc 0) bs = MQTTSN_CONNECT"
      "byte_at 2 bs = flags" "byte_at 3 bs = PROTOCOL_ID"
    by (simp_all add: bs_def cd(1) byte_at_padz BUFLEN_def numeral_2_eq_2 numeral_3_eq_3)
  have l: "unat (byte_at 0 bs) = 7 + length n"
    unfolding b(1) by (rule unat_length_byte) (use assms(2) in simp)
  then have "byte_at 0 bs > 6" "\<not> byte_at 0 bs < 2" by (simp_all add: word_less_nat_alt)
  then have "receiveData a bs = handle_connect a n duration (flags AND FLAG_WILL \<noteq> 0) (flags AND FLAG_CLEAN \<noteq> 0)"
    using l c u b(2-4) by (simp add: receiveData_def parse_connect_def has_flag_def enum_defs Let_def)
  then show ?thesis by (simp add: receive_datagram_def bs_def)
qed

definition pingreq_datagram :: "bytes \<Rightarrow> bytes" where
  "pingreq_datagram n = [of_nat (3 + length n), MQTTSN_PINGREQ] @ n"

lemma receive_pingreq:
  assumes "no_nul n" "length n < 24"
  shows "receive_datagram a (pingreq_datagram n) = handle_pingreq_id a n"
proof -
  define bs where "bs = padz BUFLEN (pingreq_datagram n)"
  have c: "cstr (drop 2 bs) = n"
    unfolding bs_def pingreq_datagram_def by (rule datagram_name) (use assms in simp_all)
  have b: "byte_at 0 bs = of_nat (3 + length n)" "byte_at (Suc 0) bs = MQTTSN_PINGREQ"
    by (simp_all add: bs_def pingreq_datagram_def byte_at_padz BUFLEN_def)
  have l: "unat (byte_at 0 bs) = 3 + length n"
    unfolding b(1) by (rule unat_length_byte) (use assms(2) in simp)
  then have "byte_at 0 bs > 2" "byte_at 0 bs \<noteq> 2" "\<not> byte_at 0 bs < 2"
    by (auto simp: word_less_nat_alt)
  moreover have "uint (byte_at 0 bs) = int (3 + length n)" unfolding l [symmetric] by simp
  ultimately have "receiveData a bs = handle_pingreq_id a n"
    using c b(2) assms(2) by (simp add: receiveData_def parse_pingreq_def Let_def)
  then show ?thesis by (simp add: receive_datagram_def bs_def)
qed



section \<open>What a device that uses the constructors sends\<close>

lemma short_client_id: "no_nul cid \<Longrightarrow> no_nul (take 23 cid)"
  by (auto simp: no_nul_def dest: in_set_takeD)

lemma carries_connect:
  assumes "carries d (msg_connect will clean_session p duration cid)" "length cid < 256"
  shows "d = connect_datagram ((if will then FLAG_WILL else 0) OR (if clean_session then FLAG_CLEAN else 0))
    p duration (take 23 cid) @ [0]"
proof -
  let ?n = "min (length cid) 23"
  let ?h = "[7 + client_id_length cid, MQTTSN_CONNECT,
       (if will then FLAG_WILL else 0) OR (if clean_session then FLAG_CLEAN else 0), p] @ u16_bytes duration"
  have l: "client_id_length cid = of_nat ?n" by (simp flip: client_id_length [OF assms(2)])
  have "d = take (6 + (?n + 1)) (?h @ client_id_field cid)"
    using assms(1) by (intro carries_all [where rest = "[]"])
      (simp_all add: msg_connect_def l client_id_field_def)
  also have "\<dots> = ?h @ take (?n + 1) (client_id_field cid)" by (rule take_header) simp
  finally show ?thesis
    using client_id_field [OF assms(2)] by (simp add: connect_datagram_def l min_def)
qed

lemma carries_pingreq:
  assumes "carries d (init_msg_pingreq cid)" "length cid < 256"
  shows "d = pingreq_datagram (take 23 cid) @ [0]"
proof -
  let ?n = "min (length cid) 23"
  let ?h = "[3 + client_id_length cid, MQTTSN_PINGREQ]"
  have l: "client_id_length cid = of_nat ?n" by (simp flip: client_id_length [OF assms(2)])
  have "d = take (2 + (?n + 1)) (?h @ client_id_field cid)"
    using assms(1) by (intro carries_all [where rest = "[]"])
      (simp_all add: init_msg_pingreq_def l client_id_field_def)
  also have "\<dots> = ?h @ take (?n + 1) (client_id_field cid)" by (rule take_header) simp
  finally show ?thesis
    using client_id_field [OF assms(2)] by (simp add: pingreq_datagram_def l min_def)
qed

lemma carries_register:
  assumes "carries d (msg_register 0 m n)" "length n < 249"
  shows "d = register_datagram m n @ [0]"
proof -
  let ?w = "[of_nat (6 + length n + 1), MQTTSN_REGISTER] @ u16_bytes 0 @ u16_bytes m @ n @ [0]"
  have "d = take (7 + length n) ?w"
    by (rule carries_all [where rest = "unwritten (256 - length ?w)"])
      (use assms in \<open>simp_all add: msg_register_def Let_def\<close>)
  then show ?thesis by (simp add: register_datagram_def u16_bytes_def numeral_2_eq_2)
qed

text \<open>
  C36: The gateway understands the SEARCHGW, CONNECT with the protocol id of MQTT-SN, REGISTER with
  the topic id 0 and a name of up to 248 bytes, and PINGREQ that the constructors of its own header
  make, whatever follows behind the bytes they write: the fields arrive as they were given, a client
  id of up to 255 bytes as its first 23 characters.  (Names and client ids without NUL.)
\<close>

theorem device_messages_understood:
  assumes "no_nul cid" "length cid < 256" "no_nul name" "length name < 249"
  shows "(carries d (msg_searchgw radius) \<longrightarrow> receive_datagram a d = handle_searchgw a radius) \<and>
    (carries d (msg_connect will clean_session PROTOCOL_ID duration cid) \<longrightarrow>
      receive_datagram a d = handle_connect a (take 23 cid) duration will clean_session) \<and>
    (carries d (msg_register 0 m name) \<longrightarrow> receive_datagram a d = handle_register a m name) \<and>
    (carries d (init_msg_pingreq cid) \<longrightarrow> receive_datagram a d = handle_pingreq_id a (take 23 cid))"
proof (intro conjI impI)
  assume "carries d (msg_searchgw radius)"
  then have "d = take 3 [3, MQTTSN_SEARCHGW, radius]"
    by (intro carries_all [where rest = "[]"]) (simp_all add: msg_searchgw_def)
  then have "byte_at 0 (padz BUFLEN d) = 3" "byte_at 1 (padz BUFLEN d) = MQTTSN_SEARCHGW"
      "byte_at 2 (padz BUFLEN d) = radius"
    by (simp_all add: byte_at_padz BUFLEN_def)
  then show "receive_datagram a d = handle_searchgw a radius"
    by (simp add: receive_datagram_def receiveData_def parse_searchgw_def enum_defs)
next
  assume "carries d (msg_connect will clean_session PROTOCOL_ID duration cid)"
  note d = carries_connect [OF this assms(2)]
  show "receive_datagram a d = handle_connect a (take 23 cid) duration will clean_session"
    unfolding d receive_trailing_zero
    by (subst receive_connect [OF short_client_id [OF assms(1)]]) (simp_all add: enum_defs)
next
  assume "carries d (msg_register 0 m name)"
  note d = carries_register [OF this assms(4)]
  show "receive_datagram a d = handle_register a m name"
    unfolding d receive_trailing_zero by (rule receive_register [OF assms(3,4)])
next
  assume "carries d (init_msg_pingreq cid)"
  note d = carries_pingreq [OF this assms(2)]
  show "receive_datagram a d = handle_pingreq_id a (take 23 cid)"
    unfolding d receive_trailing_zero
    by (rule receive_pingreq [OF short_client_id [OF assms(1)]]) simp
qed

text \<open>A device called with the longest client id.\<close>

lemma device_messages_understood_witness:
  "\<exists>d. receive_datagram alice_address d = handle_connect alice_address (replicate 23 65) 60 True False \<and> length d = 30"
proof -
  define d where "d = [30, MQTTSN_CONNECT, FLAG_WILL, PROTOCOL_ID] @ u16_bytes 60 @ replicate 23 65 @ [0]"
  have "msg_connect True False PROTOCOL_ID 60 (replicate 23 65) = written d"
    by (simp add: d_def msg_connect_def client_id_field_def client_id_length client_id_length_def padz_def)
  then have "carries d (msg_connect True False PROTOCOL_ID 60 (replicate 23 65))"
    using carries_itself [of d "[]" "[]"] by (simp add: d_def)
  then show ?thesis
    using device_messages_understood [of "replicate 23 65" "[]" d 0 alice_address True False 60]
    by (intro exI [of _ d]) (simp add: d_def no_nul_def)
qed

section \<open>What gets lost\<close>










end
