(* ===== verification/AnonymousClients.thy ===== *)
theory AnonymousClients
  imports DeviceStructs ConnectClaims
begin

text \<open>
  CONNECT with an empty client id.  \<open>parse_connect\<close> accepts it, and \<open>add_client\<close> writes an entry
  with an address and a status but without an id, which \<open>find_empty_entry_space_in_registry\<close> takes
  for a cleared one.
\<close>

lemma free_slot_first:
  "(\<And>e. e \<in> set rs \<Longrightarrow> id_of e \<noteq> []) \<Longrightarrow> free_slot rs = length rs"
  "i < length rs \<Longrightarrow> id_of (rs ! i) = [] \<Longrightarrow> (\<And>j. j < i \<Longrightarrow> id_of (rs ! j) \<noteq> []) \<Longrightarrow> free_slot rs = i"
proof -
  show "(\<And>e. e \<in> set rs \<Longrightarrow> id_of e \<noteq> []) \<Longrightarrow> free_slot rs = length rs"
    by (induction rs) auto
  show "i < length rs \<Longrightarrow> id_of (rs ! i) = [] \<Longrightarrow> (\<And>j. j < i \<Longrightarrow> id_of (rs ! j) \<noteq> []) \<Longrightarrow> free_slot rs = i"
  proof (induction rs arbitrary: i)
    case (Cons e rs)
    show ?case
    proof (cases i)
      case 0
      then show ?thesis using Cons.prems(2) by simp
    next
      case (Suc k)
      have "id_of (rs ! j) \<noteq> []" if "j < k" for j using Cons.prems(3) [of "Suc j"] that Suc by simp
      then show ?thesis using Cons Suc Cons.prems(3) [of 0] by simp
    qed
  qed simp
qed

text \<open>The entry that a CONNECT with an empty client id leaves.\<close>

lemma anonymous_spec:
  obtains (new) e where "\<And>x. x \<in> set rs \<Longrightarrow> id_of x \<noteq> []" "free_slot rs = length rs"
      "connect_spec [] a d rs = rs @ [e]" "id_of e = []" "ec_client_address e = a" "ec_client_status e = ACTIVE"
  | (old) i e where "i < length rs" "free_slot rs = i" "\<And>j. j < i \<Longrightarrow> id_of (rs ! j) \<noteq> []"
      "connect_spec [] a d rs = rs[i := e]" "id_of e = []" "ec_client_address e = a" "ec_client_status e = ACTIVE"
proof (cases rule: find_first_cases [of "\<lambda>e. id_of e = []" rs "reconnected [] a d"])
  case none
  have "free_slot rs = length rs" using none(2) by (intro free_slot_first(1)) blast
  then show ?thesis
    using none by (intro new [of "new_client [] a d (length rs)"])
      (auto simp: connect_spec_def client_of_def store_at_def new_client_def id_of_def no_nul_def)
next
  case (some i)
  have "free_slot rs = i" using some(1-3) by (intro free_slot_first(2)) simp_all
  then show ?thesis
    using some by (intro old [of i "reconnected [] a d (rs ! i)"])
      (auto simp: connect_spec_def client_of_def reconnected_def id_of_def no_nul_def)
qed

lemma store_anonymous:
  assumes "cid \<noteq> []" "client_of rs cid = None"
  shows "connect_spec cid b d' (connect_spec [] a d rs) = connect_spec cid b d' rs"
    and "length (connect_spec [] a d rs) \<le> Suc (length rs)" "client_of (connect_spec [] a d rs) cid = None"
    and "\<exists>e. e \<in> set (connect_spec [] a d rs) \<and> id_of e = [] \<and> ec_client_address e = a \<and>
      ec_client_status e = ACTIVE"
proof -
  let ?goal = "connect_spec cid b d' (connect_spec [] a d rs) = connect_spec cid b d' rs \<and>
      length (connect_spec [] a d rs) \<le> Suc (length rs) \<and> client_of (connect_spec [] a d rs) cid = None \<and>
      (\<exists>e. e \<in> set (connect_spec [] a d rs) \<and> id_of e = [] \<and> ec_client_address e = a \<and> ec_client_status e = ACTIVE)"
  have ?goal
  proof (cases rule: anonymous_spec [of rs a d])
  case (new e)
  have no: "client_of (rs @ [e]) cid = None"
    using assms new(4) by (auto simp: client_of_def find_None_iff)
  have "free_slot (rs @ [e]) = length rs"
    using new(1,4) by (intro free_slot_first(2)) (auto simp: nth_append)
  then have "connect_spec cid b d' (rs @ [e]) = connect_spec cid b d' rs"
    using assms(2) new(2) no by (simp add: connect_spec_def store_at_def)
  then show ?goal using new no by auto
next
  case (old i e)
  have mem: "x \<in> set (rs[i := e]) \<Longrightarrow> x = e \<or> x \<in> set rs" for x by (meson set_update_subset_insert insertE subsetD)
  have no: "client_of (rs[i := e]) cid = None"
    using assms old(5) mem by (force simp: client_of_def find_None_iff)
  have "free_slot (rs[i := e]) = i"
    using old(1,3,5) by (intro free_slot_first(2)) simp_all
  then have "connect_spec cid b d' (rs[i := e]) = connect_spec cid b d' rs"
    using assms(2) old(1,2) no by (simp add: connect_spec_def store_at_def)
  moreover have "e \<in> set (rs[i := e])" using old(1) by (rule set_update_memI)
  ultimately show ?goal using old no by auto
  qed
  then show "connect_spec cid b d' (connect_spec [] a d rs) = connect_spec cid b d' rs"
    "length (connect_spec [] a d rs) \<le> Suc (length rs)" "client_of (connect_spec [] a d rs) cid = None"
    "\<exists>e. e \<in> set (connect_spec [] a d rs) \<and> id_of e = [] \<and> ec_client_address e = a \<and>
      ec_client_status e = ACTIVE"
    by blast+
qed


lemma run_connect_file:
  fixes s :: gateway
  assumes "registry_file s rs" "\<not> transaction_started s" "mqtt_online s" "length rs < 65536" "0 \<le> socket_fd s"
    and "no_nul cid" "length cid < 24" "length a = 6" "\<not> clean \<or> client_of rs cid = None"
  obtains t where "run_state (handle_connect a cid dur False clean) s = ((), t)"
    "client.holds t client_registry (connect_spec cid a (ucast dur * 1000) rs)"
    "\<not> transaction_started t" "mqtt_online t" "0 \<le> socket_fd t"
    "sent t = sent s @ [(a, written [3, MQTTSN_CONNACK, ACCEPTED])]"
proof -
  obtain u where u: "run_state (core_add_client cid dur clean a) s = (SUCCESS, u)"
      "client.holds u client_registry (connect_spec cid a (ucast dur * 1000) rs)" "\<not> transaction_started u"
      "sent u = sent s" "mqtt_online u = mqtt_online s" "socket_fd u = socket_fd s"
    using core_add_client_file [OF assms(1-4,6-9)] by blast
  have fd: "0 \<le> socket_fd u" using u(6) assms(5) by simp
  show ?thesis
    by (rule that [of "u\<lparr>sent := sent u @ [(a, written [3, MQTTSN_CONNACK, ACCEPTED])]\<rparr>"])
      (use u assms(3) fd in \<open>simp_all add: handle_connect_def run_send_connect State_Monad.return_def
        client.holds_def path_in_def\<close>)
qed

lemma anonymous_entry:
  assumes "reg s rs" "session rs a = None"
  shows "x \<in> set (connect_spec [] a d rs) \<Longrightarrow> length (id_of x) < MAXIMUM_CLIENT_ID_LENGTH"
    and "\<exists>e. session (connect_spec [] a d rs) a = Some e \<and> ec_client_status e = ACTIVE \<and> id_of e = []"
    and "\<not> registry_ok (connect_spec [] a d rs)"
proof -
  let ?ps = "connect_spec [] a d rs"
  have old: "length (id_of x) < MAXIMUM_CLIENT_ID_LENGTH" "ec_client_address x \<noteq> a" if "x \<in> set rs" for x
    using reg_file_of [OF assms(1)] assms(2) that by (auto simp: registry_file_def session_def find_None_iff)
  show "x \<in> set ?ps \<Longrightarrow> length (id_of x) < MAXIMUM_CLIENT_ID_LENGTH"
  proof -
    assume "x \<in> set ?ps"
    then have "x \<in> set rs \<or> id_of x = []"
      by (cases rule: anonymous_spec [of rs a d]) (auto dest: subsetD [OF set_update_subset_insert])
    then show ?thesis using old(1) by (auto simp: MAXIMUM_CLIENT_ID_LENGTH_def)
  qed
  obtain e where e: "e \<in> set ?ps" "id_of e = []" "ec_client_address e = a" "ec_client_status e = ACTIVE"
    by (cases rule: anonymous_spec [of rs a d]) (auto intro: set_update_memI)
  have only: "x = e \<or> ec_client_address x \<noteq> a" if "x \<in> set ?ps" for x
    using that old(2) e(1,3) by (cases rule: anonymous_spec [of rs a d])
      (auto dest!: subsetD [OF set_update_subset_insert])
  have "session ?ps a \<noteq> None" using e by (auto simp: session_def find_None_iff)
  then obtain x where x: "session ?ps a = Some x" by blast
  then have "x \<in> set ?ps" "ec_client_address x = a" by (auto simp: session_def find_Some_iff)
  then have "session ?ps a = Some e" using only x by blast
  then show "\<exists>e. session ?ps a = Some e \<and> ec_client_status e = ACTIVE \<and> id_of e = []" using e by blast
  show "\<not> registry_ok ?ps"
  proof
    assume ok: "registry_ok ?ps"
    obtain i where "i < length ?ps" "?ps ! i = e" using e(1) by (auto simp: in_set_conv_nth)
    then have "e = empty_client \<or> live i e" using registry_ok_slot [OF ok, of i] by simp
    then show False using e(2,4) by (auto simp: live_def enum_defs)
  qed
qed

lemma other_connect_no_session:
  assumes "session rs a = None" "a \<noteq> b" "client_of rs cid = None"
  shows "session (connect_spec cid b d rs) a = None"
proof -
  have "ec_client_address x \<noteq> a" if "x \<in> set (connect_spec cid b d rs)" for x
  proof -
    have "x \<in> set rs \<or> ec_client_address x = b"
      using that assms(2,3) by (auto simp: connect_spec_def store_at_def new_client_def
          split: if_splits dest!: subsetD [OF set_update_subset_insert])
    then show ?thesis using assms by (auto simp: session_def find_None_iff)
  qed
  then show ?thesis by (auto simp: session_def find_None_iff)
qed

text \<open>
  C5: A CONNECT with an empty client id, without will and clean session, is accepted: its sender has an
  active session in an entry without an id, which no consistent registry has.  But when another
  device connects next with a client id that is not known yet, it gets the slot of this entry: the
  registry is what it would be without the first CONNECT, and the first device, which is told
  nothing, has no session any more.
\<close>

theorem anonymous_client_replaced:
  fixes s :: gateway and a b :: device_address and cid :: bytes and dur dur' :: u16 and flags flags' :: byte
  assumes "reg s rs" "\<not> transaction_started s" "mqtt_online s" "0 \<le> socket_fd s" "length rs < 65535"
    and "length a = 6" "session rs a = None" "length b = 6" "b \<noteq> empty_address" "a \<noteq> b"
    and "no_nul cid" "length cid < 24" "cid \<noteq> []" "client_of rs cid = None"
    and "flags AND FLAG_WILL = 0" "flags AND FLAG_CLEAN = 0" "flags' AND FLAG_WILL = 0"
  defines "t \<equiv> snd (run_state (receive_datagram a (connect_datagram flags PROTOCOL_ID dur [])) s)"
  defines "u \<equiv> snd (run_state (receive_datagram b (connect_datagram flags' PROTOCOL_ID dur' cid)) t)"
    and "qs \<equiv> connect_spec cid b (ucast dur' * 1000) rs"
  shows "sent t = sent s @ [(a, written [3, MQTTSN_CONNACK, ACCEPTED])] \<and>
    (\<exists>ps e. registry_file t ps \<and> session ps a = Some e \<and> ec_client_status e = ACTIVE \<and>
      id_of e = [] \<and> \<not> registry_ok ps) \<and>
    sent u = sent t @ [(b, written [3, MQTTSN_CONNACK, ACCEPTED])] \<and> reg u qs \<and> session qs a = None"
proof -
  let ?ps = "connect_spec [] a (ucast dur * 1000) rs"
  have rec: "receive_datagram a (connect_datagram flags PROTOCOL_ID dur []) = handle_connect a [] dur False False"
    "receive_datagram b (connect_datagram flags' PROTOCOL_ID dur' cid) =
      handle_connect b cid dur' False (flags' AND FLAG_CLEAN \<noteq> 0)"
    using receive_connect [of "[]" a flags dur] receive_connect [OF assms(11), of b flags' dur'] assms(12,15-17)
    by (simp_all add: no_nul_def)
  obtain t' where t': "run_state (handle_connect a [] dur False False) s = ((), t')"
      "client.holds t' client_registry ?ps" "\<not> transaction_started t'" "mqtt_online t'" "0 \<le> socket_fd t'"
      "sent t' = sent s @ [(a, written [3, MQTTSN_CONNACK, ACCEPTED])]"
    by (rule run_connect_file [OF reg_file_of [OF assms(1)] assms(2,3) _ assms(4) _ _ assms(6),
          where cid = "[]" and clean = False and dur = dur])
      (use assms(5) in \<open>simp_all add: no_nul_def\<close>)
  have t: "t = t'" by (simp add: t_def rec(1) t'(1))
  note anon = store_anonymous [OF assms(13,14)]
  note left = anonymous_entry [OF assms(1,7), where d = "ucast dur * 1000"]
  have stored: "registry_file t ?ps"
    using t'(2) anon(2) [of a "ucast dur * 1000"] left(1) assms(5) by (auto simp: registry_file_def t)
  obtain u' where u': "run_state (handle_connect b cid dur' False (flags' AND FLAG_CLEAN \<noteq> 0)) t' = ((), u')"
      "client.holds u' client_registry (connect_spec cid b (ucast dur' * 1000) ?ps)"
      "sent u' = sent t' @ [(b, written [3, MQTTSN_CONNACK, ACCEPTED])]"
    by (rule run_connect_file [OF stored [unfolded t] t'(3,4) _ t'(5) assms(11,12,8),
          where clean = "flags' AND FLAG_CLEAN \<noteq> 0" and dur = dur'])
      (use anon(2) [of a "ucast dur * 1000"] anon(3) [of a "ucast dur * 1000"] assms(5) in \<open>simp_all add: le_less_trans\<close>)
  have u: "u = u'" by (simp add: u_def t rec(2) u'(1))
  have "registry_ok qs"
    unfolding qs_def
    by (rule registry_ok_connect [OF _ _ assms(11-13,9,8)]) (use assms(1,5) in \<open>simp_all add: reg_def\<close>)
  then have "reg u qs" using u'(2) anon(1) by (simp add: reg_def u qs_def)
  moreover have "session qs a = None" unfolding qs_def by (rule other_connect_no_session [OF assms(7,10,14)])
  ultimately show ?thesis using t'(6) u'(3) stored left(2,3) by (auto simp: t u)
qed

lemma anonymous_client_replaced_witness:
  "let t = snd (run_state (receive_datagram [10, 0, 0, 9, 34, 184] (connect_datagram 0 PROTOCOL_ID 60 [])) with_alice);
     u = snd (run_state (receive_datagram [10, 0, 0, 2, 34, 184] (connect_datagram 0 PROTOCOL_ID 30 [66])) t) in
   sent u = [([10, 0, 0, 9, 34, 184], written [3, MQTTSN_CONNACK, ACCEPTED]),
     ([10, 0, 0, 2, 34, 184], written [3, MQTTSN_CONNACK, ACCEPTED])] \<and>
   reg u [alice, new_client [66] [10, 0, 0, 2, 34, 184] 30000 1]"
proof -
  have n: "client_of [alice] [66] = None" "free_slot [alice] = 1" by (simp_all add: client_of_def)
  have a: "session [alice] [10, 0, 0, 9, 34, 184] = None" by (simp add: session_def alice_address_def)
  have e: "[10, 0, 0, 2, 34, 184] \<noteq> empty_address" by (simp add: empty_address_def eval_nat_numeral)
  have c: "connect_spec [66] [10, 0, 0, 2, 34, 184] (ucast (30::u16) * 1000) [alice] =
      [alice, new_client [66] [10, 0, 0, 2, 34, 184] 30000 1]"
    using n by (simp add: connect_spec_def store_at_def)
  show ?thesis
    using anonymous_client_replaced [of with_alice "[alice]" "[10, 0, 0, 9, 34, 184]" "[10, 0, 0, 2, 34, 184]" "[66]" 0 0 60 30,
        unfolded c] n(1) a e
    by (simp add: Let_def no_nul_def)
qed

end
