(* ===== verification/MqttClientC.thy ===== *)
theory MqttClientC
  imports MqttClient
begin

text \<open>
  The MQTT client library in C that the repository carries beside the one the gateway uses:
  \<open>Implementation/paho/pahomqttembeddedc/MQTTClient-C/src/MQTTClient.c\<close> with its Linux layer
  \<open>linux/MQTTLinux.c\<close>, compiled without \<open>MQTT_TASK\<close>.

  The operating system is the same \<open>stack\<close> as in \<open>ClientStack\<close>, and the conventions are those of
  \<open>MqttClient\<close>: \<open>None\<close> is a call that does not come back; a topic filter is kept by its address, and
  \<open>c_text_at\<close> are the characters found there now; \<open>c_behind\<close> are the bytes that follow the read buffer;
  \<open>c_faulted\<close> says that an object has been read or written outside its bounds, or a null pointer
  followed, after which nothing is known any more.  The two buffers are arrays of the caller, with the
  sizes the caller has passed.  \<open>c_indet_topic\<close> and \<open>c_indet_msgid\<close> are what local variables hold that
  have not been assigned.
\<close>

unbundle bit_operations_syntax

record c_handler =
  c_topicFilter :: "nat option"
  c_fp :: "nat option"

record c_client = stack +
  c_next_packetid :: int
  c_command_timeout_ms :: int
  c_buf_size :: int
  c_readbuf_size :: int
  c_buf :: bytes
  c_readbuf :: bytes
  c_behind :: bytes
  c_keepAliveInterval :: int
  c_ping_outstanding :: bool
  c_isconnected :: bool
  c_messageHandlers :: "c_handler list"
  c_defaultMessageHandler :: "nat option"
  c_ping_timer :: countdown
  c_text_at :: "nat \<Rightarrow> bytes"
  c_indet_topic :: mqtt_string
  c_indet_msgid :: u16
  c_faulted :: bool
  c_delivered :: "(nat \<times> publish_out) list"

definition c_access :: "'a option \<Rightarrow> 'a \<Rightarrow> c_client \<Rightarrow> 'a \<times> c_client" where
  "c_access r v c = (case r of Some x \<Rightarrow> (x, c) | None \<Rightarrow> (v, c\<lparr>c_faulted := True\<rparr>))"

section \<open>The Linux layer\<close>

text \<open>Timers are those of \<open>Countdown\<close>, with an unsigned timeout.\<close>

definition TimerInit :: countdown where "TimerInit = 0"

definition TimerIsExpired :: "countdown \<Rightarrow> 'z stack_scheme \<Rightarrow> bool \<times> 'z stack_scheme" where
  "TimerIsExpired timer c = (case gettimeofday c of (now, c) \<Rightarrow>
     let res = timer - now; tv_sec = res div 1000000; tv_usec = res mod 1000000
     in (tv_sec < 0 \<or> (tv_sec = 0 \<and> tv_usec \<le> 0), c))"

definition TimerCountdownMS :: "int \<Rightarrow> 'z stack_scheme \<Rightarrow> countdown \<times> 'z stack_scheme" where
  "TimerCountdownMS ms c = (case gettimeofday c of (now, c) \<Rightarrow>
     let timeout = ms mod 2 ^ 32
     in (now + (timeout div 1000) * 1000000 + (timeout mod 1000) * 1000, c))"

definition TimerCountdown :: "int \<Rightarrow> 'z stack_scheme \<Rightarrow> countdown \<times> 'z stack_scheme" where
  "TimerCountdown seconds c = (case gettimeofday c of (now, c) \<Rightarrow>
     (now + (seconds mod 2 ^ 32) * 1000000, c))"

definition TimerLeftMS :: "countdown \<Rightarrow> 'z stack_scheme \<Rightarrow> int \<times> 'z stack_scheme" where
  "TimerLeftMS timer c = (case gettimeofday c of (now, c) \<Rightarrow>
     let res = timer - now; tv_sec = res div 1000000; tv_usec = res mod 1000000
     in (if tv_sec < 0 then 0 else tv_sec * 1000 + tv_usec div 1000, c))"

definition ENOTCONN :: int where "ENOTCONN = 107"
definition ECONNRESET :: int where "ECONNRESET = 104"

text \<open>A connection that was reset is read again.\<close>

partial_function (option) linux_read_loop ::
    "nat \<Rightarrow> bytes \<Rightarrow> 'z stack_scheme \<Rightarrow> (int \<times> bytes \<times> 'z stack_scheme) option" where
  "linux_read_loop len got c =
     (if length got < len then
        (case sys_recv (len - length got) c of (r, c) \<Rightarrow>
           (case r of
              RecvError errno \<Rightarrow>
                if errno \<noteq> ENOTCONN \<and> errno \<noteq> ECONNRESET then Some (-1, got, c)
                else linux_read_loop len got c
            | Received d \<Rightarrow> linux_read_loop len (got @ d) c))
      else Some (int (length got), got, c))"

definition linux_read :: "int \<Rightarrow> 'z stack_scheme \<Rightarrow> (int \<times> bytes \<times> 'z stack_scheme) option" where
  "linux_read len c = linux_read_loop (nat len) [] c"

definition linux_write :: "bytes \<Rightarrow> 'z stack_scheme \<Rightarrow> int \<times> 'z stack_scheme" where
  "linux_write d c =
     (let rc = write_result c (writes c) (length d) in
      (rc, c\<lparr>writes := writes c + 1, wire := wire c @ take (nat rc) d\<rparr>))"

section \<open>The object\<close>

definition getNextPacketId :: "c_client \<Rightarrow> u16 \<times> c_client" where
  "getNextPacketId c =
     (let n = (if c_next_packetid c = MAX_PACKET_ID then 1 else c_next_packetid c + 1)
      in (of_int n, c\<lparr>c_next_packetid := n\<rparr>))"

text \<open>On an object whose other members hold whatever was in its memory.\<close>

definition MQTTClientInit :: "int \<Rightarrow> bytes \<Rightarrow> int \<Rightarrow> bytes \<Rightarrow> int \<Rightarrow> c_client \<Rightarrow> c_client" where
  "MQTTClientInit timeout_ms send_array sendbuf_size read_array readbuf_size c =
     c\<lparr>c_messageHandlers := map (\<lambda>h. h\<lparr>c_topicFilter := None\<rparr>) (c_messageHandlers c),
       c_command_timeout_ms := timeout_ms, c_buf := send_array, c_buf_size := sendbuf_size,
       c_readbuf := read_array, c_readbuf_size := readbuf_size, c_isconnected := False,
       c_ping_outstanding := False, c_defaultMessageHandler := None, c_next_packetid := 1,
       c_ping_timer := TimerInit\<rparr>"

section \<open>Sending\<close>

text \<open>A serializer overwrites the front of the send buffer, which may be shorter than it was told.\<close>

definition c_fill :: "int \<times> bytes \<Rightarrow> c_client \<Rightarrow> int \<times> c_client" where
  "c_fill r c = (fst r,
     if length (snd r) \<le> length (c_buf c) then c\<lparr>c_buf := snd r @ drop (length (snd r)) (c_buf c)\<rparr>
     else c\<lparr>c_faulted := True\<rparr>)"

text \<open>Every \<open>mqttwrite\<close> is asked for the length of the whole packet, wherever it begins.\<close>

partial_function (option) sendPacket_C_loop ::
    "int \<Rightarrow> countdown \<Rightarrow> int \<Rightarrow> c_client \<Rightarrow> (int \<times> c_client) option" where
  "sendPacket_C_loop len timer sent c =
     (if sent < len then
        (case TimerIsExpired timer c of (expired, c) \<Rightarrow>
           if expired then Some (sent, c)
           else
             (case c_access (copy_from (drop (nat sent) (c_buf c)) len) [] c of (d, c) \<Rightarrow>
              case TimerLeftMS timer c of (_, c) \<Rightarrow>
              case linux_write d c of (rc, c) \<Rightarrow>
                if rc < 0 then Some (sent, c) else sendPacket_C_loop len timer (sent + rc) c))
      else Some (sent, c))"

definition sendPacket_C :: "int \<Rightarrow> countdown \<Rightarrow> c_client \<Rightarrow> (int \<times> c_client) option" where
  "sendPacket_C len timer c = do {
     (sent, c) \<leftarrow> sendPacket_C_loop len timer 0 c;
     Some (if sent = len
       then (MQTT_SUCCESS,
         case TimerCountdown (c_keepAliveInterval c) c of (e, c) \<Rightarrow> c\<lparr>c_ping_timer := e\<rparr>)
       else (MQTT_FAILURE, c))
   }"

section \<open>Receiving\<close>

function decodePacket_C_loop :: "nat \<Rightarrow> int \<Rightarrow> int \<Rightarrow> c_client \<Rightarrow> (int \<times> c_client) option" where
  "decodePacket_C_loop len multiplier value c =
     (if len + 1 > MAX_NO_OF_REMAINING_LENGTH_BYTES then Some (value, c)
      else case linux_read 1 c of
        None \<Rightarrow> None
      | Some (rc, d, c) \<Rightarrow>
          if rc \<noteq> 1 then Some (value, c)
          else
            let value = value + uint (hd d AND 127) * multiplier in
            if hd d AND 128 \<noteq> 0 then decodePacket_C_loop (len + 1) (multiplier * 128) value c
            else Some (value, c))"
  by pat_completeness auto
termination
  by (relation "measure (\<lambda>(len, m, v, c). 5 - len)") (auto simp: MAX_NO_OF_REMAINING_LENGTH_BYTES_def)

declare decodePacket_C_loop.simps [simp del]

definition decodePacket_C :: "c_client \<Rightarrow> (int \<times> c_client) option" where
  "decodePacket_C c = decodePacket_C_loop 0 1 0 c"

text \<open>Bytes written from an offset of the read buffer on; nothing checks that they fit.\<close>

definition c_store :: "nat \<Rightarrow> bytes \<Rightarrow> c_client \<Rightarrow> c_client" where
  "c_store off d c =
     (if d = [] \<or> off + length d \<le> length (c_readbuf c)
      then c\<lparr>c_readbuf := overwrite off d (c_readbuf c)\<rparr>
      else c\<lparr>c_readbuf := take (length (c_readbuf c)) (overwrite off d (c_readbuf c)), c_faulted := True\<rparr>)"

definition c_read_into :: "nat \<Rightarrow> int \<Rightarrow> c_client \<Rightarrow> (int \<times> c_client) option" where
  "c_read_into off len c = do {
     (rc, d, c) \<leftarrow> linux_read len c;
     Some (rc, c_store off d c)
   }"

definition readPacket_C :: "countdown \<Rightarrow> c_client \<Rightarrow> (int \<times> c_client) option" where
  "readPacket_C timer c = do {
     (rc, c) \<leftarrow> c_read_into 0 1 (snd (TimerLeftMS timer c));
     if rc \<noteq> 1 then Some (MQTT_FAILURE, c)
     else do {
       (rem_len, c) \<leftarrow> decodePacket_C (snd (TimerLeftMS timer c));
       let len = 1 + length (MQTTPacket_encode rem_len);
       let c = c_store 1 (MQTTPacket_encode rem_len) c;
       (rc, c) \<leftarrow> (if rem_len > 0 then c_read_into len rem_len (snd (TimerLeftMS timer c))
                 else Some (rem_len, c));
       Some (if rc \<noteq> rem_len then MQTT_FAILURE else uint (header_type (hd (c_readbuf c))), c)
     }
   }"

section \<open>Delivering a message\<close>

text \<open>\<open>isTopicMatched\<close> has the same text in both libraries.\<close>

definition isTopicMatched_C :: "bytes \<Rightarrow> mqtt_string \<Rightarrow> bool option" where
  "isTopicMatched_C topic_filter topicName =
     (if cstr topic_filter = [] then Some (lenstring_len topicName = 0)
      else map_option (match_loop (cstr topic_filter)) (topic_bytes topicName))"

definition handler_matches_C :: "c_client \<Rightarrow> mqtt_string \<Rightarrow> c_handler \<Rightarrow> bool option" where
  "handler_matches_C c topicName h = (case c_topicFilter h of
     None \<Rightarrow> Some False
   | Some a \<Rightarrow> if MQTTPacket_equals topicName (c_text_at c a) then Some True
              else isTopicMatched_C (c_text_at c a) topicName)"

fun deliver_loop_C :: "publish_out \<Rightarrow> c_handler list \<Rightarrow> int \<Rightarrow> c_client \<Rightarrow> int \<times> c_client" where
  "deliver_loop_C message [] rc c = (rc, c)"
| "deliver_loop_C message (h # hs) rc c =
     (case c_access (handler_matches_C c (po_topicName message) h) False c of (matches, c) \<Rightarrow>
        (case c_fp h of
           Some function \<Rightarrow>
             if matches
             then deliver_loop_C message hs MQTT_SUCCESS (c\<lparr>c_delivered := c_delivered c @ [(function, message)]\<rparr>)
             else deliver_loop_C message hs rc c
         | None \<Rightarrow> deliver_loop_C message hs rc c))"

definition deliverMessage_C :: "publish_out \<Rightarrow> c_client \<Rightarrow> int \<times> c_client" where
  "deliverMessage_C message c =
     (case deliver_loop_C message (c_messageHandlers c) MQTT_FAILURE c of (rc, c) \<Rightarrow>
        (case c_defaultMessageHandler c of
           Some function \<Rightarrow>
             if rc = MQTT_FAILURE
             then (MQTT_SUCCESS, c\<lparr>c_delivered := c_delivered c @ [(function, message)]\<rparr>)
             else (rc, c)
         | None \<Rightarrow> (rc, c)))"

section \<open>One round\<close>

definition keepalive_C :: "c_client \<Rightarrow> (int \<times> c_client) option" where
  "keepalive_C c =
     (if c_keepAliveInterval c = 0 then Some (MQTT_SUCCESS, c)
      else
        (case TimerIsExpired (c_ping_timer c) c of (expired, c) \<Rightarrow>
           if expired \<and> \<not> c_ping_outstanding c
           then
             (case TimerCountdownMS 1000 c of (timer, c) \<Rightarrow>
              case c_fill (MQTTSerialize_pingreq (c_buf_size c)) c of (len, c) \<Rightarrow>
                if len > 0
                then do {
                  (rc, c) \<leftarrow> sendPacket_C len timer c;
                  Some (rc, if rc = MQTT_SUCCESS then c\<lparr>c_ping_outstanding := True\<rparr> else c)
                }
                else Some (MQTT_FAILURE, c))
           else Some (MQTT_FAILURE, c)))"

text \<open>The packet that answers a PUBLISH or a PUBREC, and what sending it comes to.\<close>

definition send_ack_C :: "byte \<Rightarrow> u16 \<Rightarrow> countdown \<Rightarrow> c_client \<Rightarrow> (int \<times> c_client) option" where
  "send_ack_C type packetid timer c =
     (case c_fill (MQTTSerialize_ack (c_buf_size c) type 0 packetid) c of (len, c) \<Rightarrow>
        if len \<le> 0 then Some (MQTT_FAILURE, c) else sendPacket_C len timer c)"

definition acknowledge_C :: "publish_out \<Rightarrow> countdown \<Rightarrow> c_client \<Rightarrow> (int \<times> c_client) option" where
  "acknowledge_C message timer c =
     (let packetid = (case po_packetid message of Some p \<Rightarrow> p | None \<Rightarrow> c_indet_msgid c);
          qos = the (po_qos message) in
      if qos = 0 then Some (MQTT_SUCCESS, c)
      else if qos = 1 then send_ack_C PUBACK packetid timer c
      else if qos = 2 then send_ack_C PUBREC packetid timer c
      else Some (MQTT_FAILURE, c))"

definition release_C :: "countdown \<Rightarrow> c_client \<Rightarrow> (int \<times> c_client) option" where
  "release_C timer c =
     (case c_access (MQTTDeserialize_ack (c_readbuf c @ c_behind c))
         (0, \<lparr>ao_packettype = 0, ao_dup = 0, ao_packetid = None\<rparr>) c of ((ok, ack), c) \<Rightarrow>
        if ok \<noteq> 1 then Some (MQTT_FAILURE, c)
        else send_ack_C PUBREL (case ao_packetid ack of Some p \<Rightarrow> p | None \<Rightarrow> c_indet_msgid c) timer c)"

text \<open>
  \<open>packet_type\<close> is an \<open>unsigned short\<close>, so the \<open>FAILURE\<close> of \<open>readPacket\<close> becomes 65535.  The return code of
  \<open>keepalive\<close> is not used.
\<close>

definition cycle_C :: "countdown \<Rightarrow> c_client \<Rightarrow> (int \<times> c_client) option" where
  "cycle_C timer c = do {
     (r, c) \<leftarrow> readPacket_C timer c;
     let packet_type = r mod 65536;
     if packet_type = uint PUBLISH then
       (case c_access (MQTTDeserialize_publish (c_indet_topic c) (c_readbuf c @ c_behind c))
           (0, no_publish (c_indet_topic c)) c of ((ok, message), c) \<Rightarrow>
          if ok \<noteq> 1 then Some (packet_type, c)
          else do {
            (rc, c) \<leftarrow> acknowledge_C message timer (snd (deliverMessage_C message c));
            if rc = MQTT_FAILURE then Some (rc, c)
            else do { (_, c) \<leftarrow> keepalive_C c; Some (packet_type, c) }
          })
     else if packet_type = uint PUBREC then do {
       (rc, c) \<leftarrow> release_C timer c;
       if rc \<noteq> MQTT_SUCCESS then Some (MQTT_FAILURE, c)
       else do { (_, c) \<leftarrow> keepalive_C c; Some (packet_type, c) }
     }
     else do {
       (_, c) \<leftarrow> keepalive_C (if packet_type = uint PINGRESP then c\<lparr>c_ping_outstanding := False\<rparr> else c);
       Some (packet_type, c)
     }
   }"

partial_function (option) yield_loop_C :: "countdown \<Rightarrow> c_client \<Rightarrow> (int \<times> c_client) option" where
  "yield_loop_C timer c = do {
     (rc, c) \<leftarrow> cycle_C timer c;
     if rc = MQTT_FAILURE then Some (MQTT_FAILURE, c)
     else (case TimerIsExpired timer c of (expired, c) \<Rightarrow>
       if expired then Some (MQTT_SUCCESS, c) else yield_loop_C timer c)
   }"

definition MQTTYield :: "int \<Rightarrow> c_client \<Rightarrow> (int \<times> c_client) option" where
  "MQTTYield timeout_ms c = (case TimerCountdownMS timeout_ms c of (timer, c) \<Rightarrow> yield_loop_C timer c)"

partial_function (option) MQTTRun :: "c_client \<Rightarrow> c_client option" where
  "MQTTRun c = (case TimerCountdownMS 500 c of (timer, c) \<Rightarrow> do {
     (_, c) \<leftarrow> cycle_C timer c;
     MQTTRun c
   })"

partial_function (option) waitfor_C_loop ::
    "int \<Rightarrow> int \<Rightarrow> countdown \<Rightarrow> c_client \<Rightarrow> (int \<times> c_client) option" where
  "waitfor_C_loop rc packet_type timer c = (case TimerIsExpired timer c of (expired, c) \<Rightarrow>
     if expired then Some (rc, c)
     else do {
       (rc, c) \<leftarrow> cycle_C timer c;
       if rc = packet_type then Some (rc, c) else waitfor_C_loop rc packet_type timer c
     })"

definition waitfor_C :: "byte \<Rightarrow> countdown \<Rightarrow> c_client \<Rightarrow> (int \<times> c_client) option" where
  "waitfor_C packet_type timer c = waitfor_C_loop MQTT_FAILURE (uint packet_type) timer c"

section \<open>The calls\<close>

text \<open>A packet that has been built is sent, and the answer of one type is awaited.\<close>

definition request_C :: "int \<times> bytes \<Rightarrow> countdown \<Rightarrow> byte \<Rightarrow>
    (int \<Rightarrow> bool \<Rightarrow> c_client \<Rightarrow> int \<times> c_client) \<Rightarrow> c_client \<Rightarrow> (int \<times> c_client) option" where
  "request_C packet timer answer f c =
     (case c_fill packet c of (len, c) \<Rightarrow>
        if len \<le> 0 then Some (MQTT_FAILURE, c)
        else do {
          (rc, c) \<leftarrow> sendPacket_C len timer c;
          if rc \<noteq> MQTT_SUCCESS then Some (rc, c)
          else do {
            (w, c) \<leftarrow> waitfor_C answer timer c;
            Some (f rc (w = uint answer) c)
          }
        })"

definition accept_connack_C :: "int \<Rightarrow> bool \<Rightarrow> c_client \<Rightarrow> int \<times> c_client" where
  "accept_connack_C rc answered c =
     (if \<not> answered then (MQTT_FAILURE, c)
      else
        (case c_access (MQTTDeserialize_connack (c_readbuf c @ c_behind c)) (0, None) c of ((ok, connack), c) \<Rightarrow>
           (if ok = 1 then (case connack of Some (_, r) \<Rightarrow> uint r | None \<Rightarrow> 255) else MQTT_FAILURE, c)))"

definition MQTTConnect :: "connect_data option \<Rightarrow> c_client \<Rightarrow> (int \<times> c_client) option" where
  "MQTTConnect options c =
     (if c_isconnected c then Some (MQTT_FAILURE, c)
      else
        (case TimerCountdownMS (c_command_timeout_ms c) c of (connect_timer, c) \<Rightarrow>
         let options = (case options of None \<Rightarrow> MQTTPacket_connectData_initializer | Some options \<Rightarrow> options);
             c = c\<lparr>c_keepAliveInterval := uint (cd_keepAliveInterval options)\<rparr>
         in case TimerCountdown (c_keepAliveInterval c) c of (e, c) \<Rightarrow>
            case c_access (MQTTSerialize_connect (c_buf_size c) options) (0, []) (c\<lparr>c_ping_timer := e\<rparr>) of
              (packet, c) \<Rightarrow> do {
                (rc, c) \<leftarrow> request_C packet connect_timer CONNACK accept_connack_C c;
                Some (rc, if rc = MQTT_SUCCESS then c\<lparr>c_isconnected := True\<rparr> else c)
              }))"

text \<open>The first free slot takes the filter and its callback.\<close>

fun add_handler_C :: "nat \<Rightarrow> nat option \<Rightarrow> c_handler list \<Rightarrow> c_handler list option" where
  "add_handler_C a function [] = None"
| "add_handler_C a function (h # hs) =
     (if c_topicFilter h = None then Some (h\<lparr>c_topicFilter := Some a, c_fp := function\<rparr> # hs)
      else map_option ((#) h) (add_handler_C a function hs))"

text \<open>\<open>grantedQoS\<close> is a single \<open>int\<close>: more return codes are written behind it.\<close>

definition accept_suback_C :: "nat \<Rightarrow> nat option \<Rightarrow> int \<Rightarrow> bool \<Rightarrow> c_client \<Rightarrow> int \<times> c_client" where
  "accept_suback_C a function rc answered c =
     (if \<not> answered then (MQTT_FAILURE, c)
      else
        (case c_access (MQTTDeserialize_suback 1 (c_readbuf c @ c_behind c)) (0, None) c of ((ok, suback), c) \<Rightarrow>
           let granted = (case suback of None \<Rightarrow> [] | Some (_, granted) \<Rightarrow> granted);
               c = (if length granted > 1 then c\<lparr>c_faulted := True\<rparr> else c);
               grantedQoS = (if granted = [] then -1 else hd granted);
               rc = (if ok = 1 then grantedQoS else rc)
           in if rc \<noteq> 128
             then (case add_handler_C a function (c_messageHandlers c) of
                 Some hs \<Rightarrow> (0, c\<lparr>c_messageHandlers := hs\<rparr>)
               | None \<Rightarrow> (rc, c))
             else (rc, c)))"

definition MQTTSubscribe :: "nat \<Rightarrow> int \<Rightarrow> nat option \<Rightarrow> c_client \<Rightarrow> (int \<times> c_client) option" where
  "MQTTSubscribe a qos messageHandler c =
     (if \<not> c_isconnected c then Some (MQTT_FAILURE, c)
      else
        (case TimerCountdownMS (c_command_timeout_ms c) c of (timer, c) \<Rightarrow>
         case getNextPacketId c of (packetid, c) \<Rightarrow>
         case c_access (MQTTSerialize_subscribe (c_buf_size c) 0 packetid
           [(cstring_of (c_text_at c a), qos)]) (0, []) c of (packet, c) \<Rightarrow>
           request_C packet timer SUBACK (accept_suback_C a messageHandler) c))"

definition accept_unsuback_C :: "int \<Rightarrow> bool \<Rightarrow> c_client \<Rightarrow> int \<times> c_client" where
  "accept_unsuback_C rc answered c =
     (if \<not> answered then (MQTT_FAILURE, c)
      else
        (case c_access (MQTTDeserialize_unsuback (c_readbuf c @ c_behind c)) (0, None) c of ((ok, _), c) \<Rightarrow>
           (if ok = 1 then 0 else rc, c)))"

definition MQTTUnsubscribe :: "nat \<Rightarrow> c_client \<Rightarrow> (int \<times> c_client) option" where
  "MQTTUnsubscribe a c =
     (if \<not> c_isconnected c then Some (MQTT_FAILURE, c)
      else
        (case TimerCountdownMS (c_command_timeout_ms c) c of (timer, c) \<Rightarrow>
         case getNextPacketId c of (packetid, c) \<Rightarrow>
         case c_access (MQTTSerialize_unsubscribe (c_buf_size c) 0 packetid
           [cstring_of (c_text_at c a)]) (0, []) c of (packet, c) \<Rightarrow>
           request_C packet timer UNSUBACK accept_unsuback_C c))"

definition accept_ack_C :: "int \<Rightarrow> bool \<Rightarrow> c_client \<Rightarrow> int \<times> c_client" where
  "accept_ack_C rc answered c =
     (if \<not> answered then (MQTT_FAILURE, c)
      else
        (case c_access (MQTTDeserialize_ack (c_readbuf c @ c_behind c))
            (0, \<lparr>ao_packettype = 0, ao_dup = 0, ao_packetid = None\<rparr>) c of ((ok, _), c) \<Rightarrow>
           (if ok \<noteq> 1 then MQTT_FAILURE else rc, c)))"

text \<open>\<open>packetid\<close> is the field \<open>id\<close> of the message, which the call may change.\<close>

definition MQTTPublish :: "bytes \<Rightarrow> outgoing \<Rightarrow> u16 \<Rightarrow> c_client \<Rightarrow> (int \<times> u16 \<times> c_client) option" where
  "MQTTPublish topicName m packetid c =
     (if \<not> c_isconnected c then Some (MQTT_FAILURE, packetid, c)
      else
        (case TimerCountdownMS (c_command_timeout_ms c) c of (timer, c) \<Rightarrow>
         case (if msg_qos m = 1 \<or> msg_qos m = 2 then getNextPacketId c else (packetid, c)) of (packetid, c) \<Rightarrow>
         case c_access (MQTTSerialize_publish (c_buf_size c) 0 (msg_qos m) (of_bool (msg_retained m)) packetid
           (cstring_of topicName) (msg_payload m) (int (msg_payloadlen m))) (0, []) c of (packet, c) \<Rightarrow> do {
           (rc, c) \<leftarrow> (if msg_qos m = 1 then request_C packet timer PUBACK accept_ack_C c
             else if msg_qos m = 2 then request_C packet timer PUBCOMP accept_ack_C c
             else (case c_fill packet c of (len, c) \<Rightarrow>
               if len \<le> 0 then Some (MQTT_FAILURE, c) else sendPacket_C len timer c));
           Some (rc, packetid, c)
         }))"

definition MQTTDisconnect :: "c_client \<Rightarrow> (int \<times> c_client) option" where
  "MQTTDisconnect c =
     (case TimerCountdownMS (c_command_timeout_ms c) c of (timer, c) \<Rightarrow>
      case c_fill (MQTTSerialize_disconnect (c_buf_size c)) c of (len, c) \<Rightarrow> do {
        (rc, c) \<leftarrow> (if len > 0 then sendPacket_C len timer c else Some (MQTT_FAILURE, c));
        Some (rc, c\<lparr>c_isconnected := False\<rparr>)
      })"

end
