(* ===== verification/ClientCLimits.thy ===== *)
theory ClientCLimits
  imports MqttClientC ClientReceiving
begin

text \<open>
  What the client library in C promises and does not: its slots are never freed, a lost connection is
  not reported, and a packet longer than the read buffer is written behind it.
\<close>

unbundle bit_operations_syntax

section \<open>The slots of the subscriptions\<close>

text \<open>What one change of the object leaves alone.\<close>

definition keeps :: "c_client \<Rightarrow> c_client \<Rightarrow> bool" where
  "keeps c d \<longleftrightarrow> c_messageHandlers d = c_messageHandlers c \<and> c_isconnected d = c_isconnected c \<and>
     recv_result d = recv_result c \<and> length (c_readbuf d) = length (c_readbuf c) \<and> (c_faulted c \<longrightarrow> c_faulted d)"

definition kept :: "c_client \<Rightarrow> ('a \<times> c_client) option \<Rightarrow> bool" where
  "kept c r \<longleftrightarrow> (\<forall>x d. r = Some (x, d) \<longrightarrow> keeps c d)"

lemma keeps_refl [simp]: "keeps c c" by (simp add: keeps_def)

lemma keeps_trans: "keeps c d \<Longrightarrow> keeps d e \<Longrightarrow> keeps c e" by (simp add: keeps_def)

lemma kept_return: "keeps c d \<Longrightarrow> kept c (Some (x, d))" by (simp add: kept_def)

lemma kept_after: "keeps c d \<Longrightarrow> kept d r \<Longrightarrow> kept c r"
  by (auto simp: kept_def intro: keeps_trans)

lemma kept_bind: "kept c r \<Longrightarrow> (\<And>x d. r = Some (x, d) \<Longrightarrow> kept d (f x d)) \<Longrightarrow> kept c (r \<bind> (\<lambda>(x, d). f x d))"
  by (fastforce simp: kept_def bind_eq_Some_conv intro: keeps_trans)

lemma kept_if: "(b \<Longrightarrow> kept c r) \<Longrightarrow> (\<not> b \<Longrightarrow> kept c q) \<Longrightarrow> kept c (if b then r else q)"
  by simp

lemma kept_split: "keeps c (snd p) \<Longrightarrow> (\<And>x d. kept d (f x d)) \<Longrightarrow> kept c (case p of (x, d) \<Rightarrow> f x d)"
  by (cases p) (auto intro: kept_after)

lemma keeps_timers:
  "keeps c (snd (TimerIsExpired t c))" "keeps c (snd (TimerLeftMS t c))" "keeps c (snd (TimerCountdownMS m c))"
  "keeps c (snd (TimerCountdown m c))"
  by (simp_all add: keeps_def TimerIsExpired_def TimerLeftMS_def TimerCountdownMS_def TimerCountdown_def
      gettimeofday_def Let_def)

lemma keeps_changes:
  "keeps c (snd (c_access r v c))" "keeps c (snd (c_fill p c))" "keeps c (snd (linux_write w c))"
  by (auto simp: keeps_def c_access_def c_fill_def linux_write_def Let_def split: option.split)

subsection \<open>A round keeps them\<close>

lemma linux_read_loop_changes:
  assumes "linux_read_loop len got c = Some (rc, d, c')"
  shows "\<exists>n. c' = c\<lparr>recvs := n\<rparr>"
proof (rule linux_read_loop.raw_induct
    [where P = "\<lambda>len got c (rc, d, c'). \<exists>n. c' = c\<lparr>recvs := n\<rparr>", OF _ assms, simplified prod.case])
  fix f len got and c :: "'z stack_scheme" and r
  assume IH: "\<And>len got c r. f len got c = Some r \<Longrightarrow> (case r of (rc, d, c') \<Rightarrow> \<exists>n. c' = c\<lparr>recvs := n\<rparr>)"
    and eq: "(if length got < len then
        (case sys_recv (len - length got) c of (r, c) \<Rightarrow>
           (case r of
              RecvError errno \<Rightarrow>
                if errno \<noteq> ENOTCONN \<and> errno \<noteq> ECONNRESET then Some (-1, got, c) else f len got c
            | Received d \<Rightarrow> f len (got @ d) c))
      else Some (int (length got), got, c)) = Some r"
  let ?c = "c\<lparr>recvs := recvs c + 1\<rparr>"
  have "(\<exists>x y. r = (x, y, c)) \<or> (\<exists>x y. r = (x, y, ?c)) \<or> (\<exists>g. f len g ?c = Some r)"
    using eq by (auto simp: sys_recv_def split: if_splits received.splits)
  then consider x y where "r = (x, y, c)" | x y where "r = (x, y, ?c)" | g where "f len g ?c = Some r" by blast
  then show "case r of (rc, d, c') \<Rightarrow> \<exists>n. c' = c\<lparr>recvs := n\<rparr>"
  proof cases
    case 1
    then show ?thesis by (auto intro!: exI [of _ "recvs c"])
  next
    case 3
    then show ?thesis using IH [of len g ?c r] by auto
  qed auto
qed

lemma linux_read_changes: "linux_read n c = Some (rc, d, c') \<Longrightarrow> \<exists>k. c' = c\<lparr>recvs := k\<rparr>"
  unfolding linux_read_def by (rule linux_read_loop_changes)

lemma keeps_recvs [simp]: "keeps c (c\<lparr>recvs := k\<rparr>)" by (simp add: keeps_def)

lemma keeps_store: "keeps c (c_store off d c)"
  by (auto simp: keeps_def c_store_def overwrite_def)

lemma kept_read_into: "kept c (c_read_into off n c)"
  unfolding kept_def c_read_into_def
  by (auto simp: bind_eq_Some_conv dest!: linux_read_changes intro: keeps_trans [OF keeps_recvs keeps_store])

lemma kept_decode_loop: "kept c (decodePacket_C_loop len m v c)"
proof (induction len m v c rule: decodePacket_C_loop.induct)
  case (1 len m v c)
  show ?case
  proof (cases "len + 1 > MAX_NO_OF_REMAINING_LENGTH_BYTES \<or> linux_read 1 c = None")
    case True
    then show ?thesis by (subst decodePacket_C_loop.simps) (auto simp: kept_def)
  next
    case False
    then obtain rc d k where r: "linux_read 1 c = Some (rc, d, c\<lparr>recvs := k\<rparr>)"
      using linux_read_changes [of 1 c] by fastforce
    have "kept (c\<lparr>recvs := k\<rparr>) (decodePacket_C_loop (len + 1) (m * 128) (v + uint (hd d AND 127) * m) (c\<lparr>recvs := k\<rparr>))"
      if "rc = 1" "hd d AND 128 \<noteq> 0" using "1.IH" [OF _ r refl refl] False that by simp
    then show ?thesis
      using False r kept_after [of c "c\<lparr>recvs := k\<rparr>"]
      by (subst decodePacket_C_loop.simps) (auto simp: Let_def intro: kept_return)
  qed
qed

lemma kept_readPacket: "kept c (readPacket_C timer c)"
proof -
  have r1: "kept c (c_read_into off n (snd (TimerLeftMS timer c)))" for off n c
    by (rule kept_after [OF keeps_timers(2) kept_read_into])
  have r2: "kept c (decodePacket_C_loop 0 1 0 (snd (TimerLeftMS timer c)))" for c
    by (rule kept_after [OF keeps_timers(2) kept_decode_loop])
  have r3: "kept c (c_read_into off n (snd (TimerLeftMS timer (c_store 1 e c))))" for off n e c
    by (rule kept_after [OF keeps_store r1])
  show ?thesis
    unfolding readPacket_C_def decodePacket_C_def Let_def
    by (rule kept_bind r1 r2 r3 kept_if kept_return keeps_refl keeps_store)+
qed

lemma sendPacket_loop_keeps:
  assumes "sendPacket_C_loop len timer sent c = Some (x, c')"
  shows "keeps c c'"
proof (rule sendPacket_C_loop.raw_induct [where P = "\<lambda>len timer sent c (x, c'). keeps c c'",
      OF _ assms, simplified prod.case])
  fix f len timer sent c r
  assume IH: "\<And>len timer sent c r. f len timer sent c = Some r \<Longrightarrow> (case r of (x, c') \<Rightarrow> keeps c c')"
    and eq: "(if sent < len then
        (case TimerIsExpired timer c of (expired, c) \<Rightarrow>
           if expired then Some (sent, c)
           else
             (case c_access (copy_from (drop (nat sent) (c_buf c)) len) [] c of (d, c) \<Rightarrow>
              case TimerLeftMS timer c of (_, c) \<Rightarrow>
              case linux_write d c of (rc, c) \<Rightarrow>
                if rc < 0 then Some (sent, c) else f len timer (sent + rc) c))
      else Some (sent, c)) = Some r"
  let ?c1 = "snd (TimerIsExpired timer c)"
  let ?a = "c_access (copy_from (drop (nat sent) (c_buf ?c1)) len) [] ?c1"
  let ?w = "linux_write (fst ?a) (snd (TimerLeftMS timer (snd ?a)))"
  have k1: "keeps c ?c1" by (rule keeps_timers)
  have k: "keeps c (snd ?w)"
    by (rule keeps_trans [OF k1], rule keeps_trans [OF keeps_changes(1)],
        rule keeps_trans [OF keeps_timers(2) keeps_changes(3)])
  have "(if sent < len then if fst (TimerIsExpired timer c) then Some (sent, ?c1)
      else if fst ?w < 0 then Some (sent, snd ?w) else f len timer (sent + fst ?w) (snd ?w)
    else Some (sent, c)) = Some r"
    using eq by (simp only: split_beta)
  then consider "r = (sent, c)" | "r = (sent, ?c1)" | "r = (sent, snd ?w)"
    | "f len timer (sent + fst ?w) (snd ?w) = Some r"
    by (metis option.inject)
  then show "case r of (x, c') \<Rightarrow> keeps c c'"
  proof cases
    case 4
    obtain y e where r: "r = (y, e)" by (cases r)
    from IH [OF 4] have "keeps (snd ?w) e" by (simp only: r prod.case)
    with k have "keeps c e" by (rule keeps_trans)
    then show ?thesis by (simp only: r prod.case)
  qed (use k k1 in simp_all)
qed

lemma kept_sendPacket: "kept c (sendPacket_C len timer c)"
  unfolding sendPacket_C_def
proof (rule kept_bind)
  show "kept c (sendPacket_C_loop len timer 0 c)" using sendPacket_loop_keeps by (simp add: kept_def)
  fix x d
  show "kept d (Some (if x = len then (MQTT_SUCCESS,
      case TimerCountdown (c_keepAliveInterval d) d of (e, c) \<Rightarrow> c\<lparr>c_ping_timer := e\<rparr>) else (MQTT_FAILURE, d)))"
    by (simp add: kept_def keeps_def TimerCountdown_def gettimeofday_def)
qed

lemma keeps_deliver_loop: "keeps c (snd (deliver_loop_C m hs rc c))"
proof (induction hs arbitrary: rc c)
  case (Cons h hs)
  let ?a = "c_access (handler_matches_C c (po_topicName m) h) False c"
  have a: "keeps c (snd ?a)" by (rule keeps_changes)
  have "keeps (snd ?a) (snd ?a\<lparr>c_delivered := d\<rparr>)" for d by (simp add: keeps_def)
  then have "keeps c (snd (deliver_loop_C m hs rc' (snd ?a\<lparr>c_delivered := d\<rparr>)))" for d rc'
    using a Cons.IH keeps_trans by blast
  moreover have "keeps c (snd (deliver_loop_C m hs rc' (snd ?a)))" for rc'
    using a Cons.IH keeps_trans by blast
  ultimately show ?case by (simp add: split_beta split: option.split)
qed simp

lemma keeps_deliver: "keeps c (snd (deliverMessage_C m c))"
  using keeps_deliver_loop [of c m "c_messageHandlers c" MQTT_FAILURE]
  by (simp add: deliverMessage_C_def split_beta keeps_def split: option.split)

lemma kept_keepalive: "kept c (keepalive_C c)"
  unfolding keepalive_C_def
  by (intro kept_if kept_split kept_bind kept_return keeps_refl keeps_timers keeps_changes kept_sendPacket)
    (simp add: keeps_def)

lemma kept_send_ack: "kept c (send_ack_C t i timer c)"
  unfolding send_ack_C_def
  by (intro kept_if kept_split kept_return keeps_refl keeps_changes kept_sendPacket)

lemma kept_acknowledge: "kept c (acknowledge_C m timer c)"
  by (simp add: acknowledge_C_def Let_def kept_send_ack kept_return)

lemma kept_release: "kept c (release_C timer c)"
  unfolding release_C_def
  by (intro kept_split keeps_changes) (auto intro!: kept_return kept_send_ack)

lemma kept_cycle: "kept c (cycle_C timer c)"
proof -
  have ack: "kept c (acknowledge_C m timer (snd (deliverMessage_C m c)))" for m c
    by (rule kept_after [OF keeps_deliver kept_acknowledge])
  have alive: "kept c (keepalive_C (c\<lparr>c_ping_outstanding := p\<rparr>))" for p c
    by (rule kept_after [OF _ kept_keepalive]) (simp add: keeps_def)
  show ?thesis
    unfolding cycle_C_def Let_def
    by (rule kept_bind kept_readPacket ack kept_release kept_if kept_return keeps_refl)+
      (auto intro!: kept_split keeps_changes kept_return kept_bind ack kept_keepalive kept_release alive)
qed

lemma kept_waitfor: "kept c (waitfor_C p timer c)"
proof -
  have "keeps c d" if "waitfor_C_loop rc p timer c = Some (x, d)" for rc p timer c x d
  proof (rule waitfor_C_loop.raw_induct [where P = "\<lambda>rc p timer c (x, d). keeps c d",
        OF _ that, simplified prod.case])
    fix f rc p timer c and r :: "int \<times> c_client"
    assume IH: "\<And>rc p timer c r. f rc p timer c = Some r \<Longrightarrow> (case r of (x, d) \<Rightarrow> keeps c d)"
      and eq: "(case TimerIsExpired timer c of (expired, c) \<Rightarrow>
         if expired then Some (rc, c)
         else do {
           (rc, c) \<leftarrow> cycle_C timer c;
           if rc = p then Some (rc, c) else f rc p timer c
         }) = Some r"
    have "kept c (Some r)"
      unfolding eq [symmetric]
      by (intro kept_split kept_if kept_bind kept_cycle kept_return keeps_refl keeps_timers)
        (use IH in \<open>fastforce simp: kept_def\<close>)
    then show "case r of (x, d) \<Rightarrow> keeps c d" by (cases r) (simp add: kept_def)
  qed
  then show ?thesis by (simp add: kept_def waitfor_C_def)
qed

lemma kept_yield: "kept c (MQTTYield ms c)"
proof -
  have "keeps c d" if "yield_loop_C timer c = Some (x, d)" for timer c x d
  proof (rule yield_loop_C.raw_induct [where P = "\<lambda>timer c (x, d). keeps c d",
        OF _ that, simplified prod.case])
    fix f timer c and r :: "int \<times> c_client"
    assume IH: "\<And>timer c r. f timer c = Some r \<Longrightarrow> (case r of (x, d) \<Rightarrow> keeps c d)"
      and eq: "do {
         (rc, c) \<leftarrow> cycle_C timer c;
         if rc = MQTT_FAILURE then Some (MQTT_FAILURE, c)
         else (case TimerIsExpired timer c of (expired, c) \<Rightarrow>
           if expired then Some (MQTT_SUCCESS, c) else f timer c)
       } = Some r"
    have "kept c (Some r)"
      unfolding eq [symmetric]
      by (intro kept_split kept_if kept_bind kept_cycle kept_return keeps_refl keeps_timers)
        (use IH in \<open>fastforce simp: kept_def\<close>)
    then show "case r of (x, d) \<Rightarrow> keeps c d" by (cases r) (simp add: kept_def)
  qed
  then show ?thesis
    unfolding MQTTYield_def by (intro kept_split keeps_timers) (simp add: kept_def)
qed

subsection \<open>A slot is never freed\<close>

datatype c_call =
  C_connect "connect_data option"
| C_subscribe nat int "nat option"
| C_unsubscribe nat
| C_publish bytes outgoing u16
| C_yield int
| C_disconnect

definition call_C :: "c_call \<Rightarrow> c_client \<Rightarrow> (int \<times> c_client) option" where
  "call_C k c = (case k of
     C_connect options \<Rightarrow> MQTTConnect options c
   | C_subscribe a qos f \<Rightarrow> MQTTSubscribe a qos f c
   | C_unsubscribe a \<Rightarrow> MQTTUnsubscribe a c
   | C_publish t m i \<Rightarrow> map_option (\<lambda>(rc, _, d). (rc, d)) (MQTTPublish t m i c)
   | C_yield ms \<Rightarrow> MQTTYield ms c
   | C_disconnect \<Rightarrow> MQTTDisconnect c)"

inductive c_run :: "c_client \<Rightarrow> c_call list \<Rightarrow> c_client \<Rightarrow> bool" where
  finished: "c_run c [] c"
| called: "call_C k c = Some (rc, d) \<Longrightarrow> c_run d ks e \<Longrightarrow> c_run c (k # ks) e"

inductive_cases c_runE: "c_run c (k # ks) e"

text \<open>A slot that is taken keeps its filter and its callback.\<close>

definition slots_stay :: "c_handler list \<Rightarrow> c_handler list \<Rightarrow> bool" where
  "slots_stay hs hs' \<longleftrightarrow> length hs' = length hs \<and>
     (\<forall>i < length hs. c_topicFilter (hs ! i) \<noteq> None \<longrightarrow> hs' ! i = hs ! i)"

abbreviation slots_grow :: "c_client \<Rightarrow> c_client \<Rightarrow> bool" where
  "slots_grow c d \<equiv> slots_stay (c_messageHandlers c) (c_messageHandlers d)"

lemma slots_stay_refl [simp]: "slots_stay hs hs" by (simp add: slots_stay_def)

lemma slots_same: "c_messageHandlers d = c_messageHandlers c \<Longrightarrow> slots_grow c d" by simp

lemma slots_keep: "keeps c d \<Longrightarrow> slots_grow c d" by (simp add: keeps_def)

lemma slots_trans: "slots_stay c d \<Longrightarrow> slots_stay d e \<Longrightarrow> slots_stay c e"
  by (simp add: slots_stay_def)

lemma slots_stay_Cons [simp]: "slots_stay (h # hs) (h' # hs') \<longleftrightarrow> (c_topicFilter h \<noteq> None \<longrightarrow> h' = h) \<and> slots_stay hs hs'"
  by (auto simp: slots_stay_def nth_Cons less_Suc_eq_0_disj split: nat.split)

lemma add_handler_grows: "add_handler_C a f hs = Some hs' \<Longrightarrow> slots_stay hs hs'"
  by (induction hs arbitrary: hs') (auto split: if_splits)

lemma access_handlers [simp]: "c_messageHandlers (snd (c_access r v c)) = c_messageHandlers c"
  by (simp add: c_access_def split: option.split)

definition grown :: "c_client \<Rightarrow> (int \<times> c_client) option \<Rightarrow> bool" where
  "grown c r \<longleftrightarrow> (\<forall>x d. r = Some (x, d) \<longrightarrow> slots_grow c d)"

lemma kept_grown: "kept c r \<Longrightarrow> grown c r" by (auto simp: kept_def grown_def slots_keep)

lemma grown_after: "slots_grow c d \<Longrightarrow> grown d r \<Longrightarrow> grown c r"
  by (auto simp: grown_def intro: slots_trans)

lemma grown_split: "slots_grow c (snd p) \<Longrightarrow> (\<And>x d. grown d (f x d)) \<Longrightarrow> grown c (case p of (x, d) \<Rightarrow> f x d)"
  by (cases p) (auto intro: grown_after)

lemma grown_bind: "grown c r \<Longrightarrow> (\<And>x d. grown d (f x d)) \<Longrightarrow> grown c (r \<bind> (\<lambda>(x, d). f x d))"
  by (fastforce simp: grown_def bind_eq_Some_conv intro: slots_trans)

lemma grown_if: "(b \<Longrightarrow> grown c r) \<Longrightarrow> (\<not> b \<Longrightarrow> grown c q) \<Longrightarrow> grown c (if b then r else q)"
  by simp

lemma grown_return: "slots_grow c d \<Longrightarrow> grown c (Some (x, d))" by (simp add: grown_def)

lemma grown_result: "slots_grow c (snd p) \<Longrightarrow> grown c (Some p)" by (cases p) (simp add: grown_def)

lemmas slots_timers = keeps_timers [THEN slots_keep]
lemmas slots_changes = keeps_changes [THEN slots_keep]
lemmas slots_refl = keeps_refl [THEN slots_keep]

lemma grown_request:
  "(\<And>rc b d. slots_grow d (snd (f rc b d))) \<Longrightarrow> grown c (request_C packet timer answer f c)"
  unfolding request_C_def
  by (intro grown_split grown_if grown_bind grown_return grown_result slots_changes slots_refl
      kept_sendPacket [THEN kept_grown] kept_waitfor [THEN kept_grown])

lemma slots_accept:
  "slots_grow c (snd (accept_connack_C rc b c))" "slots_grow c (snd (accept_unsuback_C rc b c))"
  "slots_grow c (snd (accept_ack_C rc b c))"
  by (simp_all add: accept_connack_C_def accept_unsuback_C_def accept_ack_C_def split_beta)

lemma slots_accept_suback: "slots_grow c (snd (accept_suback_C a f rc b c))"
  by (auto simp: accept_suback_C_def split_beta Let_def dest: add_handler_grows split: option.split)

lemma slots_id: "slots_grow c (snd (getNextPacketId c))"
  by (simp add: getNextPacketId_def Let_def slots_same)

lemmas grown_intros = grown_if grown_return slots_refl grown_split grown_request slots_timers slots_changes
  slots_accept slots_accept_suback slots_id kept_sendPacket [THEN kept_grown]

lemma grown_connect: "grown c (MQTTConnect options c)"
proof -
  have final: "slots_grow c (if b then c\<lparr>c_isconnected := True\<rparr> else c)" for b c by (simp add: slots_same)
  have request: "grown c (do {
      (rc, c) \<leftarrow> request_C packet timer CONNACK accept_connack_C c;
      Some (rc, if rc = MQTT_SUCCESS then c\<lparr>c_isconnected := True\<rparr> else c)
    })" for packet timer c
    by (intro grown_bind grown_request slots_accept grown_return final)
  have "grown c (case TimerCountdown (c_keepAliveInterval c) c of (e, c) \<Rightarrow>
      case c_access (MQTTSerialize_connect (c_buf_size c) options) (0, []) (c\<lparr>c_ping_timer := e\<rparr>) of
        (packet, c) \<Rightarrow> do {
          (rc, c) \<leftarrow> request_C packet timer CONNACK accept_connack_C c;
          Some (rc, if rc = MQTT_SUCCESS then c\<lparr>c_isconnected := True\<rparr> else c)
        })" for c timer options
    by (intro grown_split slots_timers grown_after [OF _ request]) simp_all
  note rest = this
  show ?thesis
    unfolding MQTTConnect_def Let_def
    by (rule grown_if, rule grown_return, rule slots_stay_refl, rule grown_split, rule slots_timers,
        rule grown_after [OF slots_same rest]) simp
qed

lemma grown_subscribe: "grown c (MQTTSubscribe a qos f c)"
  unfolding MQTTSubscribe_def by (intro grown_intros)

lemma grown_unsubscribe: "grown c (MQTTUnsubscribe a c)"
  unfolding MQTTUnsubscribe_def by (intro grown_intros)

lemma grown_disconnect: "grown c (MQTTDisconnect c)"
  unfolding MQTTDisconnect_def by (intro grown_intros grown_bind) (simp add: slots_same)

lemma grown_publish: "grown c (map_option (\<lambda>(rc, _, d). (rc, d)) (MQTTPublish t m i c))"
proof -
  have via: "grown c (map_option (\<lambda>(rc, _, d). (rc, d)) (do { (rc, d) \<leftarrow> r; Some (rc, p, d) }))"
    if "grown c r" for c r and p :: u16
    using that by (auto simp: grown_def bind_eq_Some_conv)
  have split: "grown c (map_option g (case q of (x, d) \<Rightarrow> f x d))"
    if "slots_grow c (snd q)" "\<And>x d. grown d (map_option g (f x d))"
    for c g f and q :: "'q \<times> c_client"
    using that by (cases q) (auto intro: grown_after)
  have early: "grown c (map_option (\<lambda>(rc, _, d). (rc, d)) (Some (MQTT_FAILURE, i, c)))" by (simp add: grown_def)
  have id: "slots_grow c (snd (if b then getNextPacketId c else (i, c)))" for b c by (simp add: slots_id)
  have body: "grown c (if msg_qos m = 1 then request_C packet timer PUBACK accept_ack_C c
      else if msg_qos m = 2 then request_C packet timer PUBCOMP accept_ack_C c
      else (case c_fill packet c of (len, c) \<Rightarrow>
        if len \<le> 0 then Some (MQTT_FAILURE, c) else sendPacket_C len timer c))" for packet timer c
    by (intro grown_intros)
  have choice: "grown c (map_option (\<lambda>(rc, _, d). (rc, d)) (if b then Some (MQTT_FAILURE, i, c) else r))"
    if "grown c (map_option (\<lambda>(rc, _, d). (rc, d)) r)" for b r c
    using that early by (simp add: grown_def)
  show ?thesis
    unfolding MQTTPublish_def by (intro choice split slots_timers id slots_changes via body)
qed

lemma grown_call: "grown c (call_C k c)"
  by (cases k) (simp_all add: call_C_def grown_connect grown_subscribe grown_unsubscribe grown_publish
      grown_disconnect kept_grown [OF kept_yield])

text \<open>
  A slot that is taken is never freed again, and keeps its filter and its callback through any calls,
  \<open>MQTTUnsubscribe\<close>, \<open>MQTTDisconnect\<close> and a new \<open>MQTTConnect\<close> included.  So once all slots are taken no
  subscription gets its callback any more.
\<close>

theorem slots_never_freed:
  assumes "c_run c ks d"
  shows "slots_stay (c_messageHandlers c) (c_messageHandlers d) \<and>
    ((\<forall>h \<in> set (c_messageHandlers c). c_topicFilter h \<noteq> None) \<longrightarrow> c_messageHandlers d = c_messageHandlers c)"
proof -
  have "slots_grow c d"
    using assms
  proof (induction rule: c_run.induct)
    case (called k c rc d ks e)
    then have "slots_grow c d" using grown_call [of c k] by (auto simp: grown_def)
    then show ?case using called.IH by (rule slots_trans)
  qed simp
  moreover from this have "c_messageHandlers d = c_messageHandlers c"
    if "\<forall>h \<in> set (c_messageHandlers c). c_topicFilter h \<noteq> None"
    using that by (intro nth_equalityI) (auto simp: slots_stay_def)
  ultimately show ?thesis by blast
qed

section \<open>Failures that are not seen\<close>

text \<open>Every \<open>recv\<close> fails.\<close>

definition unreadable :: "c_client \<Rightarrow> bool" where
  "unreadable c \<longleftrightarrow> (\<forall>n k. \<exists>e. recv_result c n k = RecvError e \<and> e \<noteq> ENOTCONN \<and> e \<noteq> ECONNRESET)"

lemma unreadable_keeps: "keeps c d \<Longrightarrow> unreadable c \<Longrightarrow> unreadable d"
  by (simp add: unreadable_def keeps_def)

lemma unreadable_packet:
  assumes "unreadable c"
  shows "\<exists>d. readPacket_C timer c = Some (MQTT_FAILURE, d)"
proof -
  obtain e where e: "recv_result c (recvs c) 1 = RecvError e" "e \<noteq> ENOTCONN" "e \<noteq> ECONNRESET"
    using assms by (auto simp: unreadable_def)
  then have "linux_read 1 (snd (TimerLeftMS timer c)) = Some (-1, [], snd (TimerLeftMS timer c)\<lparr>recvs := recvs c + 1\<rparr>)"
    by (simp add: linux_read_def linux_read_loop.simps [of "Suc 0" "[]"] sys_recv_def TimerLeftMS_def
        gettimeofday_def Let_def)
  then show ?thesis by (simp add: readPacket_C_def c_read_into_def)
qed

lemma unreadable_cycle: "unreadable c \<Longrightarrow> cycle_C timer c = Some (rc, d) \<Longrightarrow> rc = 65535"
  using unreadable_packet [of c timer]
  by (auto simp: cycle_C_def MQTT_FAILURE_def packet_types bind_eq_Some_conv split: if_splits)

text \<open>
  On a socket that cannot be read any more \<open>MQTTYield\<close> reports success: the failure of \<open>readPacket\<close>
  is put into an \<open>unsigned short\<close>, and 65535 is no failure.
\<close>

theorem yield_ignores_failures:
  assumes "unreadable c" "MQTTYield ms c = Some (rc, d)"
  shows "rc = MQTT_SUCCESS"
proof -
  have "unreadable c \<longrightarrow> x = MQTT_SUCCESS" if "yield_loop_C timer c = Some (x, d)" for timer c x d
  proof (rule yield_loop_C.raw_induct [where P = "\<lambda>timer c (x, d). unreadable c \<longrightarrow> x = MQTT_SUCCESS",
        OF _ that, simplified prod.case])
    fix f timer c and r :: "int \<times> c_client"
    assume IH: "\<And>timer c r. f timer c = Some r \<Longrightarrow> (case r of (x, d) \<Rightarrow> unreadable c \<longrightarrow> x = MQTT_SUCCESS)"
      and eq: "do {
         (rc, c) \<leftarrow> cycle_C timer c;
         if rc = MQTT_FAILURE then Some (MQTT_FAILURE, c)
         else (case TimerIsExpired timer c of (expired, c) \<Rightarrow>
           if expired then Some (MQTT_SUCCESS, c) else f timer c)
       } = Some r"
    have "fst r = MQTT_SUCCESS" if c: "unreadable c"
    proof -
      obtain e where e: "cycle_C timer c = Some (65535, e)"
        using eq unreadable_cycle [OF c] by (cases "cycle_C timer c") auto
      then have "keeps c (snd (TimerIsExpired timer e))"
        using kept_cycle [of c timer] keeps_timers(1) keeps_trans unfolding kept_def by blast
      then have "unreadable (snd (TimerIsExpired timer e))" using c by (rule unreadable_keeps)
      then show ?thesis
        using eq e IH [of timer "snd (TimerIsExpired timer e)" r]
        by (auto simp: MQTT_FAILURE_def split_beta split: if_splits)
    qed
    then show "case r of (x, d) \<Rightarrow> unreadable c \<longrightarrow> x = MQTT_SUCCESS" by (cases r) simp
  qed
  moreover have "unreadable (snd (TimerCountdownMS ms c))"
    using keeps_timers(3) assms(1) by (rule unreadable_keeps)
  ultimately show ?thesis using assms(2) by (simp add: MQTTYield_def split_beta)
qed

section \<open>Packets longer than the read buffer\<close>

lemma linux_read_loop_supplied:
  "supplies (recv_result c) (recvs c) m \<Longrightarrow> length got \<le> len \<Longrightarrow> len \<le> length got + length m \<Longrightarrow>
    linux_read_loop len got c = read_loop len got c"
proof (induction "len - length got" arbitrary: got m c rule: less_induct)
  case less
  show ?case
  proof (cases "length got < len")
    case True
    then have m: "m \<noteq> []" using less.prems(3) by auto
    obtain j where j: "0 < j" "j \<le> len - length got" "j \<le> length m"
      "recv_result c (recvs c) (len - length got) = Received (take j m)"
      "supplies (recv_result c) (recvs c + 1) (drop j m)"
      using supplies_piece [OF less.prems(1) m, of "len - length got"] True by auto
    have "linux_read_loop len (got @ take j m) (c\<lparr>recvs := recvs c + 1\<rparr>) =
        read_loop len (got @ take j m) (c\<lparr>recvs := recvs c + 1\<rparr>)"
      using j less.prems True by (intro less.hyps [of _ _ "drop j m"]) simp_all
    then show ?thesis
      using True j(4) by (simp add: linux_read_loop.simps [of len got] read_loop.simps [of len got] sys_recv_def)
  qed (simp add: linux_read_loop.simps [of len got] read_loop.simps [of len got])
qed

lemma linux_read_supplied:
  assumes "supplies (recv_result c) (recvs c) (d @ m)" "n = int (length d)"
  obtains k where "linux_read n c = Some (n, d, c\<lparr>recvs := k\<rparr>)" "supplies (recv_result c) k m"
  using linux_read_loop_supplied [OF assms(1), of "[]" "length d"] assms(2)
  by (rule_tac ip_read_supplied [OF assms]) (simp add: linux_read_def ip_read_def)

lemma decodePacket_C_simulates:
  assumes "p \<noteq> []" "last p AND 128 = 0" "list_all (\<lambda>b. b AND 128 \<noteq> 0) (butlast p)"
    and "len + length p \<le> 4" "supplies (recv_result c) (recvs c) (p @ m)"
  shows "\<exists>k. decodePacket_C_loop len mult v c =
      Some (fst (snd (decode_loop list_getfn len mult v (p @ m))), c\<lparr>recvs := k\<rparr>) \<and>
    supplies (recv_result c) k m"
  using assms
proof (induction p arbitrary: len mult v c)
  case (Cons b p)
  obtain k where k: "linux_read 1 c = Some (1, [b], c\<lparr>recvs := k\<rparr>)" "supplies (recv_result c) k (p @ m)"
    using Cons.prems(5) linux_read_supplied [of c "[b]" "p @ m" 1] by auto
  define v1 where "v1 = v + uint (b AND 127) * mult"
  have small: "\<not> len + 1 > MAX_NO_OF_REMAINING_LENGTH_BYTES"
    using Cons.prems(4) by (simp add: MAX_NO_OF_REMAINING_LENGTH_BYTES_def)
  have list: "decode_loop list_getfn len mult v (b # p @ m) =
      (if b AND 128 \<noteq> 0 then decode_loop list_getfn (len + 1) (mult * 128) v1 (p @ m)
       else (len + 1, v1, p @ m))"
    using small by (subst decode_loop.simps) (simp add: list_getfn_def v1_def Let_def)
  have socket: "decodePacket_C_loop len mult v c =
      (if b AND 128 \<noteq> 0 then decodePacket_C_loop (len + 1) (mult * 128) v1 (c\<lparr>recvs := k\<rparr>)
       else Some (v1, c\<lparr>recvs := k\<rparr>))"
    using small k(1) by (subst decodePacket_C_loop.simps) (simp add: v1_def Let_def)
  show ?case
  proof (cases "p = []")
    case True
    then show ?thesis using Cons.prems(2) list socket k(2) by auto
  next
    case False
    then have "\<exists>j. decodePacket_C_loop (len + 1) (mult * 128) v1 (c\<lparr>recvs := k\<rparr>) =
        Some (fst (snd (decode_loop list_getfn (len + 1) (mult * 128) v1 (p @ m))), c\<lparr>recvs := k, recvs := j\<rparr>) \<and>
        supplies (recv_result (c\<lparr>recvs := k\<rparr>)) j m"
      using Cons.prems k(2) by (intro Cons.IH) simp_all
    then show ?thesis using list socket False Cons.prems(3) by auto
  qed
qed simp

lemma decodePacket_C_supplied:
  assumes "0 \<le> n" "n < 268435456" "supplies (recv_result c) (recvs c) (MQTTPacket_encode n @ m)"
  obtains k where "decodePacket_C c = Some (n, c\<lparr>recvs := k\<rparr>)" "supplies (recv_result c) k m"
proof -
  have "decode_loop list_getfn 0 1 0 (MQTTPacket_encode n @ m) = (length (MQTTPacket_encode n), n, m)"
    using listed.decode_encode [OF assms(1,2), of m] by (simp add: MQTTPacket_decode_def)
  then show ?thesis
    using decodePacket_C_simulates [of "MQTTPacket_encode n" 0 c m 1 0] encode_last [OF assms(1)]
      length_encode_le [OF assms(1,2)] assms(3) that
    by (auto simp: decodePacket_C_def)
qed

lemma c_store_facts:
  "c_faulted (c_store off d c) \<longleftrightarrow> c_faulted c \<or> d \<noteq> [] \<and> length (c_readbuf c) < off + length d"
  "length (c_readbuf (c_store off d c)) = length (c_readbuf c)"
  "recv_result (c_store off d c) = recv_result c" "recvs (c_store off d c) = recvs c"
  by (auto simp: c_store_def overwrite_def)

lemma c_store_head: "c_readbuf c \<noteq> [] \<Longrightarrow> hd (c_readbuf (c_store (Suc n) d c)) = hd (c_readbuf c)"
  by (cases "c_readbuf c") (simp_all add: c_store_def overwrite_def)

lemma c_timer_left:
  "c_faulted (snd (TimerLeftMS t c)) = c_faulted c" "c_readbuf (snd (TimerLeftMS t c)) = c_readbuf c"
  "recv_result (snd (TimerLeftMS t c)) = recv_result c" "recvs (snd (TimerLeftMS t c)) = recvs c"
  by (simp_all add: TimerLeftMS_def gettimeofday_def Let_def)

text \<open>
  \<open>readPacket\<close> takes every packet that arrives, whatever its length, and writes it to the read buffer: it
  stays inside the buffer exactly if the packet fits, and reports the type of the packet either way.
\<close>

theorem packet_overruns_buffer:
  assumes "supplies (recv_result c) (recvs c) (packet_bytes h body @ m)" "length body < 268435456"
    and "c_readbuf c \<noteq> []"
  shows "\<exists>d. readPacket_C timer c = Some (uint (header_type h), d) \<and>
    (c_faulted d \<longleftrightarrow> c_faulted c \<or> length (c_readbuf c) < length (packet_bytes h body))"
proof -
  let ?n = "int (length body)" and ?e = "MQTTPacket_encode (int (length body))"
  let ?left = "\<lambda>c. snd (TimerLeftMS timer c) :: c_client"
  have n: "0 \<le> ?n" "?n < 268435456" using assms(2) by simp_all
  note facts = c_store_facts c_timer_left
  have e: "?e \<noteq> []" using encode_last [OF n(1)] by simp
  have size: "Suc 0 \<le> length (c_readbuf c)" using assms(3) by (simp add: Suc_le_eq)
  obtain k1 where r1: "linux_read 1 (?left c) = Some (1, [h], ?left c\<lparr>recvs := k1\<rparr>)"
      and s1: "supplies (recv_result c) k1 (?e @ body @ m)"
    using linux_read_supplied [of "?left c" "[h]" "?e @ body @ m" 1] assms(1) by (auto simp: facts)
  define c1 where "c1 = ?left (c_store 0 [h] (?left c\<lparr>recvs := k1\<rparr>))"
  have c1: "c_faulted c1 = c_faulted c" "length (c_readbuf c1) = length (c_readbuf c)" "hd (c_readbuf c1) = h"
    using assms(3) size by (simp_all add: c1_def facts) (simp add: c_store_def overwrite_def facts Suc_le_eq)
  have "supplies (recv_result c1) (recvs c1) (?e @ body @ m)" using s1 by (simp add: c1_def facts)
  then obtain k2 where r2: "decodePacket_C c1 = Some (?n, c1\<lparr>recvs := k2\<rparr>)"
      and s2: "supplies (recv_result c1) k2 (body @ m)"
    by (rule decodePacket_C_supplied [OF n])
  define c2 where "c2 = c_store 1 ?e (c1\<lparr>recvs := k2\<rparr>)"
  have c2: "c_faulted c2 \<longleftrightarrow> c_faulted c \<or> length (c_readbuf c) < 1 + length ?e"
      "length (c_readbuf c2) = length (c_readbuf c)" "hd (c_readbuf c2) = h"
    using c1 e size assms(3) length_0_conv [of "c_readbuf c1"] c_store_head [of "c1\<lparr>recvs := k2\<rparr>" 0 ?e] by (auto simp: c2_def facts)
  have rest: "\<exists>d. (if ?n > 0 then c_read_into (1 + length ?e) ?n (?left c2) else Some (?n, c2)) = Some (?n, d) \<and>
      hd (c_readbuf d) = h \<and> (c_faulted d \<longleftrightarrow> c_faulted c \<or> length (c_readbuf c) < 1 + length ?e + length body)"
  proof (cases "body = []")
    case True
    then show ?thesis using c2 by simp
  next
    case False
    obtain k3 where r3: "linux_read ?n (?left c2) = Some (?n, body, ?left c2\<lparr>recvs := k3\<rparr>)"
      using linux_read_supplied [of "?left c2" body m ?n] s2 by (auto simp: c2_def facts)
    then show ?thesis
      using False c2 size assms(3) length_0_conv [of "c_readbuf c2"] c_store_head [of "?left c2\<lparr>recvs := k3\<rparr>" "length ?e" body]
      by (auto simp: c_read_into_def facts)
  qed
  from rest obtain d where d: "(if ?n > 0 then c_read_into (1 + length ?e) ?n (?left c2) else Some (?n, c2)) = Some (?n, d)"
      "hd (c_readbuf d) = h" "c_faulted d \<longleftrightarrow> c_faulted c \<or> length (c_readbuf c) < 1 + length ?e + length body"
    by blast
  have read1: "c_read_into 0 1 (?left c) = Some (1, c_store 0 [h] (?left c\<lparr>recvs := k1\<rparr>))"
    using r1 by (simp add: c_read_into_def)
  have "readPacket_C timer c = Some (uint (header_type h), d)"
    unfolding readPacket_C_def read1 bind.simps prod.case c1_def [symmetric] r2 Let_def c2_def [symmetric] d(1)
      simp_thms if_False if_True d(2) ..
  then show ?thesis using d(3) by auto
qed

end
