(* ===== verification/Spec2Isabelle.thy ===== *)
theory Spec2Isabelle
  imports Evolution MqttPublish MqttConnect MqttSubscribe SubscriptionRemoval ConnectClaims
    PublishMessages Subscribing Acknowledging CoreResults Refusals Wills Delivery Returns
    BrokerMessages Layouts BrokerAnswers MqttFormat DeviceStructs AnonymousClients ClientCLimits
begin

text \<open>
  Verification library for the MQTT-SN gateway of this repository, the program built from
  \<open>src/main.cpp\<close> and \<open>src/Gateway.h\<close> with \<open>CoreImpl.cpp\<close>, \<open>MqttSnMessageHandler.cpp\<close> and the Linux
  implementations under \<open>Implementation/\<close>, for the MQTT client library \<open>MQTTClient.h\<close> it talks to its
  broker with, and for the packet library \<open>MQTTPacket\<close> below that.  (All paths are below \<open>src/\<close>.)

  The program.  Devices send MQTT-SN datagrams over UDP.  \<open>UdpSocketImpl\<close> hands each of them to
  \<open>MqttSnMessageHandler::receiveData\<close>, whose \<open>parse_*\<close> and \<open>handle_*\<close> functions call \<open>CoreImpl\<close>.  The
  core keeps everything it knows - clients, their topics, subscriptions, wills and stored publishes,
  the number of subscribers of each topic - in files of fixed-size structs on an SD card, through
  \<open>SDPersistentImpl\<close>, inside transactions on one client, and calls the MQTT client library through
  \<open>PahoMqttMessageHandler\<close>.  Messages of the broker come back through the callback
  \<open>messageArrived\<close> and are stored for the clients; the main loop \<open>CoreImpl::loop\<close> delivers what is
  stored, counts timeouts and shuts down when a side is lost.

  State.  \<open>sd_card\<close> (files by path), extended to \<open>persistent\<close> (the members of the persistence
  class) and to \<open>gateway\<close> (socket, clock, the datagrams sent, the calls of the client library).
  Operations are computations of \<open>State_Monad\<close> over these records, one per function of the source;
  a lower layer works on any extension of its record.  The outside world is in the state: the
  return codes of the client library (\<open>client_rc\<close>, a function of all calls so far), the values of
  \<open>millis\<close> (\<open>clock\<close>), the own address, and what a C++ function gives that ends without a
  \<open>return\<close> (\<open>indet_bool\<close>, \<open>indet_result\<close>).  A null pointer passed to \<open>strlen\<close> sets \<open>crashed\<close>, the
  exception of \<open>System::exit\<close> sets \<open>exited\<close>, and a loop that used up its fuel sets \<open>diverged\<close>.

  The client library has a state of its own, \<open>client\<close>: its socket and timers (\<open>stack\<close>), with what
  \<open>recv\<close>, \<open>write\<close> and \<open>gettimeofday\<close> give at each call as functions in the state, and the members of
  \<open>MQTT::Client\<close>.  Its operations give a return code and the state after it, or \<open>None\<close> when a loop
  does not end; an access outside an object or through a null pointer sets \<open>faulted\<close>.  The gateway
  model alone takes any return codes (\<open>client_rc\<close>) and any messages of the broker; in \<open>Program\<close> the two
  run together: \<open>client_rc\<close> is what the calls of \<open>client\<close> return, and the messages are the callbacks
  they make.  A call of the library always returns to the gateway; \<open>client_calls_return\<close> says when it
  does, \<open>closed_connection_endless\<close> when it does not.

  Model, in the order of the layers:
    \<^item> \<open>Prelude\<close>: bytes, C strings, little-endian integers, \<open>atoi\<close>, \<open>sprintf\<close>, the run lemmas of the monad
    \<^item> \<open>SDLinuxFake\<close>: the card (\<open>SDLinuxFake.h\<close>, \<open>SDLinuxFake.cpp\<close>)
    \<^item> \<open>CoreDefines\<close>: result codes, client states, message types (\<open>core_defines.h\<close>, \<open>mqttsn_messages.h\<close>)
    \<^item> \<open>RecordFile\<close>: the scanning loop all tables share, and the locale \<open>record_codec\<close> of a struct layout
    \<^item> \<open>TableEntries\<close>, \<open>Layouts\<close>: the structs of \<open>SD_table_entries.h\<close>, six interpretations of it
    \<^item> \<open>PersistClients\<close>, \<open>PersistTopics\<close>, \<open>PersistSubscriptions\<close>, \<open>PersistPublishes\<close>, \<open>PersistWill\<close>,
      \<open>PersistConfig\<close>: \<open>SDPersistentImpl.h\<close>
    \<^item> \<open>Gateway\<close>: socket, client adapter, clock (\<open>UdpSocketImpl.cpp\<close>, \<open>PahoMqttMessageHandler.cpp\<close>,
      \<open>ArduinoSystem.cpp\<close>)
    \<^item> \<open>SnMessages\<close>, \<open>SnHandler\<close>: \<open>mqttsn_messages.h\<close>, \<open>MqttSnMessageHandler.cpp\<close>
    \<^item> \<open>DeviceStructs\<close>: the constructors of \<open>mqttsn_messages.h\<close> for what only a device sends
    \<^item> \<open>Core\<close>, \<open>CoreLoop\<close>: \<open>CoreImpl.cpp\<close>
    \<^item> \<open>GatewaySteps\<close>: \<open>Gateway.h\<close>, the events of the gateway and its step relation
    \<^item> \<open>MqttPacket\<close>, \<open>MqttPublish\<close>, \<open>MqttConnect\<close>, \<open>MqttSubscribe\<close>: the packet library
    \<^item> \<open>MqttFormat\<close>: packets as text (\<open>MQTTFormat.c\<close>), which the client library prints when compiled for
      debugging
    \<^item> \<open>ClientStack\<close>: the socket and the timer of the client library and its callbacks
      (\<open>MQTTClient/src/linux/linux.cpp\<close>, \<open>FP.h\<close>)
    \<^item> \<open>MqttClient\<close>: \<open>MQTTClient/src/MQTTClient.h\<close> at the instance \<open>Client<IPStack, Countdown, 512, 5>\<close>
      of the gateway, compiled with QoS 1 and without QoS 2
    \<^item> \<open>MqttClientC\<close>: the same library in C (\<open>MQTTClient-C/src/MQTTClient.c\<close>, \<open>linux/MQTTLinux.c\<close>), which the
      repository carries and the gateway does not use

  Theorems:
    \<^item> \<open>Registry\<close>, \<open>Frames\<close>, \<open>Transactions\<close>, \<open>Safety\<close>, \<open>GatewaySteps\<close>: the invariant of the client registry and
      that every operation, handler and step keeps it (calculus \<open>leads\<close>, frame rule \<open>frame\<close>)
    \<^item> \<open>Evolution\<close>: the locales \<open>quiet_evolution\<close>, \<open>calm_evolution\<close> and \<open>evolution\<close> of relations that every step
      respects, interpreted for the history of messages, for staying online, for not looping, for
      what a message of the broker does not do and for what is asked of the client library
    \<^item> \<open>Returns\<close>: which events the gateway comes back from, and the loop it does not leave
    \<^item> \<open>Sessions\<close>, \<open>DeviceStates\<close>, \<open>Connecting\<close>, \<open>ConnectClaims\<close>, \<open>DeviceMessages\<close>: operations on the list of
      registry entries that CONNECT, DISCONNECT and PINGREQ refine
    \<^item> \<open>ClientTables\<close> (locale \<open>client_table\<close>, an extension of \<open>record_codec\<close>), \<open>TopicTables\<close>, \<open>Directory\<close>
      (locale \<open>directory\<close>), \<open>TopicMessages\<close>, \<open>PublishMessages\<close>: topics, REGISTER, PUBLISH
    \<^item> \<open>GlobalCounts\<close>, \<open>Counters\<close> (locale \<open>counters\<close>), \<open>SubscriptionTables\<close>, \<open>SubscriptionRemoval\<close>,
      \<open>SessionTables\<close>, \<open>Subscribing\<close>, \<open>Unsubscribing\<close>: subscriptions and their counts
    \<^item> \<open>PublishTables\<close>, \<open>PublishBag\<close> (locale \<open>bag\<close>), \<open>BrokerMessages\<close>, \<open>Delivery\<close>, \<open>Acknowledging\<close>: the way of a
      message from the broker into the store and to the device
    \<^item> \<open>DeviceStructs\<close>: what the gateway makes of messages built with the constructors of the repository;
      \<open>AnonymousClients\<close>: the client that a CONNECT with an empty id leaves, and who replaces it
    \<^item> \<open>Wills\<close>: keeping and publishing the will
    \<^item> \<open>CoreResults\<close>, \<open>Refusals\<close>: what is reported and refused
    \<^item> \<open>MqttPublish\<close>, \<open>MqttConnect\<close>, \<open>MqttSubscribe\<close>: round trips and bounds of the packets;
      \<open>MqttFormat\<close>: when printing a packet stays inside the array
    \<^item> \<open>ClientSteps\<close> (locale \<open>rounds\<close> of what a round may change), \<open>ClientCalls\<close> (its extension \<open>sessions\<close> to
      all calls), \<open>ClientRuns\<close>: what every call of the client library keeps, when it comes back and
      when it does not
    \<^item> \<open>TopicMatching\<close>: the filters, level by level; \<open>ClientReceiving\<close>: reading a packet in pieces and
      handing out a PUBLISH; \<open>ClientOutcomes\<close>: what SUBSCRIBE, a malformed PUBLISH and a failed publish
      come to
    \<^item> \<open>ClientCLimits\<close>: the library in C never frees a slot, does not report a lost connection, and writes
      a packet longer than its read buffer behind it
    \<^item> \<open>Program\<close>, \<open>BrokerAnswers\<close>: the gateway and its client library together - the invariant of both,
      the way of a message through the filters, the way of a SUBSCRIBE to the broker and back
    \<^item> \<open>Samples\<close>: the small gateway the witnesses run on

  Bounds and fuel.  Structs have the layout of the x86-64 ABI, the target of the build files, with
  its padding; \<open>int\<close> arithmetic on offsets and counters is done in \<open>int\<close>, everything else at its
  width in words.  A walk over the registry has the number of slots plus two as fuel, which is
  enough wherever the code returns (\<open>events_return\<close>), and \<open>single_client_offline_endless\<close> is about any
  fuel up to 84 million; the removal of subscriptions has 65536 rounds, the range of its counter
  (\<open>remove_subscriptions_completes\<close>, \<open>remove_subscriptions_endless\<close>).  The loops of the client library
  over sockets and timers have no bound and are \<open>partial_function\<close>s without fuel.  Claims about a slot number
  assume fewer than 65535 slots, as it is a \<open>uint16_t\<close>.  The steps of \<open>GatewaySteps\<close> and \<open>Program\<close> leave out
  a CONNECT with an empty client id, as it puts a live entry without an id into the registry
  (\<open>anonymous_client_replaced\<close>).  The arrays that a caller of the packet library passes have their
  length in the model, and a write beyond it gives no result.

  Not modelled.  The logger; \<open>recvfrom\<close>, \<open>sendto\<close>, \<open>connect\<close> and the other system calls (what they deliver
  is part of the events, or of the state of the client library); QoS 2 of \<open>MQTTClient.h\<close>, which is
  not compiled in; that a callback of the client library runs during one of its calls: in the
  gateway it is an event of its own after that call; the background thread of \<open>MQTTClient.c\<close>
  (\<open>MQTT_TASK\<close>); the platform layers of other boards; the Arduino shims, samples and tests.
\<close>

end
